(* ===== verification/Prelude.thy ===== *)
theory Prelude
  imports Main "HOL-Library.Product_Lexorder" "HOL-Library.List_Lexorder"
    "HOL-Library.Char_ord" "HOL-Library.Option_ord"
begin

text \<open>
  Shared vocabulary of the development: the names of the scalar types of the catalog, the
  saturating and wrapping integer conversions the Rust code uses, sequencing of fallible
  steps (the question mark of Rust), and selection of one row by an order (the
  ``order by ... limit 1'' of the queries).
\<close>

section \<open>Scalars\<close>

text \<open>
  A UUID is a number drawn from a counter: version 7 UUIDs are unique and ordered by creation.
  A time stamp counts microseconds since the epoch.
\<close>

type_synonym uuid = nat
type_synonym timestamp = int
type_synonym ('e, 'a) result = "'e + 'a"

named_theorems row_simps \<open>field laws of the row updates\<close>
named_theorems frame_simps \<open>tables an operation leaves alone\<close>

text \<open>JSON values as the code builds and stores them.\<close>

datatype json =
    JNull
  | JBool bool
  | JNum int
  | JStr string
  | JArr "json list"
  | JObj "(string \<times> json) list"

fun json_object :: "json \<Rightarrow> bool" where
  "json_object (JObj _) = True"
| "json_object _ = False"

definition i32_max :: int where "i32_max = 2147483647"
definition u32_max :: int where "u32_max = 4294967295"
definition i64_max :: int where "i64_max = 9223372036854775807"
definition i64_min :: int where "i64_min = -9223372036854775808"
definition u64_max :: int where "u64_max = 18446744073709551615"

text \<open>\<open>i32::try_from(n).unwrap_or(i32::MAX)\<close> and its unsigned companion, for sizes and counts.\<close>

definition sat_i32 :: "int \<Rightarrow> int" where "sat_i32 n = min n i32_max"
definition sat_u32 :: "int \<Rightarrow> int" where "sat_u32 n = min n u32_max"

text \<open>Additions of a release build wrap around.\<close>

definition wrap_u32 :: "int \<Rightarrow> int" where "wrap_u32 n = n mod (u32_max + 1)"

definition wrap_i64 :: "int \<Rightarrow> int" where
  "wrap_i64 n = (n + i64_max + 1) mod (2 * (i64_max + 1)) - (i64_max + 1)"

text \<open>\<open>u32::try_from(n).unwrap_or(d)\<close> on a signed column.\<close>

definition u32_or :: "int \<Rightarrow> int \<Rightarrow> int" where
  "u32_or d n = (if 0 \<le> n \<and> n \<le> u32_max then n else d)"

lemma sat_i32_le [simp]: "sat_i32 n \<le> i32_max"
  by (simp add: sat_i32_def)

lemma wrap_u32_small: "0 \<le> n \<Longrightarrow> n \<le> u32_max \<Longrightarrow> wrap_u32 n = n"
  by (simp add: wrap_u32_def u32_max_def)

lemma wrap_i64_small: "i64_min \<le> n \<Longrightarrow> n \<le> i64_max \<Longrightarrow> wrap_i64 n = n"
  by (simp add: wrap_i64_def i64_max_def i64_min_def)

section \<open>Sequencing of fallible steps\<close>

definition and_then :: "('e, 'a) result \<Rightarrow> ('a \<Rightarrow> ('e, 'b) result) \<Rightarrow> ('e, 'b) result" where
  "and_then r f = (case r of Inl e \<Rightarrow> Inl e | Inr x \<Rightarrow> f x)"

lemma and_then_simps [simp]:
  "and_then (Inl e) f = Inl e"
  "and_then (Inr x) f = f x"
  by (simp_all add: and_then_def)

lemma and_then_eq_Inr: "and_then r f = Inr y \<longleftrightarrow> (\<exists>x. r = Inr x \<and> f x = Inr y)"
  by (cases r) simp_all

lemma and_then_eq_Inl: "and_then r f = Inl e \<longleftrightarrow> r = Inl e \<or> (\<exists>x. r = Inr x \<and> f x = Inl e)"
  by (cases r) simp_all

definition ok_or :: "'e \<Rightarrow> 'a option \<Rightarrow> ('e, 'a) result" where
  "ok_or e x = (case x of None \<Rightarrow> Inl e | Some v \<Rightarrow> Inr v)"

lemma ok_or_simps [simp]:
  "ok_or e None = Inl e"
  "ok_or e (Some v) = Inr v"
  by (simp_all add: ok_or_def)

lemma ok_or_eq_Inr: "ok_or e x = Inr v \<longleftrightarrow> x = Some v"
  by (cases x) simp_all

section \<open>One row by an order\<close>

text \<open>\<open>max_by f xs\<close> is the row with the greatest key, as ``order by f desc limit 1'' picks it.\<close>

fun max_by :: "('a \<Rightarrow> 'k::linorder) \<Rightarrow> 'a list \<Rightarrow> 'a option" where
  "max_by f [] = None"
| "max_by f (x # xs) =
     (case max_by f xs of None \<Rightarrow> Some x | Some y \<Rightarrow> Some (if f x < f y then y else x))"

fun min_by :: "('a \<Rightarrow> 'k::linorder) \<Rightarrow> 'a list \<Rightarrow> 'a option" where
  "min_by f [] = None"
| "min_by f (x # xs) =
     (case min_by f xs of None \<Rightarrow> Some x | Some y \<Rightarrow> Some (if f y < f x then y else x))"

lemma max_by_None [simp]: "max_by f xs = None \<longleftrightarrow> xs = []"
  by (cases xs) (auto split: option.splits)

lemma min_by_None [simp]: "min_by f xs = None \<longleftrightarrow> xs = []"
  by (cases xs) (auto split: option.splits)

lemma max_by_in: "max_by f xs = Some y \<Longrightarrow> y \<in> set xs"
  by (induction xs arbitrary: y) (auto split: option.splits if_splits)

lemma min_by_in: "min_by f xs = Some y \<Longrightarrow> y \<in> set xs"
  by (induction xs arbitrary: y) (auto split: option.splits if_splits)

lemma max_by_ge: "max_by f xs = Some y \<Longrightarrow> x \<in> set xs \<Longrightarrow> f x \<le> f y"
proof (induction xs arbitrary: y)
  case (Cons a xs)
  then show ?case
    by (cases "max_by f xs") (force split: if_splits)+
qed simp

lemma min_by_le: "min_by f xs = Some y \<Longrightarrow> x \<in> set xs \<Longrightarrow> f y \<le> f x"
proof (induction xs arbitrary: y)
  case (Cons a xs)
  then show ?case
    by (cases "min_by f xs") (force split: if_splits)+
qed simp

lemma max_by_strict:
  assumes "y \<in> set xs" and "\<And>x. x \<in> set xs \<Longrightarrow> x \<noteq> y \<Longrightarrow> f x < f y"
  shows "max_by f xs = Some y"
proof (cases "max_by f xs")
  case None
  with assms(1) show ?thesis by simp
next
  case (Some z)
  then have "z \<in> set xs" and "f y \<le> f z"
    using assms(1) by (auto intro: max_by_in max_by_ge)
  with assms(2) Some show ?thesis by (metis leD)
qed

text \<open>Maximum of the present values, the ``max'' aggregate of SQL: null on no value.\<close>

definition max_value :: "'k::linorder list \<Rightarrow> 'k option" where
  "max_value xs = (case xs of [] \<Rightarrow> None | y # ys \<Rightarrow> Some (fold max ys y))"

lemma fold_max_ge: "y \<le> fold max ys (y::'k::linorder)"
  by (induction ys arbitrary: y) (auto intro: order_trans [OF max.cobounded2])

lemma fold_max_in: "fold max ys (y::'k::linorder) \<in> insert y (set ys)"
  by (induction ys arbitrary: y) (auto simp: max_def split: if_splits)

lemma fold_max_upper: "x \<in> insert y (set ys) \<Longrightarrow> x \<le> fold max ys (y::'k::linorder)"
proof (induction ys arbitrary: x y)
  case (Cons a ys)
  then consider "x = y" | "x = a" | "x \<in> set ys" by auto
  then show ?case
  proof cases
    case 1
    then show ?thesis using fold_max_ge [of "max a y" ys] by simp
  next
    case 2
    then show ?thesis using fold_max_ge [of "max a y" ys] by simp
  next
    case 3
    then show ?thesis using Cons.IH [of x "max a y"] by simp
  qed
qed simp

lemma max_value_Some: "max_value xs = Some m \<Longrightarrow> m \<in> set xs \<and> (\<forall>x\<in>set xs. x \<le> m)"
  unfolding max_value_def
  using fold_max_in fold_max_upper by (fastforce split: list.splits)

lemma max_value_None [simp]: "max_value xs = None \<longleftrightarrow> xs = []"
  by (simp add: max_value_def split: list.splits)

lemma max_value_Nil [simp]: "max_value [] = None"
  by (simp add: max_value_def)

section \<open>Lists\<close>

lemma find_Some_iff_unique:
  assumes "distinct (map f xs)"
  shows "find (\<lambda>r. f r = k) xs = Some x \<longleftrightarrow> x \<in> set xs \<and> f x = k"
  using assms by (induction xs) auto

lemma find_None_key: "find (\<lambda>r. f r = k) xs = None \<longleftrightarrow> k \<notin> f ` set xs"
  by (induction xs) auto

lemma find_append: "find p (xs @ ys) = (case find p xs of None \<Rightarrow> find p ys | Some x \<Rightarrow> Some x)"
  by (induction xs) auto

section \<open>White space\<close>

text \<open>
  Strings are the bytes of their UTF-8 encoding. The encodings of the characters \<open>trim\<close> removes: tab to carriage return, the space, U+0085, U+00A0,
  U+1680, U+2000 to U+200A, U+2028, U+2029, U+202F, U+205F and U+3000.
\<close>

definition white_space :: "string list" where
  "white_space = map (map char_of)
     ([[9], [10], [11], [12], [13], [32], [194, 133], [194, 160], [225, 154, 128]] @
      map (\<lambda>c. [226, 128, c]) ([128..<139] @ [168, 169, 175]) @ [[226, 129, 159], [227, 128, 128 :: nat]])"

lemma white_space_code [code]:
  "white_space =
    [[CHR 0x09], [CHR 0x0A], [CHR 0x0B], [CHR 0x0C], [CHR 0x0D], [CHR 0x20], [CHR 0xC2, CHR 0x85], [CHR 0xC2,
     CHR 0xA0], [CHR 0xE1, CHR 0x9A, CHR 0x80], [CHR 0xE2, CHR 0x80, CHR 0x80], [CHR 0xE2, CHR 0x80, CHR
     0x81], [CHR 0xE2, CHR 0x80, CHR 0x82], [CHR 0xE2, CHR 0x80, CHR 0x83], [CHR 0xE2, CHR 0x80, CHR 0x84],
     [CHR 0xE2, CHR 0x80, CHR 0x85], [CHR 0xE2, CHR 0x80, CHR 0x86], [CHR 0xE2, CHR 0x80, CHR 0x87], [CHR
     0xE2, CHR 0x80, CHR 0x88], [CHR 0xE2, CHR 0x80, CHR 0x89], [CHR 0xE2, CHR 0x80, CHR 0x8A], [CHR 0xE2, CHR
     0x80, CHR 0xA8], [CHR 0xE2, CHR 0x80, CHR 0xA9], [CHR 0xE2, CHR 0x80, CHR 0xAF], [CHR 0xE2, CHR 0x81, CHR
     0x9F], [CHR 0xE3, CHR 0x80, CHR 0x80]]"
  by (simp add: white_space_def char_of_def upt_rec bit_0)

lemma prefix_shortens: "p \<noteq> [] \<Longrightarrow> take (length p) s = p \<Longrightarrow> length (drop (length p) s) < length s"
  by (cases s) auto

fun starts_with :: "string \<Rightarrow> string \<Rightarrow> bool" where
  "starts_with [] s = True"
| "starts_with (c # p) [] = False"
| "starts_with (c # p) (d # s) = (c = d \<and> starts_with p s)"

lemma starts_with_iff: "starts_with p s \<longleftrightarrow> take (length p) s = p"
  by (induction p s rule: starts_with.induct) auto

function strip_all_of :: "string list \<Rightarrow> string \<Rightarrow> string" where
  "strip_all_of ps s =
     (case find (\<lambda>p. p \<noteq> [] \<and> starts_with p s) ps of
        None \<Rightarrow> s
      | Some p \<Rightarrow> strip_all_of ps (drop (length p) s))"
  by pat_completeness auto

termination
  by (relation "measure (length \<circ> snd)") (auto simp: find_Some_iff starts_with_iff simp del: length_drop intro: prefix_shortens)

declare strip_all_of.simps [simp del]

definition trim_text :: "string \<Rightarrow> string" where
  "trim_text s = rev (strip_all_of (map rev white_space) (rev (strip_all_of white_space s)))"

end
