(* ===== verification/Tables.thy ===== *)
theory Tables
  imports Prelude
begin

text \<open>
  The statements of SQL the queries of the program are written in, over tables as lists of rows:
  selection by key, insertion with and without a conflict clause, update and deletion with a
  condition, and the insertion of a whole query result. The locale \<open>keyed_table\<close> is the interface
  of a table with a unique key whose conflict clause keeps that key; every table the catalog
  upserts into is an instance of it.
\<close>

section \<open>Failures of a statement\<close>

text \<open>
  Why a statement fails: a key already taken, a row named twice by one upsert
  (``ON CONFLICT DO UPDATE command cannot affect row a second time''), a violated check
  constraint, a dangling reference, a number out of its column's range, a value that does not
  cast, no row where one is required, or the loss of the connection.
\<close>

datatype sql_error =
    UniqueViolation
  | CardinalityViolation
  | CheckViolation
  | ForeignKeyViolation
  | NumericOutOfRange
  | InvalidText
  | RowNotFound
  | ConnectionLost

section \<open>Statements\<close>

definition find_by :: "('r \<Rightarrow> 'k) \<Rightarrow> 'k \<Rightarrow> 'r list \<Rightarrow> 'r option" where
  "find_by key k t = find (\<lambda>r. key r = k) t"

definition update_where :: "('r \<Rightarrow> bool) \<Rightarrow> ('r \<Rightarrow> 'r) \<Rightarrow> 'r list \<Rightarrow> 'r list" where
  "update_where p f t = map (\<lambda>r. if p r then f r else r) t"

definition delete_where :: "('r \<Rightarrow> bool) \<Rightarrow> 'r list \<Rightarrow> 'r list" where
  "delete_where p t = filter (\<lambda>r. \<not> p r) t"

definition upsert :: "('r \<Rightarrow> 'k) \<Rightarrow> ('r \<Rightarrow> 'r \<Rightarrow> 'r) \<Rightarrow> 'r \<Rightarrow> 'r list \<Rightarrow> 'r list" where
  "upsert key merge row t =
     (if key row \<in> set (map key t)
      then update_where (\<lambda>r. key r = key row) (\<lambda>r. merge r row) t
      else t @ [row])"

definition insert_ignore :: "('r \<Rightarrow> 'k) \<Rightarrow> 'r \<Rightarrow> 'r list \<Rightarrow> 'r list" where
  "insert_ignore key row t = (if key row \<in> set (map key t) then t else t @ [row])"

definition insert_unique :: "('r \<Rightarrow> 'k) \<Rightarrow> 'r \<Rightarrow> 'r list \<Rightarrow> (sql_error, 'r list) result" where
  "insert_unique key row t =
     (if key row \<in> set (map key t) then Inl UniqueViolation else Inr (t @ [row]))"

text \<open>
  The insertion of a query result with a conflict clause: the whole statement fails when two of
  its rows have the same key.
\<close>

definition bulk_upsert ::
    "('r \<Rightarrow> 'k) \<Rightarrow> ('r \<Rightarrow> 'r \<Rightarrow> 'r) \<Rightarrow> 'r list \<Rightarrow> 'r list \<Rightarrow> (sql_error, 'r list) result" where
  "bulk_upsert key merge rows t =
     (if distinct (map key rows) then Inr (fold (upsert key merge) rows t)
      else Inl CardinalityViolation)"

definition check_rows :: "('r \<Rightarrow> bool) \<Rightarrow> 'r list \<Rightarrow> (sql_error, 'r list) result" where
  "check_rows p t = (if list_all p t then Inr t else Inl CheckViolation)"

section \<open>Laws that need no key\<close>

lemma set_update_where: "set (update_where p f t) = f ` {r \<in> set t. p r} \<union> {r \<in> set t. \<not> p r}"
  by (auto simp: update_where_def)

lemma set_delete_where [simp]: "set (delete_where p t) = {r \<in> set t. \<not> p r}"
  by (auto simp: delete_where_def)

lemma length_update_where [simp]: "length (update_where p f t) = length t"
  by (simp add: update_where_def)

lemma update_where_none: "(\<And>r. r \<in> set t \<Longrightarrow> \<not> p r) \<Longrightarrow> update_where p f t = t"
  by (simp add: update_where_def map_idI)

lemma map_update_where_key:
  assumes "\<And>r. p r \<Longrightarrow> key (f r) = key r"
  shows "map key (update_where p f t) = map key t"
  using assms by (simp add: update_where_def)

lemma find_by_None: "find_by key k t = None \<longleftrightarrow> k \<notin> key ` set t"
  by (simp add: find_by_def find_None_key)

lemma find_by_SomeD: "find_by key k t = Some r \<Longrightarrow> r \<in> set t \<and> key r = k"
  by (auto simp: find_by_def find_Some_iff)

lemma find_by_append:
  "find_by key k (t @ u) = (case find_by key k t of None \<Rightarrow> find_by key k u | Some r \<Rightarrow> Some r)"
  by (simp add: find_by_def find_append split: option.split)

lemma find_by_Nil [simp]: "find_by key k [] = None"
  by (simp add: find_by_def)

lemma find_by_Cons [simp]:
  "find_by key k (r # t) = (if key r = k then Some r else find_by key k t)"
  by (simp add: find_by_def)

lemma find_by_update_where:
  assumes "\<And>r. p r \<Longrightarrow> key (f r) = key r"
  shows "find_by key k (update_where p f t) =
    map_option (\<lambda>r. if p r then f r else r) (find_by key k t)"
  using assms by (induction t) (auto simp: update_where_def)

lemma find_by_unique:
  "distinct (map key t) \<Longrightarrow> find_by key k t = Some r \<longleftrightarrow> r \<in> set t \<and> key r = k"
  by (simp add: find_by_def find_Some_iff_unique)

lemma find_by_filter_key:
  assumes "\<And>r. r \<in> set t \<Longrightarrow> key r = k \<Longrightarrow> p r"
  shows "find_by key k (filter p t) = find_by key k t"
  using assms by (induction t) auto

lemma distinct_delete_where: "distinct (map key t) \<Longrightarrow> distinct (map key (delete_where p t))"
  by (auto simp: delete_where_def distinct_map inj_on_def)

lemma insert_ignore_find:
  "find_by key k (insert_ignore key row t) =
     (case find_by key k t of None \<Rightarrow> if key row = k then Some row else None | Some r \<Rightarrow> Some r)"
proof (cases "key row \<in> key ` set t")
  case True
  then show ?thesis
    by (auto simp: insert_ignore_def find_by_None split: option.split)
next
  case False
  then have "find_by key (key row) t = None" by (simp add: find_by_None)
  with False show ?thesis
    by (auto simp: insert_ignore_def find_by_append split: option.split)
qed

lemma distinct_insert_ignore:
  "distinct (map key t) \<Longrightarrow> distinct (map key (insert_ignore key row t))"
  by (simp add: insert_ignore_def)

section \<open>The interface of a table with a unique key\<close>

locale keyed_table =
  fixes key :: "'r \<Rightarrow> 'k" and merge :: "'r \<Rightarrow> 'r \<Rightarrow> 'r"
  assumes key_merge: "key (merge old new) = key old"
begin

lemma map_key_upsert:
  "map key (upsert key merge row t) =
     (if key row \<in> set (map key t) then map key t else map key t @ [key row])"
  by (auto simp: upsert_def map_update_where_key key_merge)

lemma distinct_upsert: "distinct (map key t) \<Longrightarrow> distinct (map key (upsert key merge row t))"
  by (auto simp: map_key_upsert)

lemma find_upsert:
  "find_by key k (upsert key merge row t) =
     (if key row = k
      then Some (case find_by key k t of None \<Rightarrow> row | Some old \<Rightarrow> merge old row)
      else find_by key k t)"
proof (cases "key row \<in> key ` set t")
  case True
  then have "find_by key (key row) t \<noteq> None" by (simp add: find_by_None)
  with True show ?thesis
    by (auto simp: upsert_def find_by_update_where key_merge split: option.splits
        dest: find_by_SomeD)
next
  case False
  then have "find_by key (key row) t = None" by (simp add: find_by_None)
  with False show ?thesis
    by (auto simp: upsert_def find_by_append split: option.splits)
qed

lemma distinct_fold_upsert:
  "distinct (map key t) \<Longrightarrow> distinct (map key (fold (upsert key merge) rows t))"
  by (induction rows arbitrary: t) (auto simp: distinct_upsert)

lemma find_fold_upsert:
  assumes "distinct (map key rows)"
  shows "find_by key k (fold (upsert key merge) rows t) =
    (case find_by key k rows of
       None \<Rightarrow> find_by key k t
     | Some row \<Rightarrow> Some (case find_by key k t of None \<Rightarrow> row | Some old \<Rightarrow> merge old row))"
  using assms
proof (induction rows arbitrary: t)
  case (Cons row rows)
  show ?case
  proof (cases "key row = k")
    case True
    with Cons.prems have "find_by key k rows = None" by (auto simp: find_by_None)
    with Cons True show ?thesis by (simp add: find_upsert split: option.split)
  next
    case False
    with Cons show ?thesis by (simp add: find_upsert split: option.split)
  qed
qed simp

lemma bulk_upsert_Inr:
  "bulk_upsert key merge rows t = Inr u \<longleftrightarrow>
     distinct (map key rows) \<and> u = fold (upsert key merge) rows t"
  by (auto simp: bulk_upsert_def)

lemma keys_fold_upsert:
  "key ` set (fold (upsert key merge) rows t) = key ` set t \<union> key ` set rows"
proof (induction rows arbitrary: t)
  case (Cons row rows)
  have "key ` set (upsert key merge row t) = insert (key row) (key ` set t)"
    using map_key_upsert [of row t]
    by (metis (no_types, lifting) Un_insert_right append_Nil2 insert_absorb list.set(1) list.set(2)
        list.set_map set_append)
  with Cons show ?case by auto
qed simp

end

end
