(* ===== verification/Catalog.thy ===== *)
theory Catalog
  imports Tables
begin

text \<open>
  The database of the service: the rows of the \<open>github_catalog\<close> tables of \<open>schema.sql\<close> and the
  record of all tables, with the check constraints and the views the theorems speak of. Surrogate keys that no code reads back (the identifiers of
  observations, checkpoints and audit rows) are left out.
\<close>

section \<open>Rows\<close>

datatype repo_governance = Auto | Tracked | Ignored

record repo_row =
  repo_id :: uuid
  repo_provider_id :: int
  repo_mode :: "repo_governance option"
  repo_updated_at :: timestamp

datatype alias_kind = OwnerName | HtmlUrl | CloneUrl

datatype alias_status = Active | Superseded | Released

record alias_row =
  alias_id :: uuid
  alias_repo :: uuid
  alias_kind :: alias_kind
  alias_value :: string
  alias_status :: alias_status
  alias_redirect :: "uuid option"
  alias_created :: timestamp

datatype account_status = Connected | ReauthorizationRequired | Revoked

record account_row =
  acct_id :: uuid
  acct_owner :: string
  acct_status :: account_status
  acct_scopes :: "string list"
  acct_provider :: "int option"
  acct_login :: "string option"

datatype sync_mode = ModeIncremental | ModeFull | ModeStarLists

datatype run_status = RunRunning | RunCompleted | RunFailed | RunCancelled

record run_row =
  run_id :: uuid
  run_account :: uuid
  run_mode :: sync_mode
  run_status :: run_status
  run_failure :: "string option"
  run_pages :: int
  run_items :: int
  run_additions :: int
  run_unstars :: int
  run_lists :: int
  run_removals :: int
  run_started :: timestamp
  run_finished :: "timestamp option"

record checkpoint_row =
  cp_run :: uuid
  cp_next_page :: int
  cp_boundary :: "timestamp option"
  cp_cursor :: "string option"
  cp_recorded :: timestamp

record item_row =
  si_run :: uuid
  si_position :: int
  si_repo :: int
  si_starred_at :: "timestamp option"

record list_item_row =
  li_run :: uuid
  li_position :: int
  li_list :: string
  li_name :: string
  li_repo :: int

record star_obs_row =
  so_account :: uuid
  so_repo :: uuid
  so_starred :: bool
  so_provider_at :: "timestamp option"
  so_unknown :: bool
  so_observed :: timestamp

record star_row =
  ss_account :: uuid
  ss_repo :: uuid
  ss_starred :: bool
  ss_starred_at :: "timestamp option"
  ss_unknown :: bool
  ss_last :: timestamp
  ss_unstarred :: "timestamp option"
  ss_evidence :: "uuid option"

record watermark_row =
  wm_account :: uuid
  wm_mark :: timestamp
  wm_updated :: timestamp

datatype repair_action = UnstarAfterDrift | RestoreAfterMiss

record repair_row =
  rp_run :: uuid
  rp_repo :: uuid
  rp_action :: repair_action
  rp_recorded :: timestamp

datatype list_status = ListActive | ListRemoved

record list_row =
  sl_id :: uuid
  sl_account :: uuid
  sl_provider :: string
  sl_name :: string
  sl_status :: list_status
  sl_removed :: "timestamp option"
  sl_evidence :: "uuid option"

record member_row =
  lm_list :: uuid
  lm_repo :: uuid
  lm_member :: bool
  lm_last :: timestamp
  lm_removed :: "timestamp option"
  lm_evidence :: "uuid option"

record member_obs_row =
  mo_list :: uuid
  mo_repo :: uuid
  mo_member :: bool
  mo_observed :: timestamp
  mo_evidence :: "uuid option"

datatype audit_outcome = AuditApplied | AuditAlreadyApplied | AuditRejected | AuditFailed

record audit_row =
  au_key :: string
  au_account :: uuid
  au_repo :: uuid
  au_list :: "uuid option"
  au_kind :: string
  au_principal :: string
  au_source :: string
  au_outcome :: audit_outcome
  au_detail :: json
  au_created :: timestamp

datatype policy_level =
    LevelNone
  | LevelMetadataOnly
  | LevelGitMirror
  | LevelGitMirrorWithLfs
  | LevelCompleteArchive

record policy_row =
  bp_repo :: uuid
  bp_level :: policy_level
  bp_cadence :: string
  bp_priority :: string
  bp_size :: "int option"
  bp_exclusions :: json

record cursor_row =
  cu_dirty :: int
  cu_published :: int
  cu_not_before :: "timestamp option"
  cu_version :: int
  cu_fingerprint :: "string option"

record publication_row =
  pu_version :: int
  pu_fingerprint :: string
  pu_document :: json

datatype relay_error = PublishFailed | AckFailed | AckTimeout | PayloadTooLarge

record outbox_row =
  ob_message :: uuid
  ob_subject :: string
  ob_payload :: json
  ob_created :: timestamp
  ob_published :: "timestamp option"
  ob_attempts :: int
  ob_next_attempt :: timestamp
  ob_error :: "relay_error option"
  ob_undeliverable :: "timestamp option"

record inbox_row =
  ib_message :: uuid
  ib_subject :: string
  ib_payload :: json
  ib_consumed :: "timestamp option"

record feedback_row =
  fb_message :: uuid
  fb_version :: int
  fb_accepted :: bool
  fb_last_applied :: int
  fb_reasons :: json
  fb_received :: timestamp

record metadata_row =
  md_repo :: uuid
  md_description :: "string option"
  md_language :: "string option"
  md_stargazers :: int
  md_topics :: json
  md_default_branch :: "string option"
  md_pushed_at :: "timestamp option"
  md_etag :: "string option"
  md_readme_etag :: "string option"
  md_readme :: json
  md_hash :: string
  md_fetched :: timestamp
  md_attempted :: "timestamp option"

record revision_row =
  rv_id :: uuid
  rv_repo :: uuid
  rv_payload :: json
  rv_hash :: string
  rv_observed :: timestamp

record readme_row =
  rb_digest :: string
  rb_bytes :: string
  rb_length :: int

text \<open>A watch has one trigger and one downstream action, the only ones the schema admits.\<close>

record watch_row =
  wt_id :: uuid
  wt_owner :: string
  wt_repo :: uuid
  wt_enabled :: bool
  wt_checkpoint :: "string option"
  wt_updated :: timestamp

datatype request_status = ReqQueued | ReqPending | ReqCompleted | ReqFailed

record request_row =
  rq_id :: uuid
  rq_watch :: uuid
  rq_owner :: string
  rq_repo :: uuid
  rq_provider_id :: int
  rq_revision :: json
  rq_attributes :: json
  rq_payload :: json
  rq_attributes_digest :: string
  rq_digest :: string
  rq_status :: request_status
  rq_not_before :: timestamp
  rq_outbox :: "uuid option"
  rq_result :: "string option"
  rq_failure :: "string option"
  rq_retryable :: "bool option"
  rq_terminal :: "timestamp option"

record link_row =
  ln_owner :: string
  ln_repo :: uuid
  ln_request :: uuid
  ln_result :: string
  ln_completed :: timestamp

record attempt_row =
  ac_owner :: string
  ac_key :: string
  ac_fingerprint :: json
  ac_mode :: string
  ac_provider_id :: int
  ac_full_name :: string
  ac_url :: string
  ac_account :: "string option"
  ac_evidence :: string
  ac_done :: bool
  ac_result :: "json option"
  ac_completed :: "timestamp option"

datatype credential_kind = KindPat | KindOauth

text \<open>Bytes of a credential are texts of 8-bit characters, as those of a README.\<close>

record credential_row =
  cr_account :: uuid
  cr_key_version :: string
  cr_kind :: credential_kind
  cr_client :: "string option"
  cr_token :: string
  cr_nonce :: string
  cr_updated :: timestamp

datatype import_status = ImportRunning | ImportCompleted | ImportFailed

record import_row =
  im_id :: uuid
  im_source :: string
  im_status :: import_status
  im_accounts :: int
  im_repositories :: int
  im_stars :: int
  im_lists :: int
  im_failure :: "string option"
  im_finished :: "timestamp option"

record legacy_account_row =
  la_source :: string
  la_user :: int
  la_account :: uuid

record legacy_record_row =
  le_source :: string
  le_id :: int
  le_account :: uuid
  le_repo :: uuid
  le_starred :: bool

record legacy_claim_row =
  lc_source :: string
  lc_id :: int
  lc_account :: uuid
  lc_repo :: uuid
  lc_list :: string
  lc_observed :: timestamp

record shadow_row =
  sh_id :: uuid
  sh_source :: string
  sh_digest :: string
  sh_report :: json
  sh_reviewable :: bool
  sh_created :: timestamp

record erasure_row =
  er_operation :: uuid
  er_owner_digest :: string
  er_outcome :: string

section \<open>Keys of the tables\<close>

definition star_key :: "star_row \<Rightarrow> uuid \<times> uuid" where
  "star_key r = (ss_account r, ss_repo r)"

definition member_key :: "member_row \<Rightarrow> uuid \<times> uuid" where
  "member_key r = (lm_list r, lm_repo r)"

definition watch_key :: "watch_row \<Rightarrow> string \<times> uuid" where
  "watch_key r = (wt_owner r, wt_repo r)"

definition request_key_of :: "request_row \<Rightarrow> uuid \<times> string" where
  "request_key_of r = (rq_watch r, rq_digest r)"

definition link_key :: "link_row \<Rightarrow> string \<times> uuid" where
  "link_key r = (ln_owner r, ln_repo r)"

definition list_key :: "list_row \<Rightarrow> uuid \<times> string" where
  "list_key r = (sl_account r, sl_provider r)"

definition repair_key :: "repair_row \<Rightarrow> uuid \<times> uuid" where
  "repair_key r = (rp_run r, rp_repo r)"

lemmas key_defs = star_key_def member_key_def list_key_def repair_key_def watch_key_def
  request_key_of_def link_key_def

section \<open>The catalog\<close>

text \<open>
  \<open>db_clock\<close> is what \<open>now()\<close> answers; \<open>next_uuid\<close> is the identifier handed out next.
\<close>

record catalog =
  db_clock :: timestamp
  next_uuid :: uuid
  accounts :: "account_row list"
  repositories :: "repo_row list"
  aliases :: "alias_row list"
  sync_runs :: "run_row list"
  checkpoints :: "checkpoint_row list"
  snapshot_items :: "item_row list"
  list_snapshot_items :: "list_item_row list"
  star_observations :: "star_obs_row list"
  star_state :: "star_row list"
  watermarks :: "watermark_row list"
  repairs :: "repair_row list"
  star_lists :: "list_row list"
  memberships :: "member_row list"
  member_observations :: "member_obs_row list"
  audit :: "audit_row list"
  backup_policies :: "policy_row list"
  policy_cursor :: "cursor_row option"
  publications :: "publication_row list"
  outbox :: "outbox_row list"
  inbox :: "inbox_row list"
  feedback :: "feedback_row list"
  metadata :: "metadata_row list"
  revisions :: "revision_row list"
  readme_blobs :: "readme_row list"
  watches :: "watch_row list"
  requests :: "request_row list"
  dispatch_cursor :: "timestamp option"
  links :: "link_row list"
  action_attempts :: "attempt_row list"
  credentials :: "credential_row list"
  legacy_imports :: "import_row list"
  legacy_accounts :: "legacy_account_row list"
  legacy_records :: "legacy_record_row list"
  legacy_claims :: "legacy_claim_row list"
  shadow_reports :: "shadow_row list"
  erasures :: "erasure_row list"

definition empty_catalog :: catalog where
  "empty_catalog =
     \<lparr>db_clock = 0, next_uuid = 0, accounts = [], repositories = [], aliases = [], sync_runs = [],
      checkpoints = [], snapshot_items = [], list_snapshot_items = [], star_observations = [],
      star_state = [], watermarks = [], repairs = [], star_lists = [], memberships = [],
      member_observations = [], audit = [], backup_policies = [], policy_cursor = None,
      publications = [], outbox = [], inbox = [], feedback = [], metadata = [], revisions = [],
      readme_blobs = [], watches = [], requests = [], dispatch_cursor = None, links = [],
      action_attempts = [], credentials = [], legacy_imports = [], legacy_accounts = [],
      legacy_records = [], legacy_claims = [], shadow_reports = [], erasures = []\<rparr>"

definition fresh_uuid :: "catalog \<Rightarrow> uuid \<times> catalog" where
  "fresh_uuid db = (next_uuid db, db\<lparr>next_uuid := Suc (next_uuid db)\<rparr>)"

text \<open>A row of the outbox with the defaults of its columns.\<close>

definition outbox_entry :: "uuid \<Rightarrow> string \<Rightarrow> json \<Rightarrow> timestamp \<Rightarrow> outbox_row" where
  "outbox_entry message subject payload now =
     \<lparr>ob_message = message, ob_subject = subject, ob_payload = payload, ob_created = now,
      ob_published = None, ob_attempts = 0, ob_next_attempt = now, ob_error = None,
      ob_undeliverable = None\<rparr>"

section \<open>Check constraints of the star tables\<close>

text \<open>
  \<open>star_observations_provider_time_is_evidence\<close>,
  \<open>current_star_state_removal_evidence_check\<close> and
  \<open>current_star_state_starred_at_presence_check\<close> of the schema.
\<close>

definition star_obs_check :: "star_obs_row \<Rightarrow> bool" where
  "star_obs_check r \<longleftrightarrow> \<not> so_starred r \<or> so_provider_at r \<noteq> None \<or> so_unknown r"

definition star_check :: "star_row \<Rightarrow> bool" where
  "star_check r \<longleftrightarrow>
     (ss_starred r \<or> ss_unstarred r \<noteq> None) \<and>
     (\<not> ss_starred r \<or> ss_starred_at r \<noteq> None \<or> ss_unknown r)"

section \<open>Views\<close>

definition repo_by_provider :: "catalog \<Rightarrow> int \<Rightarrow> uuid option" where
  "repo_by_provider db p = map_option repo_id (find_by repo_provider_id p (repositories db))"

definition star_of :: "catalog \<Rightarrow> uuid \<Rightarrow> uuid \<Rightarrow> star_row option" where
  "star_of db a r = find_by star_key (a, r) (star_state db)"

definition is_starred :: "catalog \<Rightarrow> uuid \<Rightarrow> uuid \<Rightarrow> bool" where
  "is_starred db a r \<longleftrightarrow> (case star_of db a r of None \<Rightarrow> False | Some s \<Rightarrow> ss_starred s)"

definition watermark_of :: "catalog \<Rightarrow> uuid \<Rightarrow> timestamp option" where
  "watermark_of db a = map_option wm_mark (find_by wm_account a (watermarks db))"

end
