(* ===== verification/Process.thy ===== *)
theory Process
  imports Catalog
begin

text \<open>
  The running process around the database: transactions that commit or roll back, the clocks, the
  provider that answers calls, and the faults the environment injects. The locale
  \<open>timed_relation\<close> is the contract of a multi-transaction operation: a relation between the
  database before and after that every committed transaction keeps, and that time passing keeps,
  holds for the whole operation, whatever errors and faults happen on the way; a
  \<open>durable_relation\<close> ignores the clock.
\<close>

section \<open>The process\<close>

text \<open>
  A transaction runs on the catalog and either commits a new one or fails and is rolled back.
  The environment may fail any statement or commit: \<open>w_faults\<close> scripts, for each transaction in
  turn, whether the connection is lost before it commits. \<open>w_calls\<close> counts provider calls, so an
  answer may depend on when it is given; each call also lets time pass. \<open>w_clock\<close> is the process
  clock in nanoseconds (\<open>SystemTime\<close>), \<open>db_clock\<close> the database clock in microseconds.
\<close>

record bucket =
  bk_remaining :: int
  bk_reset_at :: int
  bk_cooldown :: "int option"

type_synonym ledger = "string \<Rightarrow> bucket option"

record world =
  w_db :: catalog
  w_ledger :: ledger
  w_clock :: int
  w_faults :: "bool list"
  w_calls :: nat

type_synonym ('e, 'a) io = "world \<Rightarrow> ('e, 'a) result \<times> world"
type_synonym 'a tx = "catalog \<Rightarrow> (sql_error, 'a \<times> catalog) result"

definition transact_with ::
    "(sql_error \<Rightarrow> 'e) \<Rightarrow> (catalog \<Rightarrow> ('e, 'a \<times> catalog) result) \<Rightarrow> ('e, 'a) io" where
  "transact_with lost t w =
     (case w_faults w of
        True # fs \<Rightarrow> (Inl (lost ConnectionLost), w\<lparr>w_faults := fs\<rparr>)
      | fs \<Rightarrow>
          (let w' = w\<lparr>w_faults := tl fs\<rparr> in
           case t (w_db w) of
             Inl e \<Rightarrow> (Inl e, w')
           | Inr (x, db) \<Rightarrow> (Inr x, w'\<lparr>w_db := db\<rparr>)))"

definition transact :: "'a tx \<Rightarrow> (sql_error, 'a) io" where
  "transact t = transact_with (\<lambda>e. e) t"

text \<open>A transaction that reads or cannot fail by itself.\<close>

definition query :: "(catalog \<Rightarrow> 'a) \<Rightarrow> (sql_error, 'a) io" where
  "query f = transact (\<lambda>db. Inr (f db, db))"

definition io_bind :: "('e, 'a) io \<Rightarrow> ('a \<Rightarrow> ('e, 'b) io) \<Rightarrow> ('e, 'b) io" where
  "io_bind m f w =
     (case m w of (Inl e, w') \<Rightarrow> (Inl e, w') | (Inr x, w') \<Rightarrow> f x w')"

definition io_return :: "'a \<Rightarrow> ('e, 'a) io" where
  "io_return x w = (Inr x, w)"

definition io_fail :: "'e \<Rightarrow> ('e, 'a) io" where
  "io_fail e w = (Inl e, w)"

definition io_map_err :: "('e \<Rightarrow> 'f) \<Rightarrow> ('e, 'a) io \<Rightarrow> ('f, 'a) io" where
  "io_map_err g m w = (case m w of (Inl e, w') \<Rightarrow> (Inl (g e), w') | (Inr x, w') \<Rightarrow> (Inr x, w'))"

fun io_each :: "('a \<Rightarrow> ('e, unit) io) \<Rightarrow> 'a list \<Rightarrow> ('e, unit) io" where
  "io_each f [] = io_return ()"
| "io_each f (x # xs) = io_bind (f x) (\<lambda>_. io_each f xs)"

text \<open>An answer of the provider: how many microseconds it took, and what it says.\<close>

datatype 'r answer = Answer (ans_elapsed: nat) (ans_result: "'r")

definition provider_call :: "(nat \<Rightarrow> 'r answer) \<Rightarrow> world \<Rightarrow> 'r \<times> world" where
  "provider_call gw w =
     (let a = gw (w_calls w); d = int (ans_elapsed a) in
      (ans_result a,
       w\<lparr>w_calls := Suc (w_calls w), w_clock := w_clock w + 1000 * d,
         w_db := (w_db w)\<lparr>db_clock := db_clock (w_db w) + d\<rparr>\<rparr>))"

definition call :: "(nat \<Rightarrow> 'r answer) \<Rightarrow> ('e, 'r) io" where
  "call gw w = (let (x, w') = provider_call gw w in (Inr x, w'))"

text \<open>
  A loop of the source is a step that either returns from the enclosing function (on the error
  side of \<open>io\<close>) or goes round with a new loop state. \<open>run_loop n\<close> runs at most \<open>n\<close> rounds: \<open>None\<close> says
  the loop has not returned yet, with the state the process has reached by then.
\<close>

fun run_loop :: "nat \<Rightarrow> ('s \<Rightarrow> ('r, 's) io) \<Rightarrow> 's \<Rightarrow> world \<Rightarrow> 'r option \<times> world" where
  "run_loop 0 step s w = (None, w)"
| "run_loop (Suc n) step s w =
     (case step s w of
        (Inl r, w') \<Rightarrow> (Some r, w')
      | (Inr s', w') \<Rightarrow> run_loop n step s' w')"

section \<open>Evaluation\<close>

lemma transact_with_no_fault:
  "w_faults w = [] \<Longrightarrow> transact_with lost t w =
     (case t (w_db w) of
        Inl e \<Rightarrow> (Inl e, w)
      | Inr (x, db) \<Rightarrow> (Inr x, w\<lparr>w_db := db\<rparr>))"
  by (simp add: transact_with_def split: sum.split prod.split)

lemmas transact_no_fault = transact_with_no_fault [of _ "\<lambda>e. e", folded transact_def]

lemma query_no_fault: "w_faults w = [] \<Longrightarrow> query f w = (Inr (f (w_db w)), w)"
  by (simp add: query_def transact_no_fault)

lemma io_bind_eq:
  "m w = (Inr x, w') \<Longrightarrow> io_bind m f w = f x w'"
  "m w = (Inl e, w') \<Longrightarrow> io_bind m f w = (Inl e, w')"
  by (simp_all add: io_bind_def)

lemma io_map_err_eq:
  "m w = (Inr x, w') \<Longrightarrow> io_map_err g m w = (Inr x, w')"
  "m w = (Inl e, w') \<Longrightarrow> io_map_err g m w = (Inl (g e), w')"
  by (simp_all add: io_map_err_def)

lemma transact_with_InrD:
  "transact_with lost t w = (Inr x, w') \<Longrightarrow> t (w_db w) = Inr (x, w_db w')"
  by (auto simp: transact_with_def Let_def split: list.splits bool.splits sum.splits prod.splits)

lemma transact_with_InlD:
  "transact_with lost t w = (Inl e, w') \<Longrightarrow> w_db w' = w_db w"
  by (auto simp: transact_with_def Let_def split: list.splits bool.splits sum.splits prod.splits)

lemma transact_InrD: "transact t w = (Inr x, w') \<Longrightarrow> t (w_db w) = Inr (x, w_db w')"
  unfolding transact_def by (rule transact_with_InrD)

lemma transact_InlD: "transact t w = (Inl e, w') \<Longrightarrow> w_db w' = w_db w"
  unfolding transact_def by (rule transact_with_InlD)

lemma query_InrD: "query f w = (Inr x, w') \<Longrightarrow> x = f (w_db w) \<and> w_db w' = w_db w"
  unfolding query_def by (auto dest: transact_InrD)

lemma query_InlD: "query f w = (Inl e, w') \<Longrightarrow> w_db w' = w_db w"
  unfolding query_def by (rule transact_InlD)

lemma io_bind_InrE:
  assumes "io_bind m f w = (Inr y, w')"
  obtains x w'' where "m w = (Inr x, w'')" and "f x w'' = (Inr y, w')"
  using assms by (auto simp: io_bind_def split: prod.splits sum.splits)

lemma io_map_err_InrD: "io_map_err g m w = (Inr y, w') \<Longrightarrow> m w = (Inr y, w')"
  by (auto simp: io_map_err_def split: prod.splits sum.splits)

lemma provider_call_db [simp]:
  "w_db (snd (provider_call gw w)) =
     (w_db w)\<lparr>db_clock := db_clock (w_db w) + int (ans_elapsed (gw (w_calls w)))\<rparr>"
  by (simp add: provider_call_def Let_def)

lemma call_eq: "call gw w = (Inr (fst (provider_call gw w)), snd (provider_call gw w))"
  by (simp add: call_def split: prod.split)

lemma bind_call_eq:
  "io_bind (call gw) k w = k (ans_result (gw (w_calls w))) (snd (provider_call gw w))"
  by (simp add: io_bind_def call_eq) (simp add: provider_call_def Let_def)

lemma run_loop_mono: "run_loop n step s w = (Some r, w') \<Longrightarrow> run_loop (n + m) step s w = (Some r, w')"
  by (induction n arbitrary: s w) (auto split: prod.splits sum.splits)

section \<open>What a whole operation keeps\<close>

locale timed_relation =
  fixes R :: "catalog \<Rightarrow> catalog \<Rightarrow> bool"
  assumes R_refl: "R db db"
    and R_trans: "R a b \<Longrightarrow> R b c \<Longrightarrow> R a c"
    and R_later: "db_clock db \<le> t \<Longrightarrow> R db (db\<lparr>db_clock := t\<rparr>)"
begin

definition keeps :: "('e, 'a) io \<Rightarrow> bool" where
  "keeps m \<longleftrightarrow> (\<forall>w. R (w_db w) (w_db (snd (m w))))"

lemma keepsD: "keeps m \<Longrightarrow> m w = (r, w') \<Longrightarrow> R (w_db w) (w_db w')"
  by (metis keeps_def snd_conv)

lemma keeps_transact_with:
  assumes "\<And>db x db'. t db = Inr (x, db') \<Longrightarrow> R db db'"
  shows "keeps (transact_with lost t)"
  unfolding keeps_def
proof
  fix w
  obtain r w' where tr: "transact_with lost t w = (r, w')" by (cases "transact_with lost t w")
  show "R (w_db w) (w_db (snd (transact_with lost t w)))"
  proof (cases r)
    case (Inl e)
    with tr transact_with_InlD [of lost t w e w'] show ?thesis by (simp add: R_refl)
  next
    case (Inr x)
    with tr transact_with_InrD [of lost t w x w'] assms show ?thesis by simp
  qed
qed

lemma keeps_transact:
  "(\<And>db x db'. t db = Inr (x, db') \<Longrightarrow> R db db') \<Longrightarrow> keeps (transact t)"
  unfolding transact_def by (rule keeps_transact_with)

lemma keeps_query: "keeps (query f)"
  unfolding query_def by (rule keeps_transact) (simp add: R_refl)

lemma keeps_return: "keeps (io_return x)"
  by (simp add: keeps_def io_return_def R_refl)

lemma keeps_fail: "keeps (io_fail e)"
  by (simp add: keeps_def io_fail_def R_refl)

lemma keeps_map_err: "keeps m \<Longrightarrow> keeps (io_map_err g m)"
  by (auto simp: keeps_def io_map_err_def split: prod.splits sum.splits) (metis snd_conv)+

lemma keeps_bind:
  assumes "keeps m" and "\<And>x. keeps (f x)"
  shows "keeps (io_bind m f)"
  unfolding keeps_def
proof
  fix w
  obtain r w' where m: "m w = (r, w')" by (cases "m w")
  have 1: "R (w_db w) (w_db w')" using assms(1) m by (rule keepsD)
  show "R (w_db w) (w_db (snd (io_bind m f w)))"
  proof (cases r)
    case (Inl e)
    with m 1 show ?thesis by (simp add: io_bind_def)
  next
    case (Inr x)
    have "R (w_db w') (w_db (snd (f x w')))" using assms(2) by (simp add: keeps_def)
    with 1 R_trans m Inr show ?thesis by (auto simp: io_bind_def)
  qed
qed

lemma keeps_each: "(\<And>x. keeps (f x)) \<Longrightarrow> keeps (io_each f xs)"
  by (induction xs) (auto intro: keeps_return keeps_bind)

text \<open>What each round of a loop over a list establishes holds at its end, if the rounds preserve it.\<close>

lemma each_establishes:
  assumes "io_each f xs w = (Inr u, w')"
    and "\<And>x. keeps (f x)"
    and "\<And>x w w'. f x w = (Inr (), w') \<Longrightarrow> P x (w_db w')"
    and "\<And>x db db'. P x db \<Longrightarrow> R db db' \<Longrightarrow> P x db'"
  shows "\<forall>x\<in>set xs. P x (w_db w')"
  using assms(1)
proof (induction xs arbitrary: w)
  case (Cons x xs)
  then obtain w1 where 1: "f x w = (Inr (), w1)" and rest: "io_each f xs w1 = (Inr u, w')"
    by (auto elim!: io_bind_InrE)
  have "R (w_db w1) (w_db w')" using keeps_each [OF assms(2)] rest by (rule keepsD)
  with assms(3) [OF 1] assms(4) Cons.IH [OF rest] show ?case by auto
qed simp

lemma keeps_call: "keeps (call gw)"
  by (simp add: keeps_def call_eq R_later)

lemma keeps_same_db: "(\<And>w. w_db (snd (m w)) = w_db w) \<Longrightarrow> keeps m"
  by (simp add: keeps_def R_refl)

text \<open>An operation that keeps the relation unless it ends with an excepted result.\<close>

definition keeps_unless :: "(('e, 'a) result \<Rightarrow> bool) \<Rightarrow> ('e, 'a) io \<Rightarrow> bool" where
  "keeps_unless Q m \<longleftrightarrow> (\<forall>w r w'. m w = (r, w') \<longrightarrow> Q r \<or> R (w_db w) (w_db w'))"

lemma keeps_unless_keeps: "keeps m \<Longrightarrow> keeps_unless Q m"
  by (auto simp: keeps_unless_def dest: keepsD)

lemma keeps_unless_bind:
  assumes "keeps m" and "\<And>x. keeps_unless Q (f x)"
  shows "keeps_unless Q (io_bind m f)"
  unfolding keeps_unless_def
proof (intro allI impI)
  fix w r w'
  assume "io_bind m f w = (r, w')"
  then consider (stop) e where "m w = (Inl e, w')" | (go) x w1 where "m w = (Inr x, w1)" "f x w1 = (r, w')"
    by (auto simp: io_bind_def split: prod.splits sum.splits)
  then show "Q r \<or> R (w_db w) (w_db w')"
  proof cases
    case stop
    then show ?thesis using assms(1) by (blast dest: keepsD)
  next
    case go
    then have "R (w_db w) (w_db w1)" using assms(1) by (blast dest: keepsD)
    moreover have "Q r \<or> R (w_db w1) (w_db w')" using assms(2) go by (simp add: keeps_unless_def)
    ultimately show ?thesis by (blast intro: R_trans)
  qed
qed

lemma keeps_unless_sum:
  "(\<And>x. keeps_unless Q (f x)) \<Longrightarrow> (\<And>y. keeps_unless Q (g y)) \<Longrightarrow> keeps_unless Q (case s of Inl x \<Rightarrow> f x | Inr y \<Rightarrow> g y)"
  by (cases s) simp_all

lemma keeps_unless_if:
  "keeps_unless Q m \<Longrightarrow> keeps_unless Q m' \<Longrightarrow> keeps_unless Q (if b then m else m')"
  by simp

lemma keeps_sum:
  "(\<And>x. keeps (f x)) \<Longrightarrow> (\<And>y. keeps (g y)) \<Longrightarrow> keeps (case s of Inl x \<Rightarrow> f x | Inr y \<Rightarrow> g y)"
  by (cases s) simp_all

lemma keeps_option:
  "keeps m \<Longrightarrow> (\<And>y. keeps (g y)) \<Longrightarrow> keeps (case s of None \<Rightarrow> m | Some y \<Rightarrow> g y)"
  by (cases s) simp_all

lemma keeps_if: "keeps m \<Longrightarrow> keeps m' \<Longrightarrow> keeps (if b then m else m')"
  by simp

lemma keeps_prod: "(\<And>x y. keeps (f x y)) \<Longrightarrow> keeps (case p of (x, y) \<Rightarrow> f x y)"
  by (cases p) simp

text \<open>A final transaction whose success is the excepted result.\<close>

lemma keeps_unless_commit:
  assumes "\<And>w x w'. m w = (Inr x, w') \<Longrightarrow> Q (fst (f x w'))"
    and "\<And>w e w'. m w = (Inl e, w') \<Longrightarrow> w_db w' = w_db w"
  shows "keeps_unless Q (io_bind m f)"
  using assms
  by (auto simp: keeps_unless_def io_bind_def R_refl split: prod.splits sum.splits) (metis fst_conv)+

lemma run_loop_keeps_unless:
  assumes "\<And>s. keeps_unless (\<lambda>r. case r of Inl x \<Rightarrow> Q x | Inr _ \<Rightarrow> False) (step s)"
    and "run_loop n step s w = (r, w')"
  shows "(case r of Some x \<Rightarrow> Q x | None \<Rightarrow> False) \<or> R (w_db w) (w_db w')"
  using assms(2)
proof (induction n arbitrary: s w)
  case 0
  then show ?case by (simp add: R_refl)
next
  case (Suc n)
  show ?case
  proof (cases "step s w")
    case (Pair q w1)
    have st: "(case q of Inl x \<Rightarrow> Q x | Inr _ \<Rightarrow> False) \<or> R (w_db w) (w_db w1)"
      using assms(1) Pair unfolding keeps_unless_def by blast
    show ?thesis
    proof (cases q)
      case (Inl x)
      with Suc.prems Pair st show ?thesis by auto
    next
      case (Inr s')
      with Suc.prems Pair have "run_loop n step s' w1 = (r, w')" by simp
      from Suc.IH [OF this] Inr st show ?thesis by (auto intro: R_trans)
    qed
  qed
qed

lemma run_loop_keeps:
  assumes "\<And>s. keeps (step s)" and "run_loop n step s w = (r, w')"
  shows "R (w_db w) (w_db w')"
  using run_loop_keeps_unless [where Q = "\<lambda>_. False", OF keeps_unless_keeps [OF assms(1)] assms(2)]
  by (auto split: option.splits)

lemmas keeps_intros =
  keeps_query keeps_return keeps_fail keeps_map_err keeps_bind keeps_each keeps_call
  keeps_sum keeps_option keeps_if keeps_prod

lemmas keeps_unless_intros = keeps_unless_bind keeps_unless_sum keeps_unless_if

end

text \<open>A relation that does not look at the clock at all.\<close>

locale durable_relation = timed_relation +
  assumes R_clock: "R db (db\<lparr>db_clock := t\<rparr>)"

end
