(* ===== verification/Identity.thy ===== *)
theory Identity
  imports Process
begin

text \<open>
  Repository identity and aliases (\<open>crates/catalog/src/identity.rs\<close>): the numeric GitHub id is the
  stable identity of a repository, owner/name and URLs are aliases that come and go. At most one
  repository holds an alias live; superseded aliases stay resolvable.
\<close>

section \<open>Operations\<close>

datatype identity_error = LiveAliasConflict | IdentityPersistence sql_error

record repository_identity =
  ri_repository_id :: uuid

definition upsert_repository_in_tx :: "int \<Rightarrow> uuid tx" where
  "upsert_repository_in_tx p db =
     (let (new_id, db1) = fresh_uuid db;
          row = \<lparr>repo_id = new_id, repo_provider_id = p, repo_mode = None,
                 repo_updated_at = db_clock db1\<rparr>;
          db2 = db1\<lparr>repositories := insert_ignore repo_provider_id row (repositories db1)\<rparr>
      in case repo_by_provider db2 p of
           None \<Rightarrow> Inl RowNotFound
         | Some stored_id \<Rightarrow> Inr (stored_id, db2))"

definition upsert_repository :: "int \<Rightarrow> (sql_error, repository_identity) io" where
  "upsert_repository p =
     transact (\<lambda>db. and_then (upsert_repository_in_tx p db)
       (\<lambda>(r, db'). Inr (\<lparr>ri_repository_id = r\<rparr>, db')))"

definition names_alias :: "alias_kind \<Rightarrow> string \<Rightarrow> alias_row \<Rightarrow> bool" where
  "names_alias k v a \<longleftrightarrow> alias_kind a = k \<and> alias_value a = v"

definition is_live :: "alias_row \<Rightarrow> bool" where
  "is_live a \<longleftrightarrow> alias_status a = Active"

definition active_alias_holder_in_tx :: "alias_kind \<Rightarrow> string \<Rightarrow> catalog \<Rightarrow> (uuid \<times> uuid) option" where
  "active_alias_holder_in_tx k v db =
     map_option (\<lambda>a. (alias_id a, alias_repo a))
       (find (\<lambda>a. names_alias k v a \<and> is_live a) (aliases db))"

text \<open>The partial unique index \<open>repository_aliases_live_identity_key\<close>.\<close>

definition live_unique :: "alias_row list \<Rightarrow> bool" where
  "live_unique t \<longleftrightarrow> distinct (map (\<lambda>a. (alias_kind a, alias_value a)) (filter is_live t))"

definition put_aliases :: "alias_row list \<Rightarrow> 'a \<Rightarrow> 'a tx" where
  "put_aliases t x db = (if live_unique t then Inr (x, db\<lparr>aliases := t\<rparr>) else Inl UniqueViolation)"

definition dormant_alias :: "uuid \<Rightarrow> alias_kind \<Rightarrow> string \<Rightarrow> alias_row \<Rightarrow> bool" where
  "dormant_alias r k v a \<longleftrightarrow> alias_repo a = r \<and> names_alias k v a \<and> \<not> is_live a"

definition reactivate_alias_in_tx :: "uuid \<Rightarrow> alias_kind \<Rightarrow> string \<Rightarrow> uuid tx" where
  "reactivate_alias_in_tx r k v db =
     (case find (dormant_alias r k v) (aliases db) of
        Some a \<Rightarrow>
          put_aliases
            (update_where (dormant_alias r k v)
               (\<lambda>a. a\<lparr>alias_status := Active, alias_redirect := None\<rparr>) (aliases db))
            (alias_id a) db
      | None \<Rightarrow>
          (let (new_id, db1) = fresh_uuid db in
           put_aliases
             (aliases db1 @
               [\<lparr>alias_id = new_id, alias_repo = r, alias_kind = k, alias_value = v,
                 alias_status = Active, alias_redirect = None, alias_created = db_clock db1\<rparr>])
             new_id db1))"

definition supersede_alias_in_tx :: "alias_kind \<Rightarrow> string \<Rightarrow> uuid \<Rightarrow> catalog \<Rightarrow> catalog" where
  "supersede_alias_in_tx k old redirect db =
     db\<lparr>aliases :=
       update_where (\<lambda>a. names_alias k old a \<and> is_live a)
         (\<lambda>a. a\<lparr>alias_status := Superseded, alias_redirect := Some redirect\<rparr>) (aliases db)\<rparr>"

definition record_alias_tx ::
    "uuid \<Rightarrow> alias_kind \<Rightarrow> string \<Rightarrow> catalog \<Rightarrow> (identity_error, unit \<times> catalog) result" where
  "record_alias_tx r k v db =
     (case active_alias_holder_in_tx k v db of
        Some (_, holder) \<Rightarrow> if holder \<noteq> r then Inl LiveAliasConflict else Inr ((), db)
      | None \<Rightarrow>
          (case reactivate_alias_in_tx r k v db of
             Inl e \<Rightarrow> Inl (IdentityPersistence e)
           | Inr (_, db') \<Rightarrow> Inr ((), db')))"

definition record_alias :: "uuid \<Rightarrow> alias_kind \<Rightarrow> string \<Rightarrow> (identity_error, unit) io" where
  "record_alias r k v = transact_with IdentityPersistence (record_alias_tx r k v)"

definition resolve_alias :: "alias_kind \<Rightarrow> string \<Rightarrow> catalog \<Rightarrow> uuid option" where
  "resolve_alias k v db =
     map_option alias_repo
       (max_by (\<lambda>a. (is_live a, alias_created a)) (filter (names_alias k v) (aliases db)))"

text \<open>
  The two halves of \<open>apply_alias_observation\<close>: the observed value becomes the live alias of the
  repository, then a differing superseded value is retired.
\<close>

definition claim_observed_alias ::
    "uuid \<Rightarrow> alias_kind \<Rightarrow> string \<Rightarrow> catalog \<Rightarrow> (identity_error, uuid \<times> catalog) result" where
  "claim_observed_alias r k observed db =
     (case active_alias_holder_in_tx k observed db of
        Some (a, holder) \<Rightarrow> if holder \<noteq> r then Inl LiveAliasConflict else Inr (a, db)
      | None \<Rightarrow>
          (case reactivate_alias_in_tx r k observed db of
             Inl e \<Rightarrow> Inl (IdentityPersistence e)
           | Inr ok \<Rightarrow> Inr ok))"

definition retire_superseded ::
    "alias_kind \<Rightarrow> string option \<Rightarrow> string \<Rightarrow> uuid \<Rightarrow> catalog \<Rightarrow> catalog" where
  "retire_superseded k superseded observed a db =
     (case superseded of
        Some old \<Rightarrow> if old \<noteq> observed then supersede_alias_in_tx k old a db else db
      | None \<Rightarrow> db)"

definition apply_alias_observation_tx ::
    "int \<Rightarrow> alias_kind \<Rightarrow> string option \<Rightarrow> string \<Rightarrow> catalog \<Rightarrow>
     (identity_error, repository_identity \<times> catalog) result" where
  "apply_alias_observation_tx p k superseded observed db =
     (case upsert_repository_in_tx p db of
        Inl e \<Rightarrow> Inl (IdentityPersistence e)
      | Inr (r, db1) \<Rightarrow>
          and_then (claim_observed_alias r k observed db1)
            (\<lambda>(a, db2). Inr (\<lparr>ri_repository_id = r\<rparr>,
                            retire_superseded k superseded observed a db2)))"

definition apply_alias_observation ::
    "int \<Rightarrow> alias_kind \<Rightarrow> string option \<Rightarrow> string \<Rightarrow> (identity_error, repository_identity) io" where
  "apply_alias_observation p k superseded observed =
     transact_with IdentityPersistence (apply_alias_observation_tx p k superseded observed)"

section \<open>Well-formedness\<close>

definition repos_ok :: "catalog \<Rightarrow> bool" where
  "repos_ok db \<longleftrightarrow>
     distinct (map repo_provider_id (repositories db)) \<and>
     distinct (map repo_id (repositories db)) \<and>
     (\<forall>r\<in>set (repositories db). repo_id r < next_uuid db)"

definition alias_identity :: "alias_row \<Rightarrow> uuid \<times> alias_kind \<times> string" where
  "alias_identity a = (alias_repo a, alias_kind a, alias_value a)"

definition aliases_ok :: "catalog \<Rightarrow> bool" where
  "aliases_ok db \<longleftrightarrow>
     live_unique (aliases db) \<and>
     distinct (map alias_identity (aliases db)) \<and>
     distinct (map alias_id (aliases db)) \<and>
     (\<forall>a\<in>set (aliases db). alias_id a < next_uuid db \<and> alias_repo a \<in> repo_id ` set (repositories db))"

definition identity_ok :: "catalog \<Rightarrow> bool" where
  "identity_ok db \<longleftrightarrow> repos_ok db \<and> aliases_ok db"

section \<open>Creating or finding a repository\<close>

definition new_repo :: "int \<Rightarrow> catalog \<Rightarrow> repo_row" where
  "new_repo p db = \<lparr>repo_id = next_uuid db, repo_provider_id = p, repo_mode = None,
                    repo_updated_at = db_clock db\<rparr>"

lemma new_repo_simps [simp]:
  "repo_id (new_repo p db) = next_uuid db"
  "repo_provider_id (new_repo p db) = p"
  "repo_mode (new_repo p db) = None"
  by (simp_all add: new_repo_def)

lemma upsert_repository_in_tx_eq:
  "upsert_repository_in_tx p db =
     (case repo_by_provider db p of
        Some r \<Rightarrow> Inr (r, db\<lparr>next_uuid := Suc (next_uuid db)\<rparr>)
      | None \<Rightarrow>
          Inr (next_uuid db,
            db\<lparr>next_uuid := Suc (next_uuid db), repositories := repositories db @ [new_repo p db]\<rparr>))"
proof (cases "find_by repo_provider_id p (repositories db)")
  case None
  then have "p \<notin> repo_provider_id ` set (repositories db)" by (simp add: find_by_None)
  with None show ?thesis
    by (simp add: upsert_repository_in_tx_def fresh_uuid_def insert_ignore_def repo_by_provider_def
        find_by_append new_repo_def)
next
  case (Some r)
  then have "p \<in> repo_provider_id ` set (repositories db)" by (auto dest: find_by_SomeD)
  with Some show ?thesis
    by (simp add: upsert_repository_in_tx_def fresh_uuid_def insert_ignore_def repo_by_provider_def)
qed

lemma upsert_repository_total: "\<exists>r db'. upsert_repository_in_tx p db = Inr (r, db')"
  by (simp add: upsert_repository_in_tx_eq split: option.split)

lemma upsert_repository_lookup:
  "upsert_repository_in_tx p db = Inr (r, db') \<Longrightarrow>
     repo_by_provider db' q = (if q = p then Some r else repo_by_provider db q)"
  by (auto simp: upsert_repository_in_tx_eq repo_by_provider_def find_by_append new_repo_def
      split: option.splits)

lemma upsert_repository_found:
  "upsert_repository_in_tx p db = Inr (r, db') \<Longrightarrow> repo_by_provider db p = Some r0 \<Longrightarrow> r = r0"
  by (auto simp: upsert_repository_in_tx_eq)

text \<open>
  The interface the synchronization and mutation flows rely on: an operation that finds or
  creates an identity under a provider id, and the lookup it feeds.
\<close>

locale identity_store =
  fixes find_or_create :: "int \<Rightarrow> uuid tx" and known :: "catalog \<Rightarrow> int \<Rightarrow> uuid option"
  assumes total: "\<exists>r db'. find_or_create p db = Inr (r, db')"
    and lookup: "find_or_create p db = Inr (r, db') \<Longrightarrow>
      known db' q = (if q = p then Some r else known db q)"
    and found: "find_or_create p db = Inr (r, db') \<Longrightarrow> known db p = Some r0 \<Longrightarrow> r = r0"
begin

lemma keeps_known:
  "find_or_create p db = Inr (r, db') \<Longrightarrow> known db q = Some x \<Longrightarrow> known db' q = Some x"
  using lookup [of p db r db' q] found [of p db r db' x] by (auto split: if_splits)

lemma makes_known: "find_or_create p db = Inr (r, db') \<Longrightarrow> known db' p = Some r"
  by (simp add: lookup)

lemma again:
  assumes "find_or_create p db = Inr (r, db1)" and "find_or_create p db1 = Inr (r', db2)"
  shows "r' = r"
  using found [OF assms(2)] makes_known [OF assms(1)] by blast

end

interpretation repo_identity: identity_store upsert_repository_in_tx repo_by_provider
  by unfold_locales
    (auto simp: upsert_repository_total upsert_repository_lookup upsert_repository_found)

section \<open>What identity operations leave alone\<close>

text \<open>
  The authority over stars and lists, and the mode of every repository already known, is beyond
  the reach of identity handling: new repositories only arrive, unclassified.
\<close>

definition repos_grow :: "catalog \<Rightarrow> catalog \<Rightarrow> bool" where
  "repos_grow db db' \<longleftrightarrow>
     (\<exists>new. repositories db' = repositories db @ new \<and> (\<forall>r\<in>set new. repo_mode r = None))"

definition same_stars :: "catalog \<Rightarrow> catalog \<Rightarrow> bool" where
  "same_stars db db' \<longleftrightarrow>
     star_observations db' = star_observations db \<and> star_state db' = star_state db \<and>
     watermarks db' = watermarks db \<and> repairs db' = repairs db"

definition same_lists :: "catalog \<Rightarrow> catalog \<Rightarrow> bool" where
  "same_lists db db' \<longleftrightarrow>
     star_lists db' = star_lists db \<and> memberships db' = memberships db \<and>
     member_observations db' = member_observations db"

definition same_authority :: "catalog \<Rightarrow> catalog \<Rightarrow> bool" where
  "same_authority db db' \<longleftrightarrow> same_stars db db' \<and> same_lists db db' \<and> repos_grow db db'"

lemma repos_grow_refl [simp]: "repositories db' = repositories db \<Longrightarrow> repos_grow db db'"
  by (simp add: repos_grow_def)

lemma repos_grow_trans: "repos_grow a b \<Longrightarrow> repos_grow b c \<Longrightarrow> repos_grow a c"
  by (auto simp: repos_grow_def)

interpretation authority_frame: durable_relation same_authority
proof unfold_locales
  show "same_authority a b \<Longrightarrow> same_authority b c \<Longrightarrow> same_authority a c" for a b c
    by (auto simp: same_authority_def same_stars_def same_lists_def intro: repos_grow_trans)
qed (simp_all add: same_authority_def same_stars_def same_lists_def)

text \<open>The staging tables and the run bookkeeping, which identity handling leaves alone as well.\<close>

definition same_runs :: "catalog \<Rightarrow> catalog \<Rightarrow> bool" where
  "same_runs db db' \<longleftrightarrow>
     sync_runs db' = sync_runs db \<and> checkpoints db' = checkpoints db \<and>
     snapshot_items db' = snapshot_items db \<and> list_snapshot_items db' = list_snapshot_items db \<and>
     accounts db' = accounts db"

interpretation runs_frame: durable_relation same_runs
  by unfold_locales (auto simp: same_runs_def)

lemma upsert_repository_frame:
  assumes "upsert_repository_in_tx p db = Inr (r, db')"
  shows "same_authority db db'" and "same_runs db db'"
    and "aliases db' = aliases db" and "db_clock db' = db_clock db"
  using assms
  by (auto simp: upsert_repository_in_tx_eq same_authority_def same_stars_def same_lists_def
      repos_grow_def same_runs_def split: option.splits)

lemma reactivate_alias_frame:
  assumes "reactivate_alias_in_tx r k v db = Inr (a, db')"
  shows "same_authority db db'" and "same_runs db db'" and "repositories db' = repositories db"
    and "db_clock db' = db_clock db"
  using assms
  by (auto simp: reactivate_alias_in_tx_def put_aliases_def fresh_uuid_def same_authority_def
      same_stars_def same_lists_def same_runs_def split: option.splits if_splits)

lemma apply_alias_observation_parts:
  assumes "apply_alias_observation_tx p k s v db = Inr (i, db')"
  obtains r db1 a db2 where "upsert_repository_in_tx p db = Inr (r, db1)"
    and "claim_observed_alias r k v db1 = Inr (a, db2)"
    and "i = \<lparr>ri_repository_id = r\<rparr>"
    and "db' = retire_superseded k s v a db2"
  using assms
  by (auto simp: apply_alias_observation_tx_def and_then_eq_Inr split: sum.splits prod.splits)

lemma claim_observed_alias_cases:
  assumes "claim_observed_alias r k v db = Inr (a, db')"
  shows "active_alias_holder_in_tx k v db = Some (a, r) \<and> db' = db \<or>
         active_alias_holder_in_tx k v db = None \<and> reactivate_alias_in_tx r k v db = Inr (a, db')"
  using assms
  by (auto simp: claim_observed_alias_def split: option.splits sum.splits if_splits)

lemma claim_observed_alias_frame:
  assumes "claim_observed_alias r k v db = Inr (a, db')"
  shows "same_authority db db'" and "same_runs db db'" and "repositories db' = repositories db"
    and "db_clock db' = db_clock db"
  using claim_observed_alias_cases [OF assms] reactivate_alias_frame [of r k v db a db']
  by (auto intro: authority_frame.R_refl runs_frame.R_refl)

lemma retire_superseded_frame:
  "same_authority db (retire_superseded k s v a db)"
  "same_runs db (retire_superseded k s v a db)"
  "repositories (retire_superseded k s v a db) = repositories db"
  "next_uuid (retire_superseded k s v a db) = next_uuid db"
  "db_clock (retire_superseded k s v a db) = db_clock db"
  by (auto simp: retire_superseded_def supersede_alias_in_tx_def same_authority_def same_stars_def
      same_lists_def same_runs_def split: option.split)

lemma apply_alias_observation_frame:
  assumes "apply_alias_observation_tx p k s v db = Inr (i, db')"
  shows "same_authority db db'" and "same_runs db db'"
    and "repo_by_provider db' q = (if q = p then Some (ri_repository_id i) else repo_by_provider db q)"
    and "db_clock db' = db_clock db"
proof -
  obtain r db1 a db2 where up: "upsert_repository_in_tx p db = Inr (r, db1)"
    and claim: "claim_observed_alias r k v db1 = Inr (a, db2)"
    and i: "i = \<lparr>ri_repository_id = r\<rparr>"
    and db': "db' = retire_superseded k s v a db2"
    using apply_alias_observation_parts [OF assms] by blast
  note frames = upsert_repository_frame [OF up] claim_observed_alias_frame [OF claim]
    retire_superseded_frame [where db = db2 and k = k and s = s and v = v and a = a, folded db']
  show "same_authority db db'" and "same_runs db db'"
    using frames by (blast intro: authority_frame.R_trans runs_frame.R_trans)+
  show "repo_by_provider db' q = (if q = p then Some (ri_repository_id i) else repo_by_provider db q)"
    using upsert_repository_lookup [OF up, of q] frames i by (simp add: repo_by_provider_def)
  show "db_clock db' = db_clock db"
    using frames by simp
qed

lemma keeps_upsert_repository:
  "authority_frame.keeps (upsert_repository p)" "runs_frame.keeps (upsert_repository p)"
  unfolding upsert_repository_def
  by (rule authority_frame.keeps_transact runs_frame.keeps_transact,
      auto simp: and_then_eq_Inr dest: upsert_repository_frame)+

lemma keeps_apply_alias:
  "authority_frame.keeps (apply_alias_observation p k s v)"
  "runs_frame.keeps (apply_alias_observation p k s v)"
  unfolding apply_alias_observation_def
  by (rule authority_frame.keeps_transact_with runs_frame.keeps_transact_with,
      erule apply_alias_observation_frame)+

section \<open>The invariant of the alias table\<close>

lemma live_unique_eq:
  "live_unique t \<Longrightarrow> a \<in> set t \<Longrightarrow> b \<in> set t \<Longrightarrow> is_live a \<Longrightarrow> is_live b \<Longrightarrow>
     names_alias k v a \<Longrightarrow> names_alias k v b \<Longrightarrow> a = b"
  by (auto simp: live_unique_def distinct_map inj_on_def names_alias_def)

lemma holder_None:
  "active_alias_holder_in_tx k v db = None \<longleftrightarrow>
     (\<forall>a\<in>set (aliases db). names_alias k v a \<longrightarrow> \<not> is_live a)"
  by (auto simp: active_alias_holder_in_tx_def find_None_iff)

lemma holder_Some:
  assumes lu: "live_unique (aliases db)"
  shows "(active_alias_holder_in_tx k v db = Some (i, r)) =
       (\<exists>a\<in>set (aliases db). names_alias k v a \<and> is_live a \<and> alias_id a = i \<and> alias_repo a = r)"
proof
  assume "active_alias_holder_in_tx k v db = Some (i, r)"
  then show "\<exists>a\<in>set (aliases db). names_alias k v a \<and> is_live a \<and> alias_id a = i \<and> alias_repo a = r"
    by (auto simp: active_alias_holder_in_tx_def find_Some_iff)
next
  assume "\<exists>a\<in>set (aliases db). names_alias k v a \<and> is_live a \<and> alias_id a = i \<and> alias_repo a = r"
  then obtain a where a: "a \<in> set (aliases db)" "names_alias k v a" "is_live a" "alias_id a = i"
    "alias_repo a = r" by blast
  then obtain b where b: "find (\<lambda>a. names_alias k v a \<and> is_live a) (aliases db) = Some b"
    by (cases "find (\<lambda>a. names_alias k v a \<and> is_live a) (aliases db)") (auto simp: find_None_iff)
  then have "b \<in> set (aliases db)" "names_alias k v b" "is_live b"
    by (auto simp: find_Some_iff)
  with lu a have "a = b" by (blast intro: live_unique_eq)
  with a b show "active_alias_holder_in_tx k v db = Some (i, r)"
    by (simp add: active_alias_holder_in_tx_def)
qed

lemma live_unique_filter:
  "live_unique t \<Longrightarrow> (\<And>a. is_live (f a) \<Longrightarrow> is_live a) \<Longrightarrow>
     (\<And>a. alias_kind (f a) = alias_kind a \<and> alias_value (f a) = alias_value a) \<Longrightarrow>
     live_unique (map f t)"
proof (induction t)
  case (Cons a t)
  then have "live_unique (map f t)" by (auto simp: live_unique_def split: if_splits)
  with Cons.prems show ?case by (auto simp: live_unique_def)
qed (simp add: live_unique_def)

lemma upsert_repository_ok:
  assumes "upsert_repository_in_tx p db = Inr (r, db')" and "identity_ok db"
  shows "identity_ok db'" and "r \<in> repo_id ` set (repositories db')"
proof -
  show "identity_ok db'"
    using assms
    by (auto simp: upsert_repository_in_tx_eq identity_ok_def repos_ok_def aliases_ok_def
        repo_by_provider_def find_by_None less_SucI split: option.splits) blast
  show "r \<in> repo_id ` set (repositories db')"
    using assms(1)
    by (auto simp: upsert_repository_in_tx_eq repo_by_provider_def dest: find_by_SomeD
        split: option.splits)
qed

lemma reactivate_distinct_live:
  assumes "live_unique t" and "distinct (map alias_identity t)"
    and "\<forall>a\<in>set t. names_alias k v a \<longrightarrow> \<not> is_live a"
  shows "live_unique (update_where (dormant_alias r k v)
           (\<lambda>a. a\<lparr>alias_status := Active, alias_redirect := None\<rparr>) t)"
  using assms
proof (induction t)
  case (Cons x t)
  let ?f = "update_where (dormant_alias r k v) (\<lambda>a. a\<lparr>alias_status := Active, alias_redirect := None\<rparr>)"
  have IH: "live_unique (?f t)"
    using Cons by (auto simp: live_unique_def split: if_splits)
  show ?case
  proof (cases "dormant_alias r k v x")
    case True
    have "names_alias k v x" "alias_repo x = r" using True by (auto simp: dormant_alias_def)
    with Cons.prems(2) have "\<not> dormant_alias r k v a" if "a \<in> set t" for a
      using that by (auto simp: dormant_alias_def alias_identity_def names_alias_def rev_image_eqI)
    then have "?f t = t" by (rule update_where_none)
    with True IH Cons.prems(3) show ?thesis
      by (auto simp: live_unique_def update_where_def is_live_def dormant_alias_def names_alias_def)
  next
    case False
    show ?thesis
    proof (cases "is_live x")
      case True
      have "(alias_kind x, alias_value x) \<noteq> (k, v)"
        using Cons.prems(3) True by (auto simp: names_alias_def)
      moreover have "(alias_kind x, alias_value x) \<notin> (\<lambda>a. (alias_kind a, alias_value a)) ` set (filter is_live t)"
        using Cons.prems(1) True by (auto simp: live_unique_def)
      ultimately show ?thesis
        using IH False True
        by (auto simp: live_unique_def update_where_def dormant_alias_def names_alias_def)
    next
      case False
      with \<open>\<not> dormant_alias r k v x\<close> IH show ?thesis
        by (simp add: live_unique_def update_where_def)
    qed
  qed
qed (simp add: live_unique_def update_where_def)

lemma reactivate_alias_total:
  assumes "aliases_ok db" and "active_alias_holder_in_tx k v db = None"
  shows "\<exists>a db'. reactivate_alias_in_tx r k v db = Inr (a, db')"
proof (cases "find (dormant_alias r k v) (aliases db)")
  case None
  have "live_unique (aliases db @ [\<lparr>alias_id = next_uuid db, alias_repo = r, alias_kind = k,
      alias_value = v, alias_status = Active, alias_redirect = None, alias_created = db_clock db\<rparr>])"
    using assms by (auto simp: aliases_ok_def live_unique_def holder_None names_alias_def)
  with None show ?thesis
    by (simp add: reactivate_alias_in_tx_def fresh_uuid_def put_aliases_def)
next
  case (Some a)
  have "live_unique (update_where (dormant_alias r k v)
           (\<lambda>a. a\<lparr>alias_status := Active, alias_redirect := None\<rparr>) (aliases db))"
    using assms by (intro reactivate_distinct_live) (auto simp: aliases_ok_def holder_None)
  with Some show ?thesis by (simp add: reactivate_alias_in_tx_def put_aliases_def)
qed

lemma reactivate_alias_effect:
  assumes "reactivate_alias_in_tx r k v db = Inr (a, db')"
    and "identity_ok db" and "active_alias_holder_in_tx k v db = None"
    and "r \<in> repo_id ` set (repositories db)"
  shows "identity_ok db'" and "active_alias_holder_in_tx k v db' = Some (a, r)"
proof -
  have repos: "repositories db' = repositories db"
    using reactivate_alias_frame(3) [OF assms(1)] .
  have lu: "live_unique (aliases db')"
    using assms(1) by (auto simp: reactivate_alias_in_tx_def put_aliases_def fresh_uuid_def
        split: option.splits if_splits)
  have "identity_ok db' \<and> (\<exists>x\<in>set (aliases db'). names_alias k v x \<and> is_live x \<and>
      alias_id x = a \<and> alias_repo x = r)"
  proof (cases "find (dormant_alias r k v) (aliases db)")
    case None
    then have "(r, k, v) \<notin> alias_identity ` set (aliases db)"
      using assms(3)
      by (auto simp: find_None_iff dormant_alias_def holder_None alias_identity_def names_alias_def)
    with None assms lu repos show ?thesis
      by (auto simp: reactivate_alias_in_tx_def fresh_uuid_def put_aliases_def identity_ok_def
          repos_ok_def aliases_ok_def alias_identity_def names_alias_def is_live_def less_SucI
          split: if_splits) blast
  next
    case (Some x)
    then have x: "x \<in> set (aliases db)" "dormant_alias r k v x"
      by (auto simp: find_Some_iff)
    have keys: "map alias_identity (aliases db') = map alias_identity (aliases db)"
      "map alias_id (aliases db') = map alias_id (aliases db)"
      "map alias_repo (aliases db') = map alias_repo (aliases db)"
      using Some assms(1)
      by (auto simp: reactivate_alias_in_tx_def put_aliases_def map_update_where_key
          alias_identity_def split: if_splits)
    have up: "aliases db' = update_where (dormant_alias r k v)
        (\<lambda>a. a\<lparr>alias_status := Active, alias_redirect := None\<rparr>) (aliases db)"
      "a = alias_id x" "next_uuid db' = next_uuid db"
      using Some assms(1) by (auto simp: reactivate_alias_in_tx_def put_aliases_def split: if_splits)
    have "\<forall>y\<in>set (aliases db'). alias_id y < next_uuid db' \<and> alias_repo y \<in> repo_id ` set (repositories db')"
      using assms(2) repos up by (auto simp: set_update_where identity_ok_def aliases_ok_def)
    with assms(2) repos keys lu up(3) have "identity_ok db'"
      by (simp add: identity_ok_def repos_ok_def aliases_ok_def)
    moreover have "x\<lparr>alias_status := Active, alias_redirect := None\<rparr> \<in> set (aliases db')"
      using x up by (auto simp: set_update_where)
    ultimately show ?thesis
      using x(2) up(2)
      by (intro conjI bexI [of _ "x\<lparr>alias_status := Active, alias_redirect := None\<rparr>"])
        (auto simp: dormant_alias_def names_alias_def is_live_def)
  qed
  then show "identity_ok db'" and "active_alias_holder_in_tx k v db' = Some (a, r)"
    using lu by (auto simp: holder_Some)
qed

lemma claim_observed_alias_effect:
  assumes "claim_observed_alias r k v db = Inr (a, db')" and "identity_ok db"
    and "r \<in> repo_id ` set (repositories db)"
  shows "identity_ok db'" and "active_alias_holder_in_tx k v db' = Some (a, r)"
  using claim_observed_alias_cases [OF assms(1)] assms reactivate_alias_effect [of r k v db a db']
  by auto

lemma retire_superseded_effect:
  assumes "identity_ok db"
  shows "identity_ok (retire_superseded k s v a db)"
    and "active_alias_holder_in_tx k v db = Some (i, r) \<Longrightarrow>
         active_alias_holder_in_tx k v (retire_superseded k s v a db) = Some (i, r)"
    and "s = Some old \<Longrightarrow> old \<noteq> v \<Longrightarrow>
         active_alias_holder_in_tx k old (retire_superseded k s v a db) = None"
proof -
  let ?f = "\<lambda>old x. if names_alias k old x \<and> is_live x
      then x\<lparr>alias_status := Superseded, alias_redirect := Some a\<rparr> else x"
  have lu: "live_unique (aliases (retire_superseded k s v a db))"
    using assms
    by (auto simp: retire_superseded_def supersede_alias_in_tx_def update_where_def identity_ok_def
        aliases_ok_def is_live_def split: option.split if_splits intro!: live_unique_filter)
  have keys: "map alias_identity (aliases (retire_superseded k s v a db)) = map alias_identity (aliases db)"
    "map alias_id (aliases (retire_superseded k s v a db)) = map alias_id (aliases db)"
    by (auto simp: retire_superseded_def supersede_alias_in_tx_def map_update_where_key
        alias_identity_def split: option.split)
  have "\<forall>y\<in>set (aliases (retire_superseded k s v a db)).
      alias_id y < next_uuid db \<and> alias_repo y \<in> repo_id ` set (repositories db)"
    using assms
    by (auto simp: retire_superseded_def supersede_alias_in_tx_def set_update_where identity_ok_def
        aliases_ok_def split: option.splits if_splits)
  with assms lu keys show ok: "identity_ok (retire_superseded k s v a db)"
    by (simp add: identity_ok_def repos_ok_def aliases_ok_def retire_superseded_frame)
  show "active_alias_holder_in_tx k v (retire_superseded k s v a db) = Some (i, r)"
    if holder: "active_alias_holder_in_tx k v db = Some (i, r)"
  proof -
    have "live_unique (aliases db)" using assms by (simp add: identity_ok_def aliases_ok_def)
    then obtain x where "x \<in> set (aliases db)" "names_alias k v x" "is_live x" "alias_id x = i"
      "alias_repo x = r"
      using holder by (auto simp: holder_Some)
    then have "x \<in> set (aliases (retire_superseded k s v a db))"
      by (auto simp: retire_superseded_def supersede_alias_in_tx_def set_update_where names_alias_def
          split: option.split)
    with lu \<open>names_alias k v x\<close> \<open>is_live x\<close> \<open>alias_id x = i\<close> \<open>alias_repo x = r\<close>
    show ?thesis by (auto simp: holder_Some)
  qed
  show "active_alias_holder_in_tx k old (retire_superseded k s v a db) = None"
    if "s = Some old" and "old \<noteq> v"
    using that
    by (auto simp: holder_None retire_superseded_def supersede_alias_in_tx_def set_update_where
        is_live_def)
qed

lemma resolve_alias_live:
  assumes "live_unique (aliases db)" and "active_alias_holder_in_tx k v db = Some (i, r)"
  shows "resolve_alias k v db = Some r"
proof -
  let ?rows = "filter (names_alias k v) (aliases db)"
  let ?key = "\<lambda>a. (is_live a, alias_created a)"
  obtain x where x: "x \<in> set (aliases db)" "names_alias k v x" "is_live x" "alias_repo x = r"
    using assms by (auto simp: holder_Some)
  then obtain y where y: "max_by ?key ?rows = Some y"
    by (cases "max_by ?key ?rows") (auto simp: filter_empty_conv)
  have "?key x \<le> ?key y" by (rule max_by_ge [OF y]) (use x in simp)
  then have "is_live y" using x(3) by (auto simp: less_eq_prod_def)
  moreover have "y \<in> set (aliases db)" "names_alias k v y" using max_by_in [OF y] by auto
  ultimately have "x = y" using live_unique_eq [OF assms(1)] x by blast
  with y x show ?thesis by (simp add: resolve_alias_def)
qed

section \<open>Properties\<close>

text \<open>
  Finding or creating a repository is stable: afterwards the GitHub id resolves to the returned
  identity, a repository already known keeps its identity, and no other id is affected.
\<close>

theorem upsert_repository_stable:
  assumes "upsert_repository p w = (Inr i, w')"
  shows "repo_by_provider (w_db w) p \<in> {None, Some (ri_repository_id i)} \<and>
    (\<forall>q. repo_by_provider (w_db w') q =
      (if q = p then Some (ri_repository_id i) else repo_by_provider (w_db w) q))"
proof -
  obtain r where up: "upsert_repository_in_tx p (w_db w) = Inr (r, w_db w')"
    and i: "i = \<lparr>ri_repository_id = r\<rparr>"
    using assms transact_InrD unfolding upsert_repository_def
    by (fastforce simp: and_then_eq_Inr)
  show ?thesis
    using repo_identity.lookup [OF up] repo_identity.found [OF up] i
    by (cases "repo_by_provider (w_db w) p") auto
qed

definition idle_world :: "catalog \<Rightarrow> world" where
  "idle_world db = \<lparr>w_db = db, w_ledger = (\<lambda>_. None), w_clock = 0, w_faults = [], w_calls = 0\<rparr>"

lemma idle_world_simps [simp]:
  "w_db (idle_world db) = db" "w_ledger (idle_world db) = (\<lambda>_. None)"
  "w_clock (idle_world db) = 0" "w_faults (idle_world db) = []" "w_calls (idle_world db) = 0"
  by (simp_all add: idle_world_def)

theorem upsert_repository_stable_witness:
  "repo_by_provider (w_db (snd (upsert_repository 42 (idle_world empty_catalog)))) 42 = Some 0 \<and>
   repo_by_provider empty_catalog 42 \<in> {None, Some 0}"
proof -
  have "upsert_repository 42 (idle_world empty_catalog) =
      (Inr \<lparr>ri_repository_id = 0\<rparr>, snd (upsert_repository 42 (idle_world empty_catalog)))"
    by (simp add: upsert_repository_def transact_no_fault upsert_repository_in_tx_eq
        repo_by_provider_def empty_catalog_def)
  from upsert_repository_stable [OF this] show ?thesis by simp
qed

text \<open>
  C34. Alias evidence on a well-formed catalog either fails because another repository holds the
  observed value live, or leaves a well-formed catalog in which the observed value is live for and
  resolves to this repository and a superseded value is live for nobody. No unique index is ever
  violated on the way.
\<close>

theorem alias_observation_correct:
  assumes "identity_ok db"
  shows "case apply_alias_observation_tx p k s v db of
      Inl e \<Rightarrow> e = LiveAliasConflict \<and>
        (\<exists>a holder. active_alias_holder_in_tx k v db = Some (a, holder) \<and>
          repo_by_provider db p \<noteq> Some holder)
    | Inr (i, db') \<Rightarrow> identity_ok db' \<and>
        repo_by_provider db' p = Some (ri_repository_id i) \<and>
        resolve_alias k v db' = Some (ri_repository_id i) \<and>
        (\<exists>a. active_alias_holder_in_tx k v db' = Some (a, ri_repository_id i)) \<and>
        (\<forall>old. s = Some old \<and> old \<noteq> v \<longrightarrow> active_alias_holder_in_tx k old db' = None)"
proof -
  obtain r db1 where up: "upsert_repository_in_tx p db = Inr (r, db1)"
    using upsert_repository_total by blast
  note ok1 = upsert_repository_ok [OF up assms]
  have same: "active_alias_holder_in_tx k v db1 = active_alias_holder_in_tx k v db"
    using upsert_repository_frame(3) [OF up] by (simp add: active_alias_holder_in_tx_def)
  show ?thesis
  proof (cases "claim_observed_alias r k v db1")
    case (Inl e)
    have "\<exists>a holder. active_alias_holder_in_tx k v db1 = Some (a, holder) \<and> holder \<noteq> r \<and>
        e = LiveAliasConflict"
      using Inl reactivate_alias_total [of db1 k v r] ok1
      by (auto simp: claim_observed_alias_def identity_ok_def split: option.splits sum.splits if_splits)
    with Inl up same show ?thesis
      using repo_identity.found [OF up] by (auto simp: apply_alias_observation_tx_def)
  next
    case (Inr ok)
    then obtain a db2 where claim: "claim_observed_alias r k v db1 = Inr (a, db2)"
      by (cases ok) simp
    let ?db' = "retire_superseded k s v a db2"
    have tx: "apply_alias_observation_tx p k s v db = Inr (\<lparr>ri_repository_id = r\<rparr>, ?db')"
      using up claim by (simp add: apply_alias_observation_tx_def)
    note ok2 = claim_observed_alias_effect [OF claim ok1]
    have ok3: "identity_ok ?db'" using retire_superseded_effect(1) [OF ok2(1)] .
    have live: "active_alias_holder_in_tx k v ?db' = Some (a, r)"
      using retire_superseded_effect(2) [OF ok2] .
    have "resolve_alias k v ?db' = Some r"
      using ok3 live by (auto simp: identity_ok_def aliases_ok_def intro: resolve_alias_live)
    moreover have "active_alias_holder_in_tx k old ?db' = None" if "s = Some old" "old \<noteq> v" for old
      using retire_superseded_effect(3) [OF ok2(1) that] .
    ultimately show ?thesis
      using tx ok3 live apply_alias_observation_frame(3) [OF tx, of p] by auto
  qed
qed

theorem alias_observation_correct_witness:
  "identity_ok empty_catalog \<and>
   (\<exists>db'. apply_alias_observation_tx 42 OwnerName (Some ''old/name'') ''new/name'' empty_catalog =
      Inr (\<lparr>ri_repository_id = 0\<rparr>, db') \<and> resolve_alias OwnerName ''new/name'' db' = Some 0)"
proof -
  have ok: "identity_ok empty_catalog"
    by (simp add: identity_ok_def repos_ok_def aliases_ok_def live_unique_def empty_catalog_def)
  have "\<exists>db'. apply_alias_observation_tx 42 OwnerName (Some ''old/name'') ''new/name'' empty_catalog =
      Inr (\<lparr>ri_repository_id = 0\<rparr>, db')"
    by (simp add: apply_alias_observation_tx_def upsert_repository_in_tx_eq repo_by_provider_def
        claim_observed_alias_def active_alias_holder_in_tx_def reactivate_alias_in_tx_def
        fresh_uuid_def put_aliases_def live_unique_def is_live_def empty_catalog_def)
  with ok alias_observation_correct [OF ok, where p = 42 and k = OwnerName and
      s = "Some ''old/name''" and v = "''new/name''"]
  show ?thesis by auto
qed

fun alias_history ::
    "(timestamp \<times> int \<times> string option \<times> string) list \<Rightarrow> catalog \<Rightarrow>
     (identity_error, catalog) result" where
  "alias_history [] db = Inr db"
| "alias_history ((t, p, s, v) # es) db =
     and_then (apply_alias_observation_tx p OwnerName s v (db\<lparr>db_clock := t\<rparr>))
       (\<lambda>(_, db'). alias_history es db')"

text \<open>
  A name that returned to its first holder and was superseded again resolves to the other
  repository that once held it: re-activating an alias keeps its old creation time, which is what
  resolution of superseded history orders by. Repository 0 holds a/x, gives it up to repository 2,
  takes it back and is renamed to a/w; the name then redirects to repository 2.
\<close>

theorem superseded_alias_resolves_to_stale_holder:
  "case alias_history
       [(1, 10, None, ''a/x''), (2, 10, Some ''a/x'', ''a/y''),
        (3, 20, None, ''a/x''), (4, 20, Some ''a/x'', ''a/z''),
        (5, 10, Some ''a/y'', ''a/x''), (6, 10, Some ''a/x'', ''a/w'')] empty_catalog of
     Inl e \<Rightarrow> False
   | Inr db \<Rightarrow>
       repo_by_provider db 10 = Some 0 \<and> repo_by_provider db 20 = Some 4 \<and>
       resolve_alias OwnerName ''a/w'' db = Some 0 \<and>
       resolve_alias OwnerName ''a/x'' db = Some 4"
  by code_simp

end
