(* ===== verification/Rate_Limit.thy ===== *)
theory Rate_Limit
  imports Identity
begin

text \<open>
  The shared per-token rate-limit ledger (\<open>crates/catalog/src/rate_limit.rs\<close>). Instants are
  nanoseconds since the epoch. The mutex of the source serialises the operations, so each is one
  atomic function of the ledger; a poisoned lock is entered all the same and changes nothing.
\<close>

section \<open>Operations\<close>

definition reserve_floor :: int where "reserve_floor = 1"

record rate_limit_headers =
  rl_limit :: "int option"
  rl_remaining :: "int option"
  rl_reset_epoch_seconds :: "int option"
  rl_retry_after_seconds :: "int option"

definition no_headers :: rate_limit_headers where
  "no_headers = \<lparr>rl_limit = None, rl_remaining = None, rl_reset_epoch_seconds = None,
                 rl_retry_after_seconds = None\<rparr>"

datatype acquire_error = RateLimited (retry_at: int)

text \<open>The decrement of a release build wraps at the bottom of \<open>i64\<close>.\<close>

definition i64_pred :: "int \<Rightarrow> int" where
  "i64_pred n = (if n = i64_min then i64_max else n - 1)"

definition acquire :: "int \<Rightarrow> string \<Rightarrow> ledger \<Rightarrow> (acquire_error, unit) result \<times> ledger" where
  "acquire now tok l =
     (case l tok of
        None \<Rightarrow> (Inr (), l)
      | Some b \<Rightarrow>
          (case bk_cooldown b of
             Some until \<Rightarrow>
               if now < until then (Inl (RateLimited until), l)
               else if now < bk_reset_at b \<and> bk_remaining b \<le> reserve_floor
               then (Inl (RateLimited (bk_reset_at b)), l)
               else (Inr (), l(tok \<mapsto> b\<lparr>bk_remaining := i64_pred (bk_remaining b)\<rparr>))
           | None \<Rightarrow>
               if now < bk_reset_at b \<and> bk_remaining b \<le> reserve_floor
               then (Inl (RateLimited (bk_reset_at b)), l)
               else (Inr (), l(tok \<mapsto> b\<lparr>bk_remaining := i64_pred (bk_remaining b)\<rparr>))))"

definition nanos_per_second :: int where "nanos_per_second = 1000000000"

text \<open>
  \<open>SystemTime + Duration\<close>: the seconds of the result must fit \<open>i64\<close>, and the addition panics when
  they do not; \<open>None\<close> is that panic.
\<close>

definition system_time_add :: "int \<Rightarrow> int \<Rightarrow> int option" where
  "system_time_add t secs =
     (let u = t + secs * nanos_per_second in
      if u div nanos_per_second \<le> i64_max then Some u else None)"

definition fresh_bucket :: "int \<Rightarrow> bucket" where
  "fresh_bucket now = \<lparr>bk_remaining = i64_max, bk_reset_at = now, bk_cooldown = None\<rparr>"

definition observe_remaining :: "rate_limit_headers \<Rightarrow> bucket \<Rightarrow> bucket" where
  "observe_remaining h b =
     (case rl_remaining h of None \<Rightarrow> b | Some n \<Rightarrow> b\<lparr>bk_remaining := n\<rparr>)"

definition observe_reset :: "rate_limit_headers \<Rightarrow> bucket \<Rightarrow> bucket" where
  "observe_reset h b =
     (case rl_reset_epoch_seconds h of
        None \<Rightarrow> b
      | Some s \<Rightarrow> b\<lparr>bk_reset_at := max s 0 * nanos_per_second\<rparr>)"

text \<open>\<open>None\<close> is the panic of the cooldown computation.\<close>

definition observe :: "int \<Rightarrow> string \<Rightarrow> rate_limit_headers \<Rightarrow> ledger \<Rightarrow> ledger option" where
  "observe now tok h l =
     (let b = (case l tok of None \<Rightarrow> fresh_bucket now | Some b \<Rightarrow> b);
          b2 = observe_reset h (observe_remaining h b)
      in case rl_retry_after_seconds h of
           None \<Rightarrow> Some (l(tok \<mapsto> b2))
         | Some s \<Rightarrow>
             (case system_time_add now s of
                None \<Rightarrow> None
              | Some until \<Rightarrow> Some (l(tok \<mapsto> b2\<lparr>bk_cooldown := Some until\<rparr>))))"

definition remaining_of :: "string \<Rightarrow> ledger \<Rightarrow> int option" where
  "remaining_of tok l = map_option bk_remaining (l tok)"

section \<open>In the process\<close>

definition acquire_now :: "string \<Rightarrow> world \<Rightarrow> (acquire_error, unit) result \<times> world" where
  "acquire_now tok w =
     (let (r, l) = acquire (w_clock w) tok (w_ledger w) in (r, w\<lparr>w_ledger := l\<rparr>))"

definition observe_now :: "string \<Rightarrow> rate_limit_headers \<Rightarrow> world \<Rightarrow> world option" where
  "observe_now tok h w =
     map_option (\<lambda>l. w\<lparr>w_ledger := l\<rparr>) (observe (w_clock w) tok h (w_ledger w))"

text \<open>
  The two places a flow meets the ledger: a withheld budget returns from the flow with \<open>paused\<close>,
  and a recorded response goes on (or panics).
\<close>

definition budget_gate :: "string \<Rightarrow> (int \<Rightarrow> 'r) \<Rightarrow> ('r, unit) io" where
  "budget_gate tok paused w =
     (case acquire_now tok w of
        (Inl (RateLimited t), w') \<Rightarrow> (Inl (paused t), w')
      | (Inr _, w') \<Rightarrow> (Inr (), w'))"

definition budget_observe :: "string \<Rightarrow> rate_limit_headers \<Rightarrow> 'r \<Rightarrow> ('r, unit) io" where
  "budget_observe tok h panicked w =
     (case observe_now tok h w of None \<Rightarrow> (Inl panicked, w) | Some w' \<Rightarrow> (Inr (), w'))"

lemma acquire_now_db [simp]: "w_db (snd (acquire_now tok w)) = w_db w"
  by (simp add: acquire_now_def split: prod.split)

lemma acquire_now_faults [simp]: "w_faults (snd (acquire_now tok w)) = w_faults w"
  by (simp add: acquire_now_def split: prod.split)

lemma acquire_now_other:
  "acquire_now tok w = (r, w') \<Longrightarrow> w_db w' = w_db w \<and> w_faults w' = w_faults w \<and>
     w_clock w' = w_clock w \<and> w_calls w' = w_calls w"
  by (auto simp: acquire_now_def split: prod.splits)

lemma observe_now_db: "observe_now tok h w = Some w' \<Longrightarrow> w_db w' = w_db w \<and>
    w_faults w' = w_faults w \<and> w_clock w' = w_clock w \<and> w_calls w' = w_calls w"
  by (auto simp: observe_now_def)

lemma budget_gate_db [simp]: "w_db (snd (budget_gate tok p w)) = w_db w"
  by (auto simp: budget_gate_def split: prod.split sum.split acquire_error.split
      dest: acquire_now_other)

lemma budget_observe_db [simp]: "w_db (snd (budget_observe tok h p w)) = w_db w"
  by (auto simp: budget_observe_def split: option.split dest: observe_now_db)

lemma budget_observe_cases:
  assumes "budget_observe tok h bad w = (q, w')"
  obtains (fine) "q = Inr ()" "w_db w' = w_db w" | (panic) "q = Inl bad" "w_db w' = w_db w"
  using assms by (auto simp: budget_observe_def split: option.splits dest: observe_now_db)

context durable_relation
begin

lemma keeps_budget_gate: "keeps (budget_gate tok p)"
  by (rule keeps_same_db) simp

lemma keeps_budget_observe: "keeps (budget_observe tok h p)"
  by (rule keeps_same_db) simp

lemmas keeps_flow = keeps_intros keeps_budget_gate keeps_budget_observe

end

section \<open>Laws\<close>

lemma acquire_unknown: "l tok = None \<Longrightarrow> acquire now tok l = (Inr (), l)"
  by (simp add: acquire_def)

lemma acquire_refused_same: "acquire now tok l = (Inl e, l') \<Longrightarrow> l' = l"
  by (auto simp: acquire_def split: option.splits if_splits)

lemma acquire_other_token: "tok' \<noteq> tok \<Longrightarrow> snd (acquire now tok l) tok' = l tok'"
  by (auto simp: acquire_def split: option.splits)

lemma acquire_grant_bucket:
  "acquire now tok l = (Inr (), l') \<Longrightarrow> l tok = Some b \<Longrightarrow>
     l' = l(tok \<mapsto> b\<lparr>bk_remaining := i64_pred (bk_remaining b)\<rparr>) \<and>
     (bk_reset_at b \<le> now \<or> reserve_floor < bk_remaining b)"
  by (auto simp: acquire_def split: option.splits if_splits)

text \<open>Granting a series of requests at given instants; the result counts the grants.\<close>

fun acquire_many :: "int list \<Rightarrow> string \<Rightarrow> ledger \<Rightarrow> nat \<times> ledger" where
  "acquire_many [] tok l = (0, l)"
| "acquire_many (t # ts) tok l =
     (case acquire t tok l of
        (Inl _, l') \<Rightarrow> acquire_many ts tok l'
      | (Inr _, l') \<Rightarrow> (let (n, l'') = acquire_many ts tok l' in (Suc n, l'')))"

lemma acquire_many_floor:
  assumes "l tok = Some b" and "\<forall>t\<in>set ts. t < bk_reset_at b"
    and "reserve_floor \<le> bk_remaining b"
  shows "\<exists>b'. snd (acquire_many ts tok l) tok = Some b' \<and> bk_reset_at b' = bk_reset_at b \<and>
    reserve_floor \<le> bk_remaining b' \<and>
    bk_remaining b' = bk_remaining b - int (fst (acquire_many ts tok l))"
  using assms
proof (induction ts arbitrary: l b)
  case (Cons t ts)
  show ?case
  proof (cases "acquire t tok l")
    case (Pair r l')
    show ?thesis
    proof (cases r)
      case (Inl e)
      with Pair have "l' = l" by (auto dest: acquire_refused_same)
      with Cons Pair Inl show ?thesis by simp
    next
      case (Inr u)
      let ?b = "b\<lparr>bk_remaining := i64_pred (bk_remaining b)\<rparr>"
      have grant: "l' = l(tok \<mapsto> ?b)" "reserve_floor < bk_remaining b"
        using acquire_grant_bucket [of t tok l l' b] Pair Inr Cons.prems by auto
      then have pred: "i64_pred (bk_remaining b) = bk_remaining b - 1"
        by (auto simp: i64_pred_def i64_min_def reserve_floor_def)
      have "\<exists>b'. snd (acquire_many ts tok l') tok = Some b' \<and> bk_reset_at b' = bk_reset_at ?b \<and>
          reserve_floor \<le> bk_remaining b' \<and>
          bk_remaining b' = bk_remaining ?b - int (fst (acquire_many ts tok l'))"
        using Cons.prems grant pred by (intro Cons.IH) auto
      with Pair Inr pred show ?thesis
        by (auto split: prod.splits)
    qed
  qed
qed simp

section \<open>Properties\<close>

text \<open>
  A request is refused exactly when a cooldown is running or, before the provider's reset, the
  allowance is at the reserve floor; a refusal names an instant still to come and spends nothing,
  and no other token is affected.
\<close>

theorem acquire_decision:
  "case acquire now tok l of
     (Inl e, l') \<Rightarrow> l' = l \<and> now < retry_at e \<and>
       (\<exists>b. l tok = Some b \<and>
          (bk_cooldown b = Some (retry_at e) \<or>
           retry_at e = bk_reset_at b \<and> bk_remaining b \<le> reserve_floor))
   | (Inr u, l') \<Rightarrow> (\<lambda>t. if t = tok then None else l' t) = (\<lambda>t. if t = tok then None else l t) \<and>
       (case l tok of
          None \<Rightarrow> l' = l
        | Some b \<Rightarrow>
            remaining_of tok l' = Some (i64_pred (bk_remaining b)) \<and>
            (bk_cooldown b = None \<or> the (bk_cooldown b) \<le> now) \<and>
            (bk_reset_at b \<le> now \<or> reserve_floor < bk_remaining b))"
  by (auto simp: acquire_def remaining_of_def fun_eq_iff split: option.splits prod.splits sum.splits
      if_splits)



text \<open>
  Recording a response panics exactly when the provider's Retry-After takes the cooldown past
  the representable instants, which a header of a plain 64-bit number can do.
\<close>

theorem observe_panics_iff:
  "observe now tok h l = None \<longleftrightarrow>
     (\<exists>s. rl_retry_after_seconds h = Some s \<and>
        i64_max < (now + s * nanos_per_second) div nanos_per_second)"
  by (auto simp: observe_def Let_def system_time_add_def split: option.splits if_splits)

end
