(* ===== verification/Provider.thy ===== *)
theory Provider
  imports Rate_Limit
begin

text \<open>
  What the provider adapter hands to the flows (\<open>crates/catalog/src/provider.rs\<close>): normalised
  payloads, pages and classified failures, and the seam \<open>GithubApi\<close> as a record of functions from
  the number of the call and its arguments to an answer. GitHub itself is not code of the
  repository: every theorem holds for any such record.
\<close>

section \<open>Payloads\<close>

record owner_name =
  on_owner :: string
  on_name :: string

definition owner_name_text :: "owner_name \<Rightarrow> string" where
  "owner_name_text n = on_owner n @ ''/'' @ on_name n"

record provider_repository_body =
  pb_provider_repository_id :: int
  pb_full_name :: string
  pb_description :: "string option"
  pb_language :: "string option"
  pb_stargazers :: int
  pb_topics :: "string list"
  pb_default_branch :: "string option"
  pb_pushed_at :: "string option"

fun split_once :: "char \<Rightarrow> string \<Rightarrow> (string \<times> string) option" where
  "split_once c [] = None"
| "split_once c (x # xs) =
     (if x = c then Some ([], xs) else map_option (\<lambda>(a, b). (x # a, b)) (split_once c xs))"

definition body_owner_name :: "provider_repository_body \<Rightarrow> owner_name option" where
  "body_owner_name b =
     (case split_once (CHR ''/'') (pb_full_name b) of
        None \<Rightarrow> None
      | Some (owner, name) \<Rightarrow>
          if owner = [] \<or> name = [] then None else Some \<lparr>on_owner = owner, on_name = name\<rparr>)"

record starred_item =
  st_starred_at :: "string option"
  st_repo :: provider_repository_body

record listing_reply =
  lr_items :: "starred_item list"
  lr_rate_limit :: rate_limit_headers

record listed_repository =
  lp_provider_repository_id :: int
  lp_full_name :: string

record user_list_node =
  ul_provider_list_id :: string
  ul_name :: string
  ul_items_truncated :: bool
  ul_items :: "listed_repository list"

record user_lists_reply =
  ur_lists :: "user_list_node list"
  ur_next_cursor :: "string option"
  ur_rate_limit :: rate_limit_headers

section \<open>Failures\<close>

text \<open>A transport failure carries the text of the underlying library's error.\<close>

datatype provider_error =
    NotFound
  | Unauthorized
  | ContentTooLarge
  | Transport string
  | UnexpectedStatus nat

fun decimal_text :: "nat \<Rightarrow> string" where
  "decimal_text n =
     (if n < 10 then [char_of (48 + n)] else decimal_text (n div 10) @ [char_of (48 + n mod 10)])"

declare decimal_text.simps [simp del]

fun provider_error_text :: "provider_error \<Rightarrow> string" where
  "provider_error_text NotFound = ''the repository was not found''"
| "provider_error_text Unauthorized = ''access to the repository was denied''"
| "provider_error_text ContentTooLarge =
     ''the repository README exceeds the permitted acquisition size''"
| "provider_error_text (Transport e) = ''the provider exchange failed: '' @ e"
| "provider_error_text (UnexpectedStatus n) =
     ''the provider answered with an unexpected status: '' @ decimal_text n"

section \<open>The seam\<close>

record github_api =
  api_list_starred :: "nat \<Rightarrow> int \<Rightarrow> (provider_error, listing_reply) result answer"
  api_list_starred_newest_first :: "nat \<Rightarrow> int \<Rightarrow> (provider_error, listing_reply) result answer"
  api_list_user_lists ::
    "nat \<Rightarrow> string option \<Rightarrow> (provider_error, user_lists_reply) result answer"

section \<open>Laws\<close>

lemma split_once_join: "split_once c s = Some (a, b) \<Longrightarrow> s = a @ [c] @ b \<and> c \<notin> set a"
  by (induction s arbitrary: a) (auto split: if_splits)

lemma body_owner_name_text:
  "body_owner_name b = Some n \<Longrightarrow> owner_name_text n = pb_full_name b"
  by (auto simp: body_owner_name_def owner_name_text_def split: option.splits if_splits
      dest!: split_once_join)

section \<open>A provider with a fixed listing\<close>

text \<open>Pages are numbered from one; past the last page the listing is empty.\<close>

definition page_of :: "'a list list \<Rightarrow> int \<Rightarrow> 'a list" where
  "page_of pages p = (if 1 \<le> p \<and> nat p \<le> length pages then pages ! (nat p - 1) else [])"

definition paged_api :: "starred_item list list \<Rightarrow> github_api" where
  "paged_api pages =
     \<lparr>api_list_starred =
        (\<lambda>n p. Answer 1 (Inr \<lparr>lr_items = page_of pages p, lr_rate_limit = no_headers\<rparr>)),
      api_list_starred_newest_first =
        (\<lambda>n p. Answer 1 (Inr \<lparr>lr_items = page_of pages p, lr_rate_limit = no_headers\<rparr>)),
      api_list_user_lists =
        (\<lambda>n c. Answer 1 (Inr \<lparr>ur_lists = [], ur_next_cursor = None, ur_rate_limit = no_headers\<rparr>))\<rparr>"

lemma take_page:
  assumes "1 \<le> k" and "nat k \<le> length pages"
  shows "take (nat k) pages = take (nat (k - 1)) pages @ [page_of pages k]"
proof -
  obtain j where j: "k = int (Suc j)"
    using assms(1) by (intro that [of "nat (k - 1)"]) simp
  then have "nat k = Suc j" "nat (k - 1) = j" by simp_all
  with assms show ?thesis by (simp add: page_of_def take_Suc_conv_app_nth)
qed

lemma page_of_empty: "1 \<le> k \<Longrightarrow> [] \<notin> set pages \<Longrightarrow> page_of pages k = [] \<longleftrightarrow> int (length pages) < k"
  by (auto simp: page_of_def in_set_conv_nth)

end
