(* ===== verification/Snapshot.thy ===== *)
theory Snapshot
  imports Provider
begin

text \<open>
  The full star snapshot (\<open>crates/catalog/src/snapshot.rs\<close>): complete enumeration of the starred
  listing under the shared budget, staging of every page with its checkpoint, and the promotion of
  a completed enumeration to the sole star authority in one transaction.
\<close>

section \<open>Outcomes\<close>

datatype full_snapshot_outcome =
    FullCompleted uuid (full_pages: int) (full_items: int) (full_additions: int) (full_unstars: int)
  | FullPaused uuid int
  | FullFailed uuid

datatype snapshot_error =
    SnapIdentity identity_error
  | SnapPersistence sql_error
  | SnapProvider provider_error
  | SnapPanicked

section \<open>Opening or resuming a run\<close>

definition running_run :: "sync_mode \<Rightarrow> uuid \<Rightarrow> catalog \<Rightarrow> uuid option" where
  "running_run m acct db =
     map_option run_id
       (max_by (\<lambda>r. (run_started r, run_id r))
         (filter (\<lambda>r. run_account r = acct \<and> run_mode r = m \<and> run_status r = RunRunning)
           (sync_runs db)))"

definition latest_checkpoint :: "uuid \<Rightarrow> catalog \<Rightarrow> checkpoint_row option" where
  "latest_checkpoint run db =
     max_by (\<lambda>c. (cp_recorded c, cp_next_page c)) (filter (\<lambda>c. cp_run c = run) (checkpoints db))"

text \<open>A new run row; the reference to the account must not dangle.\<close>

definition insert_run :: "sync_mode \<Rightarrow> uuid \<Rightarrow> uuid tx" where
  "insert_run m acct db =
     (if acct \<in> acct_id ` set (accounts db) then
        (let (new_id, db1) = fresh_uuid db in
         Inr (new_id,
           db1\<lparr>sync_runs := sync_runs db1 @
             [\<lparr>run_id = new_id, run_account = acct, run_mode = m, run_status = RunRunning,
               run_failure = None, run_pages = 0, run_items = 0, run_additions = 0, run_unstars = 0,
               run_lists = 0, run_removals = 0, run_started = db_clock db1, run_finished = None\<rparr>]\<rparr>))
      else Inl ForeignKeyViolation)"

definition open_or_resume_full :: "uuid \<Rightarrow> (sql_error, uuid \<times> int) io" where
  "open_or_resume_full acct =
     io_bind (query (running_run ModeFull acct)) (\<lambda>existing.
       case existing of
         Some run \<Rightarrow>
           io_bind (query (\<lambda>db. map_option cp_next_page (latest_checkpoint run db))) (\<lambda>next_page.
             io_return (run, u32_or 1 (case next_page of None \<Rightarrow> 1 | Some p \<Rightarrow> p)))
       | None \<Rightarrow>
           io_bind (transact (insert_run ModeFull acct)) (\<lambda>run. io_return (run, 1)))"

section \<open>Recording a page\<close>

text \<open>\<open>cast\<close> stands for the database's cast of a text to \<open>timestamptz\<close>.\<close>

definition record_identity :: "int \<Rightarrow> string option \<Rightarrow> (snapshot_error, unit) io" where
  "record_identity p owner_name =
     io_bind (io_map_err SnapPersistence (upsert_repository p)) (\<lambda>_.
       case owner_name of
         Some n \<Rightarrow>
           io_bind (io_map_err SnapIdentity (apply_alias_observation p OwnerName None n)) (\<lambda>_.
             io_return ())
       | None \<Rightarrow> io_return ())"

definition item_provider_id :: "starred_item \<Rightarrow> int" where
  "item_provider_id i = pb_provider_repository_id (st_repo i)"

definition record_item_identity :: "starred_item \<Rightarrow> (snapshot_error, unit) io" where
  "record_item_identity i =
     record_identity (item_provider_id i) (map_option owner_name_text (body_owner_name (st_repo i)))"

definition next_position :: "int list \<Rightarrow> (sql_error, int) result" where
  "next_position ps =
     (let n = (case max_value ps of None \<Rightarrow> -1 | Some m \<Rightarrow> m) + 1 in
      if n \<le> i64_max then Inr n else Inl NumericOutOfRange)"

fun cast_optional :: "(string \<Rightarrow> timestamp option) \<Rightarrow> string option \<Rightarrow>
    (sql_error, timestamp option) result" where
  "cast_optional cast None = Inr None"
| "cast_optional cast (Some s) =
     (case cast s of None \<Rightarrow> Inl InvalidText | Some t \<Rightarrow> Inr (Some t))"

fun stage_items ::
    "(string \<Rightarrow> timestamp option) \<Rightarrow> uuid \<Rightarrow> int \<Rightarrow> nat \<Rightarrow> starred_item list \<Rightarrow> item_row list \<Rightarrow>
     (sql_error, item_row list) result" where
  "stage_items cast run base offset [] t = Inr t"
| "stage_items cast run base offset (i # is) t =
     and_then (cast_optional cast (st_starred_at i)) (\<lambda>at.
     and_then
       (insert_unique (\<lambda>r. (si_run r, si_position r))
          \<lparr>si_run = run, si_position = min (base + int offset) i64_max,
           si_repo = item_provider_id i, si_starred_at = at\<rparr> t)
       (stage_items cast run base (Suc offset) is))"

definition add_run_counts :: "uuid \<Rightarrow> int \<Rightarrow> int \<Rightarrow> int \<Rightarrow> catalog \<Rightarrow> (sql_error, catalog) result" where
  "add_run_counts run pages items nlists db =
     (if list_all (\<lambda>r. run_id r = run \<longrightarrow> run_pages r + pages \<le> i32_max \<and>
            run_items r + items \<le> i32_max \<and> run_lists r + nlists \<le> i32_max) (sync_runs db)
      then Inr (db\<lparr>sync_runs := update_where (\<lambda>r. run_id r = run)
             (\<lambda>r. r\<lparr>run_pages := run_pages r + pages, run_items := run_items r + items,
                    run_lists := run_lists r + nlists\<rparr>) (sync_runs db)\<rparr>)
      else Inl NumericOutOfRange)"

definition item_count_as_i32 :: "starred_item list \<Rightarrow> int" where
  "item_count_as_i32 items = sat_i32 (int (length items))"

definition stage_page ::
    "(string \<Rightarrow> timestamp option) \<Rightarrow> uuid \<Rightarrow> int \<Rightarrow> starred_item list \<Rightarrow> unit tx" where
  "stage_page cast run page items db =
     and_then (next_position (map si_position (filter (\<lambda>r. si_run r = run) (snapshot_items db))))
       (\<lambda>base.
     and_then (stage_items cast run base 0 items (snapshot_items db)) (\<lambda>staged.
     and_then
       (add_run_counts run 1 (item_count_as_i32 items) 0
         (db\<lparr>snapshot_items := staged,
             checkpoints := checkpoints db @
               [\<lparr>cp_run = run, cp_next_page = page + 1, cp_boundary = None, cp_cursor = None,
                 cp_recorded = db_clock db\<rparr>]\<rparr>))
       (\<lambda>db'. Inr ((), db'))))"

definition record_page ::
    "(string \<Rightarrow> timestamp option) \<Rightarrow> uuid \<Rightarrow> int \<Rightarrow> starred_item list \<Rightarrow> (snapshot_error, unit) io"
where
  "record_page cast run page items =
     io_bind (io_each record_item_identity items) (\<lambda>_.
       io_map_err SnapPersistence (transact (stage_page cast run page items)))"

section \<open>Ending a run\<close>

definition fail_run_tx :: "uuid \<Rightarrow> string \<Rightarrow> catalog \<Rightarrow> catalog" where
  "fail_run_tx run reason db =
     db\<lparr>sync_runs := update_where (\<lambda>r. run_id r = run \<and> run_status r = RunRunning)
           (\<lambda>r. r\<lparr>run_status := RunFailed, run_finished := Some (db_clock db),
                  run_failure := Some reason\<rparr>) (sync_runs db),
        snapshot_items := delete_where (\<lambda>r. si_run r = run) (snapshot_items db),
        list_snapshot_items := delete_where (\<lambda>r. li_run r = run) (list_snapshot_items db)\<rparr>"

definition fail_run :: "uuid \<Rightarrow> string \<Rightarrow> (sql_error, unit) io" where
  "fail_run run reason = transact (\<lambda>db. Inr ((), fail_run_tx run reason db))"

text \<open>The staged items of a run joined with the repositories they name.\<close>

definition staged :: "uuid \<Rightarrow> catalog \<Rightarrow> (item_row \<times> repo_row) list" where
  "staged run db =
     concat (map (\<lambda>i. map (Pair i) (filter (\<lambda>r. repo_provider_id r = si_repo i) (repositories db)))
       (filter (\<lambda>i. si_run i = run) (snapshot_items db)))"

definition staged_repo_ids :: "uuid \<Rightarrow> catalog \<Rightarrow> uuid list" where
  "staged_repo_ids run db = map (\<lambda>(i, r). repo_id r) (staged run db)"

definition count_additions :: "uuid \<Rightarrow> uuid \<Rightarrow> catalog \<Rightarrow> int" where
  "count_additions run acct db =
     sat_u32 (int (length (filter (\<lambda>(i, r).
       \<not> (\<exists>s\<in>set (star_state db). star_key s = (acct, repo_id r) \<and> ss_starred s)) (staged run db))))"

definition record_star_observations :: "uuid \<Rightarrow> uuid \<Rightarrow> catalog \<Rightarrow> (sql_error, catalog) result" where
  "record_star_observations run acct db =
     and_then
       (check_rows star_obs_check
          (map (\<lambda>(i, r). \<lparr>so_account = acct, so_repo = repo_id r, so_starred = True,
              so_provider_at = si_starred_at i, so_unknown = False, so_observed = db_clock db\<rparr>)
            (staged run db)))
       (\<lambda>rows. Inr (db\<lparr>star_observations := star_observations db @ rows\<rparr>))"

definition record_restore_repairs :: "uuid \<Rightarrow> uuid \<Rightarrow> catalog \<Rightarrow> catalog" where
  "record_restore_repairs run acct db =
     db\<lparr>repairs := fold
       (\<lambda>(i, r). if \<exists>s\<in>set (star_state db). star_key s = (acct, repo_id r) \<and> \<not> ss_starred s
          then insert_ignore repair_key
            \<lparr>rp_run = run, rp_repo = repo_id r, rp_action = RestoreAfterMiss,
             rp_recorded = db_clock db\<rparr>
          else id)
       (staged run db) (repairs db)\<rparr>"

definition promoted_row :: "uuid \<Rightarrow> uuid \<Rightarrow> timestamp \<Rightarrow> item_row \<times> repo_row \<Rightarrow> star_row" where
  "promoted_row run acct now = (\<lambda>(i, r).
     \<lparr>ss_account = acct, ss_repo = repo_id r, ss_starred = True, ss_starred_at = si_starred_at i,
      ss_unknown = False, ss_last = now, ss_unstarred = None, ss_evidence = Some run\<rparr>)"

definition promote_merge :: "star_row \<Rightarrow> star_row \<Rightarrow> star_row" where
  "promote_merge old new =
     old\<lparr>ss_starred := True,
         ss_starred_at := (case ss_starred_at old of None \<Rightarrow> ss_starred_at new | Some t \<Rightarrow> Some t),
         ss_unknown := False, ss_last := ss_last new, ss_unstarred := None,
         ss_evidence := ss_evidence new\<rparr>"

definition auto_if_unclassified :: "timestamp \<Rightarrow> repo_row \<Rightarrow> repo_row" where
  "auto_if_unclassified now r =
     (if repo_mode r = None then r\<lparr>repo_mode := Some Auto, repo_updated_at := now\<rparr> else r)"

definition promote_seen_repositories :: "uuid \<Rightarrow> uuid \<Rightarrow> catalog \<Rightarrow> (sql_error, catalog) result" where
  "promote_seen_repositories run acct db =
     and_then (check_rows star_check (map (promoted_row run acct (db_clock db)) (staged run db)))
       (\<lambda>rows.
     and_then (bulk_upsert star_key promote_merge rows (star_state db)) (\<lambda>stars.
       Inr (db\<lparr>star_state := stars,
               repositories := update_where
                 (\<lambda>r. \<exists>i\<in>set (snapshot_items db). si_run i = run \<and> si_repo i = repo_provider_id r)
                 (auto_if_unclassified (db_clock db)) (repositories db)\<rparr>)))"

definition unstar_row :: "uuid \<Rightarrow> timestamp \<Rightarrow> star_row \<Rightarrow> star_row" where
  "unstar_row run now s =
     s\<lparr>ss_starred := False, ss_unstarred := Some now, ss_evidence := Some run, ss_starred_at := None\<rparr>"

definition absent_star :: "uuid \<Rightarrow> uuid \<Rightarrow> catalog \<Rightarrow> star_row \<Rightarrow> bool" where
  "absent_star run acct db s \<longleftrightarrow>
     ss_account s = acct \<and> ss_starred s \<and> ss_repo s \<notin> set (staged_repo_ids run db)"

definition release_auto :: "timestamp \<Rightarrow> uuid \<Rightarrow> repo_row list \<Rightarrow> repo_row list" where
  "release_auto now r =
     update_where (\<lambda>x. repo_id x = r \<and> repo_mode x = Some Auto)
       (\<lambda>x. x\<lparr>repo_mode := None, repo_updated_at := now\<rparr>)"

definition record_unstar :: "uuid \<Rightarrow> uuid \<Rightarrow> uuid \<Rightarrow> catalog \<Rightarrow> catalog" where
  "record_unstar run acct r db =
     db\<lparr>star_observations := star_observations db @
          [\<lparr>so_account = acct, so_repo = r, so_starred = False, so_provider_at = None,
            so_unknown = False, so_observed = db_clock db\<rparr>],
        repairs := insert_ignore repair_key
          \<lparr>rp_run = run, rp_repo = r, rp_action = UnstarAfterDrift, rp_recorded = db_clock db\<rparr>
          (repairs db),
        repositories := release_auto (db_clock db) r (repositories db)\<rparr>"

definition unstar_absent_repositories :: "uuid \<Rightarrow> uuid \<Rightarrow> catalog \<Rightarrow> int \<times> catalog" where
  "unstar_absent_repositories run acct db =
     (let absent = map ss_repo (filter (absent_star run acct db) (star_state db));
          db1 = db\<lparr>star_state :=
            update_where (absent_star run acct db) (unstar_row run (db_clock db)) (star_state db)\<rparr>
      in (sat_u32 (int (length absent)), fold (record_unstar run acct) absent db1))"

definition watermark_merge :: "watermark_row \<Rightarrow> watermark_row \<Rightarrow> watermark_row" where
  "watermark_merge old new =
     old\<lparr>wm_mark := max (wm_mark old) (wm_mark new), wm_updated := wm_updated new\<rparr>"

definition raise_watermark :: "uuid \<Rightarrow> timestamp \<Rightarrow> catalog \<Rightarrow> catalog" where
  "raise_watermark acct mark db =
     db\<lparr>watermarks := upsert wm_account watermark_merge
       \<lparr>wm_account = acct, wm_mark = mark, wm_updated = db_clock db\<rparr> (watermarks db)\<rparr>"

definition reanchor_watermark :: "uuid \<Rightarrow> uuid \<Rightarrow> catalog \<Rightarrow> catalog" where
  "reanchor_watermark run acct db =
     (case max_value (List.map_filter si_starred_at
             (filter (\<lambda>i. si_run i = run) (snapshot_items db))) of
        None \<Rightarrow> db
      | Some newest \<Rightarrow> raise_watermark acct newest db)"

definition clear_staging :: "uuid \<Rightarrow> catalog \<Rightarrow> catalog" where
  "clear_staging run db =
     db\<lparr>snapshot_items := delete_where (\<lambda>i. si_run i = run) (snapshot_items db)\<rparr>"

definition complete_run_row :: "uuid \<Rightarrow> int \<Rightarrow> int \<Rightarrow> (int \<times> int) tx" where
  "complete_run_row run additions unstars db =
     (case find_by run_id run (sync_runs db) of
        None \<Rightarrow> Inl RowNotFound
      | Some r \<Rightarrow>
          Inr ((u32_or 0 (run_pages r), u32_or 0 (run_items r)),
            db\<lparr>sync_runs := update_where (\<lambda>x. run_id x = run)
              (\<lambda>x. x\<lparr>run_status := RunCompleted, run_finished := Some (db_clock db),
                     run_additions := sat_i32 additions, run_unstars := sat_i32 unstars\<rparr>)
              (sync_runs db)\<rparr>))"

definition apply_authority_tx :: "uuid \<Rightarrow> uuid \<Rightarrow> (int \<times> int \<times> int \<times> int) tx" where
  "apply_authority_tx run acct db =
     (let additions = count_additions run acct db in
      and_then (record_star_observations run acct db) (\<lambda>db1.
      and_then (promote_seen_repositories run acct (record_restore_repairs run acct db1)) (\<lambda>db2.
      let (unstars, db3) = unstar_absent_repositories run acct db2 in
      and_then
        (complete_run_row run additions unstars (clear_staging run (reanchor_watermark run acct db3)))
        (\<lambda>((pages, items), db4). Inr ((pages, items, additions, unstars), db4)))))"

definition apply_authority_and_complete ::
    "uuid \<Rightarrow> uuid \<Rightarrow> (sql_error, int \<times> int \<times> int \<times> int) io" where
  "apply_authority_and_complete run acct = transact (apply_authority_tx run acct)"

section \<open>The flow\<close>

definition snapshot_step ::
    "(string \<Rightarrow> timestamp option) \<Rightarrow> github_api \<Rightarrow> string \<Rightarrow> uuid \<Rightarrow> uuid \<Rightarrow> int \<Rightarrow>
     ((snapshot_error, full_snapshot_outcome) result, int) io" where
  "snapshot_step cast api tok acct run page =
     io_bind (budget_gate tok (\<lambda>t. Inr (FullPaused run t))) (\<lambda>_.
     io_bind (call (\<lambda>n. api_list_starred api n page)) (\<lambda>answer.
       case answer of
         Inl err \<Rightarrow>
           io_bind (io_map_err (\<lambda>e. Inl (SnapPersistence e)) (fail_run run (provider_error_text err)))
             (\<lambda>_. io_fail (Inr (FullFailed run)))
       | Inr reply \<Rightarrow>
           io_bind (budget_observe tok (lr_rate_limit reply) (Inl SnapPanicked)) (\<lambda>_.
           io_bind (io_map_err Inl (record_page cast run page (lr_items reply))) (\<lambda>_.
             if lr_items reply = [] then
               io_bind (io_map_err (\<lambda>e. Inl (SnapPersistence e)) (apply_authority_and_complete run acct))
                 (\<lambda>(pages, items, additions, unstars).
                    io_fail (Inr (FullCompleted run pages items additions unstars)))
             else io_return (wrap_u32 (page + 1))))))"

definition run_full_snapshot ::
    "(string \<Rightarrow> timestamp option) \<Rightarrow> github_api \<Rightarrow> string \<Rightarrow> uuid \<Rightarrow> nat \<Rightarrow> world \<Rightarrow>
     (snapshot_error, full_snapshot_outcome) result option \<times> world" where
  "run_full_snapshot cast api tok acct rounds w =
     (case open_or_resume_full acct w of
        (Inl e, w') \<Rightarrow> (Some (Inl (SnapPersistence e)), w')
      | (Inr (run, page), w') \<Rightarrow> run_loop rounds (snapshot_step cast api tok acct run) page w')"

end
