(* ===== verification/Snapshot_Frame.thy ===== *)
theory Snapshot_Frame
  imports Snapshot
begin

text \<open>
  What the pages of a full snapshot may touch: until the final transaction commits, star and list
  authority and every repository's mode stay as they were, whatever the provider answers and
  whatever transaction fails.
\<close>

section \<open>The pages\<close>

lemma keeps_record_identity:
  "authority_frame.keeps (record_identity p n)" "runs_frame.keeps (record_identity p n)"
  unfolding record_identity_def
  by (auto split: option.split intro!: authority_frame.keeps_intros runs_frame.keeps_intros
      keeps_upsert_repository keeps_apply_alias)

lemma add_run_counts_Inr:
  "add_run_counts run a b c db = Inr db' \<Longrightarrow>
     db' = db\<lparr>sync_runs := update_where (\<lambda>r. run_id r = run)
       (\<lambda>r. r\<lparr>run_pages := run_pages r + a, run_items := run_items r + b,
              run_lists := run_lists r + c\<rparr>) (sync_runs db)\<rparr>"
  by (simp add: add_run_counts_def split: if_splits)

lemma stage_page_Inr:
  assumes "stage_page cast run page items db = Inr (u, db')"
  obtains base t where
    "next_position (map si_position (filter (\<lambda>r. si_run r = run) (snapshot_items db))) = Inr base"
    "stage_items cast run base 0 items (snapshot_items db) = Inr t"
    "db' = db\<lparr>snapshot_items := t,
       checkpoints := checkpoints db @
         [\<lparr>cp_run = run, cp_next_page = page + 1, cp_boundary = None, cp_cursor = None,
           cp_recorded = db_clock db\<rparr>],
       sync_runs := update_where (\<lambda>r. run_id r = run)
         (\<lambda>r. r\<lparr>run_pages := run_pages r + 1, run_items := run_items r + item_count_as_i32 items,
                run_lists := run_lists r + 0\<rparr>) (sync_runs db)\<rparr>"
  using assms by (auto simp: stage_page_def and_then_eq_Inr dest!: add_run_counts_Inr)

lemma stage_page_authority:
  "stage_page cast run page items db = Inr (u, db') \<Longrightarrow> same_authority db db'"
  by (erule stage_page_Inr) (simp add: same_authority_def same_stars_def same_lists_def)

lemma keeps_record_page: "authority_frame.keeps (record_page cast run page items)"
  unfolding record_page_def record_item_identity_def
  by (auto intro!: authority_frame.keeps_intros keeps_record_identity authority_frame.keeps_transact
      stage_page_authority)

lemma keeps_fail_run: "authority_frame.keeps (fail_run run reason)"
  unfolding fail_run_def
  by (rule authority_frame.keeps_transact)
    (auto simp: fail_run_tx_def same_authority_def same_stars_def same_lists_def)

lemma insert_run_authority: "insert_run m acct db = Inr (run, db') \<Longrightarrow> same_authority db db'"
  by (auto simp: insert_run_def fresh_uuid_def same_authority_def same_stars_def same_lists_def
      split: if_splits)

lemma keeps_open_full: "authority_frame.keeps (open_or_resume_full acct)"
  unfolding open_or_resume_full_def
  by (auto split: option.split intro!: authority_frame.keeps_intros authority_frame.keeps_transact
      insert_run_authority)

section \<open>The whole flow\<close>

definition full_completed :: "(snapshot_error, full_snapshot_outcome) result \<Rightarrow> bool" where
  "full_completed r \<longleftrightarrow> (case r of Inr (FullCompleted _ _ _ _ _) \<Rightarrow> True | _ \<Rightarrow> False)"

lemma full_completed_iff:
  "full_completed r \<longleftrightarrow> (\<exists>run pages items additions unstars. r = Inr (FullCompleted run pages items additions unstars))"
proof (cases r)
  case (Inr oc)
  then show ?thesis by (cases oc) (simp_all add: full_completed_def)
qed (simp add: full_completed_def)

lemma snapshot_step_frame:
  "authority_frame.keeps_unless
     (\<lambda>r. case r of Inl x \<Rightarrow> full_completed x | Inr _ \<Rightarrow> False)
     (snapshot_step cast api tok acct run page)"
proof -
  have final: "authority_frame.keeps_unless
     (\<lambda>r. case r of Inl x \<Rightarrow> full_completed x | Inr _ \<Rightarrow> False)
     (io_bind (io_map_err (\<lambda>e. Inl (SnapPersistence e)) (apply_authority_and_complete run acct))
        (\<lambda>(pages, items, additions, unstars).
           io_fail (Inr (FullCompleted run pages items additions unstars))))"
    by (rule authority_frame.keeps_unless_commit)
      (auto simp: io_map_err_def io_fail_def full_completed_def apply_authority_and_complete_def
        split: prod.splits sum.splits dest: transact_InlD)
  have failed: "authority_frame.keeps_unless Q
     (io_bind (io_map_err (\<lambda>e. Inl (SnapPersistence e)) (fail_run run reason))
        (\<lambda>_. io_fail (Inr (FullFailed run))))" for Q reason
    by (intro authority_frame.keeps_unless_keeps authority_frame.keeps_flow keeps_fail_run)
  have turn: "authority_frame.keeps_unless Q (io_return x)" for Q x
    by (intro authority_frame.keeps_unless_keeps authority_frame.keeps_flow)
  show ?thesis
    unfolding snapshot_step_def
    by (intro final failed turn authority_frame.keeps_unless_intros authority_frame.keeps_flow
        keeps_record_page)
qed

lemma full_snapshot_frame:
  assumes "run_full_snapshot cast api tok acct rounds w = (r, w')"
  shows "(\<exists>x. r = Some x \<and> full_completed x) \<or> same_authority (w_db w) (w_db w')"
proof (cases "open_or_resume_full acct w")
  case (Pair q w1)
  have start: "same_authority (w_db w) (w_db w1)"
    using authority_frame.keepsD [OF keeps_open_full Pair] .
  show ?thesis
  proof (cases q)
    case (Inl e)
    with Pair start assms show ?thesis by (simp add: run_full_snapshot_def)
  next
    case (Inr rp)
    obtain run page where rp: "rp = (run, page)" by (cases rp)
    have loop: "run_loop rounds (snapshot_step cast api tok acct run) page w1 = (r, w')"
      using assms Pair Inr rp by (simp add: run_full_snapshot_def)
    have "(case r of Some x \<Rightarrow> full_completed x | None \<Rightarrow> False) \<or> same_authority (w_db w1) (w_db w')"
      by (rule authority_frame.run_loop_keeps_unless [OF snapshot_step_frame loop])
    with start show ?thesis by (auto split: option.splits intro: authority_frame.R_trans)
  qed
qed

text \<open>
  C3. The central rule of the catalog: whatever a full snapshot meets (pauses, provider failures,
  lost connections, an interruption between two pages), unless it reports completion no star, no
  star observation, no watermark, no drift repair, no list and no repository mode has changed.
\<close>

theorem partial_scan_proves_nothing:
  "case run_full_snapshot cast api tok acct rounds w of
     (r, w') \<Rightarrow> (\<exists>x. r = Some x \<and> full_completed x) \<or> same_authority (w_db w) (w_db w')"
  using full_snapshot_frame by (cases "run_full_snapshot cast api tok acct rounds w") simp

end
