(* ===== verification/Snapshot_Authority.thy ===== *)
theory Snapshot_Authority
  imports Snapshot_Frame
begin

text \<open>
  The authority swap of a completed full snapshot: what the final transaction does to the star
  projection, to the modes of the repositories, to the watermark and to the drift repairs.
\<close>

section \<open>The star table\<close>

lemma promote_merge_key [simp]: "star_key (promote_merge old new) = star_key old"
  by (simp add: promote_merge_def star_key_def)

interpretation star_table: keyed_table star_key promote_merge
  by unfold_locales simp

lemma watermark_merge_key [simp]: "wm_account (watermark_merge old new) = wm_account old"
  by (simp add: watermark_merge_def)

interpretation watermark_table: keyed_table wm_account watermark_merge
  by unfold_locales simp

text \<open>The primary key and the check constraints of \<open>current_star_state\<close>.\<close>

definition stars_ok :: "catalog \<Rightarrow> bool" where
  "stars_ok db \<longleftrightarrow> distinct (map star_key (star_state db)) \<and> list_all star_check (star_state db)"

lemma promote_merge_simps [simp]:
  "ss_starred (promote_merge old new)"
  "ss_unstarred (promote_merge old new) = None"
  "ss_starred_at (promote_merge old new) =
     (case ss_starred_at old of None \<Rightarrow> ss_starred_at new | Some t \<Rightarrow> Some t)"
  by (simp_all add: promote_merge_def)

lemma unstar_row_simps [simp]:
  "star_key (unstar_row run now s) = star_key s"
  "\<not> ss_starred (unstar_row run now s)"
  "ss_unstarred (unstar_row run now s) = Some now"
  "ss_repo (unstar_row run now s) = ss_repo s"
  by (simp_all add: unstar_row_def star_key_def)

lemma promoted_row_simps [simp]:
  "star_key (promoted_row run acct now (i, r)) = (acct, repo_id r)"
  "ss_starred (promoted_row run acct now (i, r))"
  "ss_starred_at (promoted_row run acct now (i, r)) = si_starred_at i"
  by (simp_all add: promoted_row_def star_key_def)

section \<open>The staged items\<close>

lemma set_staged:
  "set (staged run db) =
     {(i, r). i \<in> set (snapshot_items db) \<and> si_run i = run \<and> r \<in> set (repositories db) \<and>
              repo_provider_id r = si_repo i}"
  by (auto simp: staged_def)

lemma staged_cong:
  assumes "snapshot_items db' = snapshot_items db"
    and "repositories db' = map f (repositories db)"
    and "\<And>r. repo_id (f r) = repo_id r \<and> repo_provider_id (f r) = repo_provider_id r"
  shows "staged_repo_ids run db' = staged_repo_ids run db"
proof -
  have "map (\<lambda>(i, r). repo_id r) (map (Pair i) (filter (\<lambda>r. repo_provider_id r = p) (map f t))) =
      map (\<lambda>(i, r). repo_id r) (map (Pair i) (filter (\<lambda>r. repo_provider_id r = p) t))" for i p t
    using assms(3) by (induction t) auto
  with assms(1,2) show ?thesis
    by (simp add: staged_repo_ids_def staged_def map_concat comp_def)
qed

text \<open>With unique provider ids, every staged item joins at most one repository.\<close>

lemma staged_repo_ids_map:
  assumes "repos_ok db"
  shows "staged_repo_ids run db =
    List.map_filter (\<lambda>i. repo_by_provider db (si_repo i))
      (filter (\<lambda>i. si_run i = run) (snapshot_items db))"
proof -
  have "map repo_id (filter (\<lambda>r. repo_provider_id r = p) t) =
      (case find_by repo_provider_id p t of None \<Rightarrow> [] | Some r \<Rightarrow> [repo_id r])"
    if "distinct (map repo_provider_id t)" for p t
    using that
  proof (induction t)
    case (Cons r t)
    have "filter (\<lambda>r. repo_provider_id r = p) t = []" if "repo_provider_id r = p"
      using Cons.prems that by (auto simp: filter_empty_conv) (metis image_eqI)
    with Cons show ?case by auto
  qed simp
  from this [of "repositories db"] assms
  have one: "map repo_id (filter (\<lambda>r. repo_provider_id r = p) (repositories db)) =
      (case repo_by_provider db p of None \<Rightarrow> [] | Some x \<Rightarrow> [x])" for p
    by (auto simp: repos_ok_def repo_by_provider_def split: option.split)
  have "concat (map (\<lambda>i. map repo_id (filter (\<lambda>r. repo_provider_id r = si_repo i) (repositories db))) t)
      = List.map_filter (\<lambda>i. repo_by_provider db (si_repo i)) t" for t
    by (induction t) (auto simp: one map_filter_simps split: option.split)
  then show ?thesis
    by (simp add: staged_repo_ids_def staged_def map_concat comp_def)
qed

section \<open>The steps of the final transaction\<close>

lemma record_star_observations_Inr:
  "record_star_observations run acct db = Inr db' \<Longrightarrow>
     \<exists>rows. db' = db\<lparr>star_observations := star_observations db @ rows\<rparr> \<and>
       list_all star_obs_check rows \<and> map so_repo rows = staged_repo_ids run db"
  by (auto simp: record_star_observations_def and_then_eq_Inr check_rows_def staged_repo_ids_def
      case_prod_unfold split: if_splits)

lemma promote_seen_Inr:
  assumes "promote_seen_repositories run acct db = Inr db'"
  shows "distinct (staged_repo_ids run db)"
    and "list_all star_check (map (promoted_row run acct (db_clock db)) (staged run db))"
    and "db' = db\<lparr>star_state := fold (upsert star_key promote_merge)
               (map (promoted_row run acct (db_clock db)) (staged run db)) (star_state db),
             repositories := update_where
                 (\<lambda>r. \<exists>i\<in>set (snapshot_items db). si_run i = run \<and> si_repo i = repo_provider_id r)
                 (auto_if_unclassified (db_clock db)) (repositories db)\<rparr>"
proof -
  have keys: "map star_key (map (promoted_row run acct (db_clock db)) (staged run db)) =
      map (Pair acct) (staged_repo_ids run db)"
    by (auto simp: staged_repo_ids_def)
  have "distinct (map star_key (map (promoted_row run acct (db_clock db)) (staged run db)))"
    using assms
    by (auto simp: promote_seen_repositories_def and_then_eq_Inr check_rows_def
        star_table.bulk_upsert_Inr simp del: map_map split: if_splits)
  then show "distinct (staged_repo_ids run db)"
    unfolding keys by (simp add: distinct_map)
  show "list_all star_check (map (promoted_row run acct (db_clock db)) (staged run db))"
    using assms
    by (auto simp: promote_seen_repositories_def and_then_eq_Inr check_rows_def split: if_splits)
  show "db' = db\<lparr>star_state := fold (upsert star_key promote_merge)
               (map (promoted_row run acct (db_clock db)) (staged run db)) (star_state db),
             repositories := update_where
                 (\<lambda>r. \<exists>i\<in>set (snapshot_items db). si_run i = run \<and> si_repo i = repo_provider_id r)
                 (auto_if_unclassified (db_clock db)) (repositories db)\<rparr>"
    using assms
    by (auto simp: promote_seen_repositories_def and_then_eq_Inr check_rows_def
        star_table.bulk_upsert_Inr split: if_splits)
qed

lemma auto_if_unclassified_simps [simp]:
  "repo_id (auto_if_unclassified now r) = repo_id r"
  "repo_provider_id (auto_if_unclassified now r) = repo_provider_id r"
  "repo_mode (auto_if_unclassified now r) =
     (case repo_mode r of None \<Rightarrow> Some Auto | Some m \<Rightarrow> Some m)"
  by (auto simp: auto_if_unclassified_def split: option.split)

lemma fold_record_unstar_frame:
  "star_state (fold (record_unstar run acct) rs db) = star_state db"
  "snapshot_items (fold (record_unstar run acct) rs db) = snapshot_items db"
  "watermarks (fold (record_unstar run acct) rs db) = watermarks db"
  "sync_runs (fold (record_unstar run acct) rs db) = sync_runs db"
  "db_clock (fold (record_unstar run acct) rs db) = db_clock db"
  by (induction rs arbitrary: db) (simp_all add: record_unstar_def)

lemma fold_record_unstar_repos:
  "repositories (fold (record_unstar run acct) rs db) =
     fold (release_auto (db_clock db)) rs (repositories db)"
  by (induction rs arbitrary: db) (simp_all add: record_unstar_def)

lemma fold_record_unstar_observations:
  "star_observations (fold (record_unstar run acct) rs db) =
     star_observations db @ map (\<lambda>r. \<lparr>so_account = acct, so_repo = r, so_starred = False,
       so_provider_at = None, so_unknown = False, so_observed = db_clock db\<rparr>) rs"
  by (induction rs arbitrary: db) (simp_all add: record_unstar_def)

lemma reanchor_frame [simp]:
  "star_state (reanchor_watermark run acct db) = star_state db"
  "snapshot_items (reanchor_watermark run acct db) = snapshot_items db"
  "repositories (reanchor_watermark run acct db) = repositories db"
  "repairs (reanchor_watermark run acct db) = repairs db"
  "star_observations (reanchor_watermark run acct db) = star_observations db"
  "sync_runs (reanchor_watermark run acct db) = sync_runs db"
  by (simp_all add: reanchor_watermark_def raise_watermark_def split: option.split)

lemma reanchor_watermarks:
  "watermarks (reanchor_watermark run acct db) =
     (case max_value (List.map_filter si_starred_at
             (filter (\<lambda>i. si_run i = run) (snapshot_items db))) of
        None \<Rightarrow> watermarks db
      | Some newest \<Rightarrow> upsert wm_account watermark_merge
          \<lparr>wm_account = acct, wm_mark = newest, wm_updated = db_clock db\<rparr> (watermarks db))"
  by (auto simp: reanchor_watermark_def raise_watermark_def split: option.split)

lemma clear_staging_frame [simp]:
  "star_state (clear_staging run db) = star_state db"
  "repositories (clear_staging run db) = repositories db"
  "repairs (clear_staging run db) = repairs db"
  "star_observations (clear_staging run db) = star_observations db"
  "watermarks (clear_staging run db) = watermarks db"
  by (simp_all add: clear_staging_def)

lemma complete_run_row_Inr:
  "complete_run_row run a u db = Inr (pi, db') \<Longrightarrow>
     star_state db' = star_state db \<and> repositories db' = repositories db \<and>
     repairs db' = repairs db \<and> star_observations db' = star_observations db \<and>
     watermarks db' = watermarks db \<and> snapshot_items db' = snapshot_items db"
  by (auto simp: complete_run_row_def split: option.splits)

text \<open>The whole transaction, taken apart once for all proofs about it.\<close>

lemma apply_authority_parts:
  assumes "apply_authority_tx run acct db = Inr ((pages, items, additions, unstars), db')"
  obtains db1 db2 db3 where
    "record_star_observations run acct db = Inr db1"
    "promote_seen_repositories run acct (record_restore_repairs run acct db1) = Inr db2"
    "unstar_absent_repositories run acct db2 = (unstars, db3)"
    "additions = count_additions run acct db"
    "complete_run_row run additions unstars
       (clear_staging run (reanchor_watermark run acct db3)) = Inr ((pages, items), db')"
proof -
  obtain db1 db2 where 12: "record_star_observations run acct db = Inr db1"
    "promote_seen_repositories run acct (record_restore_repairs run acct db1) = Inr db2"
    and rest: "(case unstar_absent_repositories run acct db2 of (u, db3) \<Rightarrow>
       and_then (complete_run_row run (count_additions run acct db) u
         (clear_staging run (reanchor_watermark run acct db3)))
        (\<lambda>((pages, items), db4). Inr ((pages, items, count_additions run acct db, u), db4))) =
       Inr ((pages, items, additions, unstars), db')"
    using assms unfolding apply_authority_tx_def Let_def by (auto simp: and_then_eq_Inr)
  obtain u db3 where 3: "unstar_absent_repositories run acct db2 = (u, db3)"
    by (cases "unstar_absent_repositories run acct db2")
  with rest have "additions = count_additions run acct db" "u = unstars"
    "complete_run_row run additions unstars
       (clear_staging run (reanchor_watermark run acct db3)) = Inr ((pages, items), db')"
    by (auto simp: and_then_eq_Inr)
  with 12 3 that show ?thesis by blast
qed

lemma restore_repairs_frame [simp]:
  "star_state (record_restore_repairs run acct db) = star_state db"
  "snapshot_items (record_restore_repairs run acct db) = snapshot_items db"
  "repositories (record_restore_repairs run acct db) = repositories db"
  "star_observations (record_restore_repairs run acct db) = star_observations db"
  "watermarks (record_restore_repairs run acct db) = watermarks db"
  "db_clock (record_restore_repairs run acct db) = db_clock db"
  by (simp_all add: record_restore_repairs_def)

lemma record_star_observations_frame:
  assumes "record_star_observations run acct db = Inr db'"
  shows "star_state db' = star_state db" "snapshot_items db' = snapshot_items db"
    "repositories db' = repositories db" "watermarks db' = watermarks db"
    "db_clock db' = db_clock db" "repairs db' = repairs db"
  using record_star_observations_Inr [OF assms] by auto

lemma staged_same:
  assumes "snapshot_items db' = snapshot_items db" and "repositories db' = repositories db"
  shows "staged run db' = staged run db" and "staged_repo_ids run db' = staged_repo_ids run db"
  using assms by (simp_all add: staged_def staged_repo_ids_def)

text \<open>
  The effect of the transaction on the tables, without its intermediate catalogs: the staged rows
  are merged into the star table, what is then starred and not staged is unstarred.
\<close>

definition swapped_stars :: "uuid \<Rightarrow> uuid \<Rightarrow> catalog \<Rightarrow> star_row list" where
  "swapped_stars run acct db =
     update_where
       (\<lambda>s. ss_account s = acct \<and> ss_starred s \<and> ss_repo s \<notin> set (staged_repo_ids run db))
       (unstar_row run (db_clock db))
       (fold (upsert star_key promote_merge)
         (map (promoted_row run acct (db_clock db)) (staged run db)) (star_state db))"

definition promoted_repos :: "uuid \<Rightarrow> catalog \<Rightarrow> repo_row list" where
  "promoted_repos run db =
     update_where
       (\<lambda>r. \<exists>i\<in>set (snapshot_items db). si_run i = run \<and> si_repo i = repo_provider_id r)
       (auto_if_unclassified (db_clock db)) (repositories db)"

definition dropped_repos :: "uuid \<Rightarrow> uuid \<Rightarrow> catalog \<Rightarrow> uuid list" where
  "dropped_repos run acct db =
     map ss_repo (filter
       (\<lambda>s. ss_account s = acct \<and> ss_starred s \<and> ss_repo s \<notin> set (staged_repo_ids run db))
       (fold (upsert star_key promote_merge)
         (map (promoted_row run acct (db_clock db)) (staged run db)) (star_state db)))"

lemma apply_authority_effect:
  assumes "apply_authority_tx run acct db = Inr ((pages, items, additions, unstars), db')"
  shows "distinct (staged_repo_ids run db)"
    and "list_all star_check (map (promoted_row run acct (db_clock db)) (staged run db))"
    and "star_state db' = swapped_stars run acct db"
    and "repositories db' =
      fold (release_auto (db_clock db)) (dropped_repos run acct db) (promoted_repos run db)"
    and "watermarks db' = watermarks (reanchor_watermark run acct db)"
    and "additions = count_additions run acct db"
    and "unstars = sat_u32 (int (length (dropped_repos run acct db)))"
proof -
  obtain db1 db2 db3 where
    1: "record_star_observations run acct db = Inr db1" and
    2: "promote_seen_repositories run acct (record_restore_repairs run acct db1) = Inr db2" and
    3: "unstar_absent_repositories run acct db2 = (unstars, db3)" and
    add: "additions = count_additions run acct db" and
    4: "complete_run_row run additions unstars
       (clear_staging run (reanchor_watermark run acct db3)) = Inr ((pages, items), db')"
    using apply_authority_parts [OF assms] by blast
  let ?d = "record_restore_repairs run acct db1"
  note f1 = record_star_observations_frame [OF 1]
  note st = staged_same [of ?d db run]
  note p = promote_seen_Inr [OF 2]
  have ids: "staged_repo_ids run db2 = staged_repo_ids run db"
    by (rule staged_cong [where f = "\<lambda>r. if \<exists>i\<in>set (snapshot_items db). si_run i = run \<and>
          si_repo i = repo_provider_id r then auto_if_unclassified (db_clock db) r else r"])
      (simp_all add: p(3) f1 update_where_def)
  have absent: "absent_star run acct db2 =
      (\<lambda>s. ss_account s = acct \<and> ss_starred s \<and> ss_repo s \<notin> set (staged_repo_ids run db))"
    by (auto simp: absent_star_def ids)
  have db2: "star_state db2 = fold (upsert star_key promote_merge)
       (map (promoted_row run acct (db_clock db)) (staged run db)) (star_state db)"
    "repositories db2 = promoted_repos run db" "watermarks db2 = watermarks db"
    "snapshot_items db2 = snapshot_items db" "db_clock db2 = db_clock db"
    by (simp_all add: p(3) f1 st promoted_repos_def)
  have db3: "unstars = sat_u32 (int (length (dropped_repos run acct db)))"
    "star_state db3 = swapped_stars run acct db"
    "repositories db3 =
      fold (release_auto (db_clock db)) (dropped_repos run acct db) (promoted_repos run db)"
    "watermarks db3 = watermarks db" "snapshot_items db3 = snapshot_items db"
    "db_clock db3 = db_clock db"
    using 3
    by (auto simp: unstar_absent_repositories_def Let_def absent fold_record_unstar_frame
        fold_record_unstar_repos swapped_stars_def dropped_repos_def db2)
  note f4 = complete_run_row_Inr [OF 4]
  show "distinct (staged_repo_ids run db)" using p(1) st f1 by simp
  show "list_all star_check (map (promoted_row run acct (db_clock db)) (staged run db))"
    using p(2) st f1 by simp
  show "star_state db' = swapped_stars run acct db" using f4 db3 by simp
  show "repositories db' =
      fold (release_auto (db_clock db)) (dropped_repos run acct db) (promoted_repos run db)"
    using f4 db3 by simp
  show "watermarks db' = watermarks (reanchor_watermark run acct db)"
    using f4 by (simp add: reanchor_watermarks db3 split: option.split)
  show "additions = count_additions run acct db" by (rule add)
  show "unstars = sat_u32 (int (length (dropped_repos run acct db)))" using db3(1) .
qed

section \<open>The star of a repository after the swap\<close>

lemma find_staged_row:
  "find_by star_key (acct, x) (map (promoted_row run acct now) ps) =
     map_option (promoted_row run acct now) (find_by (\<lambda>(i, r). repo_id r) x ps)"
  by (induction ps) auto

lemma staged_find_None:
  "find_by (\<lambda>(i, r). repo_id r) x (staged run db) = None \<longleftrightarrow> x \<notin> set (staged_repo_ids run db)"
  by (auto simp: find_by_None staged_repo_ids_def)

lemma find_promoted_other:
  "a \<noteq> acct \<Longrightarrow> find_by star_key (a, x) (map (promoted_row run acct now) ps) = None"
  by (induction ps) auto

lemma swapped_star_of:
  assumes "distinct (staged_repo_ids run db)"
  shows "find_by star_key (a, x) (swapped_stars run acct db) =
    (if a = acct then
       (case find_by (\<lambda>(i, r). repo_id r) x (staged run db) of
          Some ir \<Rightarrow>
            Some (case star_of db acct x of
                    None \<Rightarrow> promoted_row run acct (db_clock db) ir
                  | Some old \<Rightarrow> promote_merge old (promoted_row run acct (db_clock db) ir))
        | None \<Rightarrow>
            map_option (\<lambda>s. if ss_starred s then unstar_row run (db_clock db) s else s)
              (star_of db acct x))
     else star_of db a x)"
proof -
  let ?rows = "map (promoted_row run acct (db_clock db)) (staged run db)"
  let ?t = "fold (upsert star_key promote_merge) ?rows (star_state db)"
  let ?p = "\<lambda>s. ss_account s = acct \<and> ss_starred s \<and> ss_repo s \<notin> set (staged_repo_ids run db)"
  have "map star_key ?rows = map (Pair acct) (staged_repo_ids run db)"
    by (auto simp: staged_repo_ids_def)
  with assms have dist: "distinct (map star_key ?rows)"
    by (simp add: distinct_map inj_on_def del: map_map)
  have upd: "find_by star_key (a, x) (swapped_stars run acct db) =
      map_option (\<lambda>s. if ?p s then unstar_row run (db_clock db) s else s)
        (find_by star_key (a, x) ?t)"
    unfolding swapped_stars_def by (rule find_by_update_where) simp
  have key: "ss_account s = a \<and> ss_repo s = x" if "find_by star_key (a, x) t = Some s" for s t
    using find_by_SomeD [OF that] by (simp add: star_key_def)
  have t: "find_by star_key (a, x) ?t =
      (case find_by star_key (a, x) ?rows of
         None \<Rightarrow> star_of db a x
       | Some row \<Rightarrow> Some (case star_of db a x of None \<Rightarrow> row | Some old \<Rightarrow> promote_merge old row))"
    unfolding star_of_def by (rule star_table.find_fold_upsert [OF dist])
  show ?thesis
  proof (cases "a = acct \<and> find_by (\<lambda>(i, r). repo_id r) x (staged run db) \<noteq> None")
    case True
    then obtain ir where ir: "find_by (\<lambda>(i, r). repo_id r) x (staged run db) = Some ir" by auto
    then have "x \<in> set (staged_repo_ids run db)" using staged_find_None [of x run db] by simp
    with True ir key [of ?t] t upd show ?thesis
      by (auto simp: find_staged_row split: option.splits)
  next
    case False
    then have "a \<noteq> acct \<or> find_by (\<lambda>(i, r). repo_id r) x (staged run db) = None" by blast
    then have "find_by star_key (a, x) ?rows = None"
      using find_promoted_other [of a acct x run "db_clock db" "staged run db"]
      by (cases "a = acct") (simp_all add: find_staged_row)
    with t upd have upd': "find_by star_key (a, x) (swapped_stars run acct db) =
        map_option (\<lambda>s. if ?p s then unstar_row run (db_clock db) s else s) (star_of db a x)"
      by simp
    have same: "ss_account s = a \<and> ss_repo s = x" if "star_of db a x = Some s" for s
      using key that by (simp add: star_of_def)
    show ?thesis
    proof (cases "a = acct")
      case True
      with False have "find_by (\<lambda>(i, r). repo_id r) x (staged run db) = None" by blast
      with True upd' same staged_find_None [of x run db] show ?thesis
        by (cases "star_of db a x") simp_all
    next
      case False
      with upd' same show ?thesis by (cases "star_of db a x") simp_all
    qed
  qed
qed

section \<open>Modes after the swap\<close>

lemma update_where_twice:
  "update_where q g (update_where p f t) =
     map (\<lambda>r. let r' = (if p r then f r else r) in if q r' then g r' else r') t"
  by (simp add: update_where_def Let_def)

definition mode_of :: "catalog \<Rightarrow> uuid \<Rightarrow> repo_governance option" where
  "mode_of db x = Option.bind (find_by repo_id x (repositories db)) repo_mode"

lemma fold_release_auto:
  "find_by repo_id x (fold (release_auto now) rs t) =
     map_option (\<lambda>r. if x \<in> set rs \<and> repo_mode r = Some Auto
       then r\<lparr>repo_mode := None, repo_updated_at := now\<rparr> else r) (find_by repo_id x t)"
proof (induction rs arbitrary: t)
  case (Cons y rs)
  have "find_by repo_id x (release_auto now y t) =
      map_option (\<lambda>r. if repo_id r = y \<and> repo_mode r = Some Auto
        then r\<lparr>repo_mode := None, repo_updated_at := now\<rparr> else r) (find_by repo_id x t)"
    unfolding release_auto_def by (rule find_by_update_where) simp
  with Cons show ?case
    by (cases "find_by repo_id x t") (auto dest: find_by_SomeD)
qed (simp add: option.map_ident)

lemma repo_seen_iff_staged:
  assumes "repos_ok db" and "find_by repo_id x (repositories db) = Some r"
  shows "(\<exists>i\<in>set (snapshot_items db). si_run i = run \<and> si_repo i = repo_provider_id r) \<longleftrightarrow>
    x \<in> set (staged_repo_ids run db)"
proof -
  have r: "r \<in> set (repositories db)" "repo_id r = x" using find_by_SomeD [OF assms(2)] by auto
  have one: "r' = r" if "r' \<in> set (repositories db)" "repo_id r' = x" for r'
    using assms(1) r that inj_onD [of repo_id "set (repositories db)" r' r]
    by (simp add: repos_ok_def distinct_map)
  have "x \<in> set (staged_repo_ids run db) \<longleftrightarrow> (\<exists>i r'. (i, r') \<in> set (staged run db) \<and> repo_id r' = x)"
    by (force simp: staged_repo_ids_def)
  also have "\<dots> \<longleftrightarrow> (\<exists>i. (i, r) \<in> set (staged run db))"
    using one r(2) unfolding set_staged by blast
  finally have "x \<in> set (staged_repo_ids run db) \<longleftrightarrow> (\<exists>i. (i, r) \<in> set (staged run db))" .
  with r show ?thesis by (auto simp: set_staged)
qed

lemma promoted_mode:
  assumes "repos_ok db"
  shows "find_by repo_id x (promoted_repos run db) =
    map_option (\<lambda>r. if x \<in> set (staged_repo_ids run db)
        then auto_if_unclassified (db_clock db) r else r) (find_by repo_id x (repositories db))"
proof -
  have "find_by repo_id x (promoted_repos run db) =
    map_option (\<lambda>r. if \<exists>i\<in>set (snapshot_items db). si_run i = run \<and> si_repo i = repo_provider_id r
        then auto_if_unclassified (db_clock db) r else r) (find_by repo_id x (repositories db))"
    unfolding promoted_repos_def by (rule find_by_update_where) simp
  with repo_seen_iff_staged [OF assms, of x _ run] show ?thesis
    by (cases "find_by repo_id x (repositories db)") auto
qed

lemma dropped_repos_iff:
  assumes "distinct (staged_repo_ids run db)" and "stars_ok db"
  shows "x \<in> set (dropped_repos run acct db) \<longleftrightarrow>
    is_starred db acct x \<and> x \<notin> set (staged_repo_ids run db)"
proof -
  let ?rows = "map (promoted_row run acct (db_clock db)) (staged run db)"
  let ?t = "fold (upsert star_key promote_merge) ?rows (star_state db)"
  have dist: "distinct (map star_key ?t)"
    using assms(2) by (intro star_table.distinct_fold_upsert) (simp add: stars_ok_def)
  have rows: "distinct (map star_key ?rows)"
    using assms(1) by (simp add: distinct_map staged_repo_ids_def comp_def case_prod_unfold
        promoted_row_def star_key_def inj_on_def)
  have in_t: "s \<in> set ?t \<and> ss_account s = acct \<and> ss_repo s = x \<longleftrightarrow>
      find_by star_key (acct, x) ?t = Some s" for s
    using find_by_unique [OF dist, of "(acct, x)" s] by (auto simp: star_key_def)
  have "find_by star_key (acct, x) ?t = star_of db acct x" if "x \<notin> set (staged_repo_ids run db)"
    using that star_table.find_fold_upsert [OF rows, of "(acct, x)" "star_state db"]
    by (simp add: find_staged_row star_of_def flip: staged_find_None)
  moreover have "x \<in> set (dropped_repos run acct db) \<longleftrightarrow>
      (\<exists>s. (s \<in> set ?t \<and> ss_account s = acct \<and> ss_repo s = x) \<and> ss_starred s) \<and>
      x \<notin> set (staged_repo_ids run db)"
    unfolding dropped_repos_def by auto
  ultimately show ?thesis
    unfolding in_t is_starred_def by (auto split: option.split)
qed

lemma dropped_repos_distinct:
  assumes "stars_ok db"
  shows "distinct (dropped_repos run acct db)"
proof -
  let ?t = "fold (upsert star_key promote_merge)
    (map (promoted_row run acct (db_clock db)) (staged run db)) (star_state db)"
  have "distinct (map star_key ?t)"
    using assms by (intro star_table.distinct_fold_upsert) (simp add: stars_ok_def)
  then have "inj_on star_key (set ?t)" "distinct ?t" by (simp_all add: distinct_map)
  then show ?thesis
    by (auto simp: dropped_repos_def distinct_map inj_on_def star_key_def)
qed

section \<open>The projection after the swap\<close>

lemma swapped_is_starred:
  assumes "distinct (staged_repo_ids run db)" and "star_state db' = swapped_stars run acct db"
  shows "is_starred db' acct x \<longleftrightarrow> x \<in> set (staged_repo_ids run db)"
proof (cases "find_by (\<lambda>(i, r). repo_id r) x (staged run db)")
  case None
  with swapped_star_of [OF assms(1), of acct x acct] staged_find_None [of x run db] show ?thesis
    by (cases "star_of db acct x") (simp_all add: is_starred_def star_of_def [of db'] assms(2))
next
  case (Some ir)
  with swapped_star_of [OF assms(1), of acct x acct] staged_find_None [of x run db] show ?thesis
    by (cases ir, cases "star_of db acct x")
      (simp_all add: is_starred_def star_of_def [of db'] assms(2))
qed

lemma promote_merge_check:
  "star_check (promoted_row run acct now ir) \<Longrightarrow> star_check (promote_merge old (promoted_row run acct now ir))"
  by (cases ir) (auto simp: star_check_def promoted_row_def split: option.split)

lemma swapped_stars_ok:
  assumes "stars_ok db" and "distinct (staged_repo_ids run db)"
    and "list_all star_check (map (promoted_row run acct (db_clock db)) (staged run db))"
  shows "distinct (map star_key (swapped_stars run acct db)) \<and>
    list_all star_check (swapped_stars run acct db)"
proof
  show dist: "distinct (map star_key (swapped_stars run acct db))"
    using assms(1) unfolding swapped_stars_def
    by (subst map_update_where_key) (auto simp: stars_ok_def intro: star_table.distinct_fold_upsert)
  have checked: "star_check s" if "star_of db a x = Some s" for a x s
    using assms(1) that by (auto simp: stars_ok_def star_of_def list_all_iff dest: find_by_SomeD)
  have promoted: "star_check (promoted_row run acct (db_clock db) ir)"
    if "find_by (\<lambda>(i, r). repo_id r) x (staged run db) = Some ir" for x ir
    using assms(3) find_by_SomeD [OF that] by (auto simp: list_all_iff)
  have "star_check s" if "s \<in> set (swapped_stars run acct db)" for s
  proof -
    have "find_by star_key (ss_account s, ss_repo s) (swapped_stars run acct db) = Some s"
      using that by (simp add: find_by_unique [OF dist] star_key_def)
    with swapped_star_of [OF assms(2), of "ss_account s" "ss_repo s" acct]
    consider ir where "find_by (\<lambda>(i, r). repo_id r) (ss_repo s) (staged run db) = Some ir"
        "s = promoted_row run acct (db_clock db) ir"
      | ir old where "find_by (\<lambda>(i, r). repo_id r) (ss_repo s) (staged run db) = Some ir"
        "s = promote_merge old (promoted_row run acct (db_clock db) ir)"
      | old where "s = unstar_row run (db_clock db) old"
      | a x where "star_of db a x = Some s"
      by (cases "star_of db (ss_account s) (ss_repo s)") (auto split: if_splits option.splits)
    then show ?thesis
      by cases (auto simp: promoted checked star_check_def [of "unstar_row _ _ _"]
          intro: promote_merge_check)
  qed
  then show "list_all star_check (swapped_stars run acct db)" by (simp add: list_all_iff)
qed

lemma count_additions_card:
  assumes "stars_ok db" and "distinct (staged_repo_ids run db)"
  shows "count_additions run acct db =
    sat_u32 (int (card {x \<in> set (staged_repo_ids run db). \<not> is_starred db acct x}))"
proof -
  have starred: "(\<exists>s\<in>set (star_state db). star_key s = (acct, x) \<and> ss_starred s) \<longleftrightarrow> is_starred db acct x"
    for x
  proof -
    have "s \<in> set (star_state db) \<and> star_key s = (acct, x) \<longleftrightarrow> star_of db acct x = Some s" for s
      using find_by_unique [of star_key "star_state db" "(acct, x)" s] assms(1)
      by (simp add: star_of_def stars_ok_def)
    then have "(\<exists>s\<in>set (star_state db). star_key s = (acct, x) \<and> ss_starred s) \<longleftrightarrow>
        (\<exists>s. star_of db acct x = Some s \<and> ss_starred s)" by blast
    then show ?thesis by (auto simp: is_starred_def split: option.split)
  qed
  have "length (filter (\<lambda>(i, r). \<not> is_starred db acct (repo_id r)) (staged run db)) =
      length (filter (\<lambda>x. \<not> is_starred db acct x) (staged_repo_ids run db))"
    by (simp add: staged_repo_ids_def filter_map comp_def case_prod_unfold)
  also have "\<dots> = card {x \<in> set (staged_repo_ids run db). \<not> is_starred db acct x}"
    using distinct_card [OF distinct_filter [OF assms(2)]] by (metis set_filter)
  finally show ?thesis by (simp add: count_additions_def starred)
qed

section \<open>Properties of the swap\<close>

text \<open>
  A committed authority swap makes the listing the truth: on a well-formed star table the
  repositories of the account then starred are exactly the staged ones, no other account is
  touched, the reported additions and unstars count the differences to the previous projection,
  and the table stays well-formed.
\<close>

theorem snapshot_swap_exact:
  assumes "stars_ok db"
    and "apply_authority_tx run acct db = Inr ((pages, items, additions, unstars), db')"
  shows "stars_ok db' \<and>
    {x. is_starred db' acct x} = set (staged_repo_ids run db) \<and>
    (\<forall>a x. a \<noteq> acct \<longrightarrow> star_of db' a x = star_of db a x) \<and>
    additions = sat_u32 (int (card (set (staged_repo_ids run db) - {x. is_starred db acct x}))) \<and>
    unstars = sat_u32 (int (card ({x. is_starred db acct x} - set (staged_repo_ids run db))))"
proof -
  note eff = apply_authority_effect [OF assms(2)]
  have "stars_ok db'"
    using swapped_stars_ok [OF assms(1) eff(1,2)] eff(3) by (simp add: stars_ok_def)
  moreover have "{x. is_starred db' acct x} = set (staged_repo_ids run db)"
    using swapped_is_starred [OF eff(1,3)] by blast
  moreover have "star_of db' a x = star_of db a x" if "a \<noteq> acct" for a x
    using swapped_star_of [OF eff(1), of a x acct] that eff(3) by (simp add: star_of_def)
  moreover have "set (dropped_repos run acct db) =
      {x. is_starred db acct x} - set (staged_repo_ids run db)"
    using dropped_repos_iff [OF eff(1) assms(1)] by blast
  then have "length (dropped_repos run acct db) =
      card ({x. is_starred db acct x} - set (staged_repo_ids run db))"
    using distinct_card [OF dropped_repos_distinct [OF assms(1)], of run acct] by simp
  moreover have "set (staged_repo_ids run db) - {x. is_starred db acct x} =
      {x \<in> set (staged_repo_ids run db). \<not> is_starred db acct x}" by blast
  ultimately show ?thesis
    using eff(6,7) count_additions_card [OF assms(1) eff(1), of acct] by simp
qed

text \<open>
  A catalog with a finished enumeration: account 7 had stars on the repositories 1 and 2 (the
  latter taken back), and its run 9 has staged the repositories 0 and 2.
\<close>

definition swap_example :: catalog where
  "swap_example = empty_catalog\<lparr>
     db_clock := 1000, next_uuid := 10,
     repositories :=
       [\<lparr>repo_id = 0, repo_provider_id = 100, repo_mode = None, repo_updated_at = 0\<rparr>,
        \<lparr>repo_id = 1, repo_provider_id = 101, repo_mode = Some Auto, repo_updated_at = 0\<rparr>,
        \<lparr>repo_id = 2, repo_provider_id = 102, repo_mode = Some Tracked, repo_updated_at = 0\<rparr>],
     sync_runs :=
       [\<lparr>run_id = 9, run_account = 7, run_mode = ModeFull, run_status = RunRunning,
         run_failure = None, run_pages = 2, run_items = 2, run_additions = 0, run_unstars = 0,
         run_lists = 0, run_removals = 0, run_started = 900, run_finished = None\<rparr>],
     snapshot_items :=
       [\<lparr>si_run = 9, si_position = 0, si_repo = 100, si_starred_at = Some 500\<rparr>,
        \<lparr>si_run = 9, si_position = 1, si_repo = 102, si_starred_at = Some 400\<rparr>],
     star_state :=
       [\<lparr>ss_account = 7, ss_repo = 1, ss_starred = True, ss_starred_at = Some 300,
         ss_unknown = False, ss_last = 800, ss_unstarred = None, ss_evidence = Some 3\<rparr>,
        \<lparr>ss_account = 7, ss_repo = 2, ss_starred = False, ss_starred_at = None,
         ss_unknown = False, ss_last = 700, ss_unstarred = Some 800, ss_evidence = Some 3\<rparr>]\<rparr>"

lemma swap_example_ok: "stars_ok swap_example" "repos_ok swap_example"
  by (simp_all add: stars_ok_def repos_ok_def swap_example_def star_key_def star_check_def)

lemma swap_example_staged: "staged_repo_ids 9 swap_example = [0, 2]"
  by code_simp

lemma swap_example_runs:
  obtains db' where "apply_authority_tx 9 7 swap_example = Inr ((2, 2, 2, 1), db')"
proof -
  have "case apply_authority_tx 9 7 swap_example of Inr (x, _) \<Rightarrow> x = (2, 2, 2, 1) | Inl _ \<Rightarrow> False"
    by code_simp
  then show ?thesis using that by (auto split: sum.splits)
qed

theorem snapshot_swap_exact_witness:
  "\<exists>db'. apply_authority_tx 9 7 swap_example = Inr ((2, 2, 2, 1), db') \<and>
     stars_ok db' \<and> {x. is_starred db' 7 x} = {0, 2}"
proof -
  obtain db' where run: "apply_authority_tx 9 7 swap_example = Inr ((2, 2, 2, 1), db')"
    by (rule swap_example_runs)
  from snapshot_swap_exact [OF swap_example_ok(1) run] run show ?thesis
    by (auto simp: swap_example_staged)
qed

text \<open>
  What the swap records for each repository: a confirmed star keeps the time the provider first
  gave for it, a new or returning star takes the listed time, and a star the listing no longer has
  is closed at the time of the swap; each carries the run as its evidence.
\<close>

theorem snapshot_swap_rows:
  assumes "apply_authority_tx run acct db = Inr (counts, db')"
  shows "case find_by (\<lambda>(i, r). repo_id r) x (staged run db) of
      Some (i, r) \<Rightarrow>
        (\<exists>s. star_of db' acct x = Some s \<and> ss_starred s \<and> ss_unstarred s = None \<and>
          ss_evidence s = Some run \<and> ss_last s = db_clock db \<and>
          ss_starred_at s = (case Option.bind (star_of db acct x) ss_starred_at of
             None \<Rightarrow> si_starred_at i | Some t \<Rightarrow> Some t))
    | None \<Rightarrow>
        (if is_starred db acct x
         then \<exists>s. star_of db' acct x = Some s \<and> \<not> ss_starred s \<and> ss_starred_at s = None \<and>
           ss_unstarred s = Some (db_clock db) \<and> ss_evidence s = Some run
         else star_of db' acct x = star_of db acct x)"
proof -
  obtain p i a u where "counts = (p, i, a, u)" by (cases counts)
  note eff = apply_authority_effect [OF assms [unfolded this]]
  have row: "star_of db' acct x =
      (case find_by (\<lambda>(i, r). repo_id r) x (staged run db) of
          Some ir \<Rightarrow>
            Some (case star_of db acct x of
                    None \<Rightarrow> promoted_row run acct (db_clock db) ir
                  | Some old \<Rightarrow> promote_merge old (promoted_row run acct (db_clock db) ir))
        | None \<Rightarrow>
            map_option (\<lambda>s. if ss_starred s then unstar_row run (db_clock db) s else s)
              (star_of db acct x))"
    using swapped_star_of [OF eff(1), of acct x acct] eff(3) by (simp add: star_of_def)
  show ?thesis
    by (cases "find_by (\<lambda>(i, r). repo_id r) x (staged run db)"; cases "star_of db acct x")
      (auto simp: row is_starred_def promoted_row_def promote_merge_def unstar_row_def
        split: option.split)
qed

theorem snapshot_swap_rows_witness:
  "\<exists>db' s. apply_authority_tx 9 7 swap_example = Inr ((2, 2, 2, 1), db') \<and>
     star_of db' 7 1 = Some s \<and> \<not> ss_starred s \<and> ss_unstarred s = Some 1000"
proof -
  obtain db' where run: "apply_authority_tx 9 7 swap_example = Inr ((2, 2, 2, 1), db')"
    by (rule swap_example_runs)
  have "find_by (\<lambda>(i, r). repo_id r) 1 (staged 9 swap_example) = None" "is_starred swap_example 7 1"
    "db_clock swap_example = 1000"
    by code_simp+
  with snapshot_swap_rows [OF run, of 1] run show ?thesis by auto
qed

text \<open>
  The swap never overrides an explicit mode: a listed repository becomes automatic only when
  nobody has classified it, and a repository that lost its star falls back to unclassified only
  when it was automatic.
\<close>

theorem snapshot_swap_modes:
  assumes "stars_ok db" and "repos_ok db"
    and "apply_authority_tx run acct db = Inr (counts, db')"
    and "x \<in> repo_id ` set (repositories db)"
  shows "mode_of db' x =
    (if x \<in> set (staged_repo_ids run db)
     then (case mode_of db x of None \<Rightarrow> Some Auto | Some m \<Rightarrow> Some m)
     else if is_starred db acct x \<and> mode_of db x = Some Auto then None
     else mode_of db x)"
proof -
  obtain p i a u where "counts = (p, i, a, u)" by (cases counts)
  note eff = apply_authority_effect [OF assms(3) [unfolded this]]
  obtain r where r: "find_by repo_id x (repositories db) = Some r"
    using assms(4) by (cases "find_by repo_id x (repositories db)") (auto simp: find_by_None)
  have "find_by repo_id x (repositories db') =
      map_option (\<lambda>r. if x \<in> set (dropped_repos run acct db) \<and> repo_mode r = Some Auto
        then r\<lparr>repo_mode := None, repo_updated_at := db_clock db\<rparr> else r)
        (find_by repo_id x (promoted_repos run db))"
    by (simp add: eff(4) fold_release_auto)
  with r promoted_mode [OF assms(2), of x run] dropped_repos_iff [OF eff(1) assms(1), of x acct]
  show ?thesis
    by (auto simp: mode_of_def split: option.split)
qed

theorem snapshot_swap_modes_witness:
  "\<exists>db'. apply_authority_tx 9 7 swap_example = Inr ((2, 2, 2, 1), db') \<and>
     mode_of db' 0 = Some Auto \<and> mode_of db' 1 = None \<and> mode_of db' 2 = Some Tracked"
proof -
  obtain db' where run: "apply_authority_tx 9 7 swap_example = Inr ((2, 2, 2, 1), db')"
    by (rule swap_example_runs)
  have known: "x \<in> repo_id ` set (repositories swap_example)" if "x < 3" for x
    using that by (auto simp: swap_example_def)
  have facts: "is_starred swap_example 7 1" "mode_of swap_example 0 = None"
    "mode_of swap_example 1 = Some Auto" "mode_of swap_example 2 = Some Tracked"
    by code_simp+
  show ?thesis
    using run facts snapshot_swap_modes [OF swap_example_ok run known]
    by (auto simp: swap_example_staged)
qed

text \<open>
  The swap re-anchors the account's watermark on the newest staged star and never moves it
  back; the watermarks of other accounts stay.
\<close>

theorem snapshot_swap_watermark:
  assumes "apply_authority_tx run acct db = Inr (counts, db')"
  shows "watermark_of db' a =
    (case max_value (List.map_filter si_starred_at (filter (\<lambda>i. si_run i = run) (snapshot_items db))) of
       Some newest \<Rightarrow>
         if a = acct
         then Some (case watermark_of db acct of None \<Rightarrow> newest | Some old \<Rightarrow> max old newest)
         else watermark_of db a
     | None \<Rightarrow> watermark_of db a)"
proof -
  obtain p i x u where "counts = (p, i, x, u)" by (cases counts)
  note eff = apply_authority_effect [OF assms [unfolded this]]
  show ?thesis
    unfolding watermark_of_def eff(5) reanchor_watermarks
    by (auto simp: watermark_table.find_upsert watermark_merge_def split: option.split)
qed

theorem snapshot_swap_watermark_witness:
  "\<exists>db'. apply_authority_tx 9 7 swap_example = Inr ((2, 2, 2, 1), db') \<and>
     watermark_of db' 7 = Some 500"
proof -
  obtain db' where run: "apply_authority_tx 9 7 swap_example = Inr ((2, 2, 2, 1), db')"
    by (rule swap_example_runs)
  have "max_value (List.map_filter si_starred_at
      (filter (\<lambda>i. si_run i = 9) (snapshot_items swap_example))) = Some 500"
    "watermark_of swap_example 7 = None"
    by code_simp+
  with snapshot_swap_watermark [OF run, of 7] run show ?thesis by simp
qed

text \<open>
  On a projection that already agrees with the staged listing nothing is left to repair.
\<close>

lemma converged_no_restore:
  assumes "stars_ok db" and "star_state db1 = star_state db" and "staged run db1 = staged run db"
    and "set (staged_repo_ids run db) \<subseteq> {x. is_starred db acct x}"
  shows "repairs (record_restore_repairs run acct db1) = repairs db1"
proof -
  have none: "\<not> (\<exists>s\<in>set (star_state db). star_key s = (acct, repo_id r) \<and> \<not> ss_starred s)"
    if "(i, r) \<in> set (staged run db)" for i r
  proof -
    have "repo_id r \<in> set (staged_repo_ids run db)"
      using that by (force simp: staged_repo_ids_def)
    then have "is_starred db acct (repo_id r)" using assms(4) by blast
    then obtain s where "find_by star_key (acct, repo_id r) (star_state db) = Some s" "ss_starred s"
      by (auto simp: is_starred_def star_of_def split: option.splits)
    moreover have "distinct (map star_key (star_state db))" using assms(1) by (simp add: stars_ok_def)
    ultimately show ?thesis by (metis find_by_unique option.inject)
  qed
  have "fold (\<lambda>(i, r). if \<exists>s\<in>set (star_state db). star_key s = (acct, repo_id r) \<and> \<not> ss_starred s
      then f r else id) ps t = t"
    if "set ps \<subseteq> set (staged run db)" for ps t and f :: "repo_row \<Rightarrow> repair_row list \<Rightarrow> repair_row list"
    using that none by (induction ps arbitrary: t) auto
  then show ?thesis
    by (simp add: record_restore_repairs_def assms(2,3))
qed

lemma apply_authority_repairs:
  assumes "apply_authority_tx run acct db = Inr (counts, db')" and "stars_ok db"
    and "{x. is_starred db acct x} = set (staged_repo_ids run db)"
  shows "repairs db' = repairs db"
proof -
  obtain p i a u where c: "counts = (p, i, a, u)" by (cases counts)
  note eff = apply_authority_effect [OF assms(1) [unfolded c]]
  obtain db1 db2 db3 where
    1: "record_star_observations run acct db = Inr db1" and
    2: "promote_seen_repositories run acct (record_restore_repairs run acct db1) = Inr db2" and
    3: "unstar_absent_repositories run acct db2 = (u, db3)" and
    4: "complete_run_row run a u
       (clear_staging run (reanchor_watermark run acct db3)) = Inr ((p, i), db')"
    using apply_authority_parts [OF assms(1) [unfolded c]] by blast
  note f1 = record_star_observations_frame [OF 1]
  note st = staged_same [of db1 db run, OF f1(2,3)]
  note p2 = promote_seen_Inr(3) [OF 2]
  have r2: "repairs db2 = repairs db"
    using converged_no_restore [OF assms(2) f1(1) st(1), of acct] assms(3) f1(6) by (simp add: p2)
  have star2: "star_state db2 = fold (upsert star_key promote_merge)
      (map (promoted_row run acct (db_clock db)) (staged run db)) (star_state db)"
    by (simp add: p2 f1 staged_same [of "record_restore_repairs run acct db1" db run])
  have ids: "staged_repo_ids run db2 = staged_repo_ids run db"
    by (rule staged_cong [where f = "\<lambda>r. if \<exists>i\<in>set (snapshot_items db). si_run i = run \<and>
          si_repo i = repo_provider_id r then auto_if_unclassified (db_clock db) r else r"])
      (simp_all add: p2 f1 update_where_def)
  have "map ss_repo (filter (absent_star run acct db2) (star_state db2)) = dropped_repos run acct db"
    by (simp add: dropped_repos_def star2 absent_star_def [abs_def] ids)
  moreover have "dropped_repos run acct db = []"
    using dropped_repos_iff [OF eff(1) assms(2)] assms(3) by (metis DiffD2 Diff_empty
        Diff_eq_empty_iff last_in_set mem_Collect_eq)
  ultimately have "filter (absent_star run acct db2) (star_state db2) = []" by simp
  then have "repairs db3 = repairs db2"
    using 3 by (auto simp: unstar_absent_repositories_def Let_def)
  with r2 complete_run_row_Inr [OF 4] show ?thesis by simp
qed

text \<open>
  Re-running a snapshot that finds what is already recorded is idle: no addition, no unstar
  and no drift repair is reported or recorded, and every star stays starred.
\<close>

theorem snapshot_swap_converged:
  assumes "stars_ok db" and "{x. is_starred db acct x} = set (staged_repo_ids run db)"
    and "apply_authority_tx run acct db = Inr ((pages, items, additions, unstars), db')"
  shows "additions = 0 \<and> unstars = 0 \<and> repairs db' = repairs db \<and>
    {x. is_starred db' acct x} = {x. is_starred db acct x}"
proof -
  note eff = apply_authority_effect [OF assms(3)]
  have "dropped_repos run acct db = []"
    using dropped_repos_iff [OF eff(1) assms(1), of _ acct] assms(2)
    by (cases "dropped_repos run acct db") auto
  moreover have none: "{x \<in> set (staged_repo_ids run db). \<not> is_starred db acct x} = {}"
    using assms(2) by auto
  ultimately have "additions = 0" "unstars = 0"
    using eff(6,7) count_additions_card [OF assms(1) eff(1), of acct, unfolded none]
    by (simp_all add: sat_u32_def u32_max_def)
  moreover have "{x. is_starred db' acct x} = {x. is_starred db acct x}"
    using swapped_is_starred [OF eff(1,3)] assms(2) by blast
  ultimately show ?thesis
    using apply_authority_repairs [OF assms(3,1,2)] by simp
qed

definition converged_example :: catalog where
  "converged_example = swap_example\<lparr>
     star_state :=
       [\<lparr>ss_account = 7, ss_repo = 0, ss_starred = True, ss_starred_at = Some 500,
         ss_unknown = False, ss_last = 800, ss_unstarred = None, ss_evidence = Some 3\<rparr>,
        \<lparr>ss_account = 7, ss_repo = 2, ss_starred = True, ss_starred_at = Some 400,
         ss_unknown = False, ss_last = 800, ss_unstarred = None, ss_evidence = Some 3\<rparr>]\<rparr>"

theorem snapshot_swap_converged_witness:
  "\<exists>db'. apply_authority_tx 9 7 converged_example = Inr ((2, 2, 0, 0), db') \<and>
     repairs db' = repairs converged_example"
proof -
  have ok: "stars_ok converged_example"
    by (simp add: stars_ok_def converged_example_def star_key_def star_check_def)
  have "staged_repo_ids 9 converged_example = [0, 2]" by code_simp
  then have same: "{x. is_starred converged_example 7 x} = set (staged_repo_ids 9 converged_example)"
    by (auto simp: is_starred_def star_of_def converged_example_def star_key_def)
  have "case apply_authority_tx 9 7 converged_example of Inr (x, _) \<Rightarrow> x = (2, 2, 0, 0) | Inl _ \<Rightarrow> False"
    by code_simp
  then obtain db' where run: "apply_authority_tx 9 7 converged_example = Inr ((2, 2, 0, 0), db')"
    by (auto split: sum.splits)
  with snapshot_swap_converged [OF ok same run] show ?thesis by blast
qed

end
