(* ===== verification/Incremental.thy ===== *)
theory Incremental
  imports Snapshot_Authority
begin

text \<open>
  The incremental star scan (\<open>crates/catalog/src/incremental.rs\<close>): pages of the newest stars are
  ingested down to the account's watermark, under a proof of the provider's ordering. A partial
  scan never removes a star; it falls back to a full snapshot when no watermark exists.
\<close>

section \<open>Outcomes\<close>

datatype incremental_scan_outcome =
    IncCompleted uuid int int
  | IncPaused uuid int
  | IncGapDetected uuid
  | IncFailed uuid
  | IncDeferredToFull full_snapshot_outcome

datatype incremental_scan_error =
    IncIdentity identity_error
  | IncPersistence sql_error
  | IncProvider provider_error
  | IncSnapshot snapshot_error
  | IncPanicked

definition gap_reason :: string where
  "gap_reason = ''starred_at ordering gap detected''"

section \<open>The ordering proof\<close>

text \<open>
  What the scan uses of the \<open>time\<close> library: parsing a text as RFC 3339 (or the text of the parse
  error), and the two renderings of instants that appear in failure reasons.
\<close>

record time_library =
  tl_parse :: "string \<Rightarrow> (string, timestamp) result"
  tl_display :: "timestamp \<Rightarrow> string"
  tl_debug :: "timestamp option \<Rightarrow> string"

fun order_proof ::
    "time_library \<Rightarrow> starred_item list \<Rightarrow> timestamp option \<Rightarrow>
     (string, (timestamp \<times> starred_item) list) result" where
  "order_proof lib [] previous = Inr []"
| "order_proof lib (item # items) previous =
     and_then
       (ok_or ''a listed item carries no starred_at, so its position cannot be proven''
         (st_starred_at item)) (\<lambda>raw.
     and_then
       (case tl_parse lib raw of
          Inl e \<Rightarrow> Inl (''a listed item's starred_at is unparsable: '' @ e)
        | Inr t \<Rightarrow> Inr t) (\<lambda>timestamp.
       if (case previous of Some seen \<Rightarrow> seen < timestamp | None \<Rightarrow> False)
       then Inl (''the listing increased in starred_at from '' @ tl_debug lib previous @ '' to '' @
              tl_display lib timestamp)
       else and_then (order_proof lib items (Some timestamp)) (\<lambda>parsed.
              Inr ((timestamp, item) # parsed))))"

section \<open>Opening or resuming a run\<close>

definition read_watermark :: "uuid \<Rightarrow> (sql_error, timestamp option) io" where
  "read_watermark acct = query (\<lambda>db. watermark_of db acct)"

definition open_or_resume_run :: "uuid \<Rightarrow> (sql_error, uuid \<times> int \<times> timestamp option) io" where
  "open_or_resume_run acct =
     io_bind (query (running_run ModeIncremental acct)) (\<lambda>existing.
       case existing of
         Some run \<Rightarrow>
           io_bind (query (latest_checkpoint run)) (\<lambda>checkpoint.
             case checkpoint of
               Some c \<Rightarrow> io_return (run, max (u32_or 1 (cp_next_page c)) 1, cp_boundary c)
             | None \<Rightarrow> io_return (run, 1, None))
       | None \<Rightarrow>
           io_bind (transact (insert_run ModeIncremental acct)) (\<lambda>run. io_return (run, 1, None)))"

section \<open>Ingesting a page\<close>

definition ingest_row :: "uuid \<Rightarrow> uuid \<Rightarrow> uuid \<Rightarrow> timestamp \<Rightarrow> timestamp \<Rightarrow> star_row" where
  "ingest_row run acct r seen_at now =
     \<lparr>ss_account = acct, ss_repo = r, ss_starred = True, ss_starred_at = Some seen_at,
      ss_unknown = False, ss_last = now, ss_unstarred = None, ss_evidence = Some run\<rparr>"

text \<open>Unlike the promotion by a snapshot, the conflict clause leaves the unknown-time flag alone.\<close>

definition ingest_merge :: "star_row \<Rightarrow> star_row \<Rightarrow> star_row" where
  "ingest_merge old new =
     old\<lparr>ss_starred := True,
         ss_starred_at := (case ss_starred_at old of None \<Rightarrow> ss_starred_at new | Some t \<Rightarrow> Some t),
         ss_last := ss_last new, ss_unstarred := None, ss_evidence := ss_evidence new\<rparr>"

definition record_ingest_tx :: "uuid \<Rightarrow> uuid \<Rightarrow> uuid \<Rightarrow> timestamp \<Rightarrow> unit tx" where
  "record_ingest_tx run acct r seen_at db =
     Inr ((), db\<lparr>
       star_observations := star_observations db @
         [\<lparr>so_account = acct, so_repo = r, so_starred = True, so_provider_at = Some seen_at,
           so_unknown = False, so_observed = db_clock db\<rparr>],
       star_state := upsert star_key ingest_merge
         (ingest_row run acct r seen_at (db_clock db)) (star_state db),
       repositories := update_where (\<lambda>x. repo_id x = r) (auto_if_unclassified (db_clock db))
         (repositories db)\<rparr>)"

definition record_ingest :: "uuid \<Rightarrow> uuid \<Rightarrow> uuid \<Rightarrow> timestamp \<Rightarrow> (sql_error, unit) io" where
  "record_ingest run acct r seen_at = transact (record_ingest_tx run acct r seen_at)"

text \<open>The owner/name of an item, when its body has one, is observed as an alias.\<close>

definition observe_owner_name :: "starred_item \<Rightarrow> (incremental_scan_error, unit) io" where
  "observe_owner_name item =
     (case body_owner_name (st_repo item) of
        Some n \<Rightarrow>
          io_bind (io_map_err IncIdentity
              (apply_alias_observation (item_provider_id item) OwnerName None (owner_name_text n)))
            (\<lambda>_. io_return ())
      | None \<Rightarrow> io_return ())"

definition ingest_item ::
    "uuid \<Rightarrow> uuid \<Rightarrow> timestamp \<times> starred_item \<Rightarrow> (incremental_scan_error, unit) io" where
  "ingest_item run acct = (\<lambda>(seen_at, item).
     io_bind (io_map_err IncPersistence (upsert_repository (item_provider_id item))) (\<lambda>identity.
     io_bind (observe_owner_name item) (\<lambda>_.
       io_map_err IncPersistence
         (record_ingest run acct (ri_repository_id identity) seen_at))))"

definition ingest_window ::
    "uuid \<Rightarrow> uuid \<Rightarrow> (timestamp \<times> starred_item) list \<Rightarrow> (incremental_scan_error, unit) io" where
  "ingest_window run acct window = io_each (ingest_item run acct) window"

definition counted_i32 :: "nat \<Rightarrow> int" where "counted_i32 n = sat_i32 (int n)"
definition counted_u32 :: "nat \<Rightarrow> int" where "counted_u32 n = sat_u32 (int n)"

definition record_incremental_page ::
    "uuid \<Rightarrow> int \<Rightarrow> int \<Rightarrow> timestamp option \<Rightarrow> (sql_error, unit) io" where
  "record_incremental_page run page ingested oldest_seen =
     transact (\<lambda>db.
       and_then
         (add_run_counts run 1 ingested 0
           (db\<lparr>checkpoints := checkpoints db @
                [\<lparr>cp_run = run, cp_next_page = page + 1, cp_boundary = oldest_seen,
                  cp_cursor = None, cp_recorded = db_clock db\<rparr>]\<rparr>))
         (\<lambda>db'. Inr ((), db')))"

section \<open>Completing a run\<close>

definition complete_run_tx :: "uuid \<Rightarrow> uuid \<Rightarrow> int \<Rightarrow> int \<Rightarrow> timestamp option \<Rightarrow> unit tx" where
  "complete_run_tx run acct page items oldest_ingested db =
     (let db1 = (case oldest_ingested of None \<Rightarrow> db | Some mark \<Rightarrow> raise_watermark acct mark db) in
      Inr ((), db1\<lparr>sync_runs := update_where (\<lambda>r. run_id r = run)
        (\<lambda>r. r\<lparr>run_status := RunCompleted, run_finished := Some (db_clock db1),
               run_pages := sat_i32 page, run_items := sat_i32 items\<rparr>) (sync_runs db1)\<rparr>))"

definition complete_run ::
    "uuid \<Rightarrow> uuid \<Rightarrow> int \<Rightarrow> int \<Rightarrow> timestamp option \<Rightarrow> (sql_error, unit) io" where
  "complete_run run acct page items oldest_ingested =
     transact (complete_run_tx run acct page items oldest_ingested)"

section \<open>The flow\<close>

record scan_state =
  sc_page :: int
  sc_oldest_seen :: "timestamp option"
  sc_items :: int
  sc_oldest_ingested :: "timestamp option"

definition oldest_of :: "timestamp option \<Rightarrow> (timestamp \<times> starred_item) list \<Rightarrow> timestamp option" where
  "oldest_of established entries =
     (if entries = [] then established
      else Some (case established of
             Some t \<Rightarrow> min t (fst (last entries))
           | None \<Rightarrow> fst (last entries)))"

definition newer_than :: "timestamp \<Rightarrow> (timestamp \<times> starred_item) list \<Rightarrow>
    (timestamp \<times> starred_item) list" where
  "newer_than watermark parsed = filter (\<lambda>entry. watermark < fst entry) parsed"

text \<open>One round of the loop after the reply has passed the ordering proof.\<close>

definition scan_page ::
    "uuid \<Rightarrow> uuid \<Rightarrow> timestamp \<Rightarrow> starred_item list \<Rightarrow> (timestamp \<times> starred_item) list \<Rightarrow> scan_state \<Rightarrow>
     ((incremental_scan_error, incremental_scan_outcome) result, scan_state) io" where
  "scan_page run acct watermark items parsed s =
     (let ingested = newer_than watermark parsed;
          coverage_proven = length ingested < length parsed;
          observed = wrap_u32 (sc_items s + counted_u32 (length ingested));
          oldest_ingested = oldest_of (sc_oldest_ingested s) ingested;
          oldest_seen = oldest_of (sc_oldest_seen s) parsed
      in
      io_bind (io_map_err Inl (ingest_window run acct ingested)) (\<lambda>_.
      io_bind (io_map_err (\<lambda>e. Inl (IncPersistence e))
          (record_incremental_page run (sc_page s) (counted_i32 (length ingested)) oldest_seen)) (\<lambda>_.
        if coverage_proven \<or> items = [] then
          io_bind (io_map_err (\<lambda>e. Inl (IncPersistence e))
              (complete_run run acct (sc_page s) observed oldest_ingested)) (\<lambda>_.
            io_fail (Inr (IncCompleted run (sc_page s) observed)))
        else
          io_return \<lparr>sc_page = wrap_u32 (sc_page s + 1), sc_oldest_seen = oldest_seen,
                     sc_items = observed, sc_oldest_ingested = oldest_ingested\<rparr>)))"

definition scan_step ::
    "time_library \<Rightarrow> github_api \<Rightarrow> string \<Rightarrow> uuid \<Rightarrow> timestamp \<Rightarrow> uuid \<Rightarrow> scan_state \<Rightarrow>
     ((incremental_scan_error, incremental_scan_outcome) result, scan_state) io" where
  "scan_step lib api tok acct watermark run s =
     io_bind (budget_gate tok (\<lambda>t. Inr (IncPaused run t))) (\<lambda>_.
     io_bind (call (\<lambda>n. api_list_starred_newest_first api n (sc_page s))) (\<lambda>answer.
       case answer of
         Inl err \<Rightarrow>
           io_bind (io_map_err (\<lambda>e. Inl (IncPersistence e)) (fail_run run (provider_error_text err)))
             (\<lambda>_. io_fail (Inr (IncFailed run)))
       | Inr reply \<Rightarrow>
           io_bind (budget_observe tok (lr_rate_limit reply) (Inl IncPanicked)) (\<lambda>_.
             case order_proof lib (lr_items reply) (sc_oldest_seen s) of
               Inl detail \<Rightarrow>
                 io_bind (io_map_err (\<lambda>e. Inl (IncPersistence e))
                     (fail_run run (gap_reason @ '': '' @ detail)))
                   (\<lambda>_. io_fail (Inr (IncGapDetected run)))
             | Inr parsed \<Rightarrow> scan_page run acct watermark (lr_items reply) parsed s)))"

definition run_incremental_scan ::
    "(string \<Rightarrow> timestamp option) \<Rightarrow> time_library \<Rightarrow> github_api \<Rightarrow> string \<Rightarrow> uuid \<Rightarrow> nat \<Rightarrow> world \<Rightarrow>
     (incremental_scan_error, incremental_scan_outcome) result option \<times> world" where
  "run_incremental_scan cast lib api tok acct rounds w =
     (case read_watermark acct w of
        (Inl e, w1) \<Rightarrow> (Some (Inl (IncPersistence e)), w1)
      | (Inr None, w1) \<Rightarrow>
          (case run_full_snapshot cast api tok acct rounds w1 of
             (r, w2) \<Rightarrow>
               (map_option (\<lambda>x. case x of
                  Inl e \<Rightarrow> Inl (IncSnapshot e) | Inr oc \<Rightarrow> Inr (IncDeferredToFull oc)) r, w2))
      | (Inr (Some watermark), w1) \<Rightarrow>
          (case open_or_resume_run acct w1 of
             (Inl e, w2) \<Rightarrow> (Some (Inl (IncPersistence e)), w2)
           | (Inr (run, page, oldest_seen), w2) \<Rightarrow>
               run_loop rounds (scan_step lib api tok acct watermark run)
                 \<lparr>sc_page = page, sc_oldest_seen = oldest_seen, sc_items = 0,
                  sc_oldest_ingested = None\<rparr> w2))"

section \<open>What a scan may change\<close>

text \<open>
  Star knowledge grows for one account: its stars stay starred with the time first established,
  only starred observations arrive, known repositories keep their identity and classified ones
  their mode, no watermark retreats, and neither other accounts nor lists nor repairs are touched.
\<close>

definition stars_grow :: "uuid \<Rightarrow> catalog \<Rightarrow> catalog \<Rightarrow> bool" where
  "stars_grow acct db db' \<longleftrightarrow>
     (\<forall>a x. a \<noteq> acct \<longrightarrow> star_of db' a x = star_of db a x) \<and>
     (\<forall>x s. star_of db acct x = Some s \<and> ss_starred s \<longrightarrow>
        (\<exists>s'. star_of db' acct x = Some s' \<and> ss_starred s' \<and>
          (ss_starred_at s = None \<or> ss_starred_at s' = ss_starred_at s))) \<and>
     (\<exists>new. star_observations db' = star_observations db @ new \<and>
        (\<forall>o'\<in>set new. so_starred o' \<and> so_account o' = acct)) \<and>
     (\<forall>a m. watermark_of db a = Some m \<longrightarrow> (\<exists>m'. watermark_of db' a = Some m' \<and> m \<le> m')) \<and>
     (\<forall>x m. mode_of db x = Some m \<longrightarrow> mode_of db' x = Some m) \<and>
     (\<forall>p x. repo_by_provider db p = Some x \<longrightarrow> repo_by_provider db' p = Some x) \<and>
     repairs db' = repairs db \<and> same_lists db db'"

lemma stars_growI:
  assumes "\<And>a x. a \<noteq> acct \<Longrightarrow> star_of db' a x = star_of db a x"
    and "\<And>x s. star_of db acct x = Some s \<Longrightarrow> ss_starred s \<Longrightarrow>
      \<exists>s'. star_of db' acct x = Some s' \<and> ss_starred s' \<and>
        (ss_starred_at s = None \<or> ss_starred_at s' = ss_starred_at s)"
    and "star_observations db' = star_observations db @ new"
    and "\<And>o'. o' \<in> set new \<Longrightarrow> so_starred o' \<and> so_account o' = acct"
    and "\<And>a m. watermark_of db a = Some m \<Longrightarrow> \<exists>m'. watermark_of db' a = Some m' \<and> m \<le> m'"
    and "\<And>x m. mode_of db x = Some m \<Longrightarrow> mode_of db' x = Some m"
    and "\<And>p x. repo_by_provider db p = Some x \<Longrightarrow> repo_by_provider db' p = Some x"
    and "repairs db' = repairs db" and "same_lists db db'"
  shows "stars_grow acct db db'"
  using assms unfolding stars_grow_def by blast

lemma stars_growD:
  assumes "stars_grow acct db db'"
  shows "a \<noteq> acct \<Longrightarrow> star_of db' a x = star_of db a x"
    and "star_of db acct x = Some s \<Longrightarrow> ss_starred s \<Longrightarrow>
      \<exists>s'. star_of db' acct x = Some s' \<and> ss_starred s' \<and>
        (ss_starred_at s = None \<or> ss_starred_at s' = ss_starred_at s)"
    and "\<exists>new. star_observations db' = star_observations db @ new \<and>
      (\<forall>o'\<in>set new. so_starred o' \<and> so_account o' = acct)"
    and "watermark_of db a = Some m \<Longrightarrow> \<exists>m'. watermark_of db' a = Some m' \<and> m \<le> m'"
    and "repo_by_provider db p = Some y \<Longrightarrow> repo_by_provider db' p = Some y"
  using assms by (simp_all add: stars_grow_def)

lemma stars_grow_trans:
  assumes "stars_grow acct a b" and "stars_grow acct b c"
  shows "stars_grow acct a c"
proof -
  obtain n1 n2 where obs: "star_observations b = star_observations a @ n1"
    "star_observations c = star_observations b @ n2"
    "\<forall>o'\<in>set n1. so_starred o' \<and> so_account o' = acct"
    "\<forall>o'\<in>set n2. so_starred o' \<and> so_account o' = acct"
    using stars_growD(3) [OF assms(1)] stars_growD(3) [OF assms(2)] by blast
  show ?thesis
  proof (rule stars_growI [where new = "n1 @ n2"])
    fix x s
    assume s: "star_of a acct x = Some s" "ss_starred s"
    then obtain s' where s': "star_of b acct x = Some s'" "ss_starred s'"
      "ss_starred_at s = None \<or> ss_starred_at s' = ss_starred_at s"
      using stars_growD(2) [OF assms(1)] by blast
    then obtain s'' where "star_of c acct x = Some s''" "ss_starred s''"
      "ss_starred_at s' = None \<or> ss_starred_at s'' = ss_starred_at s'"
      using stars_growD(2) [OF assms(2)] by blast
    with s' show "\<exists>s'. star_of c acct x = Some s' \<and> ss_starred s' \<and>
        (ss_starred_at s = None \<or> ss_starred_at s' = ss_starred_at s)" by auto
  next
    fix acc m
    assume "watermark_of a acc = Some m"
    then show "\<exists>m'. watermark_of c acc = Some m' \<and> m \<le> m'"
      using stars_growD(4) [OF assms(1)] stars_growD(4) [OF assms(2)] by (meson order_trans)
  qed (use assms obs in \<open>auto simp: stars_grow_def same_lists_def\<close>)
qed

lemma mode_of_grow: "repos_grow db db' \<Longrightarrow> mode_of db x = Some m \<Longrightarrow> mode_of db' x = Some m"
  by (auto simp: repos_grow_def mode_of_def find_by_append split: option.splits)

lemma repo_by_provider_grow:
  "repos_grow db db' \<Longrightarrow> repo_by_provider db p = Some x \<Longrightarrow> repo_by_provider db' p = Some x"
  by (auto simp: repos_grow_def repo_by_provider_def find_by_append split: option.splits)

lemma same_authority_grow: "same_authority db db' \<Longrightarrow> stars_grow acct db db'"
  by (rule stars_growI [where new = "[]"])
    (auto simp: same_authority_def same_stars_def star_of_def watermark_of_def 
      intro: mode_of_grow repo_by_provider_grow)

interpretation star_growth: durable_relation "stars_grow acct" for acct
proof unfold_locales
  have clock: "stars_grow acct db (db\<lparr>db_clock := t\<rparr>)" for db t
    by (rule same_authority_grow) (rule authority_frame.R_clock)
  show "stars_grow acct db db" for db
    by (rule same_authority_grow) (rule authority_frame.R_refl)
  show "stars_grow acct db (db\<lparr>db_clock := t\<rparr>)" for db t by (rule clock)
  show "stars_grow acct db (db\<lparr>db_clock := t\<rparr>)" for db t by (rule clock)
qed (rule stars_grow_trans)

lemma keeps_authority_grow: "authority_frame.keeps m \<Longrightarrow> star_growth.keeps acct m"
  by (auto simp: authority_frame.keeps_def star_growth.keeps_def intro: same_authority_grow)

section \<open>Ingestion\<close>

lemma ingest_merge_simps [simp]:
  "star_key (ingest_merge old new) = star_key old"
  "ss_starred (ingest_merge old new)"
  "ss_starred_at (ingest_merge old new) =
     (case ss_starred_at old of None \<Rightarrow> ss_starred_at new | Some t \<Rightarrow> Some t)"
  by (simp_all add: ingest_merge_def star_key_def)

interpretation ingest_table: keyed_table star_key ingest_merge
  by unfold_locales simp

lemma record_ingest_star_of:
  assumes "record_ingest_tx run acct r t db = Inr (u, db')"
  shows "star_of db' a x =
    (if a = acct \<and> x = r
     then Some (case star_of db acct r of
            None \<Rightarrow> ingest_row run acct r t (db_clock db)
          | Some old \<Rightarrow> ingest_merge old (ingest_row run acct r t (db_clock db)))
     else star_of db a x)"
  using assms
  by (auto simp: record_ingest_tx_def star_of_def ingest_table.find_upsert)
    (auto simp: ingest_row_def star_key_def)

lemma record_ingest_grow:
  assumes "record_ingest_tx run acct r t db = Inr (u, db')"
  shows "stars_grow acct db db'"
proof (rule stars_growI [where new = "[\<lparr>so_account = acct, so_repo = r, so_starred = True,
    so_provider_at = Some t, so_unknown = False, so_observed = db_clock db\<rparr>]"])
  show "mode_of db' x = Some m" if "mode_of db x = Some m" for x m
  proof -
    have "find_by repo_id x (repositories db') =
        map_option (\<lambda>y. if repo_id y = r then auto_if_unclassified (db_clock db) y else y)
          (find_by repo_id x (repositories db))"
      using assms by (auto simp: record_ingest_tx_def find_by_update_where)
    with that show ?thesis
      by (cases "find_by repo_id x (repositories db)") (auto simp: mode_of_def)
  qed
  show "repo_by_provider db' p = Some x" if "repo_by_provider db p = Some x" for p x
    using assms that by (auto simp: record_ingest_tx_def repo_by_provider_def find_by_update_where)
qed (use assms record_ingest_star_of [OF assms] in
    \<open>auto simp: record_ingest_tx_def watermark_of_def same_lists_def split: option.split\<close>)

lemma keeps_record_ingest: "star_growth.keeps acct (record_ingest run acct r t)"
  unfolding record_ingest_def by (rule star_growth.keeps_transact) (rule record_ingest_grow)

lemma keeps_observe_owner: "star_growth.keeps acct (observe_owner_name item)"
  unfolding observe_owner_name_def
  by (auto split: option.split intro!: star_growth.keeps_intros
      keeps_authority_grow [OF keeps_apply_alias(1)])

lemma keeps_ingest_item: "star_growth.keeps acct (ingest_item run acct e)"
  unfolding ingest_item_def
  by (auto split: prod.split intro!: star_growth.keeps_intros keeps_record_ingest keeps_observe_owner
      keeps_authority_grow [OF keeps_upsert_repository(1)])

lemma keeps_ingest_window: "star_growth.keeps acct (ingest_window run acct es)"
  unfolding ingest_window_def by (intro star_growth.keeps_each keeps_ingest_item)

lemma keeps_incremental_page: "authority_frame.keeps (record_incremental_page run page n seen)"
  unfolding record_incremental_page_def
  by (rule authority_frame.keeps_transact)
    (auto simp: and_then_eq_Inr same_authority_def same_stars_def same_lists_def
      dest!: add_run_counts_Inr)

lemma raise_watermark_of:
  "watermark_of (raise_watermark acct mark db) a =
     (if a = acct then Some (case watermark_of db acct of None \<Rightarrow> mark | Some m \<Rightarrow> max m mark)
      else watermark_of db a)"
  by (auto simp: watermark_of_def raise_watermark_def watermark_table.find_upsert
      watermark_merge_def split: option.split)

lemma complete_run_grow:
  assumes "complete_run_tx run acct page n oldest db = Inr (u, db')"
  shows "stars_grow acct db db'"
proof -
  have "watermark_of db' = watermark_of (case oldest of None \<Rightarrow> db | Some t \<Rightarrow> raise_watermark acct t db)"
    using assms by (auto simp: complete_run_tx_def watermark_of_def Let_def)
  then show ?thesis
    using assms
    by (intro stars_growI [where new = "[]"])
      (auto simp: complete_run_tx_def Let_def star_of_def mode_of_def same_lists_def
        repo_by_provider_def raise_watermark_of split: option.splits, auto simp: raise_watermark_def)
qed

lemma keeps_complete_run: "star_growth.keeps acct (complete_run run acct page n oldest)"
  unfolding complete_run_def by (rule star_growth.keeps_transact) (rule complete_run_grow)

lemma keeps_open_run: "authority_frame.keeps (open_or_resume_run acct)"
  unfolding open_or_resume_run_def
  by (auto split: option.split intro!: authority_frame.keeps_intros authority_frame.keeps_transact
      insert_run_authority)

lemma keeps_scan_step: "star_growth.keeps acct (scan_step lib api tok acct wm run s)"
  unfolding scan_step_def scan_page_def Let_def
  by (auto split: sum.split intro!: star_growth.keeps_flow keeps_ingest_window keeps_complete_run
      keeps_authority_grow [OF keeps_fail_run] keeps_authority_grow [OF keeps_incremental_page])

lemma bounded_scan_grows:
  assumes "watermark_of (w_db w) acct \<noteq> None"
  shows "stars_grow acct (w_db w) (w_db (snd (run_incremental_scan cast lib api tok acct rounds w)))"
proof (cases "read_watermark acct w")
  case (Pair q w1)
  have same: "w_db w1 = w_db w"
    using Pair unfolding read_watermark_def by (cases q) (auto dest: query_InlD query_InrD)
  show ?thesis
  proof (cases q)
    case (Inl e)
    with Pair same show ?thesis by (simp add: run_incremental_scan_def star_growth.R_refl)
  next
    case (Inr m)
    have "m = watermark_of (w_db w) acct"
      using Pair Inr unfolding read_watermark_def by (auto dest: query_InrD)
    with assms obtain wm where m: "m = Some wm" by auto
    obtain q2 w2 where o: "open_or_resume_run acct w1 = (q2, w2)"
      by (cases "open_or_resume_run acct w1")
    have 2: "stars_grow acct (w_db w) (w_db w2)"
      using authority_frame.keepsD [OF keeps_open_run o] same
      by (auto intro: same_authority_grow)
    show ?thesis
    proof (cases q2)
      case (Inl e)
      with Pair Inr m o 2 show ?thesis by (simp add: run_incremental_scan_def)
    next
      case (Inr rps)
      obtain run page seen where rps: "rps = (run, page, seen)" by (cases rps)
      let ?s = "\<lparr>sc_page = page, sc_oldest_seen = seen, sc_items = 0, sc_oldest_ingested = None\<rparr>"
      obtain r w' where loop: "run_loop rounds (scan_step lib api tok acct wm run) ?s w2 = (r, w')"
        by (cases "run_loop rounds (scan_step lib api tok acct wm run) ?s w2")
      have "stars_grow acct (w_db w2) (w_db w')"
        by (rule star_growth.run_loop_keeps [OF keeps_scan_step loop])
      with 2 have "stars_grow acct (w_db w) (w_db w')" by (rule star_growth.R_trans)
      with Pair \<open>q = Inr m\<close> m o Inr rps loop show ?thesis by (simp add: run_incremental_scan_def)
    qed
  qed
qed

text \<open>
  C24. An incremental scan never establishes a removal by itself: on every outcome, error and
  interruption the account's stars stay starred with their established times, explicit modes stay, no
  watermark retreats, only positive observations are recorded, and other accounts, lists and
  repairs are untouched - with one exception, the account that has no watermark yet, whose scan defers to
  a full snapshot and reports that snapshot's completion.
\<close>

theorem incremental_never_unstars:
  "case run_incremental_scan cast lib api tok acct rounds w of
     (r, w') \<Rightarrow> stars_grow acct (w_db w) (w_db w') \<or>
       (watermark_of (w_db w) acct = None \<and>
        (\<exists>run pages items additions unstars.
           r = Some (Inr (IncDeferredToFull (FullCompleted run pages items additions unstars)))))"
proof (cases "watermark_of (w_db w) acct")
  case (Some wm)
  then show ?thesis using bounded_scan_grows [of w acct cast lib api tok rounds] by (simp add: case_prod_beta)
next
  case None
  obtain q w1 where rd: "read_watermark acct w = (q, w1)" by (cases "read_watermark acct w")
  have same: "w_db w1 = w_db w"
    using rd unfolding read_watermark_def by (cases q) (auto dest: query_InlD query_InrD)
  show ?thesis
  proof (cases q)
    case (Inl e)
    with rd same show ?thesis by (simp add: run_incremental_scan_def star_growth.R_refl)
  next
    case (Inr m)
    have m: "m = None" using rd Inr None unfolding read_watermark_def by (auto dest: query_InrD)
    obtain r w2 where full: "run_full_snapshot cast api tok acct rounds w1 = (r, w2)"
      by (cases "run_full_snapshot cast api tok acct rounds w1")
    consider run pages items additions unstars where "r = Some (Inr (FullCompleted run pages items additions unstars))"
      | "stars_grow acct (w_db w) (w_db w2)"
      using full_snapshot_frame [OF full] same
      by (auto simp: full_completed_iff intro: same_authority_grow)
    then show ?thesis using rd Inr m full None by cases (simp_all add: run_incremental_scan_def)
  qed
qed

section \<open>Coverage\<close>

definition ingested :: "uuid \<Rightarrow> starred_item \<Rightarrow> catalog \<Rightarrow> bool" where
  "ingested acct i db \<longleftrightarrow>
     (case repo_by_provider db (item_provider_id i) of None \<Rightarrow> False | Some x \<Rightarrow> is_starred db acct x)"

lemma ingested_grow: "ingested acct i db \<Longrightarrow> stars_grow acct db db' \<Longrightarrow> ingested acct i db'"
  using stars_growD(2,5) [of acct db db']
  by (fastforce simp: ingested_def is_starred_def split: option.splits)

lemma record_ingest_starred:
  assumes "record_ingest run acct r t w = (Inr (), w')"
  shows "is_starred (w_db w') acct r"
  using record_ingest_star_of [of run acct r t "w_db w" "()" "w_db w'" acct r]
    transact_InrD [OF assms [unfolded record_ingest_def]]
  by (auto simp: is_starred_def ingest_row_def split: option.splits)

lemma ingest_item_ingests:
  assumes "ingest_item run acct e w = (Inr (), w')"
  shows "ingested acct (snd e) (w_db w')"
proof -
  obtain t i where e: "e = (t, i)" by (cases e)
  obtain identity w1 w2 where 1: "upsert_repository (item_provider_id i) w = (Inr identity, w1)"
    and 2: "observe_owner_name i w1 = (Inr (), w2)"
    and 3: "record_ingest run acct (ri_repository_id identity) t w2 = (Inr (), w')"
    using assms by (auto simp: e ingest_item_def elim!: io_bind_InrE dest!: io_map_err_InrD)
  have "repo_by_provider (w_db w1) (item_provider_id i) = Some (ri_repository_id identity)"
    using transact_InrD [OF 1 [unfolded upsert_repository_def]] repo_identity.makes_known
    by (fastforce simp: and_then_eq_Inr)
  then have "repo_by_provider (w_db w') (item_provider_id i) = Some (ri_repository_id identity)"
    using star_growth.keepsD [OF keeps_observe_owner [where acct = acct] 2]
      star_growth.keepsD [OF keeps_record_ingest 3] by (blast dest: stars_growD(5))
  with record_ingest_starred [OF 3] show ?thesis by (simp add: e ingested_def)
qed

lemma ingest_window_ingests:
  "ingest_window run acct es w = (Inr u, w') \<Longrightarrow> \<forall>e\<in>set es. ingested acct (snd e) (w_db w')"
  unfolding ingest_window_def
  by (rule star_growth.each_establishes [where acct = acct, OF _ keeps_ingest_item])
    (auto intro: ingest_item_ingests ingested_grow)

definition star_time :: "time_library \<Rightarrow> starred_item \<Rightarrow> timestamp option" where
  "star_time lib i =
     (case st_starred_at i of
        None \<Rightarrow> None
      | Some raw \<Rightarrow> (case tl_parse lib raw of Inl _ \<Rightarrow> None | Inr t \<Rightarrow> Some t))"

lemma order_proof_Cons_Inr:
  "order_proof lib (item # items) prev = Inr parsed \<longleftrightarrow>
     (\<exists>t rest. star_time lib item = Some t \<and> (case prev of None \<Rightarrow> True | Some p \<Rightarrow> t \<le> p) \<and>
        order_proof lib items (Some t) = Inr rest \<and> parsed = (t, item) # rest)"
proof (cases "st_starred_at item")
  case (Some raw)
  then show ?thesis
    by (cases "tl_parse lib raw"; cases prev)
      (auto simp: star_time_def and_then_eq_Inr not_less)
qed (simp add: star_time_def)

lemma order_proof_Inr:
  "order_proof lib items prev = Inr parsed \<Longrightarrow>
     map snd parsed = items \<and> (\<forall>(t, i)\<in>set parsed. star_time lib i = Some t)"
  by (induction items arbitrary: prev parsed)
    (fastforce simp del: order_proof.simps(2) simp: order_proof_Cons_Inr)+

text \<open>The ordering proof accepts exactly the pages that continue a non-increasing sequence.\<close>

lemma order_proof_iff:
  "(\<exists>parsed. order_proof lib items prev = Inr parsed) \<longleftrightarrow>
     (\<exists>ts. map (star_time lib) items = map Some ts \<and> sorted_wrt (\<ge>) ts \<and>
        (case prev of None \<Rightarrow> True | Some p \<Rightarrow> \<forall>t\<in>set ts. t \<le> p))"
proof (induction items arbitrary: prev)
  case (Cons item items)
  have "(\<exists>parsed. order_proof lib (item # items) prev = Inr parsed) \<longleftrightarrow>
      (\<exists>t. star_time lib item = Some t \<and> (case prev of None \<Rightarrow> True | Some p \<Rightarrow> t \<le> p) \<and>
        (\<exists>parsed. order_proof lib items (Some t) = Inr parsed))"
    unfolding order_proof_Cons_Inr by blast
  also have "\<dots> \<longleftrightarrow> (\<exists>t ts. star_time lib item = Some t \<and>
      (case prev of None \<Rightarrow> True | Some p \<Rightarrow> t \<le> p) \<and>
      map (star_time lib) items = map Some ts \<and> sorted_wrt (\<ge>) ts \<and> (\<forall>u\<in>set ts. u \<le> t))"
    unfolding Cons.IH by auto
  also have "\<dots> \<longleftrightarrow> (\<exists>t ts. map (star_time lib) (item # items) = map Some (t # ts) \<and>
      sorted_wrt (\<ge>) (t # ts) \<and> (case prev of None \<Rightarrow> True | Some p \<Rightarrow> \<forall>u\<in>set (t # ts). u \<le> p))"
    by (cases prev) (auto intro: order_trans)
  also have "\<dots> \<longleftrightarrow> (\<exists>ts. map (star_time lib) (item # items) = map Some ts \<and> sorted_wrt (\<ge>) ts \<and>
      (case prev of None \<Rightarrow> True | Some p \<Rightarrow> \<forall>t\<in>set ts. t \<le> p))"
    (is "(\<exists>t ts. ?P (t # ts)) \<longleftrightarrow> (\<exists>ts. ?P ts)")
  proof
    assume "\<exists>ts. ?P ts"
    then obtain ts where "?P ts" ..
    then show "\<exists>t ts. ?P (t # ts)" by (cases ts) auto
  qed blast
  finally show ?case .
qed (auto split: option.splits)

text \<open>The items of a page above the watermark, and whether the page proves coverage.\<close>

definition above :: "time_library \<Rightarrow> timestamp \<Rightarrow> starred_item \<Rightarrow> bool" where
  "above lib wm i \<longleftrightarrow> (case star_time lib i of None \<Rightarrow> False | Some t \<Rightarrow> wm < t)"

lemma newer_than_covers:
  assumes "order_proof lib items prev = Inr parsed" and "i \<in> set items" and "above lib wm i"
  shows "\<exists>t. (t, i) \<in> set (newer_than wm parsed)"
proof -
  have "i \<in> snd ` set parsed" using order_proof_Inr [OF assms(1)] assms(2) by (metis list.set_map)
  then obtain t where "(t, i) \<in> set parsed" by force
  with order_proof_Inr [OF assms(1)] assms(3) show ?thesis
    by (fastforce simp: newer_than_def above_def)
qed

lemma coverage_proven_below:
  assumes "order_proof lib items prev = Inr parsed"
    and "length (newer_than wm parsed) < length parsed"
  shows "\<exists>i\<in>set items. \<not> above lib wm i"
proof -
  obtain t i where e: "(t, i) \<in> set parsed" "\<not> wm < t"
    using assms(2) unfolding newer_than_def by (metis filter_id_conv less_irrefl surj_pair fst_conv)
  then have "i \<in> set (map snd parsed)" by force
  with order_proof_Inr [OF assms(1)] have "i \<in> set items" by simp
  moreover have "star_time lib i = Some t" using e(1) order_proof_Inr [OF assms(1)] by auto
  ultimately show ?thesis using e(2) by (intro bexI [of _ i]) (simp_all add: above_def)
qed

lemma budget_gate_InrD: "budget_gate tok p w = (Inr u, w') \<Longrightarrow> w_calls w' = w_calls w"
  by (auto simp: budget_gate_def split: prod.splits sum.splits acquire_error.splits
      dest: acquire_now_other)

definition went_on :: "((incremental_scan_error, incremental_scan_outcome) result, scan_state) result
    \<Rightarrow> bool" where
  "went_on q \<longleftrightarrow> (case q of
     Inr _ \<Rightarrow> True
   | Inl (Inr (IncCompleted _ _ _)) \<Rightarrow> True
   | _ \<Rightarrow> False)"

lemma scan_step_parts:
  assumes "scan_step lib api tok acct wm run s w = (q, w')"
    and "went_on q"
  obtains reply parsed w3 where
    "ans_result (api_list_starred_newest_first api (w_calls w) (sc_page s)) = Inr reply"
    and "order_proof lib (lr_items reply) (sc_oldest_seen s) = Inr parsed"
    and "scan_page run acct wm (lr_items reply) parsed s w3 = (q, w')"
proof -
  obtain u w1 where 1: "budget_gate tok (\<lambda>t. Inr (IncPaused run t) ::
      (incremental_scan_error, incremental_scan_outcome) result) w = (Inr u, w1)"
    using assms(1,2)
    by (auto simp: scan_step_def io_bind_def went_on_def budget_gate_def
        split: prod.splits sum.splits acquire_error.splits)
  define w2 where "w2 = snd (provider_call (\<lambda>n. api_list_starred_newest_first api n (sc_page s)) w1)"
  let ?a = "ans_result (api_list_starred_newest_first api (w_calls w) (sc_page s))"
  have 2: "call (\<lambda>n. api_list_starred_newest_first api n (sc_page s)) w1 =
      (Inr ?a :: ((incremental_scan_error, incremental_scan_outcome) result, _) result, w2)"
    using budget_gate_InrD [OF 1] by (simp add: call_eq w2_def provider_call_def Let_def)
  show ?thesis
  proof (cases ?a)
    case (Inl err)
    with assms(1,2) 1 2 show ?thesis
      by (auto simp: scan_step_def io_bind_def io_map_err_def io_fail_def went_on_def
          split: prod.splits sum.splits)
  next
    case (Inr reply)
    have "io_bind (budget_observe tok (lr_rate_limit reply) (Inl IncPanicked)) (\<lambda>_.
        case order_proof lib (lr_items reply) (sc_oldest_seen s) of
           Inl detail \<Rightarrow>
             io_bind (io_map_err (\<lambda>e. Inl (IncPersistence e))
                 (fail_run run (gap_reason @ '': '' @ detail)))
               (\<lambda>_. io_fail (Inr (IncGapDetected run)))
         | Inr parsed \<Rightarrow> scan_page run acct wm (lr_items reply) parsed s) w2 = (q, w')"
      using assms(1) by (simp add: scan_step_def 1 2 [unfolded Inr] io_bind_def)
    then show ?thesis
      using assms(2) that [OF Inr]
      by (auto simp: io_bind_def io_map_err_def io_fail_def went_on_def budget_observe_def
          split: prod.splits sum.splits option.splits)
  qed
qed

lemma scan_page_result:
  assumes "scan_page run acct wm items parsed s w = (q, w')" and "went_on q"
  shows "\<forall>e\<in>set (newer_than wm parsed). ingested acct (snd e) (w_db w')"
    and "q = Inr s' \<Longrightarrow> items \<noteq> [] \<and> sc_page s' = wrap_u32 (sc_page s + 1)"
    and "q = Inl r \<Longrightarrow> items = [] \<or> length (newer_than wm parsed) < length parsed"
proof -
  let ?rest = "\<lambda>_::unit. io_bind (io_map_err (\<lambda>e. Inl (IncPersistence e))
      (record_incremental_page run (sc_page s) (counted_i32 (length (newer_than wm parsed)))
        (oldest_of (sc_oldest_seen s) parsed))) (\<lambda>_.
        if length (newer_than wm parsed) < length parsed \<or> items = [] then
          io_bind (io_map_err (\<lambda>e. Inl (IncPersistence e))
              (complete_run run acct (sc_page s)
                (wrap_u32 (sc_items s + counted_u32 (length (newer_than wm parsed))))
                (oldest_of (sc_oldest_ingested s) (newer_than wm parsed)))) (\<lambda>_.
            io_fail (Inr (IncCompleted run (sc_page s)
              (wrap_u32 (sc_items s + counted_u32 (length (newer_than wm parsed)))))))
        else
          io_return \<lparr>sc_page = wrap_u32 (sc_page s + 1),
                     sc_oldest_seen = oldest_of (sc_oldest_seen s) parsed,
                     sc_items = wrap_u32 (sc_items s + counted_u32 (length (newer_than wm parsed))),
                     sc_oldest_ingested = oldest_of (sc_oldest_ingested s) (newer_than wm parsed)\<rparr>)"
  obtain u w1 where 1: "ingest_window run acct (newer_than wm parsed) w = (Inr u, w1)"
    and 2: "?rest u w1 = (q, w')"
    using assms
    by (auto simp: scan_page_def Let_def io_bind_def io_map_err_def went_on_def
        split: prod.splits sum.splits)
  have "star_growth.keeps acct (?rest u)"
    by (auto intro!: star_growth.keeps_flow keeps_complete_run
        keeps_authority_grow [OF keeps_incremental_page])
  from star_growth.keepsD [OF this 2] ingest_window_ingests [OF 1]
  show "\<forall>e\<in>set (newer_than wm parsed). ingested acct (snd e) (w_db w')"
    by (blast intro: ingested_grow)
  show "items \<noteq> [] \<and> sc_page s' = wrap_u32 (sc_page s + 1)" if "q = Inr s'"
    using 2 that
    by (auto simp: io_bind_def io_map_err_def io_fail_def io_return_def
        split: prod.splits sum.splits if_splits)
  show "items = [] \<or> length (newer_than wm parsed) < length parsed" if "q = Inl r"
    using 2 that assms(2)
    by (auto simp: io_bind_def io_map_err_def io_fail_def io_return_def went_on_def
        split: prod.splits sum.splits if_splits)
qed

text \<open>A listing of the provider: every answer that is not a failure is a page of it.\<close>

definition serves_newest_first :: "github_api \<Rightarrow> starred_item list list \<Rightarrow> bool" where
  "serves_newest_first api pages \<longleftrightarrow>
     (\<forall>n p reply. ans_result (api_list_starred_newest_first api n p) = Inr reply \<longrightarrow>
        lr_items reply = page_of pages p)"

definition newest_first :: "time_library \<Rightarrow> starred_item list \<Rightarrow> bool" where
  "newest_first lib items \<longleftrightarrow>
     (\<exists>ts. map (star_time lib) items = map Some ts \<and> sorted_wrt (\<ge>) ts)"

lemma newest_first_below:
  assumes "newest_first lib (xs @ ys)" and "i \<in> set xs" and "\<not> above lib wm i" and "j \<in> set ys"
  shows "\<not> above lib wm j"
proof -
  obtain ts where ts: "map (star_time lib) (xs @ ys) = map Some ts" "sorted_wrt (\<ge>) ts"
    using assms(1) by (auto simp: newest_first_def)
  then obtain us vs where uv: "ts = us @ vs" "map (star_time lib) xs = map Some us"
    "map (star_time lib) ys = map Some vs"
    by (metis map_append append_eq_map_conv)
  obtain u where u: "u \<in> set us" "star_time lib i = Some u"
    using uv(2) assms(2) by (metis (mono_tags, lifting) image_iff list.set_map)
  obtain v where v: "v \<in> set vs" "star_time lib j = Some v"
    using uv(3) assms(4) by (metis (mono_tags, lifting) image_iff list.set_map)
  have "v \<le> u" using ts(2) uv(1) u v by (auto simp: sorted_wrt_append)
  with u v assms(3) show ?thesis by (simp add: above_def)
qed

lemma scan_loop_covers:
  assumes serves: "serves_newest_first api pages" and sorted: "newest_first lib (concat pages)"
    and nonempty: "[] \<notin> set pages" and short: "int (length pages) < u32_max"
    and loop: "run_loop n (scan_step lib api tok acct wm run) s w = (Some (Inr (IncCompleted r p m)), w')"
    and page: "1 \<le> sc_page s" "sc_page s \<le> int (length pages) + 1"
    and before: "\<forall>i\<in>set (concat (take (nat (sc_page s - 1)) pages)).
      above lib wm i \<longrightarrow> ingested acct i (w_db w)"
  shows "\<forall>i\<in>set (concat pages). above lib wm i \<longrightarrow> ingested acct i (w_db w')"
  using loop page before
proof (induction n arbitrary: s w)
  case (Suc n)
  let ?k = "sc_page s"
  obtain q w1 where step: "scan_step lib api tok acct wm run s w = (q, w1)"
    by (cases "scan_step lib api tok acct wm run s w")
  have went: "went_on q" using Suc.prems(1) step by (auto simp: went_on_def split: sum.splits)
  obtain reply parsed w3 where
    "ans_result (api_list_starred_newest_first api (w_calls w) ?k) = Inr reply" and
    proof': "order_proof lib (lr_items reply) (sc_oldest_seen s) = Inr parsed" and
    pg: "scan_page run acct wm (lr_items reply) parsed s w3 = (q, w1)"
    using scan_step_parts [OF step went] by blast
  then have items: "lr_items reply = page_of pages ?k"
    using serves by (simp add: serves_newest_first_def)
  have grow: "stars_grow acct (w_db w) (w_db w1)"
    by (rule star_growth.keepsD [OF keeps_scan_step step])
  have upto: "\<forall>i\<in>set (concat (take (nat (?k - 1)) pages)) \<union> set (page_of pages ?k).
      above lib wm i \<longrightarrow> ingested acct i (w_db w1)"
    using Suc.prems(4) grow scan_page_result(1) [OF pg went] newer_than_covers [OF proof'] items
    by (fastforce intro: ingested_grow)
  show ?case
  proof (cases q)
    case (Inl r')
    with Suc.prems(1) step have w1: "w1 = w'" by simp
    show ?thesis
    proof (cases "page_of pages ?k = []")
      case True
      then have "take (nat (?k - 1)) pages = pages"
        using page_of_empty [OF Suc.prems(2) nonempty] by simp
      with upto w1 show ?thesis by simp
    next
      case False
      then obtain i where i: "i \<in> set (page_of pages ?k)" "\<not> above lib wm i"
        using scan_page_result(3) [OF pg went Inl] coverage_proven_below [OF proof'] items by auto
      have le: "nat ?k \<le> length pages"
        using False page_of_empty [OF Suc.prems(2) nonempty] by simp
      have split: "concat pages = concat (take (nat ?k) pages) @ concat (drop (nat ?k) pages)"
        by (metis append_take_drop_id concat_append)
      have tk: "set (concat (take (nat ?k) pages)) =
          set (concat (take (nat (?k - 1)) pages)) \<union> set (page_of pages ?k)"
        using take_page [OF Suc.prems(2) le] by simp
      have later: "\<not> above lib wm j" if "j \<in> set (concat (drop (nat ?k) pages))" for j
        using newest_first_below [OF sorted [unfolded split] _ i(2) that] i(1) tk by blast
      have "set (concat pages) = set (concat (take (nat ?k) pages)) \<union> set (concat (drop (nat ?k) pages))"
        using split by (metis set_append)
      with upto w1 tk later show ?thesis by blast
    qed
  next
    case (Inr s')
    then have s': "page_of pages ?k \<noteq> []" "sc_page s' = wrap_u32 (?k + 1)"
      using scan_page_result(2) [OF pg went Inr] items by auto
    then have le: "?k \<le> int (length pages)"
      using page_of_empty [OF Suc.prems(2) nonempty] by simp
    with s' short Suc.prems(2) have next': "sc_page s' = ?k + 1" by (simp add: wrap_u32_small)
    have "\<forall>i\<in>set (concat (take (nat (sc_page s' - 1)) pages)).
        above lib wm i \<longrightarrow> ingested acct i (w_db w1)"
      using upto take_page [OF Suc.prems(2), of pages] le next' by auto
    then show ?thesis
      using Suc.IH [of s' w1] Suc.prems(1,2) step Inr next' le by simp
  qed
qed simp

text \<open>
  C23. A fresh incremental scan covers its window: for an account with a watermark and no incremental
  run left open, when the provider's answers are pages of one unchanging listing ordered newest first,
  a scan that reports completion has starred, under the stable identity, every listed repository whose
  star is newer than the watermark - also those on pages it never fetched, because there are none.
  (A scan that resumes an open run starts at that run's checkpoint and is not covered by this.)
\<close>

theorem incremental_scan_covers:
  assumes "serves_newest_first api pages" and "newest_first lib (concat pages)"
    and "[] \<notin> set pages" and "int (length pages) < u32_max"
    and "watermark_of (w_db w) acct = Some wm"
    and "running_run ModeIncremental acct (w_db w) = None"
    and "run_incremental_scan cast lib api tok acct rounds w = (Some (Inr (IncCompleted r p m)), w')"
  shows "\<forall>i\<in>set (concat pages). above lib wm i \<longrightarrow> ingested acct i (w_db w')"
proof -
  obtain w1 where 1: "read_watermark acct w = (Inr (Some wm), w1)" "w_db w1 = w_db w"
    using assms(5,7) unfolding run_incremental_scan_def read_watermark_def
    by (auto split: prod.splits sum.splits dest: query_InrD)
  obtain run w2 where 2: "open_or_resume_run acct w1 = (Inr (run, 1, None), w2)"
    using assms(6,7) 1 unfolding run_incremental_scan_def open_or_resume_run_def
    by (auto simp: io_bind_def io_return_def split: prod.splits sum.splits option.splits
        dest!: query_InrD)
  have "run_loop rounds (scan_step lib api tok acct wm run)
      \<lparr>sc_page = 1, sc_oldest_seen = None, sc_items = 0, sc_oldest_ingested = None\<rparr> w2 =
      (Some (Inr (IncCompleted r p m)), w')"
    using assms(7) 1 2 by (simp add: run_incremental_scan_def)
  from scan_loop_covers [OF assms(1-4) this] show ?thesis by simp
qed

text \<open>
  A run of the scan: account 7 with watermark 2, a listing of one star at time 3 and one at time 1.
  Instants are written in unary, as the length of their text.
\<close>

definition unary_time :: time_library where
  "unary_time = \<lparr>tl_parse = (\<lambda>s. Inr (int (length s))), tl_display = (\<lambda>_. []), tl_debug = (\<lambda>_. [])\<rparr>"

definition listed_star :: "int \<Rightarrow> string \<Rightarrow> string \<Rightarrow> starred_item" where
  "listed_star p name at =
     \<lparr>st_starred_at = Some at,
      st_repo = \<lparr>pb_provider_repository_id = p, pb_full_name = name, pb_description = None,
        pb_language = None, pb_stargazers = 0, pb_topics = [], pb_default_branch = None,
        pb_pushed_at = None\<rparr>\<rparr>"

definition scan_pages :: "starred_item list list" where
  "scan_pages = [[listed_star 42 ''o/new'' ''***''], [listed_star 41 ''o/old'' ''*'']]"

definition scan_example :: catalog where
  "scan_example = empty_catalog\<lparr>
     accounts := [\<lparr>acct_id = 7, acct_owner = ''owner'', acct_status = Connected, acct_scopes = [], acct_provider = Some 9,
      acct_login = None\<rparr>],
     watermarks := [\<lparr>wm_account = 7, wm_mark = 2, wm_updated = 0\<rparr>]\<rparr>"

definition scan_example_run ::
    "(incremental_scan_error, incremental_scan_outcome) result option \<times> world" where
  "scan_example_run = run_incremental_scan (\<lambda>_. None) unary_time (paged_api scan_pages) ''t'' 7 3
     (idle_world scan_example)"

theorem incremental_never_unstars_witness:
  "watermark_of scan_example 7 \<noteq> None \<and> stars_grow 7 scan_example (w_db (snd scan_example_run))"
proof -
  have "watermark_of scan_example 7 = Some 2" by code_simp
  with incremental_never_unstars [where w = "idle_world scan_example" and acct = 7 and cast = "\<lambda>_. None" and lib = unary_time and
      api = "paged_api scan_pages" and tok = "''t''" and rounds = 3]
  show ?thesis by (simp add: scan_example_run_def case_prod_beta)
qed

theorem incremental_scan_covers_witness:
  "fst scan_example_run = Some (Inr (IncCompleted 0 2 1)) \<and>
   ingested 7 (listed_star 42 ''o/new'' ''***'') (w_db (snd scan_example_run))"
proof -
  have run: "fst scan_example_run = Some (Inr (IncCompleted 0 2 1))" by code_simp
  have 1: "serves_newest_first (paged_api scan_pages) scan_pages"
    by (simp add: serves_newest_first_def paged_api_def)
  have 2: "newest_first unary_time (concat scan_pages)"
    by (auto simp: newest_first_def scan_pages_def star_time_def unary_time_def listed_star_def
        intro!: exI [of _ "[3, 1]"])
  have 3: "[] \<notin> set scan_pages" "int (length scan_pages) < u32_max"
    by (simp_all add: scan_pages_def u32_max_def)
  have 4: "watermark_of (w_db (idle_world scan_example)) 7 = Some 2"
    "running_run ModeIncremental 7 (w_db (idle_world scan_example)) = None"
    by code_simp+
  have 5: "run_incremental_scan (\<lambda>_. None) unary_time (paged_api scan_pages) ''t'' 7 3
      (idle_world scan_example) = (Some (Inr (IncCompleted 0 2 1)), snd scan_example_run)"
    using run by (simp add: scan_example_run_def prod_eq_iff)
  have "listed_star 42 ''o/new'' ''***'' \<in> set (concat scan_pages)"
    "above unary_time 2 (listed_star 42 ''o/new'' ''***'')"
    by (simp_all add: scan_pages_def above_def star_time_def unary_time_def listed_star_def)
  with incremental_scan_covers [OF 1 2 3 4 5] run show ?thesis by blast
qed

end
