(* ===== verification/Star_Lists.thy ===== *)
theory Star_Lists
  imports Snapshot_Authority
begin

text \<open>
  The star-list snapshot (\<open>crates/catalog/src/star_lists.rs\<close>): enumeration of the account's native
  lists by continuation token, staging of every page, and the promotion of a complete enumeration
  to list authority in one transaction.
\<close>

section \<open>Outcomes\<close>

datatype star_list_snapshot_outcome =
    ListsCompleted uuid int int int int int
  | ListsPaused uuid int
  | ListsFailed uuid

datatype star_lists_error =
    ListsIdentity identity_error
  | ListsPersistence sql_error
  | ListsProvider provider_error
  | ListsPanicked

record star_list_summary =
  sm_list_id :: uuid
  sm_provider_list_id :: string
  sm_name :: string

section \<open>Opening or resuming a run\<close>

definition latest_cursor :: "uuid \<Rightarrow> catalog \<Rightarrow> string option" where
  "latest_cursor run db =
     Option.bind (max_by cp_recorded (filter (\<lambda>c. cp_run c = run) (checkpoints db))) cp_cursor"

definition open_or_resume_lists :: "uuid \<Rightarrow> (sql_error, uuid \<times> string option) io" where
  "open_or_resume_lists acct =
     io_bind (query (running_run ModeStarLists acct)) (\<lambda>existing.
       case existing of
         Some run \<Rightarrow>
           io_bind (query (latest_cursor run)) (\<lambda>cursor. io_return (run, cursor))
       | None \<Rightarrow>
           io_bind (transact (insert_run ModeStarLists acct)) (\<lambda>run. io_return (run, None)))"

section \<open>Recording a page\<close>

definition listed_alias :: "listed_repository \<Rightarrow> string option" where
  "listed_alias item =
     (case split_once (CHR ''/'') (lp_full_name item) of
        None \<Rightarrow> None
      | Some (owner, name) \<Rightarrow>
          if owner \<noteq> [] \<and> name \<noteq> [] \<and> CHR ''/'' \<notin> set name then Some (lp_full_name item) else None)"

definition record_listed_identity :: "listed_repository \<Rightarrow> (star_lists_error, unit) io" where
  "record_listed_identity item =
     io_bind (io_map_err ListsPersistence (upsert_repository (lp_provider_repository_id item))) (\<lambda>_.
       case listed_alias item of
         Some full_name \<Rightarrow>
           io_bind (io_map_err ListsIdentity
               (apply_alias_observation (lp_provider_repository_id item) OwnerName None full_name))
             (\<lambda>_. io_return ())
       | None \<Rightarrow> io_return ())"

definition page_entries :: "user_list_node list \<Rightarrow> (user_list_node \<times> listed_repository) list" where
  "page_entries nodes = concat (map (\<lambda>l. map (Pair l) (ul_items l)) nodes)"

fun stage_list_items ::
    "uuid \<Rightarrow> int \<Rightarrow> (user_list_node \<times> listed_repository) list \<Rightarrow> list_item_row list \<Rightarrow>
     (sql_error, list_item_row list) result" where
  "stage_list_items run position [] t = Inr t"
| "stage_list_items run position ((l, item) # es) t =
     and_then
       (insert_unique (\<lambda>r. (li_run r, li_position r))
          \<lparr>li_run = run, li_position = position, li_list = ul_provider_list_id l,
           li_name = ul_name l, li_repo = lp_provider_repository_id item\<rparr> t)
       (stage_list_items run (wrap_i64 (position + 1)) es)"

definition distinct_lists :: "user_list_node list \<Rightarrow> nat" where
  "distinct_lists nodes = length (remdups (map ul_provider_list_id nodes))"

definition stage_lists_page :: "uuid \<Rightarrow> user_lists_reply \<Rightarrow> unit tx" where
  "stage_lists_page run reply db =
     and_then
       (next_position (map li_position (filter (\<lambda>r. li_run r = run) (list_snapshot_items db))))
       (\<lambda>base_position.
     and_then
       (stage_list_items run base_position (page_entries (ur_lists reply)) (list_snapshot_items db))
       (\<lambda>items.
     and_then
       (add_run_counts run 1 (sat_i32 (int (length (page_entries (ur_lists reply)))))
          (sat_i32 (int (distinct_lists (ur_lists reply))))
          (db\<lparr>list_snapshot_items := items,
              checkpoints := checkpoints db @
                [\<lparr>cp_run = run, cp_next_page = wrap_i64 (base_position + 1), cp_boundary = None,
                  cp_cursor = ur_next_cursor reply, cp_recorded = db_clock db\<rparr>]\<rparr>))
       (\<lambda>db'. Inr ((), db'))))"

definition record_lists_page :: "uuid \<Rightarrow> user_lists_reply \<Rightarrow> (star_lists_error, unit) io" where
  "record_lists_page run reply =
     io_bind (io_each (\<lambda>(l, item). record_listed_identity item) (page_entries (ur_lists reply))) (\<lambda>_.
       io_map_err ListsPersistence (transact (stage_lists_page run reply)))"

definition read_lists_observed :: "uuid \<Rightarrow> (sql_error, int) io" where
  "read_lists_observed run =
     transact (\<lambda>db.
       case find_by run_id run (sync_runs db) of
         None \<Rightarrow> Inl RowNotFound
       | Some r \<Rightarrow> Inr (u32_or 0 (run_lists r), db))"

section \<open>The authority swap\<close>

text \<open>The rows a run has staged, and the lists they name in the order of their first row.\<close>

definition staged_rows :: "uuid \<Rightarrow> catalog \<Rightarrow> list_item_row list" where
  "staged_rows run db = filter (\<lambda>i. li_run i = run) (list_snapshot_items db)"

definition staged_list_ids :: "uuid \<Rightarrow> catalog \<Rightarrow> string list" where
  "staged_list_ids run db = remdups (map li_list (staged_rows run db))"

definition staged_list_name :: "uuid \<Rightarrow> catalog \<Rightarrow> string \<Rightarrow> string" where
  "staged_list_name run db l =
     (case max_value (map li_name (filter (\<lambda>i. li_list i = l) (staged_rows run db))) of
        None \<Rightarrow> [] | Some n \<Rightarrow> n)"

definition list_merge :: "list_row \<Rightarrow> list_row \<Rightarrow> list_row" where
  "list_merge old new =
     old\<lparr>sl_name := sl_name new, sl_status := ListActive, sl_removed := None, sl_evidence := None\<rparr>"

definition new_list_row :: "uuid \<Rightarrow> uuid \<Rightarrow> string \<Rightarrow> string \<Rightarrow> list_row" where
  "new_list_row new_id acct l name =
     \<lparr>sl_id = new_id, sl_account = acct, sl_provider = l, sl_name = name, sl_status = ListActive,
      sl_removed = None, sl_evidence = None\<rparr>"

fun fresh_list_rows :: "uuid \<Rightarrow> uuid \<Rightarrow> (string \<times> string) list \<Rightarrow> list_row list" where
  "fresh_list_rows new_id acct [] = []"
| "fresh_list_rows new_id acct ((l, name) # ls) =
     new_list_row new_id acct l name # fresh_list_rows (Suc new_id) acct ls"

definition upsert_lists_from_staging :: "uuid \<Rightarrow> uuid \<Rightarrow> catalog \<Rightarrow> (sql_error, catalog) result" where
  "upsert_lists_from_staging run acct db =
     (let groups = map (\<lambda>l. (l, staged_list_name run db l)) (staged_list_ids run db) in
      and_then (bulk_upsert list_key list_merge (fresh_list_rows (next_uuid db) acct groups)
          (star_lists db)) (\<lambda>t.
        Inr (db\<lparr>star_lists := t, next_uuid := next_uuid db + length groups\<rparr>)))"

text \<open>The join of staging, repositories and lists; \<open>p\<close> is the condition on the list's account.\<close>

definition staged_pairs :: "uuid \<Rightarrow> (uuid \<Rightarrow> bool) \<Rightarrow> catalog \<Rightarrow> (uuid \<times> uuid) list" where
  "staged_pairs run p db =
     concat (map (\<lambda>i. concat (map (\<lambda>r. map (\<lambda>l. (sl_id l, repo_id r))
         (filter (\<lambda>l. p (sl_account l) \<and> sl_provider l = li_list i) (star_lists db)))
       (filter (\<lambda>r. repo_provider_id r = li_repo i) (repositories db)))) (staged_rows run db))"

definition count_member_additions :: "uuid \<Rightarrow> uuid \<Rightarrow> catalog \<Rightarrow> int" where
  "count_member_additions run acct db =
     sat_u32 (int (length (remdups (filter (\<lambda>k.
       \<not> (\<exists>m\<in>set (memberships db). member_key m = k \<and> lm_member m))
       (staged_pairs run (\<lambda>a. a = acct) db)))))"

definition record_membership_observations :: "uuid \<Rightarrow> catalog \<Rightarrow> catalog" where
  "record_membership_observations run db =
     db\<lparr>member_observations := member_observations db @
       map (\<lambda>(l, r). \<lparr>mo_list = l, mo_repo = r, mo_member = True, mo_observed = db_clock db,
         mo_evidence = Some run\<rparr>) (staged_pairs run (\<lambda>_. True) db)\<rparr>"

definition member_merge :: "member_row \<Rightarrow> member_row \<Rightarrow> member_row" where
  "member_merge old new =
     old\<lparr>lm_member := True, lm_last := lm_last new, lm_removed := None,
         lm_evidence := lm_evidence new\<rparr>"

definition promote_seen_pairs :: "uuid \<Rightarrow> uuid \<Rightarrow> catalog \<Rightarrow> (sql_error, catalog) result" where
  "promote_seen_pairs run acct db =
     and_then
       (bulk_upsert member_key member_merge
         (map (\<lambda>(l, r). \<lparr>lm_list = l, lm_repo = r, lm_member = True, lm_last = db_clock db,
             lm_removed = None, lm_evidence = Some run\<rparr>) (staged_pairs run (\<lambda>a. a = acct) db))
         (memberships db))
       (\<lambda>t. Inr (db\<lparr>memberships := t\<rparr>))"

definition absent_member :: "uuid \<Rightarrow> uuid \<Rightarrow> catalog \<Rightarrow> member_row \<Rightarrow> bool" where
  "absent_member run acct db m \<longleftrightarrow>
     lm_member m \<and>
     (\<exists>l\<in>set (star_lists db). sl_account l = acct \<and> sl_id l = lm_list m \<and>
       \<not> (\<exists>i\<in>set (staged_rows run db). \<exists>r\<in>set (repositories db).
           repo_provider_id r = li_repo i \<and> li_list i = sl_provider l \<and> repo_id r = lm_repo m))"

definition demote_absent_pairs :: "uuid \<Rightarrow> uuid \<Rightarrow> catalog \<Rightarrow> int \<times> catalog" where
  "demote_absent_pairs run acct db =
     (let demoted = filter (absent_member run acct db) (memberships db) in
      (sat_u32 (int (length demoted)),
       db\<lparr>memberships := update_where (absent_member run acct db)
            (\<lambda>m. m\<lparr>lm_member := False, lm_removed := Some (db_clock db), lm_evidence := Some run\<rparr>)
            (memberships db),
          member_observations := member_observations db @
            map (\<lambda>m. \<lparr>mo_list = lm_list m, mo_repo = lm_repo m, mo_member = False,
              mo_observed = db_clock db, mo_evidence = Some run\<rparr>) demoted\<rparr>))"

definition tombstone_absent_lists :: "uuid \<Rightarrow> uuid \<Rightarrow> catalog \<Rightarrow> catalog" where
  "tombstone_absent_lists run acct db =
     db\<lparr>star_lists := update_where
       (\<lambda>l. sl_account l = acct \<and> sl_status l = ListActive \<and>
            \<not> (\<exists>i\<in>set (staged_rows run db). li_list i = sl_provider l))
       (\<lambda>l. l\<lparr>sl_status := ListRemoved, sl_removed := Some (db_clock db), sl_evidence := Some run\<rparr>)
       (star_lists db)\<rparr>"

definition complete_lists_row :: "uuid \<Rightarrow> int \<Rightarrow> int \<Rightarrow> (int \<times> int) tx" where
  "complete_lists_row run additions removals db =
     (case find_by run_id run (sync_runs db) of
        None \<Rightarrow> Inl RowNotFound
      | Some r \<Rightarrow>
          Inr ((u32_or 0 (run_pages r), u32_or 0 (run_items r)),
            db\<lparr>sync_runs := update_where (\<lambda>x. run_id x = run)
              (\<lambda>x. x\<lparr>run_status := RunCompleted, run_finished := Some (db_clock db),
                     run_additions := sat_i32 additions, run_removals := sat_i32 removals\<rparr>)
              (sync_runs db)\<rparr>))"

definition clear_list_staging :: "uuid \<Rightarrow> catalog \<Rightarrow> catalog" where
  "clear_list_staging run db =
     db\<lparr>list_snapshot_items := delete_where (\<lambda>i. li_run i = run) (list_snapshot_items db)\<rparr>"

definition apply_list_authority_tx :: "uuid \<Rightarrow> uuid \<Rightarrow> (int \<times> int \<times> int \<times> int) tx" where
  "apply_list_authority_tx run acct db =
     and_then (upsert_lists_from_staging run acct db) (\<lambda>db1.
     let additions = count_member_additions run acct db1 in
     and_then (promote_seen_pairs run acct (record_membership_observations run db1)) (\<lambda>db2.
     let (removals, db3) = demote_absent_pairs run acct db2 in
     and_then
       (complete_lists_row run additions removals
         (clear_list_staging run (tombstone_absent_lists run acct db3)))
       (\<lambda>((pages, items), db4). Inr ((pages, items, additions, removals), db4))))"

definition apply_list_authority_and_complete ::
    "uuid \<Rightarrow> uuid \<Rightarrow> (sql_error, int \<times> int \<times> int \<times> int) io" where
  "apply_list_authority_and_complete run acct = transact (apply_list_authority_tx run acct)"

section \<open>The flow\<close>

definition lists_step ::
    "github_api \<Rightarrow> string \<Rightarrow> uuid \<Rightarrow> uuid \<Rightarrow> string option \<Rightarrow>
     ((star_lists_error, star_list_snapshot_outcome) result, string option) io" where
  "lists_step api tok acct run cursor =
     io_bind (budget_gate tok (\<lambda>t. Inr (ListsPaused run t))) (\<lambda>_.
     io_bind (call (\<lambda>n. api_list_user_lists api n cursor)) (\<lambda>answer.
       case answer of
         Inl err \<Rightarrow>
           io_bind (io_map_err (\<lambda>e. Inl (ListsPersistence e)) (fail_run run (provider_error_text err)))
             (\<lambda>_. io_fail (Inr (ListsFailed run)))
       | Inr reply \<Rightarrow>
           io_bind (budget_observe tok (ur_rate_limit reply) (Inl ListsPanicked)) (\<lambda>_.
             case find ul_items_truncated (ur_lists reply) of
               Some truncated \<Rightarrow>
                 io_bind (io_map_err (\<lambda>e. Inl (ListsPersistence e))
                     (fail_run run (''truncated list membership: list '' @
                       ul_provider_list_id truncated @ '' holds more items than one page carries'')))
                   (\<lambda>_. io_fail (Inr (ListsFailed run)))
             | None \<Rightarrow>
                 io_bind (io_map_err Inl (record_lists_page run reply)) (\<lambda>_.
                   if ur_lists reply = [] then
                     io_bind (io_map_err (\<lambda>e. Inl (ListsPersistence e))
                         (apply_list_authority_and_complete run acct))
                       (\<lambda>(pages, items, additions, removals).
                         io_bind (io_map_err (\<lambda>e. Inl (ListsPersistence e)) (read_lists_observed run))
                           (\<lambda>nlists. io_fail (Inr
                              (ListsCompleted run pages items nlists additions removals))))
                   else io_return (ur_next_cursor reply)))))"

definition run_star_list_snapshot ::
    "github_api \<Rightarrow> string \<Rightarrow> uuid \<Rightarrow> nat \<Rightarrow> world \<Rightarrow>
     (star_lists_error, star_list_snapshot_outcome) result option \<times> world" where
  "run_star_list_snapshot api tok acct rounds w =
     (case open_or_resume_lists acct w of
        (Inl e, w') \<Rightarrow> (Some (Inl (ListsPersistence e)), w')
      | (Inr (run, cursor), w') \<Rightarrow> run_loop rounds (lists_step api tok acct run) cursor w')"

section \<open>Reads\<close>

definition current_star_lists :: "uuid \<Rightarrow> catalog \<Rightarrow> star_list_summary list" where
  "current_star_lists acct db =
     map (\<lambda>l. \<lparr>sm_list_id = sl_id l, sm_provider_list_id = sl_provider l, sm_name = sl_name l\<rparr>)
       (sort_key sl_provider
         (filter (\<lambda>l. sl_account l = acct \<and> sl_status l = ListActive) (star_lists db)))"

definition current_list_members :: "uuid \<Rightarrow> catalog \<Rightarrow> uuid list" where
  "current_list_members l db =
     sort (map lm_repo (filter (\<lambda>m. lm_list m = l \<and> lm_member m) (memberships db)))"

end
