(* ===== verification/Star_Lists_Authority.thy ===== *)
theory Star_Lists_Authority
  imports Star_Lists
begin

text \<open>
  What the star-list snapshot establishes: list authority changes only together with the record of
  a completed run, and a committed swap makes the staged enumeration the truth about the account's
  lists and their members.
\<close>

section \<open>Tables\<close>

lemma list_merge_simps [simp]:
  "list_key (list_merge old new) = list_key old"
  "sl_id (list_merge old new) = sl_id old"
  "sl_account (list_merge old new) = sl_account old"
  "sl_provider (list_merge old new) = sl_provider old"
  "sl_status (list_merge old new) = ListActive"
  "sl_name (list_merge old new) = sl_name new"
  by (simp_all add: list_merge_def list_key_def)

interpretation list_table: keyed_table list_key list_merge
  by unfold_locales simp

lemma member_merge_simps [simp]:
  "member_key (member_merge old new) = member_key old"
  "lm_member (member_merge old new)"
  by (simp_all add: member_merge_def member_key_def)

interpretation member_table: keyed_table member_key member_merge
  by unfold_locales simp

definition lists_ok :: "catalog \<Rightarrow> bool" where
  "lists_ok db \<longleftrightarrow>
     distinct (map list_key (star_lists db)) \<and>
     distinct (map sl_id (star_lists db)) \<and>
     (\<forall>l\<in>set (star_lists db). sl_id l < next_uuid db) \<and>
     distinct (map member_key (memberships db))"

definition is_member :: "catalog \<Rightarrow> uuid \<Rightarrow> uuid \<Rightarrow> bool" where
  "is_member db l r \<longleftrightarrow> (\<exists>m\<in>set (memberships db). member_key m = (l, r) \<and> lm_member m)"

lemma set_current_list_members: "set (current_list_members l db) = {r. is_member db l r}"
  by (auto simp: current_list_members_def is_member_def member_key_def)

section \<open>Upserting lists\<close>

lemma fresh_list_rows_key:
  "map list_key (fresh_list_rows n acct gs) = map (\<lambda>(l, _). (acct, l)) gs"
  by (induction n acct gs rule: fresh_list_rows.induct) (auto simp: new_list_row_def list_key_def)

lemma fold_fresh_list_ids:
  assumes "distinct (map sl_id t)" and "\<forall>l\<in>set t. sl_id l < n"
  shows "distinct (map sl_id (fold (upsert list_key list_merge) (fresh_list_rows n acct gs) t)) \<and>
    (\<forall>l\<in>set (fold (upsert list_key list_merge) (fresh_list_rows n acct gs) t). sl_id l < n + length gs)"
  using assms
proof (induction gs arbitrary: n t)
  case (Cons g gs)
  obtain l name where g: "g = (l, name)" by (cases g)
  let ?t = "upsert list_key list_merge (new_list_row n acct l name) t"
  have ids: "map sl_id ?t = map sl_id t \<or> map sl_id ?t = map sl_id t @ [n]"
    by (auto simp: upsert_def map_update_where_key new_list_row_def)
  then have "sl_id ` set ?t \<subseteq> insert n (sl_id ` set t)" by (metis Un_insert_right append_Nil2
        list.set_map set_append list.simps(15) subset_insertI subset_refl sup_bot.right_neutral)
  then have "\<forall>x\<in>set ?t. sl_id x < Suc n" using Cons.prems(2) by (force simp: less_Suc_eq)
  moreover have "n \<notin> sl_id ` set t" using Cons.prems(2) by auto
  then have "distinct (map sl_id ?t)" using ids Cons.prems(1) by auto
  ultimately show ?case using Cons.IH [of ?t "Suc n"] by (simp add: g)
qed simp

lemma find_fresh_list:
  "find_by list_key (a, l) (fresh_list_rows n acct gs) = None \<longleftrightarrow> a \<noteq> acct \<or> l \<notin> fst ` set gs"
  "find_by list_key (a, l) (fresh_list_rows n acct gs) = Some row \<Longrightarrow> sl_status row = ListActive"
proof -
  have "list_key ` set (fresh_list_rows n acct gs) = set (map list_key (fresh_list_rows n acct gs))"
    by simp
  also have "\<dots> = Pair acct ` fst ` set gs" unfolding fresh_list_rows_key by force
  finally show "find_by list_key (a, l) (fresh_list_rows n acct gs) = None \<longleftrightarrow>
      a \<noteq> acct \<or> l \<notin> fst ` set gs"
    by (auto simp: find_by_None)
  have "\<forall>x\<in>set (fresh_list_rows n acct gs). sl_status x = ListActive"
    by (induction n acct gs rule: fresh_list_rows.induct) (auto simp: new_list_row_def)
  then show "find_by list_key (a, l) (fresh_list_rows n acct gs) = Some row \<Longrightarrow>
      sl_status row = ListActive"
    by (auto dest: find_by_SomeD)
qed

text \<open>
  After the upsert the account's staged lists are present and active; every other row, of this
  account or another, is as it was.
\<close>

lemma upsert_lists_effect:
  assumes "upsert_lists_from_staging run acct db = Inr db1" and "lists_ok db"
  shows "lists_ok db1"
    and "memberships db1 = memberships db" and "repositories db1 = repositories db"
    and "list_snapshot_items db1 = list_snapshot_items db" and "db_clock db1 = db_clock db"
    and "\<And>a p. find_by list_key (a, p) (star_lists db1) = None \<longleftrightarrow>
      find_by list_key (a, p) (star_lists db) = None \<and>
      (a \<noteq> acct \<or> p \<notin> set (staged_list_ids run db))"
    and "\<And>a p. a \<noteq> acct \<or> p \<notin> set (staged_list_ids run db) \<Longrightarrow>
      find_by list_key (a, p) (star_lists db1) = find_by list_key (a, p) (star_lists db)"
    and "\<And>p l. p \<in> set (staged_list_ids run db) \<Longrightarrow>
      find_by list_key (acct, p) (star_lists db1) = Some l \<Longrightarrow> sl_status l = ListActive"
    and "\<And>a p l. find_by list_key (a, p) (star_lists db) = Some l \<Longrightarrow>
      \<exists>l'. find_by list_key (a, p) (star_lists db1) = Some l' \<and> sl_id l' = sl_id l"
proof -
  let ?gs = "map (\<lambda>l. (l, staged_list_name run db l)) (staged_list_ids run db)"
  let ?rows = "fresh_list_rows (next_uuid db) acct ?gs"
  have gs: "fst ` set ?gs = set (staged_list_ids run db)" by force
  have db1: "db1 = db\<lparr>star_lists := fold (upsert list_key list_merge) ?rows (star_lists db),
      next_uuid := next_uuid db + length ?gs\<rparr>" and dist: "distinct (map list_key ?rows)"
    using assms(1)
    by (auto simp: upsert_lists_from_staging_def Let_def and_then_eq_Inr list_table.bulk_upsert_Inr)
  show "lists_ok db1"
    using assms(2) fold_fresh_list_ids [of "star_lists db" "next_uuid db" acct ?gs]
    by (simp add: lists_ok_def db1 list_table.distinct_fold_upsert)
  have look: "find_by list_key k (star_lists db1) =
      (case find_by list_key k ?rows of None \<Rightarrow> find_by list_key k (star_lists db)
       | Some row \<Rightarrow> Some (case find_by list_key k (star_lists db) of
           None \<Rightarrow> row | Some old \<Rightarrow> list_merge old row))" for k
    by (simp add: db1 list_table.find_fold_upsert [OF dist])
  note fresh = find_fresh_list [of _ _ "next_uuid db" acct ?gs, unfolded gs]
  show "find_by list_key (a, p) (star_lists db1) = None \<longleftrightarrow>
      find_by list_key (a, p) (star_lists db) = None \<and>
      (a \<noteq> acct \<or> p \<notin> set (staged_list_ids run db))" for a p
    using fresh(1) [of a p] by (auto simp: look split: option.split)
  show "find_by list_key (a, p) (star_lists db1) = find_by list_key (a, p) (star_lists db)"
    if "a \<noteq> acct \<or> p \<notin> set (staged_list_ids run db)" for a p
    using fresh(1) [of a p] that by (simp add: look)
  show "sl_status l = ListActive" if "p \<in> set (staged_list_ids run db)"
    "find_by list_key (acct, p) (star_lists db1) = Some l" for p l
    using that fresh(1) [of acct p] fresh(2) [of acct p] by (auto simp: look split: option.splits)
  show "\<exists>l'. find_by list_key (a, p) (star_lists db1) = Some l' \<and> sl_id l' = sl_id l"
    if "find_by list_key (a, p) (star_lists db) = Some l" for a p l
    using that by (auto simp: look split: option.split)
qed (use assms(1) in \<open>auto simp: upsert_lists_from_staging_def Let_def and_then_eq_Inr\<close>)

section \<open>The swap\<close>

text \<open>The repositories a run has staged under a list.\<close>

definition staged_members :: "uuid \<Rightarrow> catalog \<Rightarrow> string \<Rightarrow> uuid set" where
  "staged_members run db p =
     {repo_id r | r i. r \<in> set (repositories db) \<and> i \<in> set (staged_rows run db) \<and>
        li_list i = p \<and> repo_provider_id r = li_repo i}"

lemma set_staged_pairs:
  "set (staged_pairs run q db) =
     {(sl_id l, x) | l x. l \<in> set (star_lists db) \<and> q (sl_account l) \<and>
        x \<in> staged_members run db (sl_provider l)}"
  unfolding staged_pairs_def staged_members_def by (auto simp: image_iff) (metis)+

lemma apply_list_authority_parts:
  assumes "apply_list_authority_tx run acct db = Inr ((pages, items, additions, removals), db')"
  obtains db1 db2 db3 where
    "upsert_lists_from_staging run acct db = Inr db1"
    "promote_seen_pairs run acct (record_membership_observations run db1) = Inr db2"
    "demote_absent_pairs run acct db2 = (removals, db3)"
    "additions = count_member_additions run acct db1"
    "complete_lists_row run additions removals
       (clear_list_staging run (tombstone_absent_lists run acct db3)) = Inr ((pages, items), db')"
proof -
  obtain db1 db2 where 12: "upsert_lists_from_staging run acct db = Inr db1"
    "promote_seen_pairs run acct (record_membership_observations run db1) = Inr db2"
    and rest: "(case demote_absent_pairs run acct db2 of (u, db3) \<Rightarrow>
       and_then (complete_lists_row run (count_member_additions run acct db1) u
         (clear_list_staging run (tombstone_absent_lists run acct db3)))
        (\<lambda>((pages, items), db4). Inr ((pages, items, count_member_additions run acct db1, u), db4))) =
       Inr ((pages, items, additions, removals), db')"
    using assms unfolding apply_list_authority_tx_def Let_def by (auto simp: and_then_eq_Inr)
  obtain u db3 where 3: "demote_absent_pairs run acct db2 = (u, db3)"
    by (cases "demote_absent_pairs run acct db2")
  with rest have "additions = count_member_additions run acct db1" "u = removals"
    "complete_lists_row run additions removals
       (clear_list_staging run (tombstone_absent_lists run acct db3)) = Inr ((pages, items), db')"
    by (auto simp: and_then_eq_Inr)
  with 12 3 that show ?thesis by blast
qed

lemma promote_seen_pairs_Inr:
  assumes "promote_seen_pairs run acct db = Inr db'"
  shows "\<exists>t. db' = db\<lparr>memberships := t\<rparr>"
    and "distinct (map member_key (memberships db)) \<Longrightarrow> distinct (map member_key (memberships db'))"
    and "k \<in> set (staged_pairs run (\<lambda>a. a = acct) db) \<Longrightarrow>
      \<exists>m. find_by member_key k (memberships db') = Some m \<and> lm_member m"
    and "k \<notin> set (staged_pairs run (\<lambda>a. a = acct) db) \<Longrightarrow>
      find_by member_key k (memberships db') = find_by member_key k (memberships db)"
proof -
  let ?f = "\<lambda>(l, r). \<lparr>lm_list = l, lm_repo = r, lm_member = True, lm_last = db_clock db,
      lm_removed = None, lm_evidence = Some run\<rparr>"
  let ?ks = "staged_pairs run (\<lambda>a. a = acct) db"
  have dist: "distinct (map member_key (map ?f ?ks))"
    and db': "db' = db\<lparr>memberships := fold (upsert member_key member_merge) (map ?f ?ks) (memberships db)\<rparr>"
    using assms
    by (auto simp: promote_seen_pairs_def and_then_eq_Inr member_table.bulk_upsert_Inr)
  show "\<exists>t. db' = db\<lparr>memberships := t\<rparr>" using db' by blast
  show "distinct (map member_key (memberships db'))" if "distinct (map member_key (memberships db))"
    using that by (simp add: db' member_table.distinct_fold_upsert)
  have look: "find_by member_key k (memberships db') =
      (case find_by member_key k (map ?f ?ks) of None \<Rightarrow> find_by member_key k (memberships db)
       | Some row \<Rightarrow> Some (case find_by member_key k (memberships db) of
           None \<Rightarrow> row | Some old \<Rightarrow> member_merge old row))"
    by (simp add: db' member_table.find_fold_upsert [OF dist])
  have row: "find_by member_key k (map ?f ks) = (if k \<in> set ks then Some (?f k) else None)" for ks
    by (induction ks) (auto simp: member_key_def)
  show "\<exists>m. find_by member_key k (memberships db') = Some m \<and> lm_member m" if "k \<in> set ?ks"
    using that by (auto simp: look row split: option.split prod.split)
  show "find_by member_key k (memberships db') = find_by member_key k (memberships db)"
    if "k \<notin> set ?ks"
    using that by (simp add: look row)
qed

lemma is_member_find:
  "distinct (map member_key (memberships db)) \<Longrightarrow>
     is_member db l r \<longleftrightarrow> (\<exists>m. find_by member_key (l, r) (memberships db) = Some m \<and> lm_member m)"
  by (auto simp: is_member_def find_by_unique)

lemma demoted_is_member:
  assumes "demote_absent_pairs run acct db = (n, db')"
  shows "is_member db' l r \<longleftrightarrow>
    (\<exists>m\<in>set (memberships db). member_key m = (l, r) \<and> lm_member m \<and> \<not> absent_member run acct db m)"
  using assms
  by (auto simp: is_member_def demote_absent_pairs_def Let_def set_update_where member_key_def)

lemma absent_member_iff:
  assumes "distinct (map sl_id (star_lists db))" and "l \<in> set (star_lists db)"
    and "member_key m = (sl_id l, r)" and "lm_member m"
  shows "absent_member run acct db m \<longleftrightarrow>
    sl_account l = acct \<and> r \<notin> staged_members run db (sl_provider l)"
proof -
  have "l' = l" if "l' \<in> set (star_lists db)" "sl_id l' = sl_id l" for l'
    using assms(1,2) that by (auto simp: distinct_map inj_on_def)
  then have "absent_member run acct db m \<longleftrightarrow> sl_account l = acct \<and>
      \<not> (\<exists>i\<in>set (staged_rows run db). \<exists>x\<in>set (repositories db).
           repo_provider_id x = li_repo i \<and> li_list i = sl_provider l \<and> repo_id x = r)"
    using assms(2-4) unfolding absent_member_def member_key_def by (metis prod.inject)
  then show ?thesis by (auto simp: staged_members_def)
qed

lemma staged_members_cong:
  "repositories db' = repositories db \<Longrightarrow> list_snapshot_items db' = list_snapshot_items db \<Longrightarrow>
     staged_members run db' = staged_members run db \<and> staged_list_ids run db' = staged_list_ids run db"
  by (simp add: staged_members_def staged_rows_def staged_list_ids_def fun_eq_iff)

lemma complete_lists_row_Inr:
  "complete_lists_row run a u db = Inr (pi, db') \<Longrightarrow>
     star_lists db' = star_lists db \<and> memberships db' = memberships db \<and> next_uuid db' = next_uuid db"
  by (auto simp: complete_lists_row_def split: option.splits)

text \<open>The tables after the swap: memberships by key, and lists up to the tombstones.\<close>

lemma apply_list_authority_effect:
  assumes "apply_list_authority_tx run acct db = Inr (counts, db')" and "lists_ok db"
  obtains db1 where "upsert_lists_from_staging run acct db = Inr db1"
    and "star_lists db' = star_lists (tombstone_absent_lists run acct db1)"
    and "next_uuid db' = next_uuid db1"
    and "distinct (map member_key (memberships db'))"
    and "\<And>l x. l \<in> set (star_lists db1) \<Longrightarrow> is_member db' (sl_id l) x \<longleftrightarrow>
      (if sl_account l = acct then x \<in> staged_members run db (sl_provider l)
       else is_member db (sl_id l) x)"
proof -
  obtain p i a u where c: "counts = (p, i, a, u)" by (cases counts)
  obtain db1 db2 db3 where
    1: "upsert_lists_from_staging run acct db = Inr db1" and
    2: "promote_seen_pairs run acct (record_membership_observations run db1) = Inr db2" and
    3: "demote_absent_pairs run acct db2 = (u, db3)" and
    4: "complete_lists_row run a u
       (clear_list_staging run (tombstone_absent_lists run acct db3)) = Inr ((p, i), db')"
    using apply_list_authority_parts [OF assms(1) [unfolded c]] by blast
  note e1 = upsert_lists_effect [OF 1 assms(2)]
  let ?d = "record_membership_observations run db1"
  have d: "star_lists ?d = star_lists db1" "repositories ?d = repositories db1"
    "list_snapshot_items ?d = list_snapshot_items db1" "memberships ?d = memberships db1"
    "next_uuid ?d = next_uuid db1" "db_clock ?d = db_clock db1"
    by (simp_all add: record_membership_observations_def)
  obtain t where db2: "db2 = ?d\<lparr>memberships := t\<rparr>" using promote_seen_pairs_Inr(1) [OF 2] by blast
  have dist1: "distinct (map member_key (memberships ?d))" "distinct (map sl_id (star_lists db1))"
    using e1(1) d by (simp_all add: lists_ok_def)
  note dist2 = promote_seen_pairs_Inr(2) [OF 2 dist1(1)]
  have same2: "staged_members run db2 = staged_members run db"
    using staged_members_cong [of db2 db run] e1(3,4) d db2 by simp
  have pairs: "(sl_id l, x) \<in> set (staged_pairs run (\<lambda>a. a = acct) ?d) \<longleftrightarrow>
      sl_account l = acct \<and> x \<in> staged_members run db (sl_provider l)"
    if "l \<in> set (star_lists db1)" for l x
  proof -
    have one: "l' = l" if "l' \<in> set (star_lists db1)" "sl_id l' = sl_id l" for l'
      using dist1(2) \<open>l \<in> set (star_lists db1)\<close> that by (auto simp: distinct_map inj_on_def)
    have "staged_members run ?d = staged_members run db"
      using staged_members_cong [of ?d db run] e1(3,4) d by simp
    then have "(sl_id l, x) \<in> set (staged_pairs run (\<lambda>a. a = acct) ?d) \<longleftrightarrow>
        (\<exists>l'\<in>set (star_lists db1). sl_id l' = sl_id l \<and> sl_account l' = acct \<and>
          x \<in> staged_members run db (sl_provider l'))"
      by (simp add: set_staged_pairs d) metis
    with one that show ?thesis by blast
  qed
  have db3: "star_lists db3 = star_lists db1" "next_uuid db3 = next_uuid db1"
    "list_snapshot_items db3 = list_snapshot_items db1" "db_clock db3 = db_clock db1"
    "map member_key (memberships db3) = map member_key (memberships db2)"
    using 3 d
    by (auto simp: demote_absent_pairs_def Let_def db2 map_update_where_key member_key_def)
  note f4 = complete_lists_row_Inr [OF 4]
  have mem: "memberships db' = memberships db3"
    using f4 by (simp add: clear_list_staging_def tombstone_absent_lists_def)
  show ?thesis
  proof (rule that [OF 1])
    show "star_lists db' = star_lists (tombstone_absent_lists run acct db1)"
      using f4 db3 by (simp add: clear_list_staging_def tombstone_absent_lists_def staged_rows_def)
    show "next_uuid db' = next_uuid db1"
      using f4 db3 by (simp add: clear_list_staging_def tombstone_absent_lists_def)
    show "distinct (map member_key (memberships db'))" using mem db3(5) dist2 by simp
    fix l x
    assume l: "l \<in> set (star_lists db1)"
    have l2: "l \<in> set (star_lists db2)" "distinct (map sl_id (star_lists db2))"
      using l dist1 d db2 by simp_all
    let ?in = "sl_account l = acct \<and> x \<in> staged_members run db (sl_provider l)"
    have "is_member db' (sl_id l) x \<longleftrightarrow> is_member db3 (sl_id l) x" using mem by (simp add: is_member_def)
    also have "\<dots> \<longleftrightarrow> is_member db2 (sl_id l) x \<and>
        (sl_account l = acct \<longrightarrow> x \<in> staged_members run db (sl_provider l))"
      unfolding demoted_is_member [OF 3] unfolding is_member_def
      using absent_member_iff [OF l2(2,1), of _ x run acct] same2 by auto
    also have "is_member db2 (sl_id l) x \<longleftrightarrow> ?in \<or> is_member db (sl_id l) x"
    proof (cases ?in)
      case True
      with pairs [OF l, of x] promote_seen_pairs_Inr(3) [OF 2, of "(sl_id l, x)"] show ?thesis
        using is_member_find [OF dist2] by blast
    next
      case False
      with pairs [OF l, of x] promote_seen_pairs_Inr(4) [OF 2, of "(sl_id l, x)"]
      have "find_by member_key (sl_id l, x) (memberships db2) =
          find_by member_key (sl_id l, x) (memberships db)" using d e1(2) by simp
      moreover have "distinct (map member_key (memberships db))"
        using assms(2) by (simp add: lists_ok_def)
      ultimately show ?thesis using False is_member_find dist2 by metis
    qed
    finally show "is_member db' (sl_id l) x \<longleftrightarrow>
      (if sl_account l = acct then x \<in> staged_members run db (sl_provider l)
       else is_member db (sl_id l) x)" by auto
  qed
qed

section \<open>Properties of the swap\<close>

text \<open>
  C26. A committed star-list swap makes the staged enumeration the truth, on list tables with unique keys: the
  active lists of the account are exactly the staged ones, the members of each of its lists (also of a
  tombstoned one) are exactly the staged repositories, and the list rows and the members of other accounts'
  lists stay; the list tables keep their unique keys. (The history of membership observations is not
  covered: the swap also records observations on another account's list of the same provider identity.)
\<close>

theorem list_swap_exact:
  assumes "lists_ok db" and "apply_list_authority_tx run acct db = Inr (counts, db')"
  shows "lists_ok db' \<and>
    sl_provider ` {l \<in> set (star_lists db'). sl_account l = acct \<and> sl_status l = ListActive} =
      set (staged_list_ids run db) \<and>
    (\<forall>l\<in>set (star_lists db'). sl_account l = acct \<longrightarrow>
      set (current_list_members (sl_id l) db') = staged_members run db (sl_provider l)) \<and>
    {l \<in> set (star_lists db'). sl_account l \<noteq> acct} = {l \<in> set (star_lists db). sl_account l \<noteq> acct} \<and>
    (\<forall>l\<in>set (star_lists db). sl_account l \<noteq> acct \<longrightarrow>
      set (current_list_members (sl_id l) db') = set (current_list_members (sl_id l) db))"
proof -
  obtain db1 where 1: "upsert_lists_from_staging run acct db = Inr db1"
    and lists: "star_lists db' = star_lists (tombstone_absent_lists run acct db1)"
    and uuid: "next_uuid db' = next_uuid db1"
    and dist: "distinct (map member_key (memberships db'))"
    and members: "\<And>l x. l \<in> set (star_lists db1) \<Longrightarrow> is_member db' (sl_id l) x \<longleftrightarrow>
      (if sl_account l = acct then x \<in> staged_members run db (sl_provider l)
       else is_member db (sl_id l) x)"
    using apply_list_authority_effect [OF assms(2,1)] by blast
  note e1 = upsert_lists_effect [OF 1 assms(1)]
  have staged: "(\<exists>i\<in>set (staged_rows run db1). li_list i = p) \<longleftrightarrow> p \<in> set (staged_list_ids run db)" for p
    using e1(4) by (auto simp: staged_list_ids_def staged_rows_def)
  define f where "f l = (if sl_account l = acct \<and> sl_status l = ListActive \<and>
      sl_provider l \<notin> set (staged_list_ids run db)
      then l\<lparr>sl_status := ListRemoved, sl_removed := Some (db_clock db1), sl_evidence := Some run\<rparr>
      else l)" for l :: list_row
  have lists': "star_lists db' = map f (star_lists db1)"
    by (simp add: lists tombstone_absent_lists_def update_where_def staged f_def [abs_def])
  have f: "sl_id (f l) = sl_id l" "sl_account (f l) = sl_account l" "sl_provider (f l) = sl_provider l"
    "list_key (f l) = list_key l" "sl_account l \<noteq> acct \<Longrightarrow> f l = l" for l
    by (simp_all add: f_def list_key_def)
  have dist1: "distinct (map list_key (star_lists db1))" "distinct (map list_key (star_lists db))"
    using e1(1) assms(1) by (simp_all add: lists_ok_def)
  have ok: "lists_ok db'"
    using e1(1) dist uuid by (simp add: lists_ok_def lists' comp_def f)
  have status: "sl_status (f l) = ListActive \<longleftrightarrow> sl_provider l \<in> set (staged_list_ids run db)"
    if "l \<in> set (star_lists db1)" "sl_account l = acct" for l
  proof -
    have "find_by list_key (acct, sl_provider l) (star_lists db1) = Some l"
      using that by (simp add: find_by_unique [OF dist1(1)] list_key_def)
    from e1(8) [OF _ this] that(2) show ?thesis
      by (cases "sl_status l") (auto simp: f_def)
  qed
  have present: "\<exists>l\<in>set (star_lists db1). sl_account l = acct \<and> sl_provider l = p"
    if "p \<in> set (staged_list_ids run db)" for p
    using e1(6) [of acct p] that
    by (cases "find_by list_key (acct, p) (star_lists db1)")
      (auto dest!: find_by_SomeD simp: list_key_def)
  have "sl_provider ` {l \<in> set (star_lists db'). sl_account l = acct \<and> sl_status l = ListActive} =
      set (staged_list_ids run db)"
  proof
    show "set (staged_list_ids run db) \<subseteq>
        sl_provider ` {l \<in> set (star_lists db'). sl_account l = acct \<and> sl_status l = ListActive}"
    proof
      fix p assume p: "p \<in> set (staged_list_ids run db)"
      then obtain l where l: "l \<in> set (star_lists db1)" "sl_account l = acct" "sl_provider l = p"
        using present by blast
      with p status show "p \<in> sl_provider ` {l \<in> set (star_lists db'). sl_account l = acct \<and>
          sl_status l = ListActive}"
        by (intro image_eqI [of _ _ "f l"]) (auto simp: lists' f)
    qed
  qed (use status in \<open>auto simp: lists' f\<close>)
  moreover have "{l \<in> set (star_lists db'). sl_account l \<noteq> acct} =
      {l \<in> set (star_lists db1). sl_account l \<noteq> acct}"
    by (auto simp: lists' f image_iff) (metis f(5))
  moreover have other: "l \<in> set (star_lists db1) \<longleftrightarrow> l \<in> set (star_lists db)" if "sl_account l \<noteq> acct" for l
    using e1(7) [of "sl_account l" "sl_provider l"] that
      find_by_unique [OF dist1(1), of "list_key l" l] find_by_unique [OF dist1(2), of "list_key l" l]
    by (simp add: list_key_def)
  ultimately show ?thesis
    using ok members other by (auto simp: set_current_list_members lists' f)
qed

text \<open>
  A catalog with a finished list enumeration: run 9 of account 7 has staged one repository in the
  list \<open>b\<close>; the account had the lists \<open>a\<close> and \<open>b\<close>, and account 8 has a list \<open>a\<close> as well.
\<close>

definition list_example :: catalog where
  "list_example = swap_example\<lparr>
     list_snapshot_items :=
       [\<lparr>li_run = 9, li_position = 0, li_list = ''b'', li_name = ''B'', li_repo = 102\<rparr>],
     star_lists :=
       [\<lparr>sl_id = 3, sl_account = 7, sl_provider = ''a'', sl_name = ''A'', sl_status = ListActive,
         sl_removed = None, sl_evidence = None\<rparr>,
        \<lparr>sl_id = 4, sl_account = 7, sl_provider = ''b'', sl_name = ''old'', sl_status = ListActive,
         sl_removed = None, sl_evidence = None\<rparr>,
        \<lparr>sl_id = 5, sl_account = 8, sl_provider = ''a'', sl_name = ''A'', sl_status = ListActive,
         sl_removed = None, sl_evidence = None\<rparr>],
     memberships :=
       [\<lparr>lm_list = 3, lm_repo = 0, lm_member = True, lm_last = 0, lm_removed = None, lm_evidence = None\<rparr>,
        \<lparr>lm_list = 4, lm_repo = 1, lm_member = True, lm_last = 0, lm_removed = None, lm_evidence = None\<rparr>]\<rparr>"

theorem list_swap_exact_witness:
  "\<exists>db'. apply_list_authority_tx 9 7 list_example = Inr ((2, 2, 1, 2), db') \<and> lists_ok db' \<and>
     sl_provider ` {l \<in> set (star_lists db'). sl_account l = 7 \<and> sl_status l = ListActive} = {''b''}"
proof -
  have ok: "lists_ok list_example"
    by (simp add: lists_ok_def list_example_def swap_example_def list_key_def member_key_def)
  have "case apply_list_authority_tx 9 7 list_example of Inr (x, _) \<Rightarrow> x = (2, 2, 1, 2) | Inl _ \<Rightarrow> False"
    by code_simp
  then obtain db' where run: "apply_list_authority_tx 9 7 list_example = Inr ((2, 2, 1, 2), db')"
    by (auto split: sum.splits)
  have "staged_list_ids 9 list_example = [''b'']" by code_simp
  with list_swap_exact [OF ok run] run show ?thesis by auto
qed

section \<open>What the pages may change\<close>

definition completed_runs :: "catalog \<Rightarrow> uuid set" where
  "completed_runs db = run_id ` {r \<in> set (sync_runs db). run_status r = RunCompleted}"

text \<open>Authority is as before, or the given run is recorded as completed.\<close>

definition evidenced_by :: "uuid \<Rightarrow> catalog \<Rightarrow> catalog \<Rightarrow> bool" where
  "evidenced_by run db db' \<longleftrightarrow>
     (run \<in> completed_runs db \<longrightarrow> run \<in> completed_runs db') \<and>
     (same_authority db db' \<or> run \<in> completed_runs db')"

interpretation list_evidence: durable_relation "evidenced_by run" for run
proof unfold_locales
  have clock: "evidenced_by run db (db\<lparr>db_clock := t\<rparr>)" for db t
    using authority_frame.R_clock by (simp add: evidenced_by_def completed_runs_def)
  show "evidenced_by run db (db\<lparr>db_clock := t\<rparr>)" for db t by (rule clock)
  show "evidenced_by run db (db\<lparr>db_clock := t\<rparr>)" for db t by (rule clock)
qed (auto simp: evidenced_by_def intro: authority_frame.R_refl authority_frame.R_trans)

lemma same_runs_evidence: "same_authority db db' \<Longrightarrow> same_runs db db' \<Longrightarrow> evidenced_by run db db'"
  by (simp add: evidenced_by_def completed_runs_def same_runs_def)

lemma keeps_identity_evidence:
  "authority_frame.keeps m \<Longrightarrow> runs_frame.keeps m \<Longrightarrow> list_evidence.keeps run m"
  by (auto simp: authority_frame.keeps_def runs_frame.keeps_def list_evidence.keeps_def
      intro: same_runs_evidence)

lemma keeps_listed_identity: "list_evidence.keeps run (record_listed_identity item)"
  unfolding record_listed_identity_def
  by (auto split: option.split intro!: list_evidence.keeps_intros
      keeps_identity_evidence [OF keeps_upsert_repository] keeps_identity_evidence [OF keeps_apply_alias])

lemma update_counts_completed:
  assumes "\<And>r. run_id (f r) = run_id r \<and> run_status (f r) = run_status r"
  shows "run_id ` {r \<in> set (update_where q f t). run_status r = RunCompleted} =
     run_id ` {r \<in> set t. run_status r = RunCompleted}"
proof -
  define g where "g r = (if q r then f r else r)" for r
  have g: "run_id (g r) = run_id r" "run_status (g r) = run_status r" for r
    using assms by (simp_all add: g_def)
  have "{r \<in> set (update_where q f t). run_status r = RunCompleted} =
      g ` {r \<in> set t. run_status r = RunCompleted}"
    using g(2) by (auto simp: update_where_def g_def [symmetric])
  then show ?thesis by (simp add: image_image g)
qed

lemma keeps_lists_page: "list_evidence.keeps run (record_lists_page run' reply)"
proof -
  have "list_evidence.keeps run (transact (stage_lists_page run' reply))"
    by (rule list_evidence.keeps_transact)
      (auto simp: stage_lists_page_def and_then_eq_Inr evidenced_by_def completed_runs_def
        same_authority_def same_stars_def same_lists_def update_counts_completed
        dest!: add_run_counts_Inr)
  then show ?thesis
    unfolding record_lists_page_def
    by (auto split: prod.split intro!: list_evidence.keeps_intros keeps_listed_identity)
qed

lemma keeps_fail_evidence: "list_evidence.keeps run (fail_run run' reason)"
  unfolding fail_run_def
  by (rule list_evidence.keeps_transact)
    (force simp: fail_run_tx_def evidenced_by_def completed_runs_def set_update_where
      same_authority_def same_stars_def same_lists_def)

lemma list_swap_completes:
  assumes "apply_list_authority_tx run acct db = Inr (counts, db')"
  shows "run \<in> completed_runs db'"
proof -
  obtain p i a u where c: "counts = (p, i, a, u)" by (cases counts)
  obtain db3 where "complete_lists_row run a u db3 = Inr ((p, i), db')"
    using apply_list_authority_parts [OF assms [unfolded c]] by metis
  then obtain r where r: "r \<in> set (sync_runs db3)" "run_id r = run" and
    db': "db' = db3\<lparr>sync_runs := update_where (\<lambda>x. run_id x = run)
      (\<lambda>x. x\<lparr>run_status := RunCompleted, run_finished := Some (db_clock db3),
             run_additions := sat_i32 a, run_removals := sat_i32 u\<rparr>) (sync_runs db3)\<rparr>"
    by (auto simp: complete_lists_row_def split: option.splits dest: find_by_SomeD)
  then show ?thesis
    by (auto simp: completed_runs_def set_update_where image_iff intro!: bexI [of _ r])
qed

lemma keeps_lists_step: "list_evidence.keeps run (lists_step api tok acct run cursor)"
proof -
  have "list_evidence.keeps run (apply_list_authority_and_complete run acct)"
    unfolding apply_list_authority_and_complete_def
    by (rule list_evidence.keeps_transact) (auto simp: evidenced_by_def dest: list_swap_completes)
  moreover have "list_evidence.keeps run (read_lists_observed run)"
    unfolding read_lists_observed_def
    by (rule list_evidence.keeps_transact) (auto simp: list_evidence.R_refl split: option.splits)
  ultimately show ?thesis
    unfolding lists_step_def
    by (auto split: sum.split option.split prod.split intro!: list_evidence.keeps_flow keeps_lists_page
        keeps_fail_evidence)
qed

lemma keeps_open_lists: "authority_frame.keeps (open_or_resume_lists acct)"
  unfolding open_or_resume_lists_def
  by (auto split: option.split intro!: authority_frame.keeps_intros authority_frame.keeps_transact
      insert_run_authority)

lemma open_lists_cases:
  assumes "open_or_resume_lists acct w = (Inr (run, cursor), w')"
  shows "running_run ModeStarLists acct (w_db w) = Some run \<or>
     running_run ModeStarLists acct (w_db w) = None \<and> run = next_uuid (w_db w)"
  using assms unfolding open_or_resume_lists_def
  by (auto simp: io_return_def insert_run_def fresh_uuid_def split: option.splits if_splits
      elim!: io_bind_InrE dest!: query_InrD transact_InrD)

text \<open>
  Whatever a star-list snapshot meets, list and star authority is unchanged unless the run it
  works on - the account's open one, or the one it opens - is recorded as completed.
\<close>

theorem list_authority_needs_completion:
  "case run_star_list_snapshot api tok acct rounds w of
     (r, w') \<Rightarrow> same_authority (w_db w) (w_db w') \<or>
       (case running_run ModeStarLists acct (w_db w) of Some run \<Rightarrow> run | None \<Rightarrow> next_uuid (w_db w))
         \<in> completed_runs (w_db w')"
proof (cases "open_or_resume_lists acct w")
  case (Pair q w1)
  note opened = authority_frame.keepsD [OF keeps_open_lists Pair]
  show ?thesis
  proof (cases q)
    case (Inl e)
    with opened Pair show ?thesis by (simp add: run_star_list_snapshot_def)
  next
    case (Inr rc)
    obtain run cursor where rc: "rc = (run, cursor)" by (cases rc)
    note start = open_lists_cases [OF Pair [unfolded Inr rc]]
    obtain r w' where loop: "run_loop rounds (lists_step api tok acct run) cursor w1 = (r, w')"
      by (cases "run_loop rounds (lists_step api tok acct run) cursor w1")
    have "evidenced_by run (w_db w1) (w_db w')"
      by (rule list_evidence.run_loop_keeps [OF keeps_lists_step loop])
    with opened start Pair Inr rc loop show ?thesis
      by (auto simp: run_star_list_snapshot_def evidenced_by_def intro: authority_frame.R_trans)
  qed
qed

section \<open>Two behaviours of the enumeration\<close>

text \<open>A provider with one list and an empty terminator page, which carries no continuation token.\<close>

definition one_list_api :: "listed_repository list \<Rightarrow> github_api" where
  "one_list_api items = (paged_api [])\<lparr>api_list_user_lists := (\<lambda>n cursor.
     Answer 1 (Inr (if cursor = None
       then \<lparr>ur_lists = [\<lparr>ul_provider_list_id = ''a'', ul_name = ''A'', ul_items_truncated = False,
                          ul_items = items\<rparr>],
             ur_next_cursor = Some ''end'', ur_rate_limit = no_headers\<rparr>
       else \<lparr>ur_lists = [], ur_next_cursor = None, ur_rate_limit = no_headers\<rparr>)))\<rparr>"

definition lists_account :: catalog where
  "lists_account = empty_catalog\<lparr>next_uuid := 10,
     accounts := [\<lparr>acct_id = 7, acct_owner = ''owner'', acct_status = Connected, acct_scopes = [], acct_provider = Some 9,
      acct_login = None\<rparr>],
     star_lists := [\<lparr>sl_id = 3, sl_account = 7, sl_provider = ''a'', sl_name = ''A'',
       sl_status = ListActive, sl_removed = None, sl_evidence = None\<rparr>]\<rparr>"

text \<open>
  A list that the provider lists without members is not staged, so the completed enumeration
  that has just seen it records it as removed upstream.
\<close>

theorem empty_list_is_tombstoned:
  "case run_star_list_snapshot (one_list_api []) ''t'' 7 5 (idle_world lists_account) of
     (r, w') \<Rightarrow> r = Some (Inr (ListsCompleted 10 2 0 1 0 0)) \<and>
       map sl_status (star_lists (w_db w')) = [ListRemoved] \<and>
       current_star_lists 7 (w_db w') = []"
  by code_simp

definition lists_session :: "bool list \<Rightarrow> world \<Rightarrow>
    (star_lists_error, star_list_snapshot_outcome) result option \<times> world" where
  "lists_session faults w =
     run_star_list_snapshot
       (one_list_api [\<lparr>lp_provider_repository_id = 42, lp_full_name = ''o/r''\<rparr>]) ''t'' 7 5
       (w\<lparr>w_faults := faults\<rparr>)"

definition restarted_session :: "bool list \<Rightarrow> catalog \<Rightarrow>
    (star_lists_error, star_list_snapshot_outcome) result option \<times> catalog" where
  "restarted_session faults db =
     (case lists_session faults (idle_world db) of (r, w) \<Rightarrow> (r, w_db w))"

text \<open>The catalog with \<open>n\<close> enumerations staged by the open run 10, the clock having advanced.\<close>

definition staged_again :: "nat \<Rightarrow> int \<Rightarrow> nat \<Rightarrow> list_item_row list \<Rightarrow> checkpoint_row list \<Rightarrow> catalog" where
  "staged_again fresh now n items cps = lists_account\<lparr>
     db_clock := now, next_uuid := fresh,
     repositories := [\<lparr>repo_id = 11, repo_provider_id = 42, repo_mode = None, repo_updated_at = 1\<rparr>],
     aliases := [\<lparr>alias_id = 13, alias_repo = 11, alias_kind = OwnerName, alias_value = ''o/r'',
       alias_status = Active, alias_redirect = None, alias_created = 1\<rparr>],
     sync_runs := [\<lparr>run_id = 10, run_account = 7, run_mode = ModeStarLists, run_status = RunRunning,
       run_failure = None, run_pages = 2 * int n, run_items = int n, run_additions = 0,
       run_unstars = 0, run_lists = int n, run_removals = 0, run_started = 0, run_finished = None\<rparr>],
     checkpoints := cps, list_snapshot_items := items\<rparr>"

definition list_checkpoint :: "int \<Rightarrow> string option \<Rightarrow> int \<Rightarrow> checkpoint_row" where
  "list_checkpoint next cursor at =
     \<lparr>cp_run = 10, cp_next_page = next, cp_boundary = None, cp_cursor = cursor, cp_recorded = at\<rparr>"

definition list_item :: "int \<Rightarrow> list_item_row" where
  "list_item pos = \<lparr>li_run = 10, li_position = pos, li_list = ''a'', li_name = ''A'', li_repo = 42\<rparr>"

definition lost_swap_db :: catalog where
  "lost_swap_db = staged_again 14 2 1 [list_item 0]
     [list_checkpoint 1 (Some ''end'') 1, list_checkpoint 2 None 2]"

definition doubled_db :: catalog where
  "doubled_db = staged_again 16 4 2 [list_item 0, list_item 1]
     [list_checkpoint 1 (Some ''end'') 1, list_checkpoint 2 None 2,
      list_checkpoint 2 (Some ''end'') 3, list_checkpoint 3 None 4]"

lemma lost_swap_first:
  "restarted_session [False, False, False, False, False, False, True] lists_account =
     (Some (Inl (ListsPersistence ConnectionLost)), lost_swap_db)"
  by code_simp

lemma lost_swap_second:
  "restarted_session [] lost_swap_db =
     (Some (Inl (ListsPersistence CardinalityViolation)), doubled_db)"
  by code_simp

lemma lost_swap_third:
  "fst (restarted_session [] doubled_db) = Some (Inl (ListsPersistence CardinalityViolation))"
  "running_run ModeStarLists 7 (snd (restarted_session [] doubled_db)) = Some 10"
  by code_simp+

text \<open>
  A connection lost during the swap leaves the run open with the terminator page's empty
  continuation token. Each resumption then enumerates from the start again on top of the rows
  already staged, and the swap rejects the doubled rows: the run neither completes nor fails.
\<close>

theorem lost_list_swap_blocks_resumption:
  "let (r1, db1) = restarted_session [False, False, False, False, False, False, True] lists_account;
       (r2, db2) = restarted_session [] db1;
       (r3, db3) = restarted_session [] db2
   in r1 = Some (Inl (ListsPersistence ConnectionLost)) \<and>
      r2 = Some (Inl (ListsPersistence CardinalityViolation)) \<and>
      r3 = Some (Inl (ListsPersistence CardinalityViolation)) \<and>
      running_run ModeStarLists 7 db3 = Some 10"
  using lost_swap_third
  by (simp add: lost_swap_first lost_swap_second case_prod_unfold)

end
