(* ===== verification/Scan_Frame.thy ===== *)
theory Scan_Frame
  imports Incremental Star_Lists_Authority
begin

text \<open>
  What the three scans leave alone on every outcome, error and interruption: the tables of the other
  components (accounts, audit, backup policy, bus, metadata, watches and actions); and, for the
  star-list snapshot, the star authority as well. The scans are independent authorities.
\<close>

section \<open>The tables of the other components\<close>

definition desk where
  "desk db =
     ((accounts db, audit db, backup_policies db, policy_cursor db, publications db),
      (outbox db, inbox db, feedback db, action_attempts db),
      (metadata db, revisions db, readme_blobs db, watches db, requests db, dispatch_cursor db, links db))"

definition same_desk :: "catalog \<Rightarrow> catalog \<Rightarrow> bool" where
  "same_desk db db' \<longleftrightarrow> desk db' = desk db"

interpretation desk_frame: durable_relation same_desk
  by unfold_locales (auto simp: same_desk_def desk_def)

lemmas desk_simps = same_desk_def desk_def

lemma upsert_repository_desk: "upsert_repository_in_tx p db = Inr (r, db') \<Longrightarrow> same_desk db db'"
  by (auto simp: upsert_repository_in_tx_eq desk_simps split: option.splits)

lemma claim_alias_desk:
  assumes "claim_observed_alias r k v db = Inr (a, db')"
  shows "same_desk db db'"
  using claim_observed_alias_cases [OF assms]
  by (auto simp: desk_frame.R_refl reactivate_alias_in_tx_def put_aliases_def fresh_uuid_def desk_simps
      split: option.splits if_splits)

lemma retire_superseded_desk: "same_desk db (retire_superseded k s v a db)"
  by (auto simp: retire_superseded_def supersede_alias_in_tx_def desk_simps split: option.split)

lemma apply_alias_desk:
  "apply_alias_observation_tx p k s v db = Inr (i, db') \<Longrightarrow> same_desk db db'"
  by (erule apply_alias_observation_parts)
    (blast intro: upsert_repository_desk claim_alias_desk retire_superseded_desk desk_frame.R_trans)

lemma keeps_identity_desk:
  "desk_frame.keeps (upsert_repository p)" "desk_frame.keeps (apply_alias_observation p k s v)"
  unfolding upsert_repository_def apply_alias_observation_def
  by (rule desk_frame.keeps_transact desk_frame.keeps_transact_with,
      auto simp: and_then_eq_Inr dest: upsert_repository_desk apply_alias_desk)+

lemma insert_run_desk: "insert_run m acct db = Inr (run, db') \<Longrightarrow> same_desk db db'"
  by (auto simp: insert_run_def fresh_uuid_def desk_simps split: if_splits)

lemma keeps_fail_desk: "desk_frame.keeps (fail_run run reason)"
  unfolding fail_run_def by (rule desk_frame.keeps_transact) (auto simp: fail_run_tx_def desk_simps)

lemma keeps_record_identity_desk: "desk_frame.keeps (record_identity p n)"
  unfolding record_identity_def
  by (auto split: option.split intro!: desk_frame.keeps_intros keeps_identity_desk)

section \<open>The full snapshot\<close>

lemma keeps_open_full_desk: "desk_frame.keeps (open_or_resume_full acct)"
  unfolding open_or_resume_full_def
  by (auto split: option.split intro!: desk_frame.keeps_intros desk_frame.keeps_transact insert_run_desk)

lemma keeps_record_page_desk: "desk_frame.keeps (record_page cast run page items)"
  unfolding record_page_def record_item_identity_def
  by (auto intro!: desk_frame.keeps_intros keeps_record_identity_desk desk_frame.keeps_transact
      elim!: stage_page_Inr simp: desk_simps)

lemma swap_desk:
  "record_star_observations run acct db = Inr db' \<Longrightarrow> same_desk db db'"
  "same_desk db (record_restore_repairs run acct db)"
  "promote_seen_repositories run acct db = Inr db' \<Longrightarrow> same_desk db db'"
  "unstar_absent_repositories run acct db = (n, db') \<Longrightarrow> same_desk db db'"
  "same_desk db (clear_staging run (reanchor_watermark run acct db))"
  "complete_run_row run a u db = Inr (x, db') \<Longrightarrow> same_desk db db'"
proof -
  have one: "same_desk d (record_unstar run acct r d)" for d r
    by (simp add: record_unstar_def desk_simps)
  have each: "same_desk d (fold (record_unstar run acct) rs d)" for d rs
    by (induction rs arbitrary: d) (auto intro: desk_frame.R_refl desk_frame.R_trans [OF one])
  have "same_desk db (db\<lparr>star_state := t\<rparr>)" for t by (simp add: desk_simps)
  then show "unstar_absent_repositories run acct db = (n, db') \<Longrightarrow> same_desk db db'"
    using each by (auto simp: unstar_absent_repositories_def Let_def intro: desk_frame.R_trans)
qed (auto simp: desk_simps record_star_observations_def record_restore_repairs_def
    promote_seen_repositories_def reanchor_watermark_def raise_watermark_def clear_staging_def
    complete_run_row_def and_then_eq_Inr split: option.splits)

lemma apply_authority_desk:
  assumes "apply_authority_tx run acct db = Inr (x, db')"
  shows "same_desk db db'"
proof -
  obtain db1 db2 where 1: "record_star_observations run acct db = Inr db1"
    and 2: "promote_seen_repositories run acct (record_restore_repairs run acct db1) = Inr db2"
    using assms by (auto simp: apply_authority_tx_def Let_def and_then_eq_Inr)
  obtain n db3 where 3: "unstar_absent_repositories run acct db2 = (n, db3)" by fastforce
  obtain y where "complete_run_row run (count_additions run acct db) n
      (clear_staging run (reanchor_watermark run acct db3)) = Inr (y, db')"
    using assms 1 2 3 by (auto simp: apply_authority_tx_def Let_def and_then_eq_Inr)
  with 1 2 3 show ?thesis by (meson swap_desk desk_frame.R_trans)
qed

lemma keeps_snapshot_step_desk: "desk_frame.keeps (snapshot_step cast api tok acct run page)"
  unfolding snapshot_step_def apply_authority_and_complete_def
  by (auto split: sum.split intro!: desk_frame.keeps_flow keeps_fail_desk keeps_record_page_desk
      desk_frame.keeps_transact apply_authority_desk)

lemma full_snapshot_desk:
  assumes "run_full_snapshot cast api tok acct rounds w = (r, w')"
  shows "same_desk (w_db w) (w_db w')"
  using assms unfolding run_full_snapshot_def
  by (auto split: prod.splits sum.splits dest!: desk_frame.keepsD [OF keeps_open_full_desk]
      desk_frame.run_loop_keeps [OF keeps_snapshot_step_desk] intro: desk_frame.R_trans)

section \<open>The incremental scan\<close>

lemma keeps_ingest_desk: "desk_frame.keeps (ingest_window run acct es)"
proof -
  have "desk_frame.keeps (record_ingest run acct r t)" for r t
    unfolding record_ingest_def
    by (rule desk_frame.keeps_transact) (auto simp: record_ingest_tx_def desk_simps)
  moreover have "desk_frame.keeps (observe_owner_name item)" for item
    unfolding observe_owner_name_def
    by (auto split: option.split intro!: desk_frame.keeps_intros keeps_identity_desk)
  ultimately show ?thesis
    unfolding ingest_window_def ingest_item_def
    by (auto split: prod.split intro!: desk_frame.keeps_intros keeps_identity_desk)
qed

lemma keeps_incremental_page_desk: "desk_frame.keeps (record_incremental_page run page n seen)"
  unfolding record_incremental_page_def
  by (rule desk_frame.keeps_transact) (auto simp: and_then_eq_Inr desk_simps dest!: add_run_counts_Inr)

lemma keeps_complete_run_desk: "desk_frame.keeps (complete_run run acct page n oldest)"
  unfolding complete_run_def
  by (rule desk_frame.keeps_transact)
    (auto simp: complete_run_tx_def Let_def desk_simps raise_watermark_def split: option.splits)

lemma keeps_scan_step_desk: "desk_frame.keeps (scan_step lib api tok acct wm run s)"
  unfolding scan_step_def scan_page_def Let_def
  by (auto split: sum.split intro!: desk_frame.keeps_flow keeps_ingest_desk keeps_complete_run_desk
      keeps_fail_desk keeps_incremental_page_desk)

lemma keeps_open_run_desk:
  "desk_frame.keeps (read_watermark acct)" "desk_frame.keeps (open_or_resume_run acct)"
  unfolding read_watermark_def open_or_resume_run_def
  by (auto split: option.split intro!: desk_frame.keeps_intros desk_frame.keeps_transact insert_run_desk)

lemma incremental_scan_desk:
  assumes "run_incremental_scan cast lib api tok acct rounds w = (r, w')"
  shows "same_desk (w_db w) (w_db w')"
  using assms unfolding run_incremental_scan_def
  by (auto split: prod.splits sum.splits option.splits
      dest!: desk_frame.keepsD [OF keeps_open_run_desk(1)] desk_frame.keepsD [OF keeps_open_run_desk(2)]
        desk_frame.run_loop_keeps [OF keeps_scan_step_desk] full_snapshot_desk
      intro: desk_frame.R_trans)

section \<open>The star-list snapshot\<close>

text \<open>It keeps the star authority too: repositories only arrive, unclassified.\<close>

definition lists_only :: "catalog \<Rightarrow> catalog \<Rightarrow> bool" where
  "lists_only db db' \<longleftrightarrow> same_desk db db' \<and> same_stars db db' \<and> repos_grow db db'"

interpretation list_frame: durable_relation lists_only
proof unfold_locales
  show "lists_only a b \<Longrightarrow> lists_only b c \<Longrightarrow> lists_only a c" for a b c
    by (auto simp: lists_only_def same_stars_def intro: desk_frame.R_trans repos_grow_trans)
qed (simp_all add: lists_only_def same_stars_def desk_simps)

lemma keeps_lists_onlyI:
  "desk_frame.keeps m \<Longrightarrow> authority_frame.keeps m \<Longrightarrow> list_frame.keeps m"
  by (auto simp: desk_frame.keeps_def authority_frame.keeps_def list_frame.keeps_def lists_only_def
      same_authority_def)

lemma keeps_open_lists_only: "list_frame.keeps (open_or_resume_lists acct)"
proof (rule keeps_lists_onlyI [OF _ keeps_open_lists])
  show "desk_frame.keeps (open_or_resume_lists acct)"
    unfolding open_or_resume_lists_def
    by (auto split: option.split intro!: desk_frame.keeps_intros desk_frame.keeps_transact insert_run_desk)
qed

lemma stage_lists_page_only: "stage_lists_page run reply db = Inr (u, db') \<Longrightarrow> lists_only db db'"
  by (auto simp: stage_lists_page_def and_then_eq_Inr lists_only_def same_stars_def desk_simps
      dest!: add_run_counts_Inr)

lemma keeps_record_lists_page_only: "list_frame.keeps (record_lists_page run reply)"
proof -
  have "list_frame.keeps (record_listed_identity item)" for item
    unfolding record_listed_identity_def
    by (auto split: option.split intro!: list_frame.keeps_intros
        keeps_lists_onlyI [OF keeps_identity_desk(1) keeps_upsert_repository(1)]
        keeps_lists_onlyI [OF keeps_identity_desk(2) keeps_apply_alias(1)])
  then show ?thesis
    unfolding record_lists_page_def
    by (auto intro!: list_frame.keeps_intros list_frame.keeps_transact stage_lists_page_only)
qed

lemma apply_list_authority_only: "apply_list_authority_tx run acct db = Inr (x, db') \<Longrightarrow> lists_only db db'"
  by (auto simp: apply_list_authority_tx_def and_then_eq_Inr Let_def lists_only_def same_stars_def
      desk_simps upsert_lists_from_staging_def record_membership_observations_def
      promote_seen_pairs_def demote_absent_pairs_def tombstone_absent_lists_def clear_list_staging_def
      complete_lists_row_def split: prod.splits option.splits if_splits)

lemma keeps_lists_step_only: "list_frame.keeps (lists_step api tok acct run cursor)"
proof -
  have "list_frame.keeps (read_lists_observed run)"
    unfolding read_lists_observed_def
    by (rule list_frame.keeps_transact) (auto simp: list_frame.R_refl split: option.splits)
  then show ?thesis
    unfolding lists_step_def apply_list_authority_and_complete_def
    by (auto split: sum.split option.split intro!: list_frame.keeps_flow keeps_record_lists_page_only
        keeps_lists_onlyI [OF keeps_fail_desk keeps_fail_run] list_frame.keeps_transact
        apply_list_authority_only)
qed

lemma star_list_snapshot_only:
  assumes "run_star_list_snapshot api tok acct rounds w = (r, w')"
  shows "lists_only (w_db w) (w_db w')"
  using assms unfolding run_star_list_snapshot_def
  by (auto split: prod.splits sum.splits dest!: list_frame.keepsD [OF keeps_open_lists_only]
      list_frame.run_loop_keeps [OF keeps_lists_step_only] intro: list_frame.R_trans)

end
