(* ===== verification/Snapshot_Run.thy ===== *)
theory Snapshot_Run
  imports Snapshot_Frame Snapshot_Authority
begin

text \<open>
  Whole sessions of the full snapshot against a provider with a fixed listing: what a session that
  is cut off leaves behind can be resumed, and a session that nothing disturbs completes with
  exactly the listing as the account's stars.
\<close>

section \<open>The identities of a listing\<close>

definition item_name :: "starred_item \<Rightarrow> string option" where
  "item_name i = map_option owner_name_text (body_owner_name (st_repo i))"

text \<open>No name of the listing is live for another repository than the one it is listed with.\<close>

definition names_fit :: "starred_item list \<Rightarrow> catalog \<Rightarrow> bool" where
  "names_fit items db \<longleftrightarrow>
     (\<forall>i\<in>set items. \<forall>n a r. item_name i = Some n \<longrightarrow>
        active_alias_holder_in_tx OwnerName n db = Some (a, r) \<longrightarrow>
        repo_by_provider db (item_provider_id i) = Some r)"

definition consistent_names :: "starred_item list \<Rightarrow> bool" where
  "consistent_names items \<longleftrightarrow>
     (\<forall>i\<in>set items. \<forall>j\<in>set items. item_name i = item_name j \<longrightarrow> item_name i \<noteq> None \<longrightarrow>
        item_provider_id i = item_provider_id j)"

definition identities_fit :: "starred_item list \<Rightarrow> catalog \<Rightarrow> bool" where
  "identities_fit items db \<longleftrightarrow> identity_ok db \<and> names_fit items db"

text \<open>What recording identities does to the catalog.\<close>

definition settles :: "starred_item list \<Rightarrow> catalog \<Rightarrow> catalog \<Rightarrow> bool" where
  "settles items db db' \<longleftrightarrow>
     same_runs db db' \<and> db_clock db \<le> db_clock db' \<and>
     (\<forall>p x. repo_by_provider db p = Some x \<longrightarrow> repo_by_provider db' p = Some x) \<and>
     (identities_fit items db \<longrightarrow> identities_fit items db')"

lemma identity_views_clock [simp]:
  "identity_ok (db\<lparr>db_clock := t\<rparr>) = identity_ok db"
  "repo_by_provider (db\<lparr>db_clock := t\<rparr>) = repo_by_provider db"
  "active_alias_holder_in_tx k v (db\<lparr>db_clock := t\<rparr>) = active_alias_holder_in_tx k v db"
  by (auto simp: identity_ok_def repos_ok_def aliases_ok_def repo_by_provider_def
      active_alias_holder_in_tx_def fun_eq_iff)

interpretation identity_progress: timed_relation "settles items" for items
  by unfold_locales
    (auto simp: settles_def identities_fit_def names_fit_def intro: runs_frame.R_refl
      runs_frame.R_clock runs_frame.R_trans)

lemma reactivate_alias_other:
  assumes "reactivate_alias_in_tx r k v db = Inr (a, db')" and "(k', v') \<noteq> (k, v)"
  shows "active_alias_holder_in_tx k' v' db' = active_alias_holder_in_tx k' v' db"
proof -
  have upd: "find (\<lambda>a. names_alias k' v' a \<and> is_live a) (update_where (dormant_alias r k v) f t) =
      find (\<lambda>a. names_alias k' v' a \<and> is_live a) t"
    if "\<And>a. alias_kind (f a) = alias_kind a \<and> alias_value (f a) = alias_value a" for f t
    using assms(2) that
    by (induction t) (auto simp: update_where_def dormant_alias_def names_alias_def)
  show ?thesis
    using assms
    by (auto simp: reactivate_alias_in_tx_def put_aliases_def fresh_uuid_def names_alias_def find_append
        active_alias_holder_in_tx_def upd [unfolded names_alias_def conj_assoc]
        split: option.splits if_splits)
qed

lemma upsert_settles:
  assumes "upsert_repository_in_tx p db = Inr (r, db')"
  shows "settles items db db'"
proof -
  note frame = upsert_repository_frame [OF assms]
  have "active_alias_holder_in_tx k v db' = active_alias_holder_in_tx k v db" for k v
    using frame(3) by (simp add: active_alias_holder_in_tx_def)
  then show ?thesis
    using frame upsert_repository_ok(1) [OF assms] repo_identity.keeps_known [OF assms]
    by (auto simp: settles_def identities_fit_def names_fit_def)
qed

lemma claim_settles:
  assumes "claim_observed_alias r OwnerName n db = Inr (a, db')"
    and "repo_by_provider db (item_provider_id i) = Some r" and "item_name i = Some n"
    and "i \<in> set items" and "consistent_names items"
  shows "settles items db db'"
proof -
  note frame = claim_observed_alias_frame [OF assms(1)]
  have same: "repo_by_provider db' = repo_by_provider db"
    using frame(3) by (simp add: repo_by_provider_def fun_eq_iff)
  have known: "r \<in> repo_id ` set (repositories db)"
    using assms(2) by (auto simp: repo_by_provider_def dest: find_by_SomeD)
  have other: "active_alias_holder_in_tx OwnerName m db' = active_alias_holder_in_tx OwnerName m db"
    if "m \<noteq> n" for m
    using claim_observed_alias_cases [OF assms(1)] reactivate_alias_other [of r OwnerName n db a db' OwnerName m]
      that by auto
  have "identities_fit items db'" if fit: "identities_fit items db"
  proof -
    have ok: "identity_ok db" using fit by (simp add: identities_fit_def)
    note eff = claim_observed_alias_effect [OF assms(1) ok known]
    have "repo_by_provider db' (item_provider_id j) = Some x"
      if j: "j \<in> set items" "item_name j = Some m" "active_alias_holder_in_tx OwnerName m db' = Some (b, x)"
      for j m b x
    proof (cases "m = n")
      case True
      with eff(2) j(3) have "x = r" by simp
      moreover have "item_provider_id j = item_provider_id i"
      proof -
        have "item_name j = item_name i" "item_name j \<noteq> None" using assms(3) j(2) True by simp_all
        with assms(4,5) j(1) show ?thesis unfolding consistent_names_def by blast
      qed
      ultimately show ?thesis using assms(2) by (simp add: same)
    next
      case False
      with other j fit show ?thesis by (auto simp: identities_fit_def names_fit_def same)
    qed
    with eff(1) show ?thesis by (auto simp: identities_fit_def names_fit_def)
  qed
  with frame same show ?thesis by (simp add: settles_def)
qed

lemma observe_settles:
  assumes "apply_alias_observation_tx (item_provider_id i) OwnerName None n db = Inr (x, db')"
    and "item_name i = Some n" and "i \<in> set items" and "consistent_names items"
  shows "settles items db db'"
proof -
  obtain r db1 a db2 where up: "upsert_repository_in_tx (item_provider_id i) db = Inr (r, db1)"
    and "claim_observed_alias r OwnerName n db1 = Inr (a, db2)"
    and "db' = retire_superseded OwnerName None n a db2"
    by (rule apply_alias_observation_parts [OF assms(1)])
  then have claim: "claim_observed_alias r OwnerName n db1 = Inr (a, db')"
    by (simp add: retire_superseded_def)
  show ?thesis
    using upsert_settles [OF up] claim_settles [OF claim repo_identity.makes_known [OF up] assms(2-4)]
    by (rule identity_progress.R_trans)
qed

lemma keeps_item_identity:
  assumes "i \<in> set items" and "consistent_names items"
  shows "identity_progress.keeps items (record_item_identity i)"
proof -
  have up: "identity_progress.keeps items (upsert_repository p)" for p
    unfolding upsert_repository_def
    by (rule identity_progress.keeps_transact) (auto simp: and_then_eq_Inr intro: upsert_settles)
  have "identity_progress.keeps items (apply_alias_observation (item_provider_id i) OwnerName None n)"
    if "item_name i = Some n" for n
    unfolding apply_alias_observation_def
    by (rule identity_progress.keeps_transact_with) (rule observe_settles [OF _ that assms])
  then show ?thesis
    unfolding record_item_identity_def record_identity_def item_name_def [symmetric]
    by (cases "item_name i") (auto intro!: identity_progress.keeps_intros up)
qed

text \<open>Without faults every item's identity is recorded.\<close>

lemma item_identity_recorded:
  assumes "w_faults w = []" and "identities_fit items (w_db w)" and "i \<in> set items"
    and "consistent_names items"
  shows "\<exists>db'. record_item_identity i w = (Inr (), w\<lparr>w_db := db'\<rparr>) \<and> settles items (w_db w) db' \<and>
    repo_by_provider db' (item_provider_id i) \<noteq> None"
proof -
  let ?p = "item_provider_id i"
  obtain r db1 where up: "upsert_repository_in_tx ?p (w_db w) = Inr (r, db1)"
    using upsert_repository_total by blast
  have up_run: "upsert_repository ?p w = (Inr \<lparr>ri_repository_id = r\<rparr>, w\<lparr>w_db := db1\<rparr>)"
    using up assms(1) by (simp add: upsert_repository_def transact_no_fault)
  note s1 = upsert_settles [OF up, of items]
  show ?thesis
  proof (cases "item_name i")
    case None
    with up_run s1 repo_identity.makes_known [OF up] show ?thesis
      by (auto simp: record_item_identity_def record_identity_def item_name_def io_bind_def io_map_err_def
          io_return_def)
  next
    case (Some n)
    have fit: "identities_fit items db1" using s1 assms(2) by (simp add: settles_def)
    have ok: "identity_ok db1" using fit by (simp add: identities_fit_def)
    obtain r2 db2 where up2: "upsert_repository_in_tx ?p db1 = Inr (r2, db2)"
      using upsert_repository_total by blast
    have r2: "r2 = r" using repo_identity.again [OF up up2] .
    note s2 = upsert_settles [OF up2, of items]
    have fit2: "identity_ok db2" "names_fit items db2"
      using s2 fit by (simp_all add: settles_def identities_fit_def)
    have "\<exists>a db3. claim_observed_alias r OwnerName n db2 = Inr (a, db3)"
    proof (cases "active_alias_holder_in_tx OwnerName n db2")
      case None
      obtain a db3 where "reactivate_alias_in_tx r OwnerName n db2 = Inr (a, db3)"
        using reactivate_alias_total [OF _ None, of r] fit2(1) by (auto simp: identity_ok_def)
      with None show ?thesis by (simp add: claim_observed_alias_def)
    next
      case (Some h)
      obtain a x where h: "h = (a, x)" by (cases h)
      have "repo_by_provider db2 ?p = Some x"
        using fit2(2) assms(3) \<open>item_name i = Some n\<close> Some h by (auto simp: names_fit_def)
      with repo_identity.makes_known [OF up2] r2 have "x = r" by simp
      with Some h show ?thesis by (simp add: claim_observed_alias_def)
    qed
    then obtain a db3 where claim: "claim_observed_alias r OwnerName n db2 = Inr (a, db3)" by blast
    have tx: "apply_alias_observation_tx ?p OwnerName None n db1 = Inr (\<lparr>ri_repository_id = r\<rparr>, db3)"
      using up2 claim r2 by (simp add: apply_alias_observation_tx_def retire_superseded_def)
    have "apply_alias_observation ?p OwnerName None n (w\<lparr>w_db := db1\<rparr>) =
        (Inr \<lparr>ri_repository_id = r\<rparr>, w\<lparr>w_db := db3\<rparr>)"
      using tx assms(1) by (simp add: apply_alias_observation_def transact_with_no_fault)
    with up_run Some have "record_item_identity i w = (Inr (), w\<lparr>w_db := db3\<rparr>)"
      by (auto simp: record_item_identity_def record_identity_def item_name_def io_bind_def io_map_err_def
          io_return_def)
    moreover have "settles items (w_db w) db3"
      using s1 observe_settles [OF tx Some assms(3,4)] by (rule identity_progress.R_trans)
    moreover have "repo_by_provider db3 ?p \<noteq> None"
      using apply_alias_observation_frame(3) [OF tx, of ?p] by simp
    ultimately show ?thesis by blast
  qed
qed

lemma item_identity_known:
  assumes "record_item_identity i w = (Inr u, w')"
  shows "repo_by_provider (w_db w') (item_provider_id i) \<noteq> None"
proof -
  let ?p = "item_provider_id i"
  obtain x w1 where 1: "upsert_repository ?p w = (Inr x, w1)"
    and rest: "(case item_name i of
         Some n \<Rightarrow> io_bind (io_map_err SnapIdentity (apply_alias_observation ?p OwnerName None n))
           (\<lambda>_. io_return ())
       | None \<Rightarrow> io_return ()) w1 = (Inr u, w')"
    using assms unfolding record_item_identity_def record_identity_def item_name_def
    by (auto elim!: io_bind_InrE dest!: io_map_err_InrD)
  obtain r where "upsert_repository_in_tx ?p (w_db w) = Inr (r, w_db w1)"
    using transact_InrD [OF 1 [unfolded upsert_repository_def]] by (auto simp: and_then_eq_Inr)
  then have known: "repo_by_provider (w_db w1) ?p = Some r" by (rule repo_identity.makes_known)
  show ?thesis
  proof (cases "item_name i")
    case None
    with rest known show ?thesis by (simp add: io_return_def)
  next
    case (Some n)
    with rest obtain y where "apply_alias_observation ?p OwnerName None n w1 = (Inr y, w')"
      by (auto simp: io_return_def elim!: io_bind_InrE dest!: io_map_err_InrD)
    then have "apply_alias_observation_tx ?p OwnerName None n (w_db w1) = Inr (y, w_db w')"
      unfolding apply_alias_observation_def by (rule transact_with_InrD)
    from apply_alias_observation_frame(3) [OF this, of ?p] show ?thesis by simp
  qed
qed

lemma identities_recorded:
  assumes "w_faults w = []" and "identities_fit items (w_db w)" and "set page \<subseteq> set items"
    and "consistent_names items"
  shows "\<exists>db'. io_each record_item_identity page w = (Inr (), w\<lparr>w_db := db'\<rparr>) \<and>
    settles items (w_db w) db' \<and> (\<forall>i\<in>set page. repo_by_provider db' (item_provider_id i) \<noteq> None)"
  using assms
proof (induction page arbitrary: w)
  case Nil
  then show ?case by (auto simp: io_return_def identity_progress.R_refl intro!: exI [of _ "w_db w"])
next
  case (Cons i page)
  then obtain db1 where 1: "record_item_identity i w = (Inr (), w\<lparr>w_db := db1\<rparr>)"
    "settles items (w_db w) db1" "repo_by_provider db1 (item_provider_id i) \<noteq> None"
    using item_identity_recorded [of w items i] by auto
  have "identities_fit items db1" using 1(2) Cons.prems(2) by (simp add: settles_def)
  then obtain db2 where 2: "io_each record_item_identity page (w\<lparr>w_db := db1\<rparr>) = (Inr (), w\<lparr>w_db := db2\<rparr>)"
    "settles items db1 db2" "\<forall>j\<in>set page. repo_by_provider db2 (item_provider_id j) \<noteq> None"
    using Cons.IH [of "w\<lparr>w_db := db1\<rparr>"] Cons.prems by auto
  have "repo_by_provider db2 (item_provider_id i) \<noteq> None"
    using 1(3) 2(2) by (auto simp: settles_def)
  with 1 2 show ?case
    by (intro exI [of _ db2]) (auto simp: io_bind_def intro: identity_progress.R_trans)
qed

text \<open>What the identity phase of a page leaves, also when it is cut off.\<close>

lemma identities_settle:
  assumes "io_each record_item_identity page w = (r, w')" and "set page \<subseteq> set items"
    and "consistent_names items"
  shows "settles items (w_db w) (w_db w')"
  using assms(1,2)
proof (induction page arbitrary: w)
  case Nil
  then show ?case by (simp add: io_return_def identity_progress.R_refl)
next
  case (Cons i page)
  have keep: "settles items (w_db v) (w_db v')" if "record_item_identity i v = (q, v')" for v q v'
    using keeps_item_identity [of i items] Cons.prems(2) assms(3) that
    by (auto dest: identity_progress.keepsD)
  from Cons show ?case
    by (auto simp: io_bind_def split: prod.splits sum.splits dest!: keep
        intro: identity_progress.R_trans)
qed

lemma identities_known:
  assumes "io_each record_item_identity page w = (Inr u, w')" and "set page \<subseteq> set items"
    and "consistent_names items"
  shows "\<forall>i\<in>set page. repo_by_provider (w_db w') (item_provider_id i) \<noteq> None"
  using assms(1,2)
proof (induction page arbitrary: w)
  case (Cons i page)
  then obtain w1 where 1: "record_item_identity i w = (Inr (), w1)"
    and rest: "io_each record_item_identity page w1 = (Inr u, w')"
    by (auto elim!: io_bind_InrE)
  have "repo_by_provider (w_db w1) (item_provider_id i) \<noteq> None"
    using 1 by (rule item_identity_known)
  with identities_settle [OF rest _ assms(3)] Cons have "repo_by_provider (w_db w') (item_provider_id i) \<noteq> None"
    by (auto simp: settles_def)
  with Cons rest show ?case by auto
qed simp

section \<open>Staged pages\<close>

definition item_time :: "(string \<Rightarrow> timestamp option) \<Rightarrow> starred_item \<Rightarrow> timestamp option" where
  "item_time cast i = Option.bind (st_starred_at i) cast"

definition staged_row :: "(string \<Rightarrow> timestamp option) \<Rightarrow> uuid \<Rightarrow> nat \<times> starred_item \<Rightarrow> item_row" where
  "staged_row cast run = (\<lambda>(pos, i).
     \<lparr>si_run = run, si_position = int pos, si_repo = item_provider_id i, si_starred_at = item_time cast i\<rparr>)"

text \<open>A listing a snapshot can accept: every item once, each with a time the database can read.\<close>

definition listing_ok :: "(string \<Rightarrow> timestamp option) \<Rightarrow> starred_item list \<Rightarrow> bool" where
  "listing_ok cast items \<longleftrightarrow>
     distinct (map item_provider_id items) \<and> (\<forall>i\<in>set items. item_time cast i \<noteq> None) \<and>
     consistent_names items \<and> int (length items) \<le> i32_max"

lemma cast_optional_time:
  "item_time cast i \<noteq> None \<Longrightarrow> cast_optional cast (st_starred_at i) = Inr (item_time cast i)"
  by (cases "st_starred_at i") (auto simp: item_time_def)

lemma stage_items_total:
  assumes "\<forall>i\<in>set items. item_time cast i \<noteq> None"
    and "\<forall>r\<in>set t. si_run r = run \<longrightarrow> si_position r < int (base + off)"
    and "int (base + off + length items) \<le> i64_max"
  shows "stage_items cast run (int base) off items t =
    Inr (t @ map (staged_row cast run) (enumerate (base + off) items))"
  using assms
proof (induction items arbitrary: off t)
  case (Cons i items)
  let ?row = "staged_row cast run (base + off, i)"
  have row: "\<lparr>si_run = run, si_position = min (int base + int off) i64_max,
      si_repo = item_provider_id i, si_starred_at = item_time cast i\<rparr> = ?row"
    using Cons.prems(3) by (simp add: staged_row_def)
  have fresh: "(run, int base + int off) \<notin> (\<lambda>r. (si_run r, si_position r)) ` set t"
    using Cons.prems(2) by auto
  have "stage_items cast run (int base) (Suc off) items (t @ [?row]) =
      Inr ((t @ [?row]) @ map (staged_row cast run) (enumerate (base + Suc off) items))"
    using Cons.prems by (intro Cons.IH) (auto simp: staged_row_def)
  with Cons.prems fresh show ?case
    by (simp add: cast_optional_time row) (simp add: insert_unique_def staged_row_def)
qed simp

lemma next_position_staged:
  assumes "int (length items) \<le> i64_max"
  shows "next_position (map (si_position \<circ> staged_row cast run) (enumerate 0 items)) = Inr (int (length items))"
proof -
  have pos: "map (si_position \<circ> staged_row cast run) (enumerate 0 items) = map int [0..<length items]"
    by (rule nth_equalityI) (simp_all add: staged_row_def nth_enumerate_eq)
  show ?thesis
  proof (cases items)
    case Nil
    then show ?thesis using assms by (simp add: next_position_def)
  next
    case (Cons i rest)
    obtain m where m: "max_value (map int [0..<length items]) = Some m"
      using Cons by (cases "max_value (map int [0..<length items])") auto
    have "m \<in> set (map int [0..<length items])" and up: "\<forall>x\<in>set (map int [0..<length items]). x \<le> m"
      using max_value_Some [OF m] by auto
    moreover have "int (length items - 1) \<le> m" using up Cons by auto
    ultimately have "m = int (length items) - 1" using Cons by auto
    with m assms show ?thesis unfolding pos by (simp add: next_position_def)
  qed
qed

section \<open>Progress of a run\<close>

text \<open>
  \<open>progress cast pages acct run k db\<close>: the account's open run has recorded the first \<open>k\<close> pages - past
  the end of the listing these are empty - and holds their items in listing order.
\<close>

definition progress ::
    "(string \<Rightarrow> timestamp option) \<Rightarrow> starred_item list list \<Rightarrow> uuid \<Rightarrow> uuid \<Rightarrow> nat \<Rightarrow> catalog \<Rightarrow> bool" where
  "progress cast pages acct run k db \<longleftrightarrow>
     running_run ModeFull acct db = Some run \<and>
     (\<forall>r\<in>set (sync_runs db). run_id r = run \<longrightarrow> run_pages r = int k \<and>
        run_items r = int (length (concat (take k pages))) \<and> run_lists r = 0) \<and>
     filter (\<lambda>i. si_run i = run) (snapshot_items db) =
       map (staged_row cast run) (enumerate 0 (concat (take k pages))) \<and>
     map_option cp_next_page (latest_checkpoint run db) = (if k = 0 then None else Some (int k + 1)) \<and>
     (\<forall>c\<in>set (checkpoints db). cp_run c = run \<longrightarrow>
        cp_recorded c \<le> db_clock db \<and> cp_next_page c \<le> int k + 1) \<and>
     (\<forall>i\<in>set (concat (take k pages)). repo_by_provider db (item_provider_id i) \<noteq> None) \<and>
     identities_fit (concat pages) db"

lemma progressD:
  assumes "progress cast pages acct run k db"
  shows "running_run ModeFull acct db = Some run"
    and "\<forall>r\<in>set (sync_runs db). run_id r = run \<longrightarrow> run_pages r = int k \<and>
      run_items r = int (length (concat (take k pages))) \<and> run_lists r = 0"
    and "filter (\<lambda>i. si_run i = run) (snapshot_items db) =
      map (staged_row cast run) (enumerate 0 (concat (take k pages)))"
    and "map_option cp_next_page (latest_checkpoint run db) = (if k = 0 then None else Some (int k + 1))"
    and "\<forall>c\<in>set (checkpoints db). cp_run c = run \<longrightarrow>
      cp_recorded c \<le> db_clock db \<and> cp_next_page c \<le> int k + 1"
    and "\<forall>i\<in>set (concat (take k pages)). repo_by_provider db (item_provider_id i) \<noteq> None"
    and "identities_fit (concat pages) db"
  using assms unfolding progress_def by blast+

lemma page_number: "nat (int k + 1) = Suc k"
  by simp

lemma take_Suc_page: "concat (take (Suc k) pages) = concat (take k pages) @ page_of pages (int k + 1)"
proof (cases "k < length pages")
  case True
  then show ?thesis by (simp add: page_of_def page_number take_Suc_conv_app_nth)
next
  case False
  then show ?thesis by (simp add: page_of_def page_number)
qed

lemma set_page_of: "set (page_of pages p) \<subseteq> set (concat pages)"
proof (cases "1 \<le> p \<and> nat p \<le> length pages")
  case True
  then have "nat p - 1 < length pages" by linarith
  then have "pages ! (nat p - 1) \<in> set pages" by (rule nth_mem)
  with True show ?thesis by (auto simp: page_of_def simp del: nth_mem)
next
  case False
  then show ?thesis by (auto simp: page_of_def)
qed

lemma progress_settles:
  assumes "progress cast pages acct run k db" and "settles (concat pages) db db'"
  shows "progress cast pages acct run k db'"
  using assms
  by (auto simp: progress_def settles_def same_runs_def running_run_def latest_checkpoint_def
      simp del: set_concat)

lemma max_by_map: "(\<And>x. key (f x) = key x) \<Longrightarrow> max_by key (map f xs) = map_option f (max_by key xs)"
  by (induction xs) (auto split: option.split)

lemma running_run_update:
  assumes "\<And>r. run_id (f r) = run_id r \<and> run_started (f r) = run_started r \<and>
    run_account (f r) = run_account r \<and> run_mode (f r) = run_mode r \<and> run_status (f r) = run_status r"
  shows "running_run m acct (db\<lparr>sync_runs := update_where p f (sync_runs db)\<rparr>) = running_run m acct db"
proof -
  let ?g = "\<lambda>r. if p r then f r else r"
  let ?P = "\<lambda>r. run_account r = acct \<and> run_mode r = m \<and> run_status r = RunRunning"
  have "filter ?P (map ?g xs) = map ?g (filter ?P xs)" for xs
    using assms by (induction xs) auto
  moreover have "(run_started (?g r), run_id (?g r)) = (run_started r, run_id r)" for r
    using assms by simp
  ultimately show ?thesis
    using assms
    by (simp add: running_run_def update_where_def max_by_map option.map_comp comp_def)
qed

text \<open>The page that is staged next extends the progress by one, and staging it succeeds.\<close>

lemma latest_checkpoint_add:
  assumes "\<forall>c\<in>set (checkpoints db). cp_run c = run \<longrightarrow> cp_recorded c \<le> now \<and> cp_next_page c < n"
    and "cp_run c' = run" "cp_recorded c' = now" "cp_next_page c' = n"
  shows "latest_checkpoint run (db\<lparr>checkpoints := checkpoints db @ [c']\<rparr>) = Some c'"
  unfolding latest_checkpoint_def
  by (rule max_by_strict) (use assms in \<open>auto simp: less_prod_def'\<close>)

definition staged_next ::
    "(string \<Rightarrow> timestamp option) \<Rightarrow> uuid \<Rightarrow> nat \<Rightarrow> starred_item list \<Rightarrow> starred_item list \<Rightarrow> catalog \<Rightarrow> catalog" where
  "staged_next cast run k seen items db = db\<lparr>
     snapshot_items := snapshot_items db @ map (staged_row cast run) (enumerate (length seen) items),
     checkpoints := checkpoints db @
       [\<lparr>cp_run = run, cp_next_page = int k + 2, cp_boundary = None, cp_cursor = None,
         cp_recorded = db_clock db\<rparr>],
     sync_runs := update_where (\<lambda>r. run_id r = run)
       (\<lambda>r. r\<lparr>run_pages := run_pages r + 1, run_items := run_items r + int (length items),
              run_lists := run_lists r + 0\<rparr>) (sync_runs db)\<rparr>"

lemma stage_page_next:
  assumes "progress cast pages acct run k db" and "listing_ok cast (concat pages)"
    and "int k < i32_max"
  shows "stage_page cast run (int k + 1) (page_of pages (int k + 1)) db =
    Inr ((), staged_next cast run k (concat (take k pages)) (page_of pages (int k + 1)) db)"
proof -
  let ?seen = "concat (take k pages)" and ?items = "page_of pages (int k + 1)"
  have sub: "set ?items \<subseteq> set (concat pages)" by (rule set_page_of)
  have total: "length ?seen + length ?items \<le> length (concat pages)"
  proof -
    have "concat pages = concat (take (Suc k) pages) @ concat (drop (Suc k) pages)"
      by (metis append_take_drop_id concat_append)
    then show ?thesis by (simp add: take_Suc_page)
  qed
  have bound: "int (length (concat pages)) \<le> i32_max" using assms(2) by (simp add: listing_ok_def)
  have small: "i32_max \<le> i64_max" by (simp add: i32_max_def i64_max_def)
  have rows: "filter (\<lambda>i. si_run i = run) (snapshot_items db) =
      map (staged_row cast run) (enumerate 0 ?seen)"
    by (rule progressD(3) [OF assms(1)])
  have pos: "next_position (map si_position (filter (\<lambda>i. si_run i = run) (snapshot_items db))) =
      Inr (int (length ?seen))"
    using next_position_staged [of ?seen cast run] total bound small
    by (simp add: rows del: map_map) (simp add: rows comp_def)
  have below: "\<forall>r\<in>set (snapshot_items db). si_run r = run \<longrightarrow> si_position r < int (length ?seen + 0)"
  proof (intro ballI impI)
    fix r
    assume "r \<in> set (snapshot_items db)" "si_run r = run"
    then have "r \<in> set (map (staged_row cast run) (enumerate 0 ?seen))" unfolding rows [symmetric] by simp
    then show "si_position r < int (length ?seen + 0)"
      by (auto simp: staged_row_def in_set_enumerate_eq)
  qed
  have items: "stage_items cast run (int (length ?seen)) 0 ?items (snapshot_items db) =
      Inr (snapshot_items db @ map (staged_row cast run) (enumerate (length ?seen) ?items))"
    using stage_items_total [of ?items cast "snapshot_items db" run "length ?seen" 0] below total bound
      small sub assms(2)
    by (auto simp: listing_ok_def simp del: set_concat)
  have count: "item_count_as_i32 ?items = int (length ?items)"
    using total bound by (simp add: item_count_as_i32_def sat_i32_def)
  have "list_all (\<lambda>r. run_id r = run \<longrightarrow> run_pages r + 1 \<le> i32_max \<and>
      run_items r + int (length ?items) \<le> i32_max \<and> run_lists r + 0 \<le> i32_max) (sync_runs db)"
    using progressD(2) [OF assms(1)] assms(3) total bound by (auto simp: list_all_iff i32_max_def)
  then show ?thesis
    by (simp add: stage_page_def pos items count add_run_counts_def staged_next_def)
qed

lemma staged_next_progress:
  assumes "progress cast pages acct run k db"
    and "\<forall>i\<in>set (page_of pages (int k + 1)). repo_by_provider db (item_provider_id i) \<noteq> None"
  shows "progress cast pages acct run (Suc k)
    (staged_next cast run k (concat (take k pages)) (page_of pages (int k + 1)) db)"
proof -
  let ?seen = "concat (take k pages)" and ?items = "page_of pages (int k + 1)"
  let ?db = "staged_next cast run k ?seen ?items db"
  note p = progressD [OF assms(1)]
  have "running_run ModeFull acct ?db = Some run"
    using p(1) running_run_update [where m = ModeFull and acct = acct and db = db and
        p = "\<lambda>r. run_id r = run" and f = "\<lambda>r. r\<lparr>run_pages := run_pages r + 1,
          run_items := run_items r + int (length ?items), run_lists := run_lists r + 0\<rparr>"]
    by (simp add: staged_next_def running_run_def)
  moreover have "\<forall>r\<in>set (sync_runs ?db). run_id r = run \<longrightarrow> run_pages r = int (Suc k) \<and>
      run_items r = int (length (concat (take (Suc k) pages))) \<and> run_lists r = 0"
  proof (intro ballI impI)
    fix r
    assume "r \<in> set (sync_runs ?db)" "run_id r = run"
    then obtain r0 where "r0 \<in> set (sync_runs db)" "run_id r0 = run"
      and r: "r = r0\<lparr>run_pages := run_pages r0 + 1, run_items := run_items r0 + int (length ?items),
        run_lists := run_lists r0 + 0\<rparr>"
      by (auto simp: staged_next_def update_where_def split: if_splits)
    with p(2) have "run_pages r0 = int k" "run_items r0 = int (length ?seen)" "run_lists r0 = 0" by blast+
    then show "run_pages r = int (Suc k) \<and>
        run_items r = int (length (concat (take (Suc k) pages))) \<and> run_lists r = 0"
      unfolding take_Suc_page r by simp
  qed
  moreover have "filter (\<lambda>i. si_run i = run) (snapshot_items ?db) =
      map (staged_row cast run) (enumerate 0 (concat (take (Suc k) pages)))"
  proof -
    have "filter (\<lambda>i. si_run i = run) (map (staged_row cast run) xs) = map (staged_row cast run) xs" for xs
      by (induction xs) (auto simp: staged_row_def)
    with p(3) show ?thesis unfolding take_Suc_page by (simp add: staged_next_def enumerate_append_eq)
  qed
  moreover have "map_option cp_next_page (latest_checkpoint run ?db) = Some (int (Suc k) + 1)"
  proof -
    let ?c = "\<lparr>cp_run = run, cp_next_page = int k + 2, cp_boundary = None, cp_cursor = None,
        cp_recorded = db_clock db\<rparr>"
    have "latest_checkpoint run (db\<lparr>checkpoints := checkpoints db @ [?c]\<rparr>) = Some ?c"
      using p(5) by (intro latest_checkpoint_add [where now = "db_clock db" and n = "int k + 2"]) auto
    then show ?thesis by (simp add: staged_next_def latest_checkpoint_def)
  qed
  moreover have "\<forall>c\<in>set (checkpoints ?db). cp_run c = run \<longrightarrow>
      cp_recorded c \<le> db_clock ?db \<and> cp_next_page c \<le> int (Suc k) + 1"
    using p(5) by (auto simp: staged_next_def)
  moreover have same: "repo_by_provider ?db = repo_by_provider db"
    by (simp add: staged_next_def repo_by_provider_def fun_eq_iff)
  then have "\<forall>i\<in>set (concat (take (Suc k) pages)). repo_by_provider ?db (item_provider_id i) \<noteq> None"
    unfolding take_Suc_page set_append using p(6) assms(2) by (simp only: same) blast
  moreover have "identities_fit (concat pages) ?db"
  proof -
    have "aliases ?db = aliases db" "repositories ?db = repositories db" "next_uuid ?db = next_uuid db"
      by (simp_all add: staged_next_def)
    then have views: "identity_ok ?db = identity_ok db"
      "\<And>k v. active_alias_holder_in_tx k v ?db = active_alias_holder_in_tx k v db"
      by (simp_all only: identity_ok_def repos_ok_def aliases_ok_def active_alias_holder_in_tx_def)
    show ?thesis
      unfolding identities_fit_def names_fit_def views same
      by (rule p(7) [unfolded identities_fit_def names_fit_def])
  qed
  ultimately show ?thesis by (simp add: progress_def)
qed

text \<open>Recording a page either leaves the progress as it was or extends it by that page.\<close>

lemma record_page_progress:
  assumes "record_page cast run (int k + 1) (page_of pages (int k + 1)) w = (r, w')"
    and "progress cast pages acct run k (w_db w)" and "listing_ok cast (concat pages)"
    and "int k < i32_max"
  shows "case r of Inr _ \<Rightarrow> progress cast pages acct run (Suc k) (w_db w')
    | Inl _ \<Rightarrow> progress cast pages acct run k (w_db w')"
proof -
  let ?items = "page_of pages (int k + 1)"
  have names: "consistent_names (concat pages)" using assms(3) by (simp add: listing_ok_def)
  obtain q w1 where 1: "io_each record_item_identity ?items w = (q, w1)"
    by (cases "io_each record_item_identity ?items w")
  have p1: "progress cast pages acct run k (w_db w1)"
    using assms(2) identities_settle [OF 1 set_page_of names] by (rule progress_settles)
  show ?thesis
  proof (cases q)
    case (Inl e)
    with assms(1) 1 p1 show ?thesis by (auto simp: record_page_def io_bind_def)
  next
    case (Inr u)
    obtain x w2 where 2: "transact (stage_page cast run (int k + 1) ?items) w1 = (x, w2)"
      by (cases "transact (stage_page cast run (int k + 1) ?items) w1")
    show ?thesis
    proof (cases x)
      case (Inl e)
      with 2 have "w_db w2 = w_db w1" by (simp add: transact_InlD)
      with assms(1) 1 2 \<open>q = Inr u\<close> Inl p1 show ?thesis
        by (auto simp: record_page_def io_bind_def io_map_err_def)
    next
      case (Inr v)
      with 2 have "stage_page cast run (int k + 1) ?items (w_db w1) = Inr (v, w_db w2)"
        by (simp add: transact_InrD)
      with stage_page_next [OF p1 assms(3,4)]
      have "w_db w2 = staged_next cast run k (concat (take k pages)) ?items (w_db w1)" by simp
      with staged_next_progress [OF p1] identities_known [OF 1 [unfolded \<open>q = Inr u\<close>] set_page_of names]
        assms(1) 1 2 \<open>q = Inr u\<close> Inr show ?thesis
        by (auto simp: record_page_def io_bind_def io_map_err_def)
    qed
  qed
qed

lemma record_page_total:
  assumes "w_faults w = []" and "progress cast pages acct run k (w_db w)"
    and "listing_ok cast (concat pages)" and "int k < i32_max"
  shows "\<exists>db'. record_page cast run (int k + 1) (page_of pages (int k + 1)) w = (Inr (), w\<lparr>w_db := db'\<rparr>)"
proof -
  have names: "consistent_names (concat pages)" using assms(3) by (simp add: listing_ok_def)
  have "identities_fit (concat pages) (w_db w)" using assms(2) by (simp add: progress_def)
  from identities_recorded [OF assms(1) this set_page_of names]
  obtain db1 where 1: "io_each record_item_identity (page_of pages (int k + 1)) w = (Inr (), w\<lparr>w_db := db1\<rparr>)"
    "settles (concat pages) (w_db w) db1" by blast
  have "progress cast pages acct run k db1" using assms(2) 1(2) by (rule progress_settles)
  from stage_page_next [OF this assms(3,4)] 1 assms(1) show ?thesis
    by (auto simp: record_page_def io_bind_def io_map_err_def transact_no_fault)
qed

section \<open>The swap of a complete enumeration\<close>

text \<open>The account's stars are exactly the listed repositories.\<close>

definition starred_exactly :: "starred_item list \<Rightarrow> uuid \<Rightarrow> catalog \<Rightarrow> bool" where
  "starred_exactly items acct db \<longleftrightarrow>
     (\<forall>i\<in>set items. repo_by_provider db (item_provider_id i) \<noteq> None) \<and>
     (\<forall>x. is_starred db acct x \<longleftrightarrow> (\<exists>i\<in>set items. repo_by_provider db (item_provider_id i) = Some x))"

lemma repo_by_provider_inj:
  assumes "repos_ok db" and "repo_by_provider db p = Some x" and "repo_by_provider db q = Some x"
  shows "p = q"
proof -
  obtain a b where "a \<in> set (repositories db)" "repo_provider_id a = p" "repo_id a = x"
    and "b \<in> set (repositories db)" "repo_provider_id b = q" "repo_id b = x"
    using assms(2,3) by (auto simp: repo_by_provider_def dest!: find_by_SomeD)
  moreover have "inj_on repo_id (set (repositories db))"
    using assms(1) by (simp add: repos_ok_def distinct_map)
  ultimately show ?thesis by (metis inj_onD)
qed

lemma staged_ids_listing:
  assumes "progress cast pages acct run k db" and "length pages \<le> k"
  shows "staged_repo_ids run db =
    List.map_filter (\<lambda>i. repo_by_provider db (item_provider_id i)) (concat pages)"
proof -
  have all: "take k pages = pages" using assms(2) by simp
  note p = progressD [OF assms(1), unfolded all]
  have "repos_ok db" using p(7) by (simp add: identities_fit_def identity_ok_def)
  then have "staged_repo_ids run db = List.map_filter (\<lambda>i. repo_by_provider db (si_repo i))
      (map (staged_row cast run) (enumerate 0 (concat pages)))"
    by (simp only: staged_repo_ids_map p(3))
  also have "\<dots> = List.map_filter (\<lambda>i. repo_by_provider db (item_provider_id i)) (concat pages)"
  proof -
    have "List.map_filter (\<lambda>i. repo_by_provider db (si_repo i)) (map (staged_row cast run) (enumerate n xs)) =
        List.map_filter (\<lambda>i. repo_by_provider db (item_provider_id i)) xs" for n xs
      by (induction xs arbitrary: n) (auto simp: map_filter_simps staged_row_def split: option.split)
    then show ?thesis by blast
  qed
  finally show ?thesis .
qed

lemma distinct_known_listing:
  assumes "repos_ok db" and "distinct (map item_provider_id items)"
  shows "distinct (List.map_filter (\<lambda>i. repo_by_provider db (item_provider_id i)) items)"
  using assms(2)
proof (induction items)
  case (Cons i items)
  have "x \<notin> set (List.map_filter (\<lambda>i. repo_by_provider db (item_provider_id i)) items)"
    if "repo_by_provider db (item_provider_id i) = Some x" for x
  proof
    assume "x \<in> set (List.map_filter (\<lambda>i. repo_by_provider db (item_provider_id i)) items)"
    then obtain j where "j \<in> set items" "repo_by_provider db (item_provider_id j) = Some x"
      by (auto simp: map_filter_def)
    with repo_by_provider_inj [OF assms(1) that, of "item_provider_id j"] Cons.prems show False by auto
  qed
  with Cons show ?case by (simp add: map_filter_simps split: option.split)
qed (simp add: map_filter_simps)

lemma running_run_row:
  "running_run m acct db = Some run \<Longrightarrow> \<exists>r\<in>set (sync_runs db). run_id r = run"
  by (auto simp: running_run_def dest!: max_by_in)

lemma swap_total:
  assumes "progress cast pages acct run k db" and "length pages \<le> k"
    and "listing_ok cast (concat pages)"
  shows "\<exists>c db'. apply_authority_tx run acct db = Inr (c, db')"
proof -
  have all: "take k pages = pages" using assms(2) by simp
  note p = progressD [OF assms(1), unfolded all]
  have timed: "si_starred_at i \<noteq> None" if "(i, r) \<in> set (staged run db)" for i r
  proof -
    have "i \<in> set (filter (\<lambda>i. si_run i = run) (snapshot_items db))" using that by (auto simp: set_staged)
    then obtain j where "j \<in> set (concat pages)" "si_starred_at i = item_time cast j"
      unfolding p(3) by (auto simp: staged_row_def in_set_enumerate_eq simp del: set_concat)
        (metis nth_mem)
    with assms(3) show ?thesis unfolding listing_ok_def by metis
  qed
  have dist: "distinct (staged_repo_ids run db)"
    using distinct_known_listing [of db "concat pages"] p(7) assms(3)
    unfolding staged_ids_listing [OF assms(1,2)]
    by (simp add: listing_ok_def identities_fit_def identity_ok_def del: set_concat map_concat)
  have "list_all star_obs_check (map (\<lambda>(i, r). \<lparr>so_account = acct, so_repo = repo_id r,
      so_starred = True, so_provider_at = si_starred_at i, so_unknown = False,
      so_observed = db_clock db\<rparr>) (staged run db))"
    using timed by (auto simp: list_all_iff star_obs_check_def)
  then obtain db1 where 1: "record_star_observations run acct db = Inr db1"
    by (simp add: record_star_observations_def check_rows_def)
  note f1 = record_star_observations_frame [OF 1]
  let ?d = "record_restore_repairs run acct db1"
  have st: "staged run ?d = staged run db" "staged_repo_ids run ?d = staged_repo_ids run db"
    using staged_same [of ?d db run] f1 by simp_all
  have keys: "map star_key (map (promoted_row run acct (db_clock ?d)) (staged run db)) =
      map (Pair acct) (staged_repo_ids run db)"
    by (auto simp: staged_repo_ids_def)
  have "list_all star_check (map (promoted_row run acct (db_clock ?d)) (staged run db))"
    using timed by (auto simp: list_all_iff star_check_def promoted_row_def)
  moreover have "distinct (map star_key (map (promoted_row run acct (db_clock ?d)) (staged run db)))"
    unfolding keys using dist by (simp add: distinct_map inj_on_def)
  ultimately obtain db2 where 2: "promote_seen_repositories run acct ?d = Inr db2"
    by (simp add: promote_seen_repositories_def check_rows_def st bulk_upsert_def del: map_map)
  obtain u db3 where 3: "unstar_absent_repositories run acct db2 = (u, db3)"
    by (cases "unstar_absent_repositories run acct db2")
  have runs: "sync_runs (clear_staging run (reanchor_watermark run acct db3)) = sync_runs db"
    using 3 promote_seen_Inr(3) [OF 2] record_star_observations_Inr [OF 1]
    by (auto simp: clear_staging_def reanchor_watermark_def raise_watermark_def
        unstar_absent_repositories_def Let_def fold_record_unstar_frame record_restore_repairs_def
        split: option.split)
  have "find_by run_id run (sync_runs db) \<noteq> None"
    using running_run_row [OF p(1)] by (auto simp: find_by_None)
  then obtain r where r: "find_by run_id run (sync_runs db) = Some r" by blast
  show ?thesis
    by (simp add: apply_authority_tx_def 1 2 3 Let_def complete_run_row_def runs r)
qed

lemma lookup_by_ids:
  "map (\<lambda>r. (repo_id r, repo_provider_id r)) t = map (\<lambda>r. (repo_id r, repo_provider_id r)) u \<Longrightarrow>
     map_option repo_id (find_by repo_provider_id q t) = map_option repo_id (find_by repo_provider_id q u)"
  by (induction t arbitrary: u) (auto simp: Cons_eq_map_conv)

lemma swap_starred_exactly:
  assumes "apply_authority_tx run acct db = Inr (c, db')"
    and "progress cast pages acct run k db" and "length pages \<le> k"
  shows "starred_exactly (concat pages) acct db'"
proof -
  obtain a b u v where c: "c = (a, b, u, v)" by (cases c)
  note eff = apply_authority_effect [OF assms(1) [unfolded c]]
  note known = progressD(6) [OF assms(2), unfolded take_all [OF assms(3)]]
  have "map (\<lambda>r. (repo_id r, repo_provider_id r)) (repositories db') =
      map (\<lambda>r. (repo_id r, repo_provider_id r)) (repositories db)"
  proof -
    have "map (\<lambda>r. (repo_id r, repo_provider_id r)) (fold (release_auto now) rs t) =
        map (\<lambda>r. (repo_id r, repo_provider_id r)) t" for now rs t
      by (induction rs arbitrary: t) (simp_all add: release_auto_def map_update_where_key)
    then show ?thesis by (simp add: eff(4) promoted_repos_def map_update_where_key)
  qed
  then have same: "repo_by_provider db' q = repo_by_provider db q" for q
    unfolding repo_by_provider_def by (rule lookup_by_ids)
  have "x \<in> set (staged_repo_ids run db) \<longleftrightarrow>
      (\<exists>i\<in>set (concat pages). repo_by_provider db (item_provider_id i) = Some x)" for x
    unfolding staged_ids_listing [OF assms(2,3)] by (force simp: map_filter_def simp del: set_concat)
  with swapped_is_starred [OF eff(1,3)] known show ?thesis
    by (simp add: starred_exactly_def same del: set_concat)
qed

section \<open>Rounds and sessions\<close>

text \<open>The provider answers every request with the page of a fixed listing, whatever its headers.\<close>

definition serves :: "github_api \<Rightarrow> starred_item list list \<Rightarrow> bool" where
  "serves api pages \<longleftrightarrow>
     (\<forall>n p. \<exists>d h. api_list_starred api n p =
        Answer d (Inr \<lparr>lr_items = page_of pages p, lr_rate_limit = h\<rparr>))"

lemma progress_later:
  "progress cast pages acct run k db \<Longrightarrow> db_clock db \<le> t \<Longrightarrow> progress cast pages acct run k (db\<lparr>db_clock := t\<rparr>)"
  by (rule progress_settles) (auto intro: identity_progress.R_later)

text \<open>One round: it goes on with the next page, completes exactly, or leaves the run resumable.\<close>

lemma snapshot_round:
  assumes "snapshot_step cast api tok acct run (int k + 1) w = (r, w')" and "serves api pages"
    and "progress cast pages acct run k (w_db w)" and "listing_ok cast (concat pages)"
    and "int k < i32_max" and "[] \<notin> set pages"
  shows "case r of
      Inr p \<Rightarrow> p = int (Suc k) + 1 \<and> k < length pages \<and> progress cast pages acct run (Suc k) (w_db w')
    | Inl x \<Rightarrow> if full_completed x then starred_exactly (concat pages) acct (w_db w')
        else \<exists>k'\<in>{k, Suc k}. progress cast pages acct run k' (w_db w')"
proof -
  let ?p = "int k + 1"
  let ?gw = "\<lambda>n. api_list_starred api n ?p"
  let ?paused = "\<lambda>t. Inr (FullPaused run t) :: (snapshot_error, full_snapshot_outcome) result"
  obtain q w1 where 1: "budget_gate tok ?paused w = (q, w1)" by (cases "budget_gate tok ?paused w")
  have db1: "w_db w1 = w_db w" using budget_gate_db [of tok ?paused w] 1 by simp
  show ?thesis
  proof (cases q)
    case (Inl x)
    then have "\<exists>t. x = Inr (FullPaused run t)"
      using 1 by (auto simp: budget_gate_def split: prod.splits sum.splits acquire_error.splits)
    with assms(1,3) 1 Inl db1 show ?thesis
      by (auto simp: snapshot_step_def io_bind_def full_completed_def)
  next
    case (Inr u)
    obtain d h where ans: "?gw (w_calls w1) = Answer d (Inr \<lparr>lr_items = page_of pages ?p, lr_rate_limit = h\<rparr>)"
      using assms(2) unfolding serves_def by blast
    define w2 where "w2 = snd (provider_call ?gw w1)"
    have p2: "progress cast pages acct run k (w_db w2)"
      using assms(3) db1 unfolding w2_def by (simp add: progress_later)
    have run: "io_bind (budget_observe tok h (Inl SnapPanicked)) (\<lambda>_.
        io_bind (io_map_err Inl (record_page cast run ?p (page_of pages ?p))) (\<lambda>_.
          if page_of pages ?p = [] then
            io_bind (io_map_err (\<lambda>e. Inl (SnapPersistence e)) (apply_authority_and_complete run acct))
              (\<lambda>(pages, items, additions, unstars).
                 io_fail (Inr (FullCompleted run pages items additions unstars)))
          else io_return (wrap_u32 (?p + 1)))) w2 = (r, w')"
      using assms(1) [unfolded snapshot_step_def io_bind_eq(1) [where m = "budget_gate tok ?paused", OF 1 [unfolded Inr]]
          bind_call_eq,
          folded w2_def]
      by (simp only: ans answer.sel sum.case listing_reply.select_convs)
    from run obtain b w3 where b: "budget_observe tok h (Inl SnapPanicked) w2 = (b, w3)"
      and go: "(case b of Inl x \<Rightarrow> (Inl x, w3) | Inr _ \<Rightarrow>
        io_bind (io_map_err Inl (record_page cast run ?p (page_of pages ?p))) (\<lambda>_.
          if page_of pages ?p = [] then
            io_bind (io_map_err (\<lambda>e. Inl (SnapPersistence e)) (apply_authority_and_complete run acct))
              (\<lambda>(pages, items, additions, unstars).
                 io_fail (Inr (FullCompleted run pages items additions unstars)))
          else io_return (wrap_u32 (?p + 1))) w3) = (r, w')"
      by (auto simp: io_bind_def [of "budget_observe _ _ _"] split: prod.splits sum.splits)
    from b show ?thesis
    proof (cases rule: budget_observe_cases)
      case panic
      with go p2 show ?thesis by (auto simp: full_completed_def)
    next
      case fine
      then have p3: "progress cast pages acct run k (w_db w3)" using p2 by simp
      obtain c w4 where c: "record_page cast run ?p (page_of pages ?p) w3 = (c, w4)"
        by (cases "record_page cast run ?p (page_of pages ?p) w3")
      note p4 = record_page_progress [OF c p3 assms(4,5)]
      show ?thesis
      proof (cases c)
        case (Inl e)
        with fine go c p4 show ?thesis by (auto simp: io_bind_def io_map_err_def full_completed_def)
      next
        case (Inr v)
        then have p4: "progress cast pages acct run (Suc k) (w_db w4)" using p4 by simp
        have empty: "page_of pages ?p = [] \<longleftrightarrow> length pages \<le> k"
          using page_of_empty [of ?p pages] assms(6) by auto
        show ?thesis
        proof (cases "length pages \<le> k")
          case False
          with fine go c Inr p4 empty assms(5) show ?thesis
            by (auto simp: io_bind_def io_map_err_def io_return_def wrap_u32_small i32_max_def u32_max_def)
        next
          case True
          obtain z w5 where z: "transact (apply_authority_tx run acct) w4 = (z, w5)"
            by (cases "transact (apply_authority_tx run acct) w4")
          show ?thesis
          proof (cases z)
            case (Inl e)
            with z have "w_db w5 = w_db w4" by (simp add: transact_InlD)
            with fine go c Inr True empty z Inl p4 show ?thesis
              by (auto simp: io_bind_def io_map_err_def apply_authority_and_complete_def full_completed_def)
          next
            case (Inr counts)
            with z have "apply_authority_tx run acct (w_db w4) = Inr (counts, w_db w5)"
              by (simp add: transact_InrD)
            from swap_starred_exactly [OF this p4] True
            have "starred_exactly (concat pages) acct (w_db w5)" by simp
            with fine go c \<open>c = Inr v\<close> True empty z Inr show ?thesis
              by (auto simp: io_bind_def io_map_err_def apply_authority_and_complete_def
                  full_completed_def io_fail_def split: prod.splits)
          qed
        qed
      qed
    qed
  qed
qed

lemma session_rounds:
  assumes "run_loop rounds (snapshot_step cast api tok acct run) (int k + 1) w = (r, w')"
    and "serves api pages" and "progress cast pages acct run k (w_db w)"
    and "listing_ok cast (concat pages)" and "[] \<notin> set pages"
    and "k \<le> length pages + n" and "int (length pages + n) < i32_max"
  shows "if \<exists>x. r = Some x \<and> full_completed x then starred_exactly (concat pages) acct (w_db w')
    else \<exists>k' \<le> length pages + Suc n. progress cast pages acct run k' (w_db w')"
  using assms(1,3,6)
proof (induction rounds arbitrary: k w)
  case 0
  then show ?case by (auto intro!: exI [of _ k])
next
  case (Suc rounds)
  obtain q w1 where q: "snapshot_step cast api tok acct run (int k + 1) w = (q, w1)"
    by (cases "snapshot_step cast api tok acct run (int k + 1) w")
  have "int k < i32_max" using Suc.prems(3) assms(7) by linarith
  note round = snapshot_round [OF q assms(2) Suc.prems(2) assms(4) this assms(5)]
  show ?case
  proof (cases q)
    case (Inl x)
    with Suc.prems q have "r = Some x" "w' = w1" by simp_all
    with round Inl Suc.prems(3) show ?thesis
      by auto (metis le_SucI, metis Suc_le_mono)
  next
    case (Inr p)
    with round have p: "p = int (Suc k) + 1" "k < length pages"
      and prog: "progress cast pages acct run (Suc k) (w_db w1)" by auto
    have "run_loop rounds (snapshot_step cast api tok acct run) (int (Suc k) + 1) w1 = (r, w')"
      using Suc.prems(1) q Inr p by simp
    from Suc.IH [OF this prog] p(2) show ?thesis by simp
  qed
qed

text \<open>
  Before a run is opened: the account is known, no full run is open, the identifier the next run will
  get is not used yet, and the listing fits the recorded names.
\<close>

definition ready :: "starred_item list list \<Rightarrow> uuid \<Rightarrow> catalog \<Rightarrow> bool" where
  "ready pages acct db \<longleftrightarrow>
     acct \<in> acct_id ` set (accounts db) \<and> running_run ModeFull acct db = None \<and>
     next_uuid db \<notin> run_id ` set (sync_runs db) \<and> next_uuid db \<notin> si_run ` set (snapshot_items db) \<and>
     next_uuid db \<notin> cp_run ` set (checkpoints db) \<and> identities_fit (concat pages) db"

definition underway ::
    "(string \<Rightarrow> timestamp option) \<Rightarrow> starred_item list list \<Rightarrow> uuid \<Rightarrow> nat \<Rightarrow> catalog \<Rightarrow> bool" where
  "underway cast pages acct n db \<longleftrightarrow>
     ready pages acct db \<or> (\<exists>run k. k \<le> length pages + n \<and> progress cast pages acct run k db)"

lemma insert_run_progress:
  assumes "insert_run ModeFull acct db = Inr (run, db')" and "ready pages acct db"
  shows "progress cast pages acct run 0 db'"
proof -
  have r: "acct \<in> acct_id ` set (accounts db)" "running_run ModeFull acct db = None"
    "\<forall>x\<in>set (sync_runs db). run_id x \<noteq> next_uuid db" "\<forall>i\<in>set (snapshot_items db). si_run i \<noteq> next_uuid db"
    "\<forall>c\<in>set (checkpoints db). cp_run c \<noteq> next_uuid db" "identities_fit (concat pages) db"
    using assms(2) unfolding ready_def by (force simp: image_iff)+
  have run: "run = next_uuid db" using assms(1) by (auto simp: insert_run_def fresh_uuid_def split: if_splits)
  have none: "filter (\<lambda>r. run_account r = acct \<and> run_mode r = ModeFull \<and> run_status r = RunRunning)
      (sync_runs db) = []"
    using r(2) by (simp add: running_run_def)
  have fields: "sync_runs db' = sync_runs db @ [\<lparr>run_id = run, run_account = acct, run_mode = ModeFull,
      run_status = RunRunning, run_failure = None, run_pages = 0, run_items = 0, run_additions = 0,
      run_unstars = 0, run_lists = 0, run_removals = 0, run_started = db_clock db, run_finished = None\<rparr>]"
    "checkpoints db' = checkpoints db" "snapshot_items db' = snapshot_items db"
    "repositories db' = repositories db" "aliases db' = aliases db" "next_uuid db' = Suc (next_uuid db)"
    using assms(1) by (auto simp: insert_run_def fresh_uuid_def split: if_splits)
  have "latest_checkpoint run db' = None" "filter (\<lambda>i. si_run i = run) (snapshot_items db') = []"
    using r(4,5) run by (auto simp: latest_checkpoint_def filter_empty_conv fields)
  moreover have "identities_fit (concat pages) db'"
  proof -
    have "identity_ok db'" using r(6)
      by (auto simp: identities_fit_def identity_ok_def repos_ok_def aliases_ok_def fields intro: less_SucI)
    moreover have "names_fit (concat pages) db'"
      using r(6) unfolding identities_fit_def names_fit_def active_alias_holder_in_tx_def repo_by_provider_def
        fields by blast
    ultimately show ?thesis by (simp only: identities_fit_def)
  qed
  moreover have "\<forall>c\<in>set (checkpoints db'). cp_run c \<noteq> run" using r(5) run by (auto simp: fields)
  moreover have "\<forall>x\<in>set (sync_runs db). run_id x \<noteq> run" using r(3) run by auto
  ultimately show ?thesis
    by (auto simp: progress_def running_run_def fields none)
qed

lemma open_full_underway:
  assumes "open_or_resume_full acct w = (q, w1)" and "underway cast pages acct n (w_db w)"
    and "int (length pages + n) < i32_max"
  shows "case q of
      Inl e \<Rightarrow> w_db w1 = w_db w
    | Inr (run, page) \<Rightarrow>
        (\<exists>k \<le> length pages + n. page = int k + 1 \<and> progress cast pages acct run k (w_db w1))"
proof (cases q)
  case (Inl e)
  with assms(1) show ?thesis
    unfolding open_or_resume_full_def
    by (auto simp: io_bind_def io_return_def split: prod.splits sum.splits option.splits
        dest!: query_InlD query_InrD transact_InlD)
next
  case (Inr rp)
  obtain run page where rp: "rp = (run, page)" by (cases rp)
  have "\<exists>k \<le> length pages + n. page = int k + 1 \<and> progress cast pages acct run k (w_db w1)"
  proof (cases "running_run ModeFull acct (w_db w)")
    case None
    then have rdy: "ready pages acct (w_db w)"
      using assms(2) by (auto simp: underway_def dest: progressD(1))
    obtain w0 where "w_db w0 = w_db w" "transact (insert_run ModeFull acct) w0 = (Inr run, w1)" "page = 1"
      using assms(1) Inr rp None unfolding open_or_resume_full_def
      by (auto simp: io_bind_def io_return_def split: prod.splits sum.splits dest!: query_InrD)
    with insert_run_progress [OF _ rdy] show ?thesis
      by (intro exI [of _ 0]) (auto dest!: transact_InrD)
  next
    case (Some run')
    then obtain k where k: "k \<le> length pages + n" "progress cast pages acct run' k (w_db w)"
      using assms(2) progressD(1) unfolding underway_def ready_def by (metis option.distinct(1) option.inject)
    have "run = run' \<and> w_db w1 = w_db w \<and>
        page = u32_or 1 (case map_option cp_next_page (latest_checkpoint run' (w_db w)) of None \<Rightarrow> 1 | Some p \<Rightarrow> p)"
      using assms(1) Inr rp Some unfolding open_or_resume_full_def
      by (auto simp: io_bind_def io_return_def split: prod.splits sum.splits dest!: query_InrD)
    moreover have "u32_or 1 (int k + 1) = int k + 1"
      using k(1) assms(3) by (simp add: u32_or_def u32_max_def i32_max_def)
    ultimately show ?thesis
      using k progressD(4) [OF k(2)] by (intro exI [of _ k]) (cases "k = 0"; simp)
  qed
  with Inr rp show ?thesis by simp
qed

lemma session_outcome:
  assumes "run_full_snapshot cast api tok acct rounds w = (r, w')" and "serves api pages"
    and "underway cast pages acct n (w_db w)" and "listing_ok cast (concat pages)" and "[] \<notin> set pages"
    and "int (length pages + n) < i32_max"
  shows "if \<exists>x. r = Some x \<and> full_completed x then starred_exactly (concat pages) acct (w_db w')
    else underway cast pages acct (Suc n) (w_db w')"
proof -
  obtain q w1 where q: "open_or_resume_full acct w = (q, w1)" by (cases "open_or_resume_full acct w")
  note start = open_full_underway [OF q assms(3,6)]
  show ?thesis
  proof (cases q)
    case (Inl e)
    have "underway cast pages acct (Suc n) (w_db w)"
      using assms(3) unfolding underway_def by (meson add_le_mono le_Suc_eq le_refl order_trans)
    with start assms(1) q Inl show ?thesis by (auto simp: run_full_snapshot_def full_completed_def)
  next
    case (Inr rp)
    obtain run page where rp: "rp = (run, page)" by (cases rp)
    from start obtain k where k: "k \<le> length pages + n" "page = int k + 1"
      "progress cast pages acct run k (w_db w1)" using Inr rp by auto
    have "run_loop rounds (snapshot_step cast api tok acct run) (int k + 1) w1 = (r, w')"
      using assms(1) q Inr rp k(2) by (simp add: run_full_snapshot_def)
    from session_rounds [OF this assms(2) k(3) assms(4,5) k(1) assms(6)] show ?thesis
      unfolding underway_def if_bool_eq_conj by blast
  qed
qed

section \<open>Undisturbed sessions\<close>

text \<open>
  Nothing disturbs a session: no transaction is lost, the budget of its token is not withheld now,
  and the provider's answers carry no rate-limit headers that would withhold it.
\<close>

definition gate_open :: "string \<Rightarrow> world \<Rightarrow> bool" where
  "gate_open tok w \<longleftrightarrow>
     (case w_ledger w tok of None \<Rightarrow> True
      | Some b \<Rightarrow> bk_cooldown b = None \<and> bk_reset_at b \<le> w_clock w)"

definition serves_plainly :: "github_api \<Rightarrow> starred_item list list \<Rightarrow> bool" where
  "serves_plainly api pages \<longleftrightarrow>
     (\<forall>n p. \<exists>d. api_list_starred api n p =
        Answer d (Inr \<lparr>lr_items = page_of pages p, lr_rate_limit = no_headers\<rparr>))"

lemma serves_plainly_serves: "serves_plainly api pages \<Longrightarrow> serves api pages"
  unfolding serves_plainly_def serves_def by blast

lemma gate_open_passes:
  assumes "gate_open tok w"
  shows "\<exists>l. budget_gate tok paused w = (Inr (), w\<lparr>w_ledger := l\<rparr>) \<and> gate_open tok (w\<lparr>w_ledger := l\<rparr>)"
proof (cases "w_ledger w tok")
  case None
  then show ?thesis
    by (intro exI [of _ "w_ledger w"]) (simp add: gate_open_def budget_gate_def acquire_now_def acquire_def)
next
  case (Some b)
  with assms show ?thesis
    by (auto simp: gate_open_def budget_gate_def acquire_now_def acquire_def)
qed

lemma gate_open_observe:
  assumes "gate_open tok w"
  shows "\<exists>l. budget_observe tok no_headers panicked w = (Inr (), w\<lparr>w_ledger := l\<rparr>) \<and>
    gate_open tok (w\<lparr>w_ledger := l\<rparr>)"
  using assms
  by (cases "w_ledger w tok")
    (auto simp: gate_open_def budget_observe_def observe_now_def observe_def no_headers_def Let_def
      observe_remaining_def observe_reset_def fresh_bucket_def)

lemma gate_open_call:
  "gate_open tok w \<Longrightarrow> gate_open tok (snd (provider_call gw w))"
  "w_faults (snd (provider_call gw w)) = w_faults w"
  by (auto simp: gate_open_def provider_call_def Let_def split: option.splits)

lemma gate_open_db [simp]: "gate_open tok (w\<lparr>w_db := db\<rparr>) = gate_open tok w"
  by (cases "w_ledger w tok") (simp_all add: gate_open_def)

lemma undisturbed_round:
  assumes "serves_plainly api pages" and "progress cast pages acct run k (w_db w)"
    and "listing_ok cast (concat pages)" and "[] \<notin> set pages" and "int k < i32_max"
    and "w_faults w = []" and "gate_open tok w"
  shows "\<exists>r w'. snapshot_step cast api tok acct run (int k + 1) w = (r, w') \<and>
    (if length pages \<le> k then \<exists>x. r = Inl x \<and> full_completed x
     else (\<exists>p. r = Inr p) \<and> w_faults w' = [] \<and> gate_open tok w')"
proof -
  let ?p = "int k + 1"
  let ?gw = "\<lambda>n. api_list_starred api n ?p"
  let ?paused = "\<lambda>t. Inr (FullPaused run t) :: (snapshot_error, full_snapshot_outcome) result"
  obtain l1 where 1: "budget_gate tok ?paused w = (Inr (), w\<lparr>w_ledger := l1\<rparr>)"
    and g1: "gate_open tok (w\<lparr>w_ledger := l1\<rparr>)"
    using gate_open_passes [OF assms(7), of ?paused] by blast
  define w1 where "w1 = w\<lparr>w_ledger := l1\<rparr>"
  obtain d where ans: "?gw (w_calls w1) =
      Answer d (Inr \<lparr>lr_items = page_of pages ?p, lr_rate_limit = no_headers\<rparr>)"
    using assms(1) unfolding serves_plainly_def by blast
  define w2 where "w2 = snd (provider_call ?gw w1)"
  have w2: "w_faults w2 = []" "gate_open tok w2"
    using gate_open_call(1) [of tok w1 ?gw] gate_open_call(2) [of ?gw w1] g1 assms(6)
    unfolding w2_def w1_def by simp_all
  have p2: "progress cast pages acct run k (w_db w2)"
  proof -
    define t where "t = db_clock (w_db w) + int (ans_elapsed (?gw (w_calls w1)))"
    have "w_db w2 = (w_db w)\<lparr>db_clock := t\<rparr>" unfolding w2_def t_def provider_call_db by (simp add: w1_def)
    moreover have "progress cast pages acct run k ((w_db w)\<lparr>db_clock := t\<rparr>)"
      using assms(2) by (rule progress_later) (simp add: t_def)
    ultimately show ?thesis by (rule ssubst)
  qed
  let ?panicked = "Inl SnapPanicked :: (snapshot_error, full_snapshot_outcome) result"
  obtain l3 where 3: "budget_observe tok no_headers ?panicked w2 = (Inr (), w2\<lparr>w_ledger := l3\<rparr>)"
    and g3: "gate_open tok (w2\<lparr>w_ledger := l3\<rparr>)"
    using gate_open_observe [OF w2(2), of ?panicked] by blast
  define w3 where "w3 = w2\<lparr>w_ledger := l3\<rparr>"
  have w3: "w_faults w3 = []" "progress cast pages acct run k (w_db w3)" using w2 p2 by (simp_all add: w3_def)
  obtain db4 where 4: "record_page cast run ?p (page_of pages ?p) w3 = (Inr (), w3\<lparr>w_db := db4\<rparr>)"
    using record_page_total [OF w3 assms(3,5)] by blast
  have p4: "progress cast pages acct run (Suc k) db4"
    using record_page_progress [OF 4 w3(2) assms(3,5)] by simp
  have step: "snapshot_step cast api tok acct run ?p w =
      (if page_of pages ?p = [] then
         io_bind (io_map_err (\<lambda>e. Inl (SnapPersistence e)) (apply_authority_and_complete run acct))
           (\<lambda>(pages, items, additions, unstars).
              io_fail (Inr (FullCompleted run pages items additions unstars)))
       else io_return (wrap_u32 (?p + 1))) (w3\<lparr>w_db := db4\<rparr>)"
    unfolding snapshot_step_def io_bind_eq(1) [where m = "budget_gate tok ?paused", OF 1]
      bind_call_eq w1_def [symmetric] ans w2_def [symmetric] answer.sel sum.case listing_reply.select_convs
    using 3 4 by (simp add: io_bind_def io_map_err_def w3_def)
  have empty: "page_of pages ?p = [] \<longleftrightarrow> length pages \<le> k"
    using page_of_empty [of ?p pages] assms(4) by auto
  show ?thesis
  proof (cases "length pages \<le> k")
    case False
    with step empty w3(1) g3 show ?thesis by (simp add: io_return_def w3_def)
  next
    case True
    obtain c db5 where "apply_authority_tx run acct db4 = Inr (c, db5)"
      using swap_total [OF p4 _ assms(3)] True by auto
    with step empty True w3(1) show ?thesis
      by (auto simp: io_bind_def io_map_err_def apply_authority_and_complete_def transact_no_fault
          io_fail_def full_completed_def split: prod.split)
  qed
qed

lemma undisturbed_rounds:
  assumes "serves_plainly api pages" and "progress cast pages acct run k (w_db w)"
    and "listing_ok cast (concat pages)" and "[] \<notin> set pages" and "k \<le> length pages + n"
    and "int (length pages + n) < i32_max" and "w_faults w = []" and "gate_open tok w"
    and "length pages + 1 \<le> rounds + k" and "0 < rounds"
  shows "\<exists>x w'. run_loop rounds (snapshot_step cast api tok acct run) (int k + 1) w = (Some x, w') \<and>
    full_completed x"
  using assms(2,5,7-10)
proof (induction rounds arbitrary: k w)
  case (Suc rounds)
  have bound: "int k < i32_max" using Suc.prems(2) assms(6) by linarith
  obtain r w' where step: "snapshot_step cast api tok acct run (int k + 1) w = (r, w')"
    and res: "if length pages \<le> k then \<exists>x. r = Inl x \<and> full_completed x
      else (\<exists>p. r = Inr p) \<and> w_faults w' = [] \<and> gate_open tok w'"
    using undisturbed_round [OF assms(1) Suc.prems(1) assms(3,4) bound Suc.prems(3,4)] by blast
  show ?case
  proof (cases "length pages \<le> k")
    case True
    with res step show ?thesis by auto
  next
    case False
    with res obtain p where r: "r = Inr p" "w_faults w' = []" "gate_open tok w'" by auto
    from snapshot_round [OF step serves_plainly_serves [OF assms(1)] Suc.prems(1) assms(3) bound assms(4)] r
    have "p = int (Suc k) + 1" "progress cast pages acct run (Suc k) (w_db w')" by auto
    with Suc.IH [of "Suc k" w'] False r Suc.prems step show ?thesis by auto
  qed
qed simp

lemma undisturbed_open:
  assumes "underway cast pages acct n (w_db w)" and "w_faults w = []" and "gate_open tok w"
    and "int (length pages + n) < i32_max"
  shows "\<exists>run k w1. open_or_resume_full acct w = (Inr (run, int k + 1), w1) \<and>
    w_faults w1 = [] \<and> gate_open tok w1 \<and> k \<le> length pages + n \<and> progress cast pages acct run k (w_db w1)"
proof -
  have "\<exists>run page db1. open_or_resume_full acct w = (Inr (run, page), w\<lparr>w_db := db1\<rparr>)"
  proof (cases "running_run ModeFull acct (w_db w)")
    case None
    then have "acct \<in> acct_id ` set (accounts (w_db w))"
      using assms(1) by (auto simp: underway_def ready_def dest: progressD(1))
    with None assms(2) show ?thesis
      by (auto simp: open_or_resume_full_def io_bind_def query_no_fault transact_no_fault insert_run_def
          fresh_uuid_def io_return_def)
  next
    case (Some run)
    with assms(2) show ?thesis
      by (auto simp: open_or_resume_full_def io_bind_def query_no_fault io_return_def
          intro!: exI [of _ "w_db w"])
  qed
  then obtain run page db1 where 1: "open_or_resume_full acct w = (Inr (run, page), w\<lparr>w_db := db1\<rparr>)" by blast
  with open_full_underway [OF 1 assms(1,4)] assms(2,3) show ?thesis by auto
qed

end
