(* ===== verification/Snapshot_Resume.thy ===== *)
theory Snapshot_Resume
  imports Snapshot_Run
begin

text \<open>
  Sequences of full-snapshot sessions against a fixed listing: however often and wherever a session
  is cut off - by a withheld budget, a lost transaction, a panic or the end of the process between two
  rounds - a later session carries the run on, a completion is exact, and a session that nothing
  disturbs completes.
\<close>

section \<open>Sequences of sessions\<close>

text \<open>
  \<open>interrupted cast pages tok acct n db db'\<close>: \<open>n\<close> sessions have run from \<open>db\<close> to \<open>db'\<close>, none of
  which reported completion; any time may pass between two of them.
\<close>

inductive interrupted ::
    "(string \<Rightarrow> timestamp option) \<Rightarrow> starred_item list list \<Rightarrow> string \<Rightarrow> uuid \<Rightarrow> nat \<Rightarrow> catalog \<Rightarrow> catalog \<Rightarrow> bool"
  for cast pages tok acct where
  start: "interrupted cast pages tok acct 0 db db"
| session: "interrupted cast pages tok acct n db db1 \<Longrightarrow> serves api pages \<Longrightarrow>
    db_clock db1 \<le> t \<Longrightarrow> w_db w = db1\<lparr>db_clock := t\<rparr> \<Longrightarrow>
    run_full_snapshot cast api tok acct rounds w = (r, w') \<Longrightarrow>
    \<not> (\<exists>x. r = Some x \<and> full_completed x) \<Longrightarrow>
    interrupted cast pages tok acct (Suc n) db (w_db w')"

inductive_cases interrupted_SucE: "interrupted cast pages tok acct (Suc n) db db'"

lemma ready_later: "ready pages acct db \<Longrightarrow> ready pages acct (db\<lparr>db_clock := t\<rparr>)"
  by (simp add: ready_def running_run_def identities_fit_def names_fit_def)

lemma underway_later:
  "underway cast pages acct n db \<Longrightarrow> db_clock db \<le> t \<Longrightarrow> underway cast pages acct n (db\<lparr>db_clock := t\<rparr>)"
  unfolding underway_def by (blast intro: ready_later progress_later)

lemma interrupted_underway:
  assumes "interrupted cast pages tok acct n db db'" and "ready pages acct db"
    and "listing_ok cast (concat pages)" and "[] \<notin> set pages" and "int (length pages + n) < i32_max"
  shows "underway cast pages acct n db'"
  using assms
proof (induction rule: interrupted.induct)
  case (start db)
  then show ?case by (simp add: underway_def)
next
  case (session n db db1 api t w rounds r w')
  then have "underway cast pages acct n db1" by simp
  then have "underway cast pages acct n (w_db w)"
    using session.hyps(3,4) by (simp add: underway_later)
  from session_outcome [OF session.hyps(5,2) this session.prems(2,3)] session.hyps(6) session.prems(4)
  show ?case by simp
qed

lemma interrupted_authority: "interrupted cast pages tok acct n db db' \<Longrightarrow> same_authority db db'"
proof (induction rule: interrupted.induct)
  case (start db)
  show ?case by (rule authority_frame.R_refl)
next
  case (session n db db1 api t w rounds r w')
  have "same_authority db (w_db w)"
    using session.IH session.hyps(4) by (auto intro: authority_frame.R_trans authority_frame.R_clock)
  with full_snapshot_frame [OF session.hyps(5)] session.hyps(6) show ?case by (auto intro: authority_frame.R_trans)
qed

section \<open>Properties\<close>

text \<open>
  C1. Full snapshots are all or nothing across interruptions. Against an unchanging listing, after any
  number of sessions that were cut off anywhere - pages recorded, recorded in part or not at all - the next
  session either reports completion and leaves the account with exactly the repositories of the
  listing starred, each under its stable identity, or no star, observation, watermark, repair, list
  or mode has changed since before the first session. The listing is one the catalog can
  accept: no repository twice, a readable time on each item, no name shared by two repositories
  (\<open>listing_ok\<close>), no empty page, fewer pages and sessions than an \<open>i32\<close> counts; and before the
  first session the account exists, has no full run open, and no listed name is live for another
  repository (\<open>ready\<close>).
\<close>

theorem resumed_snapshot_exact:
  assumes "ready pages acct db" and "listing_ok cast (concat pages)" and "[] \<notin> set pages"
    and "interrupted cast pages tok acct n db db1" and "int (length pages + n) < i32_max"
    and "db_clock db1 \<le> t" and "w_db w = db1\<lparr>db_clock := t\<rparr>" and "serves api pages"
    and "run_full_snapshot cast api tok acct rounds w = (r, w')"
  shows "if \<exists>x. r = Some x \<and> full_completed x then starred_exactly (concat pages) acct (w_db w')
    else same_authority db (w_db w')"
proof (cases "\<exists>x. r = Some x \<and> full_completed x")
  case True
  have "underway cast pages acct n db1"
    using interrupted_underway [OF assms(4,1,2,3,5)] .
  then have "underway cast pages acct n (w_db w)"
    using assms(6,7) by (simp add: underway_later)
  from session_outcome [OF assms(9,8) this assms(2,3,5)] True show ?thesis by auto
next
  case False
  have "same_authority db (w_db w)"
    using interrupted_authority [OF assms(4)] assms(7) by (auto intro: authority_frame.R_trans authority_frame.R_clock)
  with full_snapshot_frame [OF assms(9)] False show ?thesis by (auto intro: authority_frame.R_trans)
qed

text \<open>
  C2. A session that nothing disturbs completes, from the state any number of interrupted sessions
  left behind: when the provider serves every page of a listing the catalog can accept (\<open>listing_ok\<close> and
  \<open>ready\<close>, as above: no repository twice, every time readable, no name live for another repository, no full run
  open before the first session) in replies without rate-limit headers, with no lost transaction, an open
  budget and one round more than the listing has pages, it reports completion, and the account's stars are
  exactly the listing.
\<close>

theorem undisturbed_snapshot_completes:
  assumes "ready pages acct db" and "listing_ok cast (concat pages)" and "[] \<notin> set pages"
    and "interrupted cast pages tok acct n db db1" and "int (length pages + n) < i32_max"
    and "db_clock db1 \<le> t" and "w_db w = db1\<lparr>db_clock := t\<rparr>" and "serves_plainly api pages"
    and "w_faults w = []" and "gate_open tok w" and "length pages < rounds"
  shows "\<exists>x w'. run_full_snapshot cast api tok acct rounds w = (Some x, w') \<and> full_completed x \<and>
    starred_exactly (concat pages) acct (w_db w')"
proof -
  have "underway cast pages acct n db1" using interrupted_underway [OF assms(4,1,2,3,5)] .
  then have under: "underway cast pages acct n (w_db w)"
    using assms(6,7) by (simp add: underway_later)
  obtain run k w1 where "open_or_resume_full acct w = (Inr (run, int k + 1), w1)"
    and "w_faults w1 = []" "gate_open tok w1" "k \<le> length pages + n"
    and "progress cast pages acct run k (w_db w1)"
    using undisturbed_open [OF under assms(9,10,5)] by blast
  then obtain x w' where "run_full_snapshot cast api tok acct rounds w = (Some x, w')" "full_completed x"
    using undisturbed_rounds [OF assms(8) _ assms(2,3) _ assms(5), of acct run k w1 tok rounds] assms(11)
    by (auto simp: run_full_snapshot_def)
  with session_outcome [OF _ serves_plainly_serves [OF assms(8)] under assms(2,3,5)] show ?thesis
    by fastforce
qed

section \<open>An interrupted snapshot\<close>

definition sample_item :: "int \<Rightarrow> string \<Rightarrow> starred_item" where
  "sample_item p n = \<lparr>st_starred_at = Some ''now'', st_repo = \<lparr>pb_provider_repository_id = p,
     pb_full_name = n, pb_description = None, pb_language = None, pb_stargazers = 0, pb_topics = [],
     pb_default_branch = None, pb_pushed_at = None\<rparr>\<rparr>"

definition sample_pages :: "starred_item list list" where
  "sample_pages = [[sample_item 42 ''o/a''], [sample_item 43 ''o/b'']]"

definition sample_cast :: "string \<Rightarrow> timestamp option" where
  "sample_cast s = (if s = ''now'' then Some 9 else None)"

definition sample_db :: catalog where
  "sample_db = empty_catalog\<lparr>accounts :=
     [\<lparr>acct_id = 7, acct_owner = ''owner'', acct_status = Connected, acct_scopes = [], acct_provider = Some 9,
      acct_login = None\<rparr>]\<rparr>"

text \<open>The session whose sixth transaction, in the middle of the second page, is lost.\<close>

definition cut_session :: "(snapshot_error, full_snapshot_outcome) result option \<times> world" where
  "cut_session = run_full_snapshot sample_cast (paged_api sample_pages) ''t'' 7 9
     ((idle_world sample_db)\<lparr>w_faults := replicate 5 False @ [True]\<rparr>)"

definition full_session :: "(snapshot_error, full_snapshot_outcome) result option \<times> world" where
  "full_session = run_full_snapshot sample_cast (paged_api sample_pages) ''t'' 7 3 (idle_world sample_db)"

lemma sample_fits:
  "ready sample_pages 7 sample_db" "listing_ok sample_cast (concat sample_pages)" "[] \<notin> set sample_pages"
  "serves (paged_api sample_pages) sample_pages" "serves_plainly (paged_api sample_pages) sample_pages"
proof -
  show "ready sample_pages 7 sample_db"
    by (simp add: ready_def sample_db_def empty_catalog_def running_run_def identities_fit_def names_fit_def
        identity_ok_def repos_ok_def aliases_ok_def live_unique_def active_alias_holder_in_tx_def)
  show "listing_ok sample_cast (concat sample_pages)"
    by (simp add: listing_ok_def sample_pages_def sample_item_def item_provider_id_def item_time_def
        sample_cast_def consistent_names_def item_name_def body_owner_name_def owner_name_text_def i32_max_def)
  show "[] \<notin> set sample_pages" by (simp add: sample_pages_def)
  show "serves_plainly (paged_api sample_pages) sample_pages" by (simp add: serves_plainly_def paged_api_def)
  then show "serves (paged_api sample_pages) sample_pages" by (rule serves_plainly_serves)
qed

theorem resumed_snapshot_exact_witness:
  "(\<exists>x. fst full_session = Some x \<and> full_completed x \<and>
     starred_exactly (concat sample_pages) 7 (w_db (snd full_session))) \<and>
   same_authority sample_db (w_db (snd cut_session))"
proof -
  have "case fst full_session of Some x \<Rightarrow> full_completed x | None \<Rightarrow> False" by code_simp
  then obtain x where x: "fst full_session = Some x" "full_completed x" by (auto split: option.splits)
  have cut: "fst cut_session = Some (Inl (SnapPersistence ConnectionLost))" by code_simp
  have bound: "int (length sample_pages + 0) < i32_max" by (simp add: sample_pages_def i32_max_def)
  note exact = resumed_snapshot_exact [OF sample_fits(1-3) interrupted.start bound order_refl _ sample_fits(4)]
  have "starred_exactly (concat sample_pages) 7 (w_db (snd full_session))"
    using exact [OF _ prod.collapse [symmetric], of "idle_world sample_db" "''t''" 3] x
    by (simp add: full_session_def)
  moreover have "same_authority sample_db (w_db (snd cut_session))"
    using exact [OF _ prod.collapse [symmetric], of "(idle_world sample_db)\<lparr>w_faults := replicate 5 False @ [True]\<rparr>" "''t''" 9]
      cut by (simp add: cut_session_def full_completed_def)
  ultimately show ?thesis using x by blast
qed

theorem undisturbed_snapshot_completes_witness:
  "\<not> (\<exists>x. fst cut_session = Some x \<and> full_completed x) \<and>
   (\<exists>x w'. run_full_snapshot sample_cast (paged_api sample_pages) ''t'' 7 3
        (idle_world (w_db (snd cut_session))) = (Some x, w') \<and>
     full_completed x \<and> starred_exactly (concat sample_pages) 7 (w_db w'))"
proof -
  let ?w = "(idle_world sample_db)\<lparr>w_faults := replicate 5 False @ [True]\<rparr>"
  have "fst cut_session = Some (Inl (SnapPersistence ConnectionLost))" by code_simp
  then have cut: "\<not> (\<exists>x. fst cut_session = Some x \<and> full_completed x)" by (simp add: full_completed_def)
  have "w_db ?w = sample_db\<lparr>db_clock := db_clock sample_db\<rparr>" by simp
  from interrupted.session [OF interrupted.start sample_fits(4) order_refl this
      cut_session_def [symmetric, THEN trans, OF prod.collapse [symmetric]] cut]
  have one: "interrupted sample_cast sample_pages ''t'' 7 (Suc 0) sample_db (w_db (snd cut_session))" .
  have bound: "int (length sample_pages + Suc 0) < i32_max" "length sample_pages < 3"
    by (simp_all add: sample_pages_def i32_max_def)
  have "gate_open ''t'' (idle_world (w_db (snd cut_session)))" by (simp add: gate_open_def)
  from undisturbed_snapshot_completes [OF sample_fits(1-3) one bound(1) order_refl _ sample_fits(5) _ this bound(2)]
    cut show ?thesis by simp
qed

end
