(* ===== verification/Grammar.thy ===== *)
theory Grammar
  imports Prelude
begin

text \<open>
  The regular expressions of the schema's check constraints, with their languages: the reference
  against which the hand-written validators of the code are compared.
\<close>

datatype pattern =
    Lit string
  | OneOf "char list"
  | Seq pattern pattern
  | Alt pattern pattern
  | Rep nat nat pattern

fun language_power :: "string set \<Rightarrow> nat \<Rightarrow> string set" where
  "language_power L 0 = {[]}"
| "language_power L (Suc n) = {u @ v |u v. u \<in> L \<and> v \<in> language_power L n}"

fun language :: "pattern \<Rightarrow> string set" where
  "language (Lit s) = {s}"
| "language (OneOf cs) = {[c] |c. c \<in> set cs}"
| "language (Seq p q) = {u @ v |u v. u \<in> language p \<and> v \<in> language q}"
| "language (Alt p q) = language p \<union> language q"
| "language (Rep m n p) = (\<Union>k\<in>{m..n}. language_power (language p) k)"

text \<open>The characters of the patterns.\<close>

definition char_range :: "nat \<Rightarrow> nat \<Rightarrow> char list" where
  "char_range a b = map char_of [a..<Suc b]"

definition lowercase :: "char list" where "lowercase = char_range 97 122"
definition digits :: "char list" where "digits = char_range 48 57"
definition hex_digits :: "char list" where "hex_digits = digits @ char_range 97 102"

lemma hex_digits_code [code]: "hex_digits = ''0123456789abcdef''"
  by code_simp

lemma set_char_range: "b < 256 \<Longrightarrow> c \<in> set (char_range a b) \<longleftrightarrow> a \<le> of_char c \<and> of_char c \<le> b"
proof
  assume "b < 256" "c \<in> set (char_range a b)"
  then show "a \<le> of_char c \<and> of_char c \<le> b" by (auto simp: char_range_def)
next
  assume "a \<le> of_char c \<and> of_char c \<le> b"
  then have "(of_char c :: nat) \<in> {a..<Suc b}" by simp
  then have "char_of (of_char c :: nat) \<in> char_of ` {a..<Suc b}" by (rule imageI)
  then show "c \<in> set (char_range a b)" by (simp add: char_range_def del: upt_Suc)
qed

lemma set_lowercase: "c \<in> set lowercase \<longleftrightarrow> CHR ''a'' \<le> c \<and> c \<le> CHR ''z''"
  by (simp add: lowercase_def set_char_range less_eq_char_def)

lemma set_digits: "c \<in> set digits \<longleftrightarrow> CHR ''0'' \<le> c \<and> c \<le> CHR ''9''"
  by (simp add: digits_def set_char_range less_eq_char_def)

lemma one_append: "{u @ v |u v. u \<in> {[c] |c. c \<in> A} \<and> v \<in> L} = {c # v |c v. c \<in> A \<and> v \<in> L}"
proof (intro equalityI subsetI)
  fix x
  assume "x \<in> {c # v |c v. c \<in> A \<and> v \<in> L}"
  then obtain c v where "x = [c] @ v" "c \<in> A" "v \<in> L" by auto
  then show "x \<in> {u @ v |u v. u \<in> {[c] |c. c \<in> A} \<and> v \<in> L}" by blast
qed auto

lemma power_OneOf: "language_power (language (OneOf cs)) n = {v. length v = n \<and> set v \<subseteq> set cs}"
proof (induction n)
  case (Suc n)
  have "v \<in> language_power (language (OneOf cs)) (Suc n) \<longleftrightarrow> length v = Suc n \<and> set v \<subseteq> set cs" for v
  proof (cases v)
    case (Cons c u)
    have "v \<in> language_power (language (OneOf cs)) (Suc n) \<longleftrightarrow>
        c \<in> set cs \<and> u \<in> language_power (language (OneOf cs)) n"
      unfolding Cons language_power.simps language.simps one_append by blast
    with Suc Cons show ?thesis by auto
  qed auto
  then show ?case by blast
qed auto

lemma language_Rep_OneOf:
  "language (Rep m n (OneOf cs)) = {v. m \<le> length v \<and> length v \<le> n \<and> set v \<subseteq> set cs}"
  by (auto simp: power_OneOf simp del: language.simps(2))

section \<open>Matching\<close>

text \<open>An executable matcher: what may be left of a text after a prefix in the pattern's language.\<close>

fun repeated :: "(string \<Rightarrow> string list) \<Rightarrow> nat \<Rightarrow> string \<Rightarrow> string list" where
  "repeated f 0 v = [v]"
| "repeated f (Suc n) v = concat (map (repeated f n) (f v))"

fun residuals :: "pattern \<Rightarrow> string \<Rightarrow> string list" where
  "residuals (Lit s) v = (if take (length s) v = s then [drop (length s) v] else [])"
| "residuals (OneOf cs) v = (case v of [] \<Rightarrow> [] | c # u \<Rightarrow> if c \<in> set cs then [u] else [])"
| "residuals (Seq p q) v = concat (map (residuals q) (residuals p v))"
| "residuals (Alt p q) v = residuals p v @ residuals q v"
| "residuals (Rep m n p) v = concat (map (\<lambda>k. repeated (residuals p) k v) [m..<Suc n])"

definition matches :: "pattern \<Rightarrow> string \<Rightarrow> bool" where
  "matches p v \<longleftrightarrow> [] \<in> set (residuals p v)"

lemma set_repeated:
  assumes "\<And>v. set (f v) = {w. \<exists>u\<in>L. v = u @ w}"
  shows "set (repeated f n v) = {w. \<exists>u\<in>language_power L n. v = u @ w}"
proof (induction n arbitrary: v)
  case (Suc n)
  have "w \<in> set (repeated f (Suc n) v) \<longleftrightarrow> (\<exists>a\<in>L. \<exists>b\<in>language_power L n. v = a @ b @ w)" for w
    using Suc assms by auto
  then show ?case by fastforce
qed auto

lemma set_residuals: "set (residuals p v) = {w. \<exists>u\<in>language p. v = u @ w}"
proof (induction p arbitrary: v)
  case (Lit s)
  show ?case by (auto simp: append_eq_conv_conj) (metis append_take_drop_id)
next
  case (OneOf cs)
  show ?case by (auto split: list.splits)
next
  case (Seq p q)
  have "w \<in> set (residuals (Seq p q) v) \<longleftrightarrow> (\<exists>a\<in>language p. \<exists>b\<in>language q. v = a @ b @ w)" for w
    using Seq by auto
  then show ?case by fastforce
next
  case (Rep m n p)
  show ?case
    using set_repeated [OF Rep] by (auto simp: less_Suc_eq_le Bex_def simp del: upt_Suc)
qed auto

lemma matches_iff: "matches p v \<longleftrightarrow> v \<in> language p"
  by (simp add: matches_def set_residuals)

section \<open>Owner references\<close>

definition uuid_pattern :: pattern where
  "uuid_pattern =
     (let hex = (\<lambda>n. Rep n n (OneOf hex_digits)); dash = Lit ''-'' in
      Seq (hex 8) (Seq dash (Seq (hex 4) (Seq dash (Seq (hex 4) (Seq dash (Seq (hex 4)
        (Seq dash (hex 12)))))))))"

text \<open>A SHA-256 digest in its hexadecimal form.\<close>

definition digest_pattern :: pattern where
  "digest_pattern = Rep 64 64 (OneOf hex_digits)"

lemma digest_pattern_iff: "matches digest_pattern v \<longleftrightarrow> length v = 64 \<and> set v \<subseteq> set hex_digits"
  unfolding matches_iff digest_pattern_def language_Rep_OneOf by auto

definition user_owner_pattern :: pattern where
  "user_owner_pattern = Seq (Lit ''user:'') uuid_pattern"

definition plain_owner_pattern :: pattern where
  "plain_owner_pattern = Seq (OneOf lowercase) (Rep 1 63 (OneOf (lowercase @ digits @ ''-'')))"

definition account_owner_pattern :: pattern where
  "account_owner_pattern = Alt user_owner_pattern plain_owner_pattern"

lemma plain_owner_iff:
  "v \<in> language plain_owner_pattern \<longleftrightarrow>
     (\<exists>c u. v = c # u \<and> c \<in> set lowercase \<and> 1 \<le> length u \<and> length u \<le> 63 \<and>
        set u \<subseteq> set lowercase \<union> set digits \<union> {CHR ''-''})"
  unfolding plain_owner_pattern_def language.simps(2,3) language_Rep_OneOf one_append
  by (auto simp: Un_assoc)

lemma user_owner_colon: "v \<in> language user_owner_pattern \<Longrightarrow> CHR '':'' \<in> set v"
  by (auto simp: user_owner_pattern_def)

lemma plain_owner_no_colon: "v \<in> language plain_owner_pattern \<Longrightarrow> CHR '':'' \<notin> set v"
  by (auto simp: plain_owner_iff set_lowercase set_digits less_eq_char_def dest!: subsetD)

end
