(* ===== verification/Commands.thy ===== *)
theory Commands
  imports Scan_Frame Snapshot_Resume Grammar
begin

text \<open>
  Consumption of the service's own synchronization commands (\<open>crates/catalog/src/commands.rs\<close>):
  strict validation of the delivered envelope before any effect, the claim of the command's identity
  in the inbox, the dispatch of the requested scan with escalation of an ordering gap, and the
  star-list snapshot every handled command attempts. Parsing of JSON and of UUID texts are
  parameters (\<open>serde_json\<close>, \<open>uuid\<close>).
\<close>

section \<open>Operations that may still be running\<close>

text \<open>
  The scans loop, so an operation that calls them either returns a result or has not returned
  within the given rounds.
\<close>

type_synonym ('e, 'a) looping = "world \<Rightarrow> ('e, 'a) result option \<times> world"

definition once :: "('e, 'a) io \<Rightarrow> ('e, 'a) looping" where
  "once m w = (case m w of (r, w') \<Rightarrow> (Some r, w'))"

definition loop_bind :: "('e, 'a) looping \<Rightarrow> ('a \<Rightarrow> ('e, 'b) looping) \<Rightarrow> ('e, 'b) looping" where
  "loop_bind m f w =
     (case m w of
        (None, w') \<Rightarrow> (None, w')
      | (Some (Inl e), w') \<Rightarrow> (Some (Inl e), w')
      | (Some (Inr x), w') \<Rightarrow> f x w')"

definition loop_return :: "'a \<Rightarrow> ('e, 'a) looping" where
  "loop_return x w = (Some (Inr x), w)"

definition loop_map_err :: "('e \<Rightarrow> 'f) \<Rightarrow> ('e, 'a) looping \<Rightarrow> ('f, 'a) looping" where
  "loop_map_err g m w =
     (case m w of
        (None, w') \<Rightarrow> (None, w')
      | (Some (Inl e), w') \<Rightarrow> (Some (Inl (g e)), w')
      | (Some (Inr x), w') \<Rightarrow> (Some (Inr x), w'))"

section \<open>Data\<close>

definition sync_requested_type :: string where
  "sync_requested_type = ''github.sync.requested.v1''"

datatype requested_sync_mode = SyncIncremental | SyncFull

record handled_sync_command =
  hs_command_id :: uuid
  hs_account_id :: uuid
  hs_requested_mode :: requested_sync_mode
  hs_incremental :: "incremental_scan_outcome option"
  hs_full :: "full_snapshot_outcome option"
  hs_star_lists :: "star_list_snapshot_outcome option"

datatype consumed_sync_command = CommandHandled handled_sync_command | CommandDuplicate

datatype sync_command_error =
    CommandInvalid string
  | UnknownAccount
  | AccountNotConnected
  | CommandIdentity identity_error
  | CommandPersistence sql_error
  | CommandProvider provider_error
  | CommandSnapshot snapshot_error
  | CommandIncremental incremental_scan_error
  | CommandStarLists star_lists_error

record validated_envelope =
  ve_raw :: json
  ve_command_id :: uuid
  ve_owner_ref :: string
  ve_requested_mode :: requested_sync_mode

text \<open>
  What the module uses of \<open>serde_json\<close> and \<open>uuid\<close>: the value a text denotes, if it is JSON (an
  object holds each member once), and the identifier a text denotes, if it is a UUID.
\<close>

record command_library =
  cl_from_str :: "string \<Rightarrow> json option"
  cl_parse_uuid :: "string \<Rightarrow> uuid option"

section \<open>Validation\<close>

fun as_object :: "json \<Rightarrow> (string \<times> json) list option" where
  "as_object (JObj members) = Some members"
| "as_object _ = None"

fun as_str :: "json \<Rightarrow> string option" where
  "as_str (JStr s) = Some s"
| "as_str _ = None"

definition require_str ::
    "(string \<times> json) list \<Rightarrow> string \<Rightarrow> string \<Rightarrow> (sync_command_error, string) result" where
  "require_str members key message =
     ok_or (CommandInvalid message) (Option.bind (map_of members key) as_str)"

definition mode_vocabulary :: sync_command_error where
  "mode_vocabulary = CommandInvalid ''payload mode must be incremental or full''"

definition requested_mode_of ::
    "(string \<times> json) list \<Rightarrow> (sync_command_error, requested_sync_mode) result" where
  "requested_mode_of payload =
     (case map_of payload ''mode'' of
        None \<Rightarrow> Inr SyncIncremental
      | Some JNull \<Rightarrow> Inr SyncIncremental
      | Some (JStr text) \<Rightarrow>
          if text = ''incremental'' then Inr SyncIncremental
          else if text = ''full'' then Inr SyncFull
          else Inl mode_vocabulary
      | Some _ \<Rightarrow> Inl mode_vocabulary)"

definition is_ascii_lowercase :: "char \<Rightarrow> bool" where
  "is_ascii_lowercase c \<longleftrightarrow> CHR ''a'' \<le> c \<and> c \<le> CHR ''z''"

definition is_ascii_digit :: "char \<Rightarrow> bool" where
  "is_ascii_digit c \<longleftrightarrow> CHR ''0'' \<le> c \<and> c \<le> CHR ''9''"

definition owner_ref_error :: sync_command_error where
  "owner_ref_error = CommandInvalid ''payload account does not match the owner reference grammar''"

definition ensure_owner_ref :: "string \<Rightarrow> (sync_command_error, unit) result" where
  "ensure_owner_ref v =
     (let head_ok = (case v of [] \<Rightarrow> False | c # _ \<Rightarrow> is_ascii_lowercase c);
          tail_ok = list_all (\<lambda>c. is_ascii_lowercase c \<or> is_ascii_digit c \<or> c = CHR ''-'') (tl v);
          length_ok = (2 \<le> length v \<and> length v \<le> 64)
      in if head_ok \<and> tail_ok \<and> length_ok then Inr () else Inl owner_ref_error)"

definition strip_prefix :: "string \<Rightarrow> string \<Rightarrow> string option" where
  "strip_prefix p s = (if take (length p) s = p then Some (drop (length p) s) else None)"

definition required_members :: "(string \<times> string) list" where
  "required_members =
     [(''requested_at'', ''requested_at must be a present string member''),
      (''operation_id'', ''operation_id must be a present string member''),
      (''correlation_id'', ''correlation_id must be a present string member''),
      (''idempotency_key'', ''idempotency_key must be a present string member'')]"

fun require_all ::
    "(string \<times> json) list \<Rightarrow> (string \<times> string) list \<Rightarrow> (sync_command_error, unit) result" where
  "require_all members [] = Inr ()"
| "require_all members ((key, message) # rest) =
     and_then (require_str members key message) (\<lambda>_. require_all members rest)"

definition validate_envelope ::
    "command_library \<Rightarrow> string \<Rightarrow> (sync_command_error, validated_envelope) result" where
  "validate_envelope cl text =
     and_then (ok_or (CommandInvalid ''the envelope is not valid JSON'') (cl_from_str cl text)) (\<lambda>envelope.
     and_then (ok_or (CommandInvalid ''the envelope must be a JSON object'') (as_object envelope))
       (\<lambda>members.
     and_then (require_str members ''command_type'' ''command_type must be a string'') (\<lambda>command_type.
     if command_type \<noteq> sync_requested_type
     then Inl (CommandInvalid ''command_type is foreign to this service'')
     else
     and_then (require_str members ''command_id'' ''command_id must be a UUID string'') (\<lambda>id_text.
     and_then (ok_or (CommandInvalid ''command_id must be a UUID string'') (cl_parse_uuid cl id_text))
       (\<lambda>command_id.
     and_then (require_str members ''tenant_id'' ''tenant_id must be a string'') (\<lambda>tenant.
     and_then (ok_or (CommandInvalid ''tenant_id must take the form user:<uuid>'')
         (strip_prefix ''user:'' tenant)) (\<lambda>tenant_uuid.
     and_then (ok_or (CommandInvalid ''tenant_id must take the form user:<uuid>'')
         (cl_parse_uuid cl tenant_uuid)) (\<lambda>_.
     and_then (require_all members required_members) (\<lambda>_.
     and_then (ok_or (CommandInvalid ''payload must be a JSON object'')
         (Option.bind (map_of members ''payload'') as_object)) (\<lambda>payload.
     and_then (require_str payload ''account'' ''payload must name an account'') (\<lambda>owner_ref.
     and_then (ensure_owner_ref owner_ref) (\<lambda>_.
     and_then (requested_mode_of payload) (\<lambda>m.
       Inr \<lparr>ve_raw = envelope, ve_command_id = command_id, ve_owner_ref = owner_ref,
            ve_requested_mode = m\<rparr>)))))))))))))"

section \<open>Resolving the account and claiming the command\<close>

text \<open>
  The reference is not a key of the accounts table: of several rows the first one is taken.
\<close>

definition resolve_account :: "string \<Rightarrow> (sync_command_error, uuid) io" where
  "resolve_account owner_ref =
     io_bind (io_map_err CommandPersistence (query (\<lambda>db. find_by acct_owner owner_ref (accounts db))))
       (\<lambda>found. case found of
          None \<Rightarrow> io_fail UnknownAccount
        | Some account \<Rightarrow>
            if acct_status account \<noteq> Connected then io_fail AccountNotConnected
            else io_return (acct_id account))"

definition claim_command_tx :: "uuid \<Rightarrow> json \<Rightarrow> bool tx" where
  "claim_command_tx command_id raw db =
     (if command_id \<in> ib_message ` set (inbox db) then Inr (False, db)
      else Inr (True, db\<lparr>inbox := inbox db @
        [\<lparr>ib_message = command_id, ib_subject = sync_requested_type, ib_payload = raw,
          ib_consumed = None\<rparr>]\<rparr>))"

definition mark_consumed_tx :: "uuid \<Rightarrow> unit tx" where
  "mark_consumed_tx command_id db =
     Inr ((), db\<lparr>inbox := update_where (\<lambda>r. ib_message r = command_id)
        (\<lambda>r. r\<lparr>ib_consumed := Some (db_clock db)\<rparr>) (inbox db)\<rparr>)"

section \<open>Dispatch\<close>

text \<open>The process' dependencies: the database's cast, the time library, the provider and a token.\<close>

record scan_runtime =
  sr_cast :: "string \<Rightarrow> timestamp option"
  sr_time :: time_library
  sr_gateway :: github_api
  sr_token :: string

definition commanded_full ::
    "scan_runtime \<Rightarrow> uuid \<Rightarrow> nat \<Rightarrow> (sync_command_error, full_snapshot_outcome) looping" where
  "commanded_full sr acct rounds =
     loop_map_err CommandSnapshot
       (run_full_snapshot (sr_cast sr) (sr_gateway sr) (sr_token sr) acct rounds)"

text \<open>The star-mode part of a handled command.\<close>

definition dispatch_mode ::
    "scan_runtime \<Rightarrow> uuid \<Rightarrow> nat \<Rightarrow> requested_sync_mode \<Rightarrow>
     (sync_command_error, incremental_scan_outcome option \<times> full_snapshot_outcome option) looping" where
  "dispatch_mode sr acct rounds m =
     (case m of
        SyncIncremental \<Rightarrow>
          loop_bind (loop_map_err CommandIncremental
              (run_incremental_scan (sr_cast sr) (sr_time sr) (sr_gateway sr) (sr_token sr) acct rounds))
            (\<lambda>outcome.
               case outcome of
                 IncGapDetected _ \<Rightarrow>
                   loop_bind (commanded_full sr acct rounds)
                     (\<lambda>full. loop_return (Some outcome, Some full))
               | IncDeferredToFull deferred \<Rightarrow> loop_return (Some outcome, Some deferred)
               | _ \<Rightarrow> loop_return (Some outcome, None))
      | SyncFull \<Rightarrow>
          loop_bind (commanded_full sr acct rounds) (\<lambda>full. loop_return (None, Some full)))"

text \<open>Everything after the claim: the scans and the mark that the command was consumed.\<close>

definition work_off ::
    "scan_runtime \<Rightarrow> nat \<Rightarrow> validated_envelope \<Rightarrow> uuid \<Rightarrow>
     (sync_command_error, consumed_sync_command) looping" where
  "work_off sr rounds v acct =
     loop_bind (dispatch_mode sr acct rounds (ve_requested_mode v)) (\<lambda>(incremental, full).
     loop_bind (loop_map_err CommandStarLists
         (run_star_list_snapshot (sr_gateway sr) (sr_token sr) acct rounds)) (\<lambda>star_lists.
     loop_bind (once (io_map_err CommandPersistence
         (transact (mark_consumed_tx (ve_command_id v))))) (\<lambda>_.
       loop_return (CommandHandled
         \<lparr>hs_command_id = ve_command_id v, hs_account_id = acct,
          hs_requested_mode = ve_requested_mode v, hs_incremental = incremental,
          hs_full = full, hs_star_lists = Some star_lists\<rparr>))))"

definition handle_sync_command ::
    "command_library \<Rightarrow> scan_runtime \<Rightarrow> nat \<Rightarrow> string \<Rightarrow>
     (sync_command_error, consumed_sync_command) looping" where
  "handle_sync_command cl sr rounds text w =
     (case validate_envelope cl text of
        Inl e \<Rightarrow> (Some (Inl e), w)
      | Inr v \<Rightarrow>
          loop_bind (once (resolve_account (ve_owner_ref v))) (\<lambda>acct.
          loop_bind (once (io_map_err CommandPersistence
              (transact (claim_command_tx (ve_command_id v) (ve_raw v))))) (\<lambda>claimed.
            if \<not> claimed then loop_return CommandDuplicate
            else work_off sr rounds v acct)) w)"

section \<open>Evaluation\<close>

lemma once_eq: "m w = (r, w') \<Longrightarrow> once m w = (Some r, w')"
  by (simp add: once_def)

lemma loop_bind_Inr: "m w = (Some (Inr x), w') \<Longrightarrow> loop_bind m f w = f x w'"
  by (simp add: loop_bind_def)

lemma loop_bind_InrE:
  assumes "loop_bind m f w = (Some (Inr y), w')"
  obtains x w1 where "m w = (Some (Inr x), w1)" and "f x w1 = (Some (Inr y), w')"
  using assms by (auto simp: loop_bind_def split: prod.splits option.splits sum.splits)

lemma loop_map_err_InrD: "loop_map_err g m w = (Some (Inr y), w') \<Longrightarrow> m w = (Some (Inr y), w')"
  by (auto simp: loop_map_err_def split: prod.splits option.splits sum.splits)

lemma once_InrD: "once m w = (Some (Inr y), w') \<Longrightarrow> m w = (Inr y, w')"
  by (auto simp: once_def split: prod.splits)

context timed_relation
begin

definition loop_keeps :: "('e, 'a) looping \<Rightarrow> bool" where
  "loop_keeps m \<longleftrightarrow> (\<forall>w. R (w_db w) (w_db (snd (m w))))"

lemma loop_keepsI: "(\<And>w r w'. m w = (r, w') \<Longrightarrow> R (w_db w) (w_db w')) \<Longrightarrow> loop_keeps m"
  unfolding loop_keeps_def by (metis prod.collapse)

lemma loop_keepsD: "loop_keeps m \<Longrightarrow> m w = (r, w') \<Longrightarrow> R (w_db w) (w_db w')"
  by (metis loop_keeps_def snd_conv)

lemma loop_keeps_return: "loop_keeps (loop_return x)"
  by (simp add: loop_keeps_def loop_return_def R_refl)

lemma loop_keeps_once: "keeps m \<Longrightarrow> loop_keeps (once m)"
  by (auto simp: once_def split: prod.splits intro!: loop_keepsI dest: keepsD)

lemma loop_keeps_map_err: "loop_keeps m \<Longrightarrow> loop_keeps (loop_map_err g m)"
  unfolding loop_keeps_def loop_map_err_def
  by (auto split: prod.splits option.splits sum.splits) (metis snd_conv)+

lemma loop_keeps_bind:
  assumes "loop_keeps m" and "\<And>x. loop_keeps (f x)"
  shows "loop_keeps (loop_bind m f)"
proof (rule loop_keepsI)
  fix w r w'
  assume b: "loop_bind m f w = (r, w')"
  obtain q w1 where q: "m w = (q, w1)" by (cases "m w")
  have 1: "R (w_db w) (w_db w1)" using assms(1) q by (rule loop_keepsD)
  have 2: "f x w1 = (r, w') \<Longrightarrow> R (w_db w1) (w_db w')" for x using assms(2) by (rule loop_keepsD)
  show "R (w_db w) (w_db w')"
    using b q 1 2 by (auto simp: loop_bind_def split: option.splits sum.splits intro: R_trans)
qed

lemmas loop_keeps_intros = loop_keeps_return loop_keeps_once loop_keeps_map_err loop_keeps_bind

end

lemma transact_with_world:
  "w_calls (snd (transact_with lost t w)) = w_calls w"
  "w_ledger (snd (transact_with lost t w)) = w_ledger w"
  "w_clock (snd (transact_with lost t w)) = w_clock w"
  by (auto simp: transact_with_def Let_def split: list.split bool.split sum.split prod.split)

section \<open>Claims\<close>

definition claims :: "catalog \<Rightarrow> uuid set" where
  "claims db = ib_message ` set (inbox db)"

text \<open>What a delivery did to anything but the fault script.\<close>

definition delivery_effect :: "world \<Rightarrow> world \<Rightarrow> bool" where
  "delivery_effect w w' \<longleftrightarrow> w_db w' \<noteq> w_db w \<or> w_calls w' \<noteq> w_calls w \<or> w_ledger w' \<noteq> w_ledger w"

definition command_id_of :: "command_library \<Rightarrow> string \<Rightarrow> uuid option" where
  "command_id_of cl text = (case validate_envelope cl text of Inl _ \<Rightarrow> None | Inr v \<Rightarrow> Some (ve_command_id v))"

lemma resolve_account_world:
  assumes "resolve_account ref w = (r, w')"
  shows "\<not> delivery_effect w w'"
proof -
  obtain q w1 where q: "query (\<lambda>db. find_by acct_owner ref (accounts db)) w = (q, w1)"
    by (cases "query (\<lambda>db. find_by acct_owner ref (accounts db)) w")
  have "w_db w1 = w_db w" using q by (cases q) (auto dest: query_InlD query_InrD)
  moreover have "w_calls w1 = w_calls w" "w_ledger w1 = w_ledger w"
    using q unfolding query_def transact_def
    by (auto dest: arg_cong [of _ _ snd] simp: transact_with_world(1,2) dest!: sym [of "transact_with _ _ _"])
  moreover have "w' = w1"
    using assms q unfolding resolve_account_def
    by (auto simp: io_bind_def io_map_err_def io_fail_def io_return_def split: sum.splits option.splits if_splits)
  ultimately show ?thesis by (simp add: delivery_effect_def)
qed

lemma claim_command_world:
  assumes "io_map_err CommandPersistence (transact (claim_command_tx c raw)) w = (r, w')"
  shows "r \<noteq> Inr True \<Longrightarrow> \<not> delivery_effect w w'" and "r = Inr True \<Longrightarrow> c \<notin> claims (w_db w)"
    and "r = Inr True \<Longrightarrow> w_db w' = (w_db w)\<lparr>inbox := inbox (w_db w) @
      [\<lparr>ib_message = c, ib_subject = sync_requested_type, ib_payload = raw, ib_consumed = None\<rparr>]\<rparr>"
proof -
  obtain q where q: "transact (claim_command_tx c raw) w = (q, w')" "r = Inr True \<longleftrightarrow> q = Inr True"
    using assms by (auto simp: io_map_err_def split: prod.splits sum.splits)
  have "w_calls w' = w_calls w" "w_ledger w' = w_ledger w"
    using q(1) transact_with_world(1,2) [of "\<lambda>e. e" "claim_command_tx c raw" w]
    unfolding transact_def by simp_all
  moreover have "w_db w' = w_db w" if "q \<noteq> Inr True"
    using q(1) that
    by (cases q) (auto simp: claim_command_tx_def dest!: transact_InlD transact_InrD split: if_splits)
  ultimately show "r \<noteq> Inr True \<Longrightarrow> \<not> delivery_effect w w'"
    using q(2) by (simp add: delivery_effect_def)
  show "r = Inr True \<Longrightarrow> c \<notin> claims (w_db w)"
    and "r = Inr True \<Longrightarrow> w_db w' = (w_db w)\<lparr>inbox := inbox (w_db w) @
      [\<lparr>ib_message = c, ib_subject = sync_requested_type, ib_payload = raw, ib_consumed = None\<rparr>]\<rparr>"
    using q by (auto simp: claim_command_tx_def claims_def dest!: transact_InrD split: if_splits)
qed

section \<open>The work of a claimed command\<close>

definition claims_kept :: "catalog \<Rightarrow> catalog \<Rightarrow> bool" where
  "claims_kept db db' \<longleftrightarrow> claims db' = claims db \<and> accounts db' = accounts db"

interpretation claim_frame: durable_relation claims_kept
  by unfold_locales (auto simp: claims_kept_def claims_def)

lemma same_desk_claims: "same_desk db db' \<Longrightarrow> claims_kept db db'"
  by (simp add: claims_kept_def claims_def desk_simps)

lemma commanded_full_desk: "desk_frame.loop_keeps (commanded_full sr acct rounds)"
  unfolding commanded_full_def
  by (intro desk_frame.loop_keeps_map_err desk_frame.loop_keepsI) (rule full_snapshot_desk)

lemma dispatch_mode_desk: "desk_frame.loop_keeps (dispatch_mode sr acct rounds m)"
  unfolding dispatch_mode_def
  by (cases m)
    (auto split: incremental_scan_outcome.split intro!: desk_frame.loop_keeps_intros commanded_full_desk
      desk_frame.loop_keepsI [where m = "run_incremental_scan _ _ _ _ _ _"] incremental_scan_desk)

text \<open>The claimed work: everything after the claim.\<close>

lemma mark_consumed_claims: "claim_frame.keeps (transact (mark_consumed_tx c))"
proof (rule claim_frame.keeps_transact)
  fix db x db'
  assume "mark_consumed_tx c db = Inr (x, db')"
  then have "accounts db' = accounts db" and "map ib_message (inbox db') = map ib_message (inbox db)"
    by (auto simp: mark_consumed_tx_def map_update_where_key)
  then show "claims_kept db db'" unfolding claims_kept_def claims_def by (metis list.set_map)
qed

lemma star_list_snapshot_claims: "claim_frame.loop_keeps (run_star_list_snapshot api tok acct rounds)"
  by (rule claim_frame.loop_keepsI)
    (auto simp: lists_only_def intro: same_desk_claims dest!: star_list_snapshot_only)

lemma dispatch_mode_claims: "claim_frame.loop_keeps (dispatch_mode sr acct rounds m)"
  by (rule claim_frame.loop_keepsI)
    (auto intro: same_desk_claims dest: desk_frame.loop_keepsD [OF dispatch_mode_desk])

lemma work_off_claims: "claim_frame.loop_keeps (work_off sr rounds v acct)"
  unfolding work_off_def
  by (auto split: prod.split intro!: claim_frame.loop_keeps_intros claim_frame.keeps_map_err
      dispatch_mode_claims star_list_snapshot_claims mark_consumed_claims)

lemma handle_cases:
  assumes "handle_sync_command cl sr rounds text w = (r, w')"
  obtains (idle) "\<not> delivery_effect w w'"
  | (work) v where "validate_envelope cl text = Inr v" and "ve_command_id v \<notin> claims (w_db w)"
      and "claims (w_db w') = insert (ve_command_id v) (claims (w_db w))"
proof (cases "validate_envelope cl text")
  case (Inl e)
  with assms show ?thesis by (auto simp: handle_sync_command_def delivery_effect_def intro: idle)
next
  case (Inr v)
  let ?c = "ve_command_id v"
  let ?claim = "io_map_err CommandPersistence (transact (claim_command_tx ?c (ve_raw v)))"
  obtain q w1 where q: "resolve_account (ve_owner_ref v) w = (q, w1)" by fastforce
  note same1 = resolve_account_world [OF q]
  show ?thesis
  proof (cases q)
    case (Inl e)
    with assms q Inr same1 show ?thesis
      by (intro idle) (auto simp: handle_sync_command_def once_def loop_bind_def)
  next
    case acct: (Inr acct)
    obtain p w2 where p: "?claim w1 = (p, w2)" by fastforce
    note claim = claim_command_world [OF p]
    show ?thesis
    proof (cases "p = Inr True")
      case False
      with assms q Inr acct p have "w' = w2"
        by (cases p) (auto simp: handle_sync_command_def once_def loop_bind_def loop_return_def)
      with claim(1) [OF False] same1 show ?thesis by (intro idle) (simp add: delivery_effect_def)
    next
      case True
      have "work_off sr rounds v acct w2 = (r, w')"
        using assms q Inr acct p True by (simp add: handle_sync_command_def once_def loop_bind_def)
      then have "claims_kept (w_db w2) (w_db w')" by (rule claim_frame.loop_keepsD [OF work_off_claims])
      moreover have "claims (w_db w2) = insert ?c (claims (w_db w))"
        using claim(3) [OF True] same1 by (simp add: claims_def delivery_effect_def)
      ultimately show ?thesis
        using Inr claim(2) [OF True] same1 by (intro work) (auto simp: claims_kept_def delivery_effect_def)
    qed
  qed
qed

section \<open>Deliveries\<close>

text \<open>
  A history of deliveries: before each one the world moves on by some function, standing for whatever
  other components and the clock do in the meantime. The trace holds the envelope, the world it met,
  the result and the world it left.
\<close>

fun deliveries ::
    "command_library \<Rightarrow> scan_runtime \<Rightarrow> nat \<Rightarrow> (string \<times> (world \<Rightarrow> world)) list \<Rightarrow> world \<Rightarrow>
     (string \<times> world \<times> (sync_command_error, consumed_sync_command) result option \<times> world) list" where
  "deliveries cl sr rounds [] w = []"
| "deliveries cl sr rounds ((text, env) # ds) w =
     (case handle_sync_command cl sr rounds text (env w) of
        (r, w') \<Rightarrow> (text, env w, r, w') # deliveries cl sr rounds ds w')"

definition works_on where
  "works_on cl c = (\<lambda>(text, w, r, w'). command_id_of cl text = Some c \<and> delivery_effect w w')"

lemma claims_grow:
  "handle_sync_command cl sr rounds text w = (r, w') \<Longrightarrow> claims (w_db w) \<subseteq> claims (w_db w')"
  by (erule handle_cases) (auto simp: delivery_effect_def)

lemma claimed_never_works:
  assumes "c \<in> claims (w_db w)" and "\<forall>(text, env)\<in>set ds. \<forall>w. claims (w_db w) \<subseteq> claims (w_db (env w))"
  shows "filter (works_on cl c) (deliveries cl sr rounds ds w) = []"
  using assms
proof (induction ds arbitrary: w)
  case (Cons d ds)
  obtain msg env where d: "d = (msg, env)" by (cases d)
  obtain r w' where h: "handle_sync_command cl sr rounds msg (env w) = (r, w')" by fastforce
  have c: "c \<in> claims (w_db (env w))" using Cons.prems d by auto
  then have "\<not> works_on cl c (msg, env w, r, w')"
    using h by (auto simp: works_on_def command_id_of_def elim!: handle_cases)
  moreover have "c \<in> claims (w_db w')" using c claims_grow [OF h] by auto
  ultimately show ?case using Cons.IH [of w'] Cons.prems(2) d h by simp
qed simp

text \<open>
  C4. A command works at most once: however often its envelope is delivered, whatever else happens in
  between (as long as the inbox keeps its claims) and however the deliveries end, at most one of them
  changes the database, contacts the provider or spends budget.
\<close>

theorem command_works_at_most_once:
  assumes "\<forall>(text, env)\<in>set ds. \<forall>w. claims (w_db w) \<subseteq> claims (w_db (env w))"
  shows "length (filter
    (\<lambda>(text, w, r, w'). command_id_of cl text = Some c \<and>
       (w_db w' \<noteq> w_db w \<or> w_calls w' \<noteq> w_calls w \<or> w_ledger w' \<noteq> w_ledger w))
    (deliveries cl sr rounds ds w)) \<le> 1"
proof -
  have "length (filter (works_on cl c) (deliveries cl sr rounds ds w)) \<le> 1"
    using assms
  proof (induction ds arbitrary: w)
    case (Cons d ds)
    obtain msg env where d: "d = (msg, env)" by (cases d)
    obtain r w' where h: "handle_sync_command cl sr rounds msg (env w) = (r, w')" by fastforce
    show ?case
    proof (cases "works_on cl c (msg, env w, r, w')")
      case True
      have "c \<in> claims (w_db w')"
        using h by (rule handle_cases) (use True in \<open>auto simp: works_on_def command_id_of_def\<close>)
      with claimed_never_works [of c w' ds] Cons.prems True h d show ?thesis by simp
    next
      case False
      with Cons h d show ?thesis by simp
    qed
  qed simp
  then show ?thesis unfolding works_on_def delivery_effect_def .
qed

section \<open>A commanded full synchronization\<close>

lemma starred_exactly_lists_only:
  assumes "starred_exactly items acct db" and "lists_only db db'"
  shows "starred_exactly items acct db'"
proof -
  have star: "is_starred db' = is_starred db"
    using assms(2) by (intro ext) (simp add: lists_only_def same_stars_def is_starred_def star_of_def)
  have repo: "repo_by_provider db' p = repo_by_provider db p" if "repo_by_provider db p \<noteq> None" for p
    using that assms(2) by (auto simp: lists_only_def repos_grow_def repo_by_provider_def find_by_append)
  show ?thesis using assms(1) star repo unfolding starred_exactly_def by metis
qed

lemma starred_exactly_inbox:
  "starred_exactly items acct (db\<lparr>inbox := t\<rparr>) = starred_exactly items acct db"
  by (simp add: starred_exactly_def is_starred_def star_of_def repo_by_provider_def)

lemma ready_inbox: "ready pages acct (db\<lparr>inbox := t\<rparr>) = ready pages acct db"
  by (simp add: ready_def running_run_def identities_fit_def identity_ok_def names_fit_def
      repos_ok_def aliases_ok_def active_alias_holder_in_tx_def repo_by_provider_def)

lemma handled_parts:
  assumes "handle_sync_command cl sr rounds text w = (Some (Inr (CommandHandled h)), w')"
  obtains w1 w2 and w3 :: world and t t' where "w_db w1 = (w_db w)\<lparr>inbox := t\<rparr>"
    and "dispatch_mode sr (hs_account_id h) rounds (hs_requested_mode h) w1 =
      (Some (Inr (hs_incremental h, hs_full h)), w2)"
    and "lists_only (w_db w2) (w_db w3)"
    and "w_db w' = (w_db w3)\<lparr>inbox := t'\<rparr>"
proof -
  obtain v where v: "validate_envelope cl text = Inr v"
    using assms by (auto simp: handle_sync_command_def split: sum.splits)
  then obtain acct w0 w1 where 0: "resolve_account (ve_owner_ref v) w = (Inr acct, w0)"
    and 1: "io_map_err CommandPersistence (transact (claim_command_tx (ve_command_id v) (ve_raw v))) w0 = (Inr True, w1)"
    and work: "work_off sr rounds v acct w1 = (Some (Inr (CommandHandled h)), w')"
    using assms
    by (auto simp: handle_sync_command_def loop_return_def split: if_splits elim!: loop_bind_InrE
        dest!: once_InrD)
  from work obtain inc full w2 sl w3 where
    2: "dispatch_mode sr acct rounds (ve_requested_mode v) w1 = (Some (Inr (inc, full)), w2)"
    and 3: "run_star_list_snapshot (sr_gateway sr) (sr_token sr) acct rounds w2 = (Some (Inr sl), w3)"
    and 4: "transact (mark_consumed_tx (ve_command_id v)) w3 = (Inr (), w')"
    and h: "h = \<lparr>hs_command_id = ve_command_id v, hs_account_id = acct, hs_requested_mode = ve_requested_mode v,
      hs_incremental = inc, hs_full = full, hs_star_lists = Some sl\<rparr>"
    by (auto simp: work_off_def loop_return_def elim!: loop_bind_InrE
        dest!: once_InrD loop_map_err_InrD io_map_err_InrD)
  have "w_db w0 = w_db w" using resolve_account_world [OF 0] by (simp add: delivery_effect_def)
  with claim_command_world(3) [OF 1] obtain t where t: "w_db w1 = (w_db w)\<lparr>inbox := t\<rparr>" by simp
  obtain t' where t': "w_db w' = (w_db w3)\<lparr>inbox := t'\<rparr>"
    using transact_InrD [OF 4] by (auto simp: mark_consumed_tx_def dest: sym)
  from that [OF t _ star_list_snapshot_only [OF 3] t'] 2 h show ?thesis by simp
qed

text \<open>
  A commanded full synchronization converges: when a command that asks for a full scan is handled
  and its snapshot completed, the account's stars are exactly the provider's listing at the end of
  the whole command - the star-list snapshot that follows, whatever became of it, does not disturb
  them.
\<close>

theorem commanded_full_sync_exact:
  assumes "ready pages (hs_account_id h) (w_db w)" and "listing_ok (sr_cast sr) (concat pages)"
    and "[] \<notin> set pages" and "int (length pages) < i32_max" and "serves (sr_gateway sr) pages"
    and "handle_sync_command cl sr rounds text w = (Some (Inr (CommandHandled h)), w')"
    and "hs_requested_mode h = SyncFull" and "hs_full h = Some (FullCompleted run p i a u)"
  shows "starred_exactly (concat pages) (hs_account_id h) (w_db w')"
proof -
  let ?acct = "hs_account_id h"
  from assms(6) obtain w1 w2 and w3 :: world and t t' where 1: "w_db w1 = (w_db w)\<lparr>inbox := t\<rparr>"
    and 2: "dispatch_mode sr ?acct rounds (hs_requested_mode h) w1 = (Some (Inr (hs_incremental h, hs_full h)), w2)"
    and 3: "lists_only (w_db w2) (w_db w3)" and 4: "w_db w' = (w_db w3)\<lparr>inbox := t'\<rparr>"
    by (rule handled_parts)
  have full: "run_full_snapshot (sr_cast sr) (sr_gateway sr) (sr_token sr) ?acct rounds w1 =
      (Some (Inr (FullCompleted run p i a u)), w2)"
    using 2 assms(7,8)
    by (auto simp: dispatch_mode_def commanded_full_def loop_return_def elim!: loop_bind_InrE
        dest!: loop_map_err_InrD)
  have "underway (sr_cast sr) pages ?acct 0 (w_db w1)"
    using assms(1) 1 by (simp add: underway_def ready_inbox)
  from session_outcome [OF full assms(5) this assms(2,3)] assms(4)
  have "starred_exactly (concat pages) ?acct (w_db w2)" by (simp add: full_completed_def)
  with starred_exactly_lists_only [OF _ 3] 4 show ?thesis by (auto simp: starred_exactly_inbox)
qed

section \<open>The owner reference grammar\<close>

text \<open>
  The hand-written check of an owner reference accepts exactly the references of the accounts
  table's regular expression that have no colon: of the two forms the table admits, only the plain
  one can be commanded, the \<open>user:<uuid>\<close> one never.
\<close>

theorem owner_ref_grammar:
  "ensure_owner_ref v = Inr () \<longleftrightarrow> v \<in> language account_owner_pattern \<and> CHR '':'' \<notin> set v"
proof -
  have "ensure_owner_ref v = Inr () \<longleftrightarrow> v \<in> language plain_owner_pattern"
    by (cases v) (auto simp: ensure_owner_ref_def plain_owner_iff Let_def is_ascii_lowercase_def
        is_ascii_digit_def set_lowercase set_digits list_all_iff subset_iff)
  then show ?thesis
    using user_owner_colon plain_owner_no_colon by (auto simp: account_owner_pattern_def)
qed

section \<open>A delivered command\<close>

definition sample_envelope :: json where
  "sample_envelope = JObj
     [(''command_type'', JStr ''github.sync.requested.v1''), (''command_id'', JStr ''c1''),
      (''tenant_id'', JStr ''user:u1''), (''requested_at'', JStr []), (''operation_id'', JStr []),
      (''correlation_id'', JStr []), (''idempotency_key'', JStr []),
      (''payload'', JObj [(''account'', JStr ''owner''), (''mode'', JStr ''full'')])]"

definition sample_library :: command_library where
  "sample_library =
     \<lparr>cl_from_str = (\<lambda>s. if s = ''sync'' then Some sample_envelope else None),
      cl_parse_uuid = (\<lambda>s. if s = ''c1'' then Some 3 else if s = ''u1'' then Some 4 else None)\<rparr>"

definition one_page :: "starred_item list list" where
  "one_page = [[sample_item 42 ''o/a'']]"

definition sample_runtime :: scan_runtime where
  "sample_runtime = \<lparr>sr_cast = sample_cast, sr_time = unary_time,
     sr_gateway = paged_api one_page, sr_token = ''t''\<rparr>"

definition two_deliveries where
  "two_deliveries = deliveries sample_library sample_runtime 5
     [(''sync'', \<lambda>w. w\<lparr>w_faults := [False, False, True]\<rparr>), (''sync'', \<lambda>w. w\<lparr>w_faults := []\<rparr>)]
     (idle_world sample_db)"

theorem command_works_at_most_once_witness:
  "map (\<lambda>(text, w, r, w'). r = Some (Inr CommandDuplicate)) two_deliveries = [False, True] \<and>
   length (filter
    (\<lambda>(text, w, r, w'). command_id_of sample_library text = Some 3 \<and>
       (w_db w' \<noteq> w_db w \<or> w_calls w' \<noteq> w_calls w \<or> w_ledger w' \<noteq> w_ledger w)) two_deliveries) \<le> 1"
proof
  show "map (\<lambda>(text, w, r, w'). r = Some (Inr CommandDuplicate)) two_deliveries = [False, True]"
    by code_simp
  show "length (filter
    (\<lambda>(text, w, r, w'). command_id_of sample_library text = Some 3 \<and>
       (w_db w' \<noteq> w_db w \<or> w_calls w' \<noteq> w_calls w \<or> w_ledger w' \<noteq> w_ledger w)) two_deliveries) \<le> 1"
    unfolding two_deliveries_def by (rule command_works_at_most_once) simp
qed

text \<open>The command that asks for a full scan, handled to completion.\<close>

definition handled_sample where
  "handled_sample = handle_sync_command sample_library sample_runtime 2 ''sync'' (idle_world sample_db)"

lemma one_fits:
  "ready one_page 7 sample_db" "listing_ok sample_cast (concat one_page)" "[] \<notin> set one_page"
  "serves (paged_api one_page) one_page"
proof -
  show "ready one_page 7 sample_db"
    by (simp add: ready_def sample_db_def empty_catalog_def running_run_def identities_fit_def names_fit_def
        identity_ok_def repos_ok_def aliases_ok_def live_unique_def active_alias_holder_in_tx_def)
  show "listing_ok sample_cast (concat one_page)"
    by (simp add: listing_ok_def one_page_def sample_item_def item_provider_id_def item_time_def
        sample_cast_def consistent_names_def item_name_def body_owner_name_def owner_name_text_def i32_max_def)
  show "[] \<notin> set one_page" by (simp add: one_page_def)
  show "serves (paged_api one_page) one_page" by (auto simp: serves_def paged_api_def)
qed

definition sample_validated :: validated_envelope where
  "sample_validated = \<lparr>ve_raw = sample_envelope, ve_command_id = 3, ve_owner_ref = ''owner'',
     ve_requested_mode = SyncFull\<rparr>"

lemma sample_validates: "validate_envelope sample_library ''sync'' = Inr sample_validated"
  by code_simp

definition claimed_world :: "inbox_row list \<Rightarrow> world" where
  "claimed_world claim = idle_world (sample_db\<lparr>inbox := claim\<rparr>)"

lemma handled_sample_work:
  "handled_sample = work_off sample_runtime 2 sample_validated 7 (claimed_world
     [\<lparr>ib_message = 3, ib_subject = sync_requested_type, ib_payload = sample_envelope, ib_consumed = None\<rparr>])"
  by (simp add: handled_sample_def handle_sync_command_def sample_validates loop_bind_def [of "once _"]
      once_def resolve_account_def io_bind_def io_map_err_def query_no_fault transact_no_fault
      claim_command_tx_def sample_db_def empty_catalog_def sample_validated_def io_return_def
      claimed_world_def idle_world_def)

lemma work_off_sample:
  "case fst (work_off sample_runtime 2
       \<lparr>ve_raw = raw, ve_command_id = 3, ve_owner_ref = owner, ve_requested_mode = SyncFull\<rparr> 7 (claimed_world claim)) of
     Some (Inr (CommandHandled h)) \<Rightarrow> hs_account_id h = 7 \<and> hs_requested_mode h = SyncFull \<and>
       (case hs_full h of Some (FullCompleted _ _ _ _ _) \<Rightarrow> True | _ \<Rightarrow> False)
   | _ \<Rightarrow> False"
  by code_simp

theorem commanded_full_sync_exact_witness:
  "\<exists>h. fst handled_sample = Some (Inr (CommandHandled h)) \<and>
     starred_exactly (concat one_page) (hs_account_id h) (w_db (snd handled_sample))"
proof -
  have "case fst handled_sample of
      Some (Inr (CommandHandled h)) \<Rightarrow> hs_account_id h = 7 \<and> hs_requested_mode h = SyncFull \<and>
        (case hs_full h of Some (FullCompleted _ _ _ _ _) \<Rightarrow> True | _ \<Rightarrow> False)
    | _ \<Rightarrow> False"
    unfolding handled_sample_work sample_validated_def by (rule work_off_sample)
  then obtain h where h: "fst handled_sample = Some (Inr (CommandHandled h))" "hs_account_id h = 7"
      "hs_requested_mode h = SyncFull" "case hs_full h of Some (FullCompleted _ _ _ _ _) \<Rightarrow> True | _ \<Rightarrow> False"
    by (auto split: option.splits (2) sum.splits (2) consumed_sync_command.splits (2))
  obtain run p i a u where full: "hs_full h = Some (FullCompleted run p i a u)"
    using h(4) by (cases "the (hs_full h)") (auto split: option.splits)
  have run: "handle_sync_command sample_library sample_runtime 2 ''sync'' (idle_world sample_db) =
      (Some (Inr (CommandHandled h)), snd handled_sample)"
    using h(1) by (simp add: handled_sample_def prod_eq_iff)
  have "ready one_page (hs_account_id h) (w_db (idle_world sample_db))"
    and "listing_ok (sr_cast sample_runtime) (concat one_page)"
    and "serves (sr_gateway sample_runtime) one_page" and "int (length one_page) < i32_max"
    using one_fits h(2) by (simp_all add: sample_runtime_def one_page_def i32_max_def)
  from commanded_full_sync_exact [OF this(1,2) one_fits(3) this(4,3) run h(3) full] h(1) show ?thesis by blast
qed

text \<open>
  A command whose scan is lost after the claim committed is not retried: here the connection is
  lost on the first statement of the scan, the delivery ends in an error, and the redelivery of the
  same envelope over a healthy connection is answered as a duplicate. No star of the provider's
  listing is ever recorded and the command is never marked as consumed.
\<close>

theorem lost_command_is_not_retried:
  "case handle_sync_command sample_library sample_runtime 5 ''sync''
      ((idle_world sample_db)\<lparr>w_faults := [False, False, True]\<rparr>) of
     (r1, w1) \<Rightarrow>
       (case handle_sync_command sample_library sample_runtime 5 ''sync'' (w1\<lparr>w_faults := []\<rparr>) of
          (r2, w2) \<Rightarrow>
            r1 = Some (Inl (CommandSnapshot (SnapPersistence ConnectionLost))) \<and>
            r2 = Some (Inr CommandDuplicate) \<and>
            star_state (w_db w2) = [] \<and> map ib_consumed (inbox (w_db w2)) = [None])"
  by code_simp

end
