(* ===== verification/Backup_Policy.thy ===== *)
theory Backup_Policy
  imports Snapshot_Authority
begin

text \<open>
  Desired backup policy (\<open>crates/catalog/src/backup_policy.rs\<close>, with the policy command of
  \<open>envelopes.rs\<close>): the debounced publication of the complete desired mirror policy as an immutable
  version plus one outbox command, and the projection of Vault's acknowledgments. The contract
  crates and \<open>serde_json\<close> are not code of the repository; what is used of them is the record
  \<open>policy_contracts\<close> of functions.
\<close>

section \<open>Data\<close>

definition policy_debounce :: timestamp where "policy_debounce = 60000000"

record backup_policy_input =
  pi_repository_ref :: string
  pi_included :: bool
  pi_cadence :: string
  pi_priority :: string
  pi_size_hint_bytes :: "int option"
  pi_exclusions :: "(string \<times> string) list"

definition input_mirror ::
    "string \<Rightarrow> string \<Rightarrow> string \<Rightarrow> int option \<Rightarrow> (string \<times> string) list \<Rightarrow> backup_policy_input" where
  "input_mirror repository_ref cadence priority size_hint exclusions =
     \<lparr>pi_repository_ref = repository_ref, pi_included = True, pi_cadence = cadence,
      pi_priority = priority, pi_size_hint_bytes = size_hint, pi_exclusions = exclusions\<rparr>"

definition input_excluded :: "string \<Rightarrow> backup_policy_input" where
  "input_excluded repository_ref =
     \<lparr>pi_repository_ref = repository_ref, pi_included = False, pi_cadence = ''daily'',
      pi_priority = ''standard'', pi_size_hint_bytes = None, pi_exclusions = []\<rparr>"

datatype backup_policy_error =
    PolicyInvalid string
  | PolicyPersistence sql_error
  | PolicySerialization

datatype publication_outcome = Pending | Unchanged | Published (published_version: int)

datatype feedback_outcome = Recorded | Duplicate

datatype mirror_cadence = Eager | Daily | Weekly
datatype priority_hint = Critical | Standard | Bulk
datatype exclusion_scope = RefsMatching | PathsMatching

text \<open>An entity reference is known by its wire text, a parsed expression by its text.\<close>

record backup_exclusion =
  ex_scope :: exclusion_scope
  ex_expression :: string

record backup_entry =
  be_repository_ref :: string
  be_cadence :: mirror_cadence
  be_priority :: priority_hint
  be_size :: "int option"
  be_exclusions :: "backup_exclusion list"

record desired_policy =
  dp_version :: int
  dp_producer :: string
  dp_produced_at :: timestamp
  dp_repositories :: "backup_entry list"

datatype policy_outcome = AckAccepted | AckRejected | AckOther

record policy_acknowledged =
  ak_version :: int
  ak_outcome :: policy_outcome
  ak_last_applied :: int
  ak_reasons :: json

record policy_feedback =
  pf_version :: int
  pf_outcome :: policy_outcome
  pf_last_applied :: int
  pf_reasons :: json

text \<open>
  The functions of the contract crates: parsing of references, producer names and exclusion
  expressions (to their wire text), the validation and serialization of a policy, the assembly and
  serialization of the command envelope, the text of a list of inputs, of a UUID and of a number,
  the serialization of an acknowledgment, and the decoding of a stored list of exclusions.
\<close>

record policy_contracts =
  pc_entity_ref :: "string \<Rightarrow> string option"
  pc_producer :: "string \<Rightarrow> string option"
  pc_expression :: "string \<Rightarrow> string option"
  pc_valid :: "desired_policy \<Rightarrow> bool"
  pc_policy_json :: "desired_policy \<Rightarrow> json option"
  pc_set_payload :: "desired_policy \<Rightarrow> json option"
  pc_envelope_json :: "uuid \<Rightarrow> timestamp \<Rightarrow> string \<Rightarrow> string \<Rightarrow> json \<Rightarrow> json option"
  pc_inputs_text :: "backup_policy_input list \<Rightarrow> string option"
  pc_uuid_text :: "uuid \<Rightarrow> string"
  pc_number_text :: "int \<Rightarrow> string"
  pc_ack_json :: "policy_acknowledged \<Rightarrow> json option"
  pc_exclusions :: "json \<Rightarrow> (string \<times> string) list option"

section \<open>Deriving the policy\<close>

fun collect :: "('a \<Rightarrow> ('e, 'b) result) \<Rightarrow> 'a list \<Rightarrow> ('e, 'b list) result" where
  "collect f [] = Inr []"
| "collect f (x # xs) = and_then (f x) (\<lambda>y. and_then (collect f xs) (\<lambda>ys. Inr (y # ys)))"

definition to_exclusion ::
    "policy_contracts \<Rightarrow> string \<times> string \<Rightarrow> (backup_policy_error, backup_exclusion) result" where
  "to_exclusion pc = (\<lambda>(scope, text).
     and_then
       (if scope = ''refs_matching'' then Inr RefsMatching
        else if scope = ''paths_matching'' then Inr PathsMatching
        else Inl (PolicyInvalid ''exclusion_scope'')) (\<lambda>s.
     and_then (ok_or (PolicyInvalid ''exclusion'') (pc_expression pc text)) (\<lambda>e.
       Inr \<lparr>ex_scope = s, ex_expression = e\<rparr>)))"

definition parse_cadence :: "string \<Rightarrow> mirror_cadence option" where
  "parse_cadence s =
     (if s = ''eager'' then Some Eager else if s = ''daily'' then Some Daily
      else if s = ''weekly'' then Some Weekly else None)"

definition parse_priority :: "string \<Rightarrow> priority_hint option" where
  "parse_priority s =
     (if s = ''critical'' then Some Critical else if s = ''standard'' then Some Standard
      else if s = ''bulk'' then Some Bulk else None)"

definition to_entry ::
    "policy_contracts \<Rightarrow> backup_policy_input \<Rightarrow> (backup_policy_error, backup_entry) result" where
  "to_entry pc i =
     and_then (ok_or (PolicyInvalid ''repository_ref'') (pc_entity_ref pc (pi_repository_ref i))) (\<lambda>r.
     and_then (ok_or (PolicyInvalid ''mirror_cadence'') (parse_cadence (pi_cadence i))) (\<lambda>c.
     and_then (ok_or (PolicyInvalid ''priority_hint'') (parse_priority (pi_priority i))) (\<lambda>p.
     and_then (collect (to_exclusion pc) (pi_exclusions i)) (\<lambda>xs.
       Inr \<lparr>be_repository_ref = r, be_cadence = c, be_priority = p,
            be_size = pi_size_hint_bytes i, be_exclusions = xs\<rparr>))))"

definition derive_backup_policy ::
    "policy_contracts \<Rightarrow> timestamp \<Rightarrow> int \<Rightarrow> backup_policy_input list \<Rightarrow>
     (backup_policy_error, desired_policy) result" where
  "derive_backup_policy pc produced_at version inputs =
     and_then (collect (to_entry pc) (filter pi_included inputs)) (\<lambda>entries.
     and_then (ok_or (PolicyInvalid ''producing_service'') (pc_producer pc ''ratatoskr-github''))
       (\<lambda>producer.
       let policy = \<lparr>dp_version = version, dp_producer = producer, dp_produced_at = produced_at,
                     dp_repositories = sort_key be_repository_ref entries\<rparr>
       in if pc_valid pc policy then Inr policy else Inl (PolicyInvalid ''policy'')))"

section \<open>The publication cursor\<close>

definition fresh_cursor :: cursor_row where
  "fresh_cursor =
     \<lparr>cu_dirty = 0, cu_published = 0, cu_not_before = None, cu_version = 0, cu_fingerprint = None\<rparr>"

definition mark_dirty_at :: "timestamp \<Rightarrow> catalog \<Rightarrow> (sql_error, catalog) result" where
  "mark_dirty_at now db =
     (case policy_cursor db of
        None \<Rightarrow> Inr (db\<lparr>policy_cursor := Some (fresh_cursor\<lparr>cu_dirty := 1,
                        cu_not_before := Some (now + policy_debounce)\<rparr>)\<rparr>)
      | Some c \<Rightarrow>
          if cu_dirty c + 1 \<le> i64_max
          then Inr (db\<lparr>policy_cursor := Some (c\<lparr>cu_dirty := cu_dirty c + 1,
                        cu_not_before := Some (now + policy_debounce)\<rparr>)\<rparr>)
          else Inl NumericOutOfRange)"

definition mark_backup_policy_dirty :: "timestamp \<Rightarrow> (backup_policy_error, unit) io" where
  "mark_backup_policy_dirty now =
     io_map_err PolicyPersistence (transact (\<lambda>db. and_then (mark_dirty_at now db) (\<lambda>db'. Inr ((), db'))))"

definition mark_backup_policy_dirty_in_tx :: "catalog \<Rightarrow> (sql_error, catalog) result" where
  "mark_backup_policy_dirty_in_tx db = mark_dirty_at (db_clock db) db"

definition settle :: "int \<Rightarrow> int \<Rightarrow> string \<Rightarrow> catalog \<Rightarrow> catalog" where
  "settle generation version fingerprint db =
     db\<lparr>policy_cursor := map_option (\<lambda>c. c\<lparr>cu_published := generation, cu_version := version,
       cu_fingerprint := Some fingerprint, cu_not_before := None\<rparr>) (policy_cursor db)\<rparr>"

section \<open>Publication\<close>

definition mirrored_level :: "policy_level \<Rightarrow> bool" where
  "mirrored_level l \<longleftrightarrow> l \<in> {LevelGitMirror, LevelGitMirrorWithLfs, LevelCompleteArchive}"

definition mirrored :: "catalog \<Rightarrow> repo_row \<Rightarrow> bool" where
  "mirrored db r \<longleftrightarrow>
     repo_mode r \<in> {Some Auto, Some Tracked} \<and>
     mirrored_level (case find_by bp_repo (repo_id r) (backup_policies db) of
       None \<Rightarrow> LevelGitMirror | Some p \<Rightarrow> bp_level p)"

definition load_input ::
    "policy_contracts \<Rightarrow> catalog \<Rightarrow> repo_row \<Rightarrow> (backup_policy_error, backup_policy_input) result" where
  "load_input pc db r =
     (let policy = find_by bp_repo (repo_id r) (backup_policies db);
          cadence = (case policy of None \<Rightarrow> ''daily'' | Some p \<Rightarrow> bp_cadence p);
          priority = (case policy of None \<Rightarrow> ''standard'' | Some p \<Rightarrow> bp_priority p);
          stored_size = (case policy of None \<Rightarrow> None | Some p \<Rightarrow> bp_size p);
          stored = (case policy of None \<Rightarrow> JArr [] | Some p \<Rightarrow> bp_exclusions p)
      in
      and_then (ok_or (PolicyInvalid ''exclusions'') (pc_exclusions pc stored)) (\<lambda>exclusions.
      and_then
        (case stored_size of
           None \<Rightarrow> Inr None
         | Some n \<Rightarrow> if 0 \<le> n then Inr (Some n) else Inl (PolicyInvalid ''size_hint_bytes''))
        (\<lambda>size_hint.
        Inr (input_mirror (''repository:'' @ pc_uuid_text pc (repo_id r)) cadence priority size_hint
          exclusions))))"

definition load_inputs ::
    "policy_contracts \<Rightarrow> catalog \<Rightarrow> (backup_policy_error, backup_policy_input list) result" where
  "load_inputs pc db =
     collect (load_input pc db) (sort_key repo_id (filter (mirrored db) (repositories db)))"

definition backup_policy_apply_subject :: string where
  "backup_policy_apply_subject = ''cmd.vault.backup_policy.apply_requested.v1''"

definition backup_policy_apply_envelope ::
    "policy_contracts \<Rightarrow> uuid \<Rightarrow> timestamp \<Rightarrow> desired_policy \<Rightarrow> (backup_policy_error, json) result" where
  "backup_policy_apply_envelope pc command_id issued_at policy =
     and_then (ok_or (PolicyInvalid ''envelope'')
         (pc_entity_ref pc (''backup_policy:'' @ pc_number_text pc (dp_version policy)))) (\<lambda>version_ref.
     and_then (ok_or (PolicyInvalid ''envelope'') (pc_producer pc ''ratatoskr-github'')) (\<lambda>producer.
     and_then (ok_or (PolicyInvalid ''envelope'') (pc_set_payload pc policy)) (\<lambda>payload.
       ok_or PolicySerialization
         (pc_envelope_json pc command_id issued_at producer version_ref payload))))"

definition insert_publication ::
    "int \<Rightarrow> string \<Rightarrow> json \<Rightarrow> catalog \<Rightarrow> (backup_policy_error, catalog) result" where
  "insert_publication version fingerprint document db =
     (if i64_max < version then Inl (PolicyInvalid ''policy_version'')
      else if \<not> 0 < version then Inl (PolicyPersistence CheckViolation)
      else if version \<in> pu_version ` set (publications db) \<or>
              fingerprint \<in> pu_fingerprint ` set (publications db)
      then Inl (PolicyPersistence UniqueViolation)
      else Inr (db\<lparr>publications := publications db @
             [\<lparr>pu_version = version, pu_fingerprint = fingerprint, pu_document = document\<rparr>]\<rparr>))"

text \<open>The part of the publication after the unchanged test: a new version and its command.\<close>

definition publish_version ::
    "policy_contracts \<Rightarrow> timestamp \<Rightarrow> timestamp \<Rightarrow> cursor_row \<Rightarrow> backup_policy_input list \<Rightarrow> string \<Rightarrow> catalog \<Rightarrow>
     (backup_policy_error, publication_outcome \<times> catalog) result" where
  "publish_version pc produced_at issued_at c inputs fingerprint db =
     (if cu_version c < 0 then Inl (PolicyInvalid ''policy_version'') else
      let version = cu_version c + 1 in
      and_then (derive_backup_policy pc produced_at version inputs) (\<lambda>policy.
      and_then (ok_or PolicySerialization (pc_policy_json pc policy)) (\<lambda>document.
      and_then (insert_publication version fingerprint document db) (\<lambda>db1.
      let (command_id, db2) = fresh_uuid db1 in
      and_then (backup_policy_apply_envelope pc command_id issued_at policy) (\<lambda>envelope.
        Inr (Published version,
          settle (cu_dirty c) version fingerprint
            (db2\<lparr>outbox := outbox db2 @
               [outbox_entry command_id backup_policy_apply_subject envelope (db_clock db2)]\<rparr>)))))))"

definition publish_due_tx ::
    "policy_contracts \<Rightarrow> timestamp \<Rightarrow> timestamp \<Rightarrow> timestamp \<Rightarrow> catalog \<Rightarrow>
     (backup_policy_error, publication_outcome \<times> catalog) result" where
  "publish_due_tx pc produced_at issued_at now db0 =
     (let c = (case policy_cursor db0 of None \<Rightarrow> fresh_cursor | Some c \<Rightarrow> c);
          db = db0\<lparr>policy_cursor := Some c\<rparr>
      in
      if cu_dirty c = cu_published c \<or>
         (case cu_not_before c of None \<Rightarrow> False | Some deadline \<Rightarrow> now < deadline)
      then Inr (Pending, db)
      else
        and_then (load_inputs pc db) (\<lambda>inputs.
        and_then (ok_or PolicySerialization (pc_inputs_text pc inputs)) (\<lambda>fingerprint.
          if cu_fingerprint c = Some fingerprint
          then Inr (Unchanged, settle (cu_dirty c) (cu_version c) fingerprint db)
          else publish_version pc produced_at issued_at c inputs fingerprint db)))"

definition publish_due_backup_policy ::
    "policy_contracts \<Rightarrow> timestamp \<Rightarrow> timestamp \<Rightarrow> timestamp \<Rightarrow>
     (backup_policy_error, publication_outcome) io" where
  "publish_due_backup_policy pc produced_at issued_at now =
     transact_with PolicyPersistence (publish_due_tx pc produced_at issued_at now)"

section \<open>Acknowledgments\<close>

definition acknowledged_subject :: string where
  "acknowledged_subject = ''evt.vault.backup_policy.acknowledged.v1''"

definition record_acknowledgment_tx ::
    "uuid \<Rightarrow> policy_acknowledged \<Rightarrow> json \<Rightarrow> catalog \<Rightarrow>
     (backup_policy_error, feedback_outcome \<times> catalog) result" where
  "record_acknowledgment_tx message_id ack payload db =
     (if message_id \<in> ib_message ` set (inbox db) then Inr (Duplicate, db)
      else
        and_then
          (case ak_outcome ack of
             AckAccepted \<Rightarrow> Inr True
           | AckRejected \<Rightarrow> Inr False
           | AckOther \<Rightarrow> Inl (PolicyInvalid ''outcome'')) (\<lambda>accepted.
        if i64_max < ak_version ack then Inl (PolicyInvalid ''acknowledged_policy_version'')
        else if i64_max < ak_last_applied ack then Inl (PolicyInvalid ''last_applied_policy_version'')
        else
          let f = \<lparr>fb_message = message_id, fb_version = ak_version ack, fb_accepted = accepted,
                   fb_last_applied = ak_last_applied ack, fb_reasons = ak_reasons ack,
                   fb_received = db_clock db\<rparr>
          in if \<not> 0 < fb_version f \<or> \<not> 0 \<le> fb_last_applied f then Inl (PolicyPersistence CheckViolation)
             else if message_id \<in> fb_message ` set (feedback db)
             then Inl (PolicyPersistence UniqueViolation)
             else Inr (Recorded, db\<lparr>
               feedback := feedback db @ [f],
               inbox := inbox db @
                 [\<lparr>ib_message = message_id, ib_subject = acknowledged_subject, ib_payload = payload,
                   ib_consumed = Some (db_clock db)\<rparr>]\<rparr>)))"

definition record_backup_policy_acknowledgment ::
    "policy_contracts \<Rightarrow> uuid \<Rightarrow> policy_acknowledged \<Rightarrow> (backup_policy_error, feedback_outcome) io" where
  "record_backup_policy_acknowledgment pc message_id ack w =
     (case pc_ack_json pc ack of
        None \<Rightarrow> (Inl PolicySerialization, w)
      | Some payload \<Rightarrow>
          transact_with PolicyPersistence (record_acknowledgment_tx message_id ack payload) w)"

definition latest_backup_policy_feedback ::
    "catalog \<Rightarrow> (backup_policy_error, policy_feedback option) result" where
  "latest_backup_policy_feedback db =
     (case max_by (\<lambda>f. (fb_received f, fb_message f)) (feedback db) of
        None \<Rightarrow> Inr None
      | Some f \<Rightarrow>
          if fb_version f < 0 then Inl (PolicyInvalid ''acknowledged_policy_version'')
          else if fb_last_applied f < 0 then Inl (PolicyInvalid ''last_applied_policy_version'')
          else Inr (Some \<lparr>pf_version = fb_version f,
                 pf_outcome = (if fb_accepted f then AckAccepted else AckRejected),
                 pf_last_applied = fb_last_applied f, pf_reasons = fb_reasons f\<rparr>))"

section \<open>The invariant of publication\<close>

text \<open>
  Versions and fingerprints are unique, the cursor holds the newest version with its fingerprint,
  and it never claims to have published more than was dirtied.
\<close>

definition policy_ok :: "catalog \<Rightarrow> bool" where
  "policy_ok db \<longleftrightarrow>
     distinct (map pu_version (publications db)) \<and> distinct (map pu_fingerprint (publications db)) \<and>
     (case policy_cursor db of
        None \<Rightarrow> publications db = []
      | Some c \<Rightarrow>
          0 \<le> cu_version c \<and> cu_published c \<le> cu_dirty c \<and>
          (\<forall>p\<in>set (publications db). 0 < pu_version p \<and> pu_version p \<le> cu_version c) \<and>
          (cu_version c = 0 \<and> cu_fingerprint c = None \<or>
           (\<exists>p\<in>set (publications db). pu_version p = cu_version c \<and>
              cu_fingerprint c = Some (pu_fingerprint p))))"

definition cursor_of :: "catalog \<Rightarrow> cursor_row" where
  "cursor_of db = (case policy_cursor db of None \<Rightarrow> fresh_cursor | Some c \<Rightarrow> c)"

lemma policy_ok_cursor:
  assumes "policy_ok db"
  shows "0 \<le> cu_version (cursor_of db)" and "cu_published (cursor_of db) \<le> cu_dirty (cursor_of db)"
    and "p \<in> set (publications db) \<Longrightarrow> 0 < pu_version p \<and> pu_version p \<le> cu_version (cursor_of db)"
  using assms by (auto simp: policy_ok_def cursor_of_def fresh_cursor_def split: option.splits)

lemma policy_ok_fresh_cursor: "policy_ok db \<Longrightarrow> policy_ok (db\<lparr>policy_cursor := Some (cursor_of db)\<rparr>)"
  by (auto simp: policy_ok_def cursor_of_def fresh_cursor_def split: option.splits)

lemma mark_dirty_ok: "mark_dirty_at now db = Inr db' \<Longrightarrow> policy_ok db \<Longrightarrow> policy_ok db'"
  by (fastforce simp: mark_dirty_at_def policy_ok_def fresh_cursor_def split: option.splits if_splits)

lemma collect_Inr: "collect f xs = Inr ys \<longleftrightarrow> list_all2 (\<lambda>x y. f x = Inr y) xs ys"
  by (induction xs arbitrary: ys) (auto simp: and_then_eq_Inr list_all2_Cons1)

text \<open>The policy the catalog asks for: the entries of its mirrored repositories.\<close>

definition desired_entries :: "policy_contracts \<Rightarrow> catalog \<Rightarrow> backup_entry list \<Rightarrow> bool" where
  "desired_entries pc db entries \<longleftrightarrow>
     sorted (map be_repository_ref entries) \<and>
     (\<exists>es. entries = sort_key be_repository_ref es \<and>
        list_all2 (\<lambda>r e. \<exists>i. load_input pc db r = Inr i \<and> to_entry pc i = Inr e)
          (sort_key repo_id (filter (mirrored db) (repositories db))) es)"

lemma collect_all: "collect f xs = Inr ys \<Longrightarrow> (\<And>x y. f x = Inr y \<Longrightarrow> P y) \<Longrightarrow> \<forall>y\<in>set ys. P y"
  by (induction xs arbitrary: ys) (auto simp: and_then_eq_Inr)

lemma load_inputs_included:
  assumes "load_inputs pc db = Inr inputs"
  shows "filter pi_included inputs = inputs"
proof -
  have "\<forall>i\<in>set inputs. pi_included i"
    by (rule collect_all [OF assms [unfolded load_inputs_def]])
      (auto simp: load_input_def Let_def and_then_eq_Inr input_mirror_def)
  then show ?thesis by simp
qed

lemma derive_desired:
  assumes "load_inputs pc db = Inr inputs"
    and "derive_backup_policy pc t v inputs = Inr policy"
  shows "dp_version policy = v" and "pc_valid pc policy"
    and "desired_entries pc db (dp_repositories policy)"
proof -
  obtain es producer where es: "collect (to_entry pc) inputs = Inr es"
    and policy: "policy = \<lparr>dp_version = v, dp_producer = producer, dp_produced_at = t,
      dp_repositories = sort_key be_repository_ref es\<rparr>" "pc_valid pc policy"
    using assms(2) load_inputs_included [OF assms(1)]
    by (auto simp: derive_backup_policy_def and_then_eq_Inr Let_def split: if_splits)
  show "dp_version policy = v" "pc_valid pc policy" using policy by simp_all
  have "list_all2 (\<lambda>r e. \<exists>i. load_input pc db r = Inr i \<and> to_entry pc i = Inr e)
      (sort_key repo_id (filter (mirrored db) (repositories db))) es"
    using assms(1) es unfolding load_inputs_def collect_Inr
    by (rule list_all2_trans [rotated]) blast
  then show "desired_entries pc db (dp_repositories policy)"
    by (auto simp: desired_entries_def policy)
qed

lemma load_inputs_cursor: "load_inputs pc (db\<lparr>policy_cursor := c\<rparr>) = load_inputs pc db"
  by (simp add: load_inputs_def mirrored_def [abs_def] load_input_def [abs_def])

lemma publish_version_Inr:
  assumes "publish_version pc t t' c inputs fp db = Inr (outcome, db')"
  obtains policy document envelope where
    "derive_backup_policy pc t (cu_version c + 1) inputs = Inr policy"
    "pc_policy_json pc policy = Some document"
    "backup_policy_apply_envelope pc (next_uuid db) t' policy = Inr envelope"
    "outcome = Published (cu_version c + 1)" "cu_version c + 1 \<le> i64_max"
    "fp \<notin> pu_fingerprint ` set (publications db)"
    "cu_version c + 1 \<notin> pu_version ` set (publications db)" "0 < cu_version c + 1"
    "db' = settle (cu_dirty c) (cu_version c + 1) fp
       (db\<lparr>publications := publications db @ [\<lparr>pu_version = cu_version c + 1, pu_fingerprint = fp,
             pu_document = document\<rparr>],
           next_uuid := Suc (next_uuid db),
           outbox := outbox db @ [outbox_entry (next_uuid db) backup_policy_apply_subject envelope (db_clock db)]\<rparr>)"
proof -
  from assms show ?thesis
    by (auto simp: publish_version_def insert_publication_def fresh_uuid_def and_then_eq_Inr
        ok_or_eq_Inr Let_def split: if_splits intro!: that)
qed

lemma publish_due_eq:
  "publish_due_tx pc t t' now db =
     (if cu_dirty (cursor_of db) = cu_published (cursor_of db) \<or>
         (\<exists>d. cu_not_before (cursor_of db) = Some d \<and> now < d)
      then Inr (Pending, db\<lparr>policy_cursor := Some (cursor_of db)\<rparr>)
      else
        and_then (load_inputs pc db) (\<lambda>inputs.
        and_then (ok_or PolicySerialization (pc_inputs_text pc inputs)) (\<lambda>fp.
          if cu_fingerprint (cursor_of db) = Some fp
          then Inr (Unchanged, settle (cu_dirty (cursor_of db)) (cu_version (cursor_of db)) fp
                 (db\<lparr>policy_cursor := Some (cursor_of db)\<rparr>))
          else publish_version pc t t' (cursor_of db) inputs fp
                 (db\<lparr>policy_cursor := Some (cursor_of db)\<rparr>))))"
  unfolding publish_due_tx_def Let_def load_inputs_cursor cursor_of_def [symmetric]
  by (cases "cu_not_before (cursor_of db)") simp_all

lemma publish_due_cases:
  assumes "publish_due_tx pc t t' now db = Inr (outcome, db')"
  obtains (pending) "outcome = Pending" "db' = db\<lparr>policy_cursor := Some (cursor_of db)\<rparr>"
  | (unchanged) inputs fp where "outcome = Unchanged" "load_inputs pc db = Inr inputs"
      "pc_inputs_text pc inputs = Some fp" "cu_fingerprint (cursor_of db) = Some fp"
      "db' = settle (cu_dirty (cursor_of db)) (cu_version (cursor_of db)) fp
        (db\<lparr>policy_cursor := Some (cursor_of db)\<rparr>)"
  | (published) inputs fp where "load_inputs pc db = Inr inputs"
      "pc_inputs_text pc inputs = Some fp" "cu_fingerprint (cursor_of db) \<noteq> Some fp"
      "publish_version pc t t' (cursor_of db) inputs fp
        (db\<lparr>policy_cursor := Some (cursor_of db)\<rparr>) = Inr (outcome, db')"
proof (cases "cu_dirty (cursor_of db) = cu_published (cursor_of db) \<or>
    (\<exists>d. cu_not_before (cursor_of db) = Some d \<and> now < d)")
  case True
  with assms show ?thesis by (intro pending) (simp_all add: publish_due_eq)
next
  case False
  with assms obtain inputs fp where load: "load_inputs pc db = Inr inputs"
    "pc_inputs_text pc inputs = Some fp"
    "(if cu_fingerprint (cursor_of db) = Some fp
      then Inr (Unchanged, settle (cu_dirty (cursor_of db)) (cu_version (cursor_of db)) fp
             (db\<lparr>policy_cursor := Some (cursor_of db)\<rparr>))
      else publish_version pc t t' (cursor_of db) inputs fp
             (db\<lparr>policy_cursor := Some (cursor_of db)\<rparr>)) = Inr (outcome, db')"
    by (auto simp: publish_due_eq and_then_eq_Inr ok_or_eq_Inr)
  show ?thesis
  proof (cases "cu_fingerprint (cursor_of db) = Some fp")
    case True
    with load show ?thesis by (intro unchanged [of inputs fp]) simp_all
  next
    case False
    with load show ?thesis by (intro published [of inputs fp]) simp_all
  qed
qed

text \<open>
  C29. Publication is sound: on a consistent catalog an attempt that succeeds keeps it consistent.
  It publishes the next version exactly once - one immutable document and one command with a fresh
  message id, whose policy lists the entries of precisely the mirrored repositories, sorted - or it
  finds the desired state already published, or nothing is due; only in the first case do the
  publications and the outbox change, and in the first two the cursor is clean afterwards.
\<close>

theorem publish_due_sound:
  assumes "policy_ok db" and "publish_due_tx pc t t' now db = Inr (outcome, db')"
  shows "policy_ok db' \<and>
    (case outcome of
       Pending \<Rightarrow> publications db' = publications db \<and> outbox db' = outbox db \<and>
         cursor_of db' = cursor_of db
     | Unchanged \<Rightarrow> publications db' = publications db \<and> outbox db' = outbox db \<and>
         cu_published (cursor_of db') = cu_dirty (cursor_of db')
     | Published v \<Rightarrow> v = cu_version (cursor_of db) + 1 \<and> cu_version (cursor_of db') = v \<and>
         cu_published (cursor_of db') = cu_dirty (cursor_of db') \<and>
         (\<exists>policy document fp envelope.
            dp_version policy = v \<and> pc_valid pc policy \<and>
            desired_entries pc db (dp_repositories policy) \<and>
            pc_policy_json pc policy = Some document \<and>
            publications db' = publications db @
              [\<lparr>pu_version = v, pu_fingerprint = fp, pu_document = document\<rparr>] \<and>
            backup_policy_apply_envelope pc (next_uuid db) t' policy = Inr envelope \<and>
            outbox db' = outbox db @
              [outbox_entry (next_uuid db) backup_policy_apply_subject envelope (db_clock db)]))"
  using assms(2)
proof (cases rule: publish_due_cases)
  case pending
  with policy_ok_fresh_cursor [OF assms(1)] show ?thesis by (simp add: cursor_of_def)
next
  case (unchanged inputs fp)
  with policy_ok_fresh_cursor [OF assms(1)] show ?thesis
    by (auto simp: settle_def cursor_of_def policy_ok_def split: option.splits)
next
  case (published inputs fp)
  obtain policy document envelope where
    policy: "derive_backup_policy pc t (cu_version (cursor_of db) + 1) inputs = Inr policy" and
    facts: "pc_policy_json pc policy = Some document"
    "backup_policy_apply_envelope pc (next_uuid db) t' policy = Inr envelope"
    "outcome = Published (cu_version (cursor_of db) + 1)"
    "fp \<notin> pu_fingerprint ` set (publications db)"
    "cu_version (cursor_of db) + 1 \<notin> pu_version ` set (publications db)" and
    db': "db' = settle (cu_dirty (cursor_of db)) (cu_version (cursor_of db) + 1) fp
       (db\<lparr>policy_cursor := Some (cursor_of db),
           publications := publications db @ [\<lparr>pu_version = cu_version (cursor_of db) + 1,
             pu_fingerprint = fp, pu_document = document\<rparr>],
           next_uuid := Suc (next_uuid db),
           outbox := outbox db @ [outbox_entry (next_uuid db) backup_policy_apply_subject envelope (db_clock db)]\<rparr>)"
    by (rule publish_version_Inr [OF published(4)]) simp
  have cursor: "policy_cursor db' = Some ((cursor_of db)\<lparr>cu_published := cu_dirty (cursor_of db),
      cu_version := cu_version (cursor_of db) + 1, cu_fingerprint := Some fp, cu_not_before := None\<rparr>)"
    by (simp add: db' settle_def)
  have pubs: "publications db' = publications db @ [\<lparr>pu_version = cu_version (cursor_of db) + 1,
      pu_fingerprint = fp, pu_document = document\<rparr>]"
    by (simp add: db' settle_def)
  have "policy_ok db'"
    using assms(1) policy_ok_cursor [OF assms(1)] facts(4,5)
    by (force simp: policy_ok_def [of db'] cursor pubs policy_ok_def [of db])
  moreover have "outbox db' = outbox db @ [outbox_entry (next_uuid db) backup_policy_apply_subject envelope (db_clock db)]"
    by (simp add: db' settle_def)
  moreover have "cursor_of db' = (cursor_of db)\<lparr>cu_published := cu_dirty (cursor_of db),
      cu_version := cu_version (cursor_of db) + 1, cu_fingerprint := Some fp, cu_not_before := None\<rparr>"
    by (simp add: cursor_of_def [of db'] cursor)
  ultimately show ?thesis
    using derive_desired [OF published(1) policy] facts pubs by auto
qed

text \<open>
  A return to an earlier desired state cannot be published: fingerprints are unique over all
  publications, so whenever the due state equals that of a superseded publication, every attempt
  fails on the unique constraint and leaves the catalog as it was.
\<close>

theorem reverted_policy_never_publishes:
  assumes "policy_ok db" and "cu_dirty (cursor_of db) \<noteq> cu_published (cursor_of db)"
    and "\<forall>d. cu_not_before (cursor_of db) = Some d \<longrightarrow> d \<le> now"
    and "load_inputs pc db = Inr inputs" and "pc_inputs_text pc inputs = Some fp"
    and "fp \<in> pu_fingerprint ` set (publications db)" and "cu_fingerprint (cursor_of db) \<noteq> Some fp"
    and "cu_version (cursor_of db) < i64_max"
    and "derive_backup_policy pc t (cu_version (cursor_of db) + 1) inputs = Inr policy"
    and "pc_policy_json pc policy = Some document"
  shows "publish_due_tx pc t t' now db = Inl (PolicyPersistence UniqueViolation)"
proof -
  have "\<not> (\<exists>d. cu_not_before (cursor_of db) = Some d \<and> now < d)" using assms(3) by force
  moreover have "publish_version pc t t' (cursor_of db) inputs fp
      (db\<lparr>policy_cursor := Some (cursor_of db)\<rparr>) = Inl (PolicyPersistence UniqueViolation)"
    using assms policy_ok_cursor(1) [OF assms(1)]
    by (simp add: publish_version_def insert_publication_def Let_def)
  ultimately show ?thesis using assms by (simp add: publish_due_eq)
qed

text \<open>Contracts that accept every value; texts are joined references, and numbers in unary.\<close>

definition plain_contracts :: policy_contracts where
  "plain_contracts =
     \<lparr>pc_entity_ref = Some, pc_producer = Some, pc_expression = Some, pc_valid = (\<lambda>_. True),
      pc_policy_json = (\<lambda>p. Some (JNum (dp_version p))), pc_set_payload = (\<lambda>p. Some (JNum (dp_version p))),
      pc_envelope_json = (\<lambda>i t p r x. Some (JObj [(''payload'', x)])),
      pc_inputs_text = (\<lambda>is. Some (concat (map pi_repository_ref is))),
      pc_uuid_text = (\<lambda>u. replicate u CHR ''i''), pc_number_text = (\<lambda>n. replicate (nat n) CHR ''i''),
      pc_ack_json = (\<lambda>_. Some (JObj [])), pc_exclusions = (\<lambda>_. Some [])\<rparr>"

text \<open>Repository 1 was tracked, then ignored, and is tracked again: the state of version 1 returns.\<close>

definition policy_example :: catalog where
  "policy_example = empty_catalog\<lparr>
     next_uuid := 10,
     repositories := [\<lparr>repo_id = 1, repo_provider_id = 100, repo_mode = Some Tracked, repo_updated_at = 0\<rparr>],
     policy_cursor := Some \<lparr>cu_dirty = 3, cu_published = 2, cu_not_before = Some 5, cu_version = 2,
       cu_fingerprint = Some []\<rparr>,
     publications :=
       [\<lparr>pu_version = 1, pu_fingerprint = ''repository:i'', pu_document = JNum 1\<rparr>,
        \<lparr>pu_version = 2, pu_fingerprint = [], pu_document = JNum 2\<rparr>]\<rparr>"

lemma policy_example_ok: "policy_ok policy_example"
  by (simp add: policy_ok_def policy_example_def)

theorem reverted_policy_never_publishes_witness:
  "publish_due_tx plain_contracts 0 0 9 policy_example = Inl (PolicyPersistence UniqueViolation)"
proof -
  have cursor: "cursor_of policy_example = \<lparr>cu_dirty = 3, cu_published = 2, cu_not_before = Some 5,
      cu_version = 2, cu_fingerprint = Some []\<rparr>"
    by (simp add: cursor_of_def policy_example_def)
  let ?i = "input_mirror ''repository:i'' ''daily'' ''standard'' None []"
  have load: "load_inputs plain_contracts policy_example = Inr [?i]" by code_simp
  have shown: "pc_inputs_text plain_contracts [?i] = Some ''repository:i''" by code_simp
  obtain policy where derive: "derive_backup_policy plain_contracts 0 3 [?i] = Inr policy"
    by (simp add: derive_backup_policy_def to_entry_def plain_contracts_def input_mirror_def
        parse_cadence_def parse_priority_def)
  have old: "''repository:i'' \<in> pu_fingerprint ` set (publications policy_example)"
    by (simp add: policy_example_def)
  have json: "pc_policy_json plain_contracts policy = Some (JNum (dp_version policy))"
    by (simp add: plain_contracts_def)
  show ?thesis
    by (rule reverted_policy_never_publishes [OF policy_example_ok _ _ load shown old _ _ _ json])
      (simp_all add: cursor derive i64_max_def)
qed

text \<open>A state not published before is: the same catalog without its first publication.\<close>

definition policy_example_new :: catalog where
  "policy_example_new = policy_example\<lparr>publications :=
     [\<lparr>pu_version = 2, pu_fingerprint = [], pu_document = JNum 2\<rparr>]\<rparr>"

theorem publish_due_sound_witness:
  "\<exists>db'. publish_due_tx plain_contracts 0 0 9 policy_example_new = Inr (Published 3, db') \<and>
     policy_ok db' \<and> cu_published (cursor_of db') = cu_dirty (cursor_of db')"
proof -
  have ok: "policy_ok policy_example_new"
    by (simp add: policy_ok_def policy_example_new_def policy_example_def)
  have "case publish_due_tx plain_contracts 0 0 9 policy_example_new of
      Inr (r, _) \<Rightarrow> r = Published 3 | Inl _ \<Rightarrow> False"
    by code_simp
  then obtain db' where "publish_due_tx plain_contracts 0 0 9 policy_example_new = Inr (Published 3, db')"
    by (auto split: sum.splits)
  with publish_due_sound [OF ok this] show ?thesis by auto
qed

section \<open>Acknowledgments are recorded once\<close>

definition feedback_ok :: "catalog \<Rightarrow> bool" where
  "feedback_ok db \<longleftrightarrow>
     fb_message ` set (feedback db) \<subseteq> ib_message ` set (inbox db) \<and>
     distinct (map fb_message (feedback db)) \<and>
     list_all (\<lambda>f. 0 < fb_version f \<and> 0 \<le> fb_last_applied f) (feedback db)"

text \<open>
  Vault's acknowledgments are projected exactly once: a delivery either appends one feedback
  row and consumes its message id - so that any redelivery of that id is a duplicate that changes
  nothing - or is such a duplicate, or is rejected for its content; the feedback table's own key
  never fails.
\<close>

theorem acknowledgment_recorded_once:
  assumes "feedback_ok db"
  shows "case record_acknowledgment_tx m ack payload db of
      Inr (Recorded, db') \<Rightarrow> m \<notin> ib_message ` set (inbox db) \<and> feedback_ok db' \<and>
        (\<exists>f. feedback db' = feedback db @ [f] \<and> fb_message f = m \<and> fb_version f = ak_version ack \<and>
          (fb_accepted f \<longleftrightarrow> ak_outcome ack = AckAccepted)) \<and>
        (\<forall>ack' payload'. record_acknowledgment_tx m ack' payload' db' = Inr (Duplicate, db'))
    | Inr (Duplicate, db') \<Rightarrow> m \<in> ib_message ` set (inbox db) \<and> db' = db
    | Inl e \<Rightarrow> e = PolicyInvalid ''outcome'' \<and> ak_outcome ack = AckOther \<or>
        e = PolicyInvalid ''acknowledged_policy_version'' \<and> i64_max < ak_version ack \<or>
        e = PolicyInvalid ''last_applied_policy_version'' \<and> i64_max < ak_last_applied ack \<or>
        e = PolicyPersistence CheckViolation \<and> (ak_version ack \<le> 0 \<or> ak_last_applied ack < 0)"
proof (cases "m \<in> ib_message ` set (inbox db)")
  case True
  then show ?thesis by (simp add: record_acknowledgment_tx_def)
next
  case False
  with assms have "m \<notin> fb_message ` set (feedback db)" by (auto simp: feedback_ok_def)
  with False assms show ?thesis
    by (auto simp: record_acknowledgment_tx_def Let_def feedback_ok_def split: policy_outcome.split)
qed

theorem acknowledgment_recorded_once_witness:
  "feedback_ok empty_catalog \<and>
   (\<exists>db'. record_acknowledgment_tx 5 \<lparr>ak_version = 1, ak_outcome = AckAccepted, ak_last_applied = 0,
      ak_reasons = JArr []\<rparr> JNull empty_catalog = Inr (Recorded, db') \<and> feedback_ok db')"
proof -
  let ?ack = "\<lparr>ak_version = 1, ak_outcome = AckAccepted, ak_last_applied = 0, ak_reasons = JArr []\<rparr>"
  have ok: "feedback_ok empty_catalog" by (simp add: feedback_ok_def empty_catalog_def)
  have "\<exists>db'. record_acknowledgment_tx 5 ?ack JNull empty_catalog = Inr (Recorded, db')"
    by (simp add: record_acknowledgment_tx_def empty_catalog_def i64_max_def)
  then obtain db' where "record_acknowledgment_tx 5 ?ack JNull empty_catalog = Inr (Recorded, db')" ..
  with acknowledgment_recorded_once [OF ok, where m = 5 and ack = ?ack and payload = JNull] ok show ?thesis by auto
qed

end
