(* ===== verification/Mutation_Trail.thy ===== *)
theory Mutation_Trail
  imports Backup_Policy
begin

text \<open>
  The vocabulary of authorized mutations (\<open>crates/catalog/src/mutations.rs\<close>) and the append-only
  audit trail (\<open>mutation_trail.rs\<close>): every attempt leaves a row, and only successful ones claim
  their idempotency key.
\<close>

section \<open>Requests and outcomes\<close>

datatype mutation_source = Telegram | Web

fun source_text :: "mutation_source \<Rightarrow> string" where
  "source_text Telegram = ''telegram''"
| "source_text Web = ''web''"

record mutation_context =
  mc_account_id :: uuid
  mc_principal :: string
  mc_source :: mutation_source

record repository_ref =
  rr_provider_repository_id :: int
  rr_owner :: string
  rr_name :: string

datatype mutation_request =
    ReqStar repository_ref string
  | ReqUnstar repository_ref string
  | ReqListMemberAdd repository_ref uuid string
  | ReqListMemberRemove repository_ref uuid string

fun request_key :: "mutation_request \<Rightarrow> string" where
  "request_key (ReqStar r k) = k"
| "request_key (ReqUnstar r k) = k"
| "request_key (ReqListMemberAdd r l k) = k"
| "request_key (ReqListMemberRemove r l k) = k"

fun request_repository :: "mutation_request \<Rightarrow> repository_ref" where
  "request_repository (ReqStar r k) = r"
| "request_repository (ReqUnstar r k) = r"
| "request_repository (ReqListMemberAdd r l k) = r"
| "request_repository (ReqListMemberRemove r l k) = r"

datatype mutation_kind = KindStar | KindUnstar | KindListMemberAdd | KindListMemberRemove

fun kind_text :: "mutation_kind \<Rightarrow> string" where
  "kind_text KindStar = ''star''"
| "kind_text KindUnstar = ''unstar''"
| "kind_text KindListMemberAdd = ''list_member_add''"
| "kind_text KindListMemberRemove = ''list_member_remove''"

fun kind_of :: "mutation_request \<Rightarrow> string" where
  "kind_of (ReqStar r k) = kind_text KindStar"
| "kind_of (ReqUnstar r k) = kind_text KindUnstar"
| "kind_of (ReqListMemberAdd r l k) = kind_text KindListMemberAdd"
| "kind_of (ReqListMemberRemove r l k) = kind_text KindListMemberRemove"

datatype refusal_reason =
    AccountNotConnected
  | MissingScope
  | AutoNotDirectlyRequestable
  | RepositoryCurrentlyStarred
  | RepositoryIgnored

fun refusal_label :: "refusal_reason \<Rightarrow> string" where
  "refusal_label AccountNotConnected = ''account_not_connected''"
| "refusal_label MissingScope = ''missing_scope''"
| "refusal_label AutoNotDirectlyRequestable = ''auto_not_directly_requestable''"
| "refusal_label RepositoryCurrentlyStarred = ''repository_currently_starred''"
| "refusal_label RepositoryIgnored = ''repository_ignored''"

datatype mutation_status =
    StatusApplied
  | StatusAlreadyApplied
  | StatusRejected refusal_reason
  | StatusFailed string

record mutation_outcome =
  mu_idempotency_key :: string
  mu_status :: mutation_status

datatype mutation_error =
    MutPersistence sql_error
  | MutConfirmedPersistence sql_error
  | MutPanicked

section \<open>The trail\<close>

definition audit_success :: "audit_outcome \<Rightarrow> bool" where
  "audit_success x \<longleftrightarrow> x \<in> {AuditApplied, AuditAlreadyApplied}"

definition key_consumed :: "string \<Rightarrow> catalog \<Rightarrow> bool" where
  "key_consumed key db \<longleftrightarrow> (\<exists>a\<in>set (audit db). au_key a = key \<and> audit_success (au_outcome a))"

definition successful_outcome_exists :: "string \<Rightarrow> (sql_error, bool) io" where
  "successful_outcome_exists key = query (key_consumed key)"

text \<open>
  The rows affected and the catalog after: the partial unique index
  \<open>mutation_audit_one_success_per_key\<close> makes the insertion of a second success do nothing.
\<close>

definition insert_audit_row ::
    "mutation_context \<Rightarrow> uuid \<Rightarrow> string \<Rightarrow> string \<Rightarrow> audit_outcome \<Rightarrow> json \<Rightarrow> catalog \<Rightarrow> nat \<times> catalog"
where
  "insert_audit_row ctx r kind key outcome detail db =
     (if audit_success outcome \<and> key_consumed key db then (0, db)
      else (1, db\<lparr>audit := audit db @
             [\<lparr>au_key = key, au_account = mc_account_id ctx, au_repo = r, au_list = None, au_kind = kind,
               au_principal = mc_principal ctx, au_source = source_text (mc_source ctx),
               au_outcome = outcome, au_detail = detail, au_created = db_clock db\<rparr>]\<rparr>))"

definition record_attempt_tx ::
    "mutation_context \<Rightarrow> int \<Rightarrow> string \<Rightarrow> string \<Rightarrow> audit_outcome \<Rightarrow> json \<Rightarrow> unit tx" where
  "record_attempt_tx ctx p kind key outcome detail db =
     and_then (upsert_repository_in_tx p db) (\<lambda>(r, db1).
       let (won, db2) = insert_audit_row ctx r kind key outcome detail db1 in Inr ((), db2))"

definition record_attempt ::
    "mutation_context \<Rightarrow> mutation_request \<Rightarrow> string \<Rightarrow> audit_outcome \<Rightarrow> json \<Rightarrow> (sql_error, unit) io"
where
  "record_attempt ctx req kind outcome detail =
     transact (record_attempt_tx ctx (rr_provider_repository_id (request_repository req)) kind
       (request_key req) outcome detail)"

definition reason_detail :: "string \<Rightarrow> json" where
  "reason_detail reason = JObj [(''reason'', JStr reason)]"

definition refused_outcome ::
    "mutation_context \<Rightarrow> mutation_request \<Rightarrow> refusal_reason \<Rightarrow> (mutation_error, mutation_outcome) io" where
  "refused_outcome ctx req reason =
     io_bind (io_map_err MutPersistence
         (record_attempt ctx req (kind_of req) AuditRejected (reason_detail (refusal_label reason))))
       (\<lambda>_. io_return \<lparr>mu_idempotency_key = request_key req, mu_status = StatusRejected reason\<rparr>)"

text \<open>\<open>show_time\<close> is the debug rendering of an instant.\<close>

definition paused_outcome ::
    "(int \<Rightarrow> string) \<Rightarrow> mutation_context \<Rightarrow> mutation_request \<Rightarrow> int \<Rightarrow> (mutation_error, mutation_outcome) io"
where
  "paused_outcome show_time ctx req until =
     io_bind (io_map_err MutPersistence
         (record_attempt ctx req (kind_of req) AuditFailed
           (reason_detail (''rate limited until '' @ show_time until))))
       (\<lambda>_. io_return \<lparr>mu_idempotency_key = request_key req,
              mu_status = StatusFailed ''the account's provider budget is cooling down''\<rparr>)"

definition failed_outcome ::
    "mutation_context \<Rightarrow> string \<Rightarrow> int \<Rightarrow> string \<Rightarrow> string \<Rightarrow> (mutation_error, mutation_outcome) io" where
  "failed_outcome ctx kind p key reason =
     io_bind (io_map_err MutPersistence
         (transact (record_attempt_tx ctx p kind key AuditFailed (reason_detail reason))))
       (\<lambda>_. io_return \<lparr>mu_idempotency_key = key, mu_status = StatusFailed reason\<rparr>)"

section \<open>One success per key\<close>

definition audit_ok :: "catalog \<Rightarrow> bool" where
  "audit_ok db \<longleftrightarrow> distinct (map au_key (filter (\<lambda>a. audit_success (au_outcome a)) (audit db)))"

text \<open>
  The trail only grows, and never past one success per key; everything an attempt that is not
  confirmed may do to the catalog.
\<close>

definition trail_grows :: "catalog \<Rightarrow> catalog \<Rightarrow> bool" where
  "trail_grows db db' \<longleftrightarrow> (\<exists>new. audit db' = audit db @ new) \<and> (audit_ok db \<longrightarrow> audit_ok db')"

interpretation trail_frame: durable_relation trail_grows
  by unfold_locales (auto simp: trail_grows_def audit_ok_def)

lemma insert_audit_row_frame [simp]:
  "repositories (snd (insert_audit_row ctx r kind key oc d db)) = repositories db"
  "star_state (snd (insert_audit_row ctx r kind key oc d db)) = star_state db"
  "memberships (snd (insert_audit_row ctx r kind key oc d db)) = memberships db"
  "policy_cursor (snd (insert_audit_row ctx r kind key oc d db)) = policy_cursor db"
  "db_clock (snd (insert_audit_row ctx r kind key oc d db)) = db_clock db"
  by (simp_all add: insert_audit_row_def)

lemma insert_audit_row_authority: "same_authority db (snd (insert_audit_row ctx r kind key oc d db))"
  by (simp add: insert_audit_row_def same_authority_def same_stars_def same_lists_def)

lemma insert_audit_row_trail: "trail_grows db (snd (insert_audit_row ctx r kind key oc d db))"
  by (auto simp: insert_audit_row_def trail_grows_def audit_ok_def key_consumed_def)

lemma insert_audit_row_won:
  "fst (insert_audit_row ctx r kind key oc d db) \<noteq> 0 \<longleftrightarrow> \<not> (audit_success oc \<and> key_consumed key db)"
  by (simp add: insert_audit_row_def)

lemma insert_audit_row_consumes:
  "fst (insert_audit_row ctx r kind key oc d db) \<noteq> 0 \<Longrightarrow> audit_success oc \<Longrightarrow>
     key_consumed key (snd (insert_audit_row ctx r kind key oc d db))"
  by (simp add: insert_audit_row_def key_consumed_def split: if_splits)

lemma upsert_repository_audit:
  "upsert_repository_in_tx p db = Inr (r, db') \<Longrightarrow> audit db' = audit db \<and> policy_cursor db' = policy_cursor db"
  by (auto simp: upsert_repository_in_tx_eq split: option.splits)

lemma same_audit_trail: "audit db' = audit db \<Longrightarrow> trail_grows db db'"
  by (simp add: trail_grows_def audit_ok_def)

lemma record_attempt_tx_Inr:
  assumes "record_attempt_tx ctx p kind key oc d db = Inr (u, db')"
  shows "same_authority db db'" and "trail_grows db db'"
    and "\<not> audit_success oc \<Longrightarrow> \<exists>a. audit db' = audit db @ [a] \<and> au_key a = key \<and> au_outcome a = oc"
proof -
  obtain r db1 where up: "upsert_repository_in_tx p db = Inr (r, db1)"
    and db': "db' = snd (insert_audit_row ctx r kind key oc d db1)"
    using assms by (auto simp: record_attempt_tx_def and_then_eq_Inr case_prod_unfold)
  note frames = upsert_repository_frame(1) [OF up] upsert_repository_audit [OF up]
  show "same_authority db db'"
    using frames(1) insert_audit_row_authority unfolding db' by (rule authority_frame.R_trans)
  have "trail_grows db db1" using frames(2) by (simp add: same_audit_trail)
  then show "trail_grows db db'"
    using insert_audit_row_trail unfolding db' by (rule trail_frame.R_trans)
  show "\<exists>a. audit db' = audit db @ [a] \<and> au_key a = key \<and> au_outcome a = oc" if "\<not> audit_success oc"
    using that frames(2) by (simp add: db' insert_audit_row_def)
qed

lemma keeps_record_attempt:
  "authority_frame.keeps (transact (record_attempt_tx ctx p kind key oc d))"
  "trail_frame.keeps (transact (record_attempt_tx ctx p kind key oc d))"
  by (rule authority_frame.keeps_transact trail_frame.keeps_transact,
      erule record_attempt_tx_Inr)+

lemma keeps_unsuccessful:
  "authority_frame.keeps (refused_outcome ctx req reason)"
  "trail_frame.keeps (refused_outcome ctx req reason)"
  "authority_frame.keeps (paused_outcome show_time ctx req until)"
  "trail_frame.keeps (paused_outcome show_time ctx req until)"
  "authority_frame.keeps (failed_outcome ctx kind p key why)"
  "trail_frame.keeps (failed_outcome ctx kind p key why)"
  unfolding refused_outcome_def paused_outcome_def failed_outcome_def record_attempt_def
  by (auto intro!: authority_frame.keeps_intros trail_frame.keeps_intros keeps_record_attempt)

end
