(* ===== verification/Mutations.thy ===== *)
theory Mutations
  imports Mutation_Trail Star_Lists_Authority
begin

text \<open>
  Authorized provider mutations (\<open>crates/catalog/src/mutations.rs\<close>, \<open>list_mutations.rs\<close> and the
  seam of \<open>provider_mutations.rs\<close>): enforcement before provider contact, the write, and its local
  convergence with the audit in one transaction.
\<close>

section \<open>The write-side seam\<close>

record node_id_reply =
  ni_node_id :: string
  ni_rate_limit :: rate_limit_headers

record star_write_reply =
  sw_viewer_has_starred :: bool
  sw_rate_limit :: rate_limit_headers

record list_write_reply =
  lw_lists :: "string list"
  lw_rate_limit :: rate_limit_headers

record mutation_api =
  ma_fetch_repository_node_id ::
    "nat \<Rightarrow> string option \<Rightarrow> string \<Rightarrow> string \<Rightarrow> (provider_error, node_id_reply) result answer"
  ma_star_repository ::
    "nat \<Rightarrow> string option \<Rightarrow> string \<Rightarrow> (provider_error, star_write_reply) result answer"
  ma_unstar_repository ::
    "nat \<Rightarrow> string option \<Rightarrow> string \<Rightarrow> (provider_error, star_write_reply) result answer"
  ma_set_repository_lists ::
    "nat \<Rightarrow> string option \<Rightarrow> string \<Rightarrow> string list \<Rightarrow> (provider_error, list_write_reply) result answer"

text \<open>What an execution is given: the gateway, the token's label, its secret and the context.\<close>

record mutation_runtime =
  mr_gateway :: mutation_api
  mr_token :: string
  mr_secret :: "string option"
  mr_context :: mutation_context
  mr_show_time :: "int \<Rightarrow> string"

section \<open>Enforcement\<close>

datatype mutation_capability = CapStar | CapListWrite

fun accepted_scopes :: "mutation_capability \<Rightarrow> string list" where
  "accepted_scopes CapStar = [''repo'', ''public_repo'']"
| "accepted_scopes CapListWrite = [''user'']"

definition satisfied_by :: "mutation_capability \<Rightarrow> string list \<Rightarrow> bool" where
  "satisfied_by c granted \<longleftrightarrow> (\<exists>accepted\<in>set (accepted_scopes c). accepted \<in> set granted)"

fun required_capability :: "mutation_request \<Rightarrow> mutation_capability" where
  "required_capability (ReqStar r k) = CapStar"
| "required_capability (ReqUnstar r k) = CapStar"
| "required_capability (ReqListMemberAdd r l k) = CapListWrite"
| "required_capability (ReqListMemberRemove r l k) = CapListWrite"

definition authorization_refusal ::
    "mutation_context \<Rightarrow> mutation_request \<Rightarrow> catalog \<Rightarrow> refusal_reason option" where
  "authorization_refusal ctx req db =
     (case find_by acct_id (mc_account_id ctx) (accounts db) of
        None \<Rightarrow> Some AccountNotConnected
      | Some a \<Rightarrow>
          if acct_status a \<noteq> Connected then Some AccountNotConnected
          else if satisfied_by (required_capability req) (acct_scopes a) then None
          else Some MissingScope)"

definition ignored_star_conflict :: "mutation_request \<Rightarrow> catalog \<Rightarrow> refusal_reason option" where
  "ignored_star_conflict req db =
     (case req of
        ReqStar r k \<Rightarrow>
          (case find_by repo_provider_id (rr_provider_repository_id r) (repositories db) of
             Some x \<Rightarrow> if repo_mode x = Some Ignored then Some RepositoryIgnored else None
           | None \<Rightarrow> None)
      | _ \<Rightarrow> None)"

section \<open>Writing a star\<close>

datatype star_direction = StarAdd | StarRemove

fun direction_kind :: "star_direction \<Rightarrow> mutation_kind" where
  "direction_kind StarAdd = KindStar"
| "direction_kind StarRemove = KindUnstar"

definition finish_with_replay_guard ::
    "nat \<times> catalog \<Rightarrow> catalog \<Rightarrow> string \<Rightarrow> bool \<Rightarrow> mutation_outcome \<times> catalog" where
  "finish_with_replay_guard inserted before key newly_applied =
     (if fst inserted = 0
      then (\<lparr>mu_idempotency_key = key, mu_status = StatusAlreadyApplied\<rparr>, before)
      else (\<lparr>mu_idempotency_key = key,
             mu_status = (if newly_applied then StatusApplied else StatusAlreadyApplied)\<rparr>,
            snd inserted))"

definition mutated_star :: "uuid \<Rightarrow> uuid \<Rightarrow> star_direction \<Rightarrow> timestamp \<Rightarrow> star_row" where
  "mutated_star acct r dir now =
     (case dir of
        StarAdd \<Rightarrow> \<lparr>ss_account = acct, ss_repo = r, ss_starred = True, ss_starred_at = Some now,
                    ss_unknown = False, ss_last = now, ss_unstarred = None, ss_evidence = None\<rparr>
      | StarRemove \<Rightarrow> \<lparr>ss_account = acct, ss_repo = r, ss_starred = False, ss_starred_at = None,
                    ss_unknown = False, ss_last = now, ss_unstarred = Some now, ss_evidence = None\<rparr>)"

definition mutation_merge :: "star_direction \<Rightarrow> star_row \<Rightarrow> star_row \<Rightarrow> star_row" where
  "mutation_merge dir old new =
     (case dir of
        StarAdd \<Rightarrow>
          old\<lparr>ss_starred := True,
              ss_starred_at := (case ss_starred_at old of None \<Rightarrow> ss_starred_at new | Some t \<Rightarrow> Some t),
              ss_last := ss_last new, ss_unstarred := None\<rparr>
      | StarRemove \<Rightarrow>
          old\<lparr>ss_starred := False, ss_starred_at := None, ss_unstarred := ss_unstarred new,
              ss_last := ss_last new\<rparr>)"

definition apply_star_projection :: "uuid \<Rightarrow> uuid \<Rightarrow> star_direction \<Rightarrow> catalog \<Rightarrow> catalog" where
  "apply_star_projection acct r dir db =
     db\<lparr>star_state := upsert star_key (mutation_merge dir) (mutated_star acct r dir (db_clock db))
          (star_state db),
        repositories := (case dir of
          StarAdd \<Rightarrow> update_where (\<lambda>x. repo_id x = r) (auto_if_unclassified (db_clock db)) (repositories db)
        | StarRemove \<Rightarrow> release_auto (db_clock db) r (repositories db))\<rparr>"

definition persist_confirmed_star_tx ::
    "mutation_context \<Rightarrow> int \<Rightarrow> string \<Rightarrow> star_direction \<Rightarrow> mutation_outcome tx" where
  "persist_confirmed_star_tx ctx p key dir db =
     and_then (upsert_repository_in_tx p db) (\<lambda>(r, db1).
     let prior = (case star_of db1 (mc_account_id ctx) r of None \<Rightarrow> False | Some s \<Rightarrow> ss_starred s);
         newly_applied = (case dir of StarAdd \<Rightarrow> \<not> prior | StarRemove \<Rightarrow> prior);
         db2 = apply_star_projection (mc_account_id ctx) r dir db1
     in
     and_then (if newly_applied then mark_backup_policy_dirty_in_tx db2 else Inr db2) (\<lambda>db3.
       Inr (finish_with_replay_guard
         (insert_audit_row ctx r (kind_text (direction_kind dir)) key
           (if newly_applied then AuditApplied else AuditAlreadyApplied)
           (JObj [(''via'', JStr ''mutation'')]) db3)
         db key newly_applied)))"

definition persist_confirmed_star ::
    "mutation_context \<Rightarrow> int \<Rightarrow> string \<Rightarrow> star_direction \<Rightarrow> (sql_error, mutation_outcome) io" where
  "persist_confirmed_star ctx p key dir = transact (persist_confirmed_star_tx ctx p key dir)"

text \<open>Resolving the node id either yields it or ends the operation with an audited failure.\<close>

definition resolve_node ::
    "mutation_runtime \<Rightarrow> repository_ref \<Rightarrow> mutation_kind \<Rightarrow> string \<Rightarrow>
     ((mutation_error, mutation_outcome) result, string) io" where
  "resolve_node rt repo kind key =
     io_bind (call (\<lambda>n. ma_fetch_repository_node_id (mr_gateway rt) n (mr_secret rt)
         (rr_owner repo) (rr_name repo))) (\<lambda>answer.
       case answer of
         Inr reply \<Rightarrow>
           io_bind (budget_observe (mr_token rt) (ni_rate_limit reply) (Inl MutPanicked)) (\<lambda>_.
             io_return (ni_node_id reply))
       | Inl err \<Rightarrow>
           io_bind (io_map_err Inl (failed_outcome (mr_context rt) (kind_text kind)
               (rr_provider_repository_id repo) key (provider_error_text err)))
             (\<lambda>failed. io_fail (Inr failed)))"

text \<open>An operation that may end early with an outcome, run to its result.\<close>

definition io_settle :: "(('e, 'a) result, 'a) io \<Rightarrow> ('e, 'a) io" where
  "io_settle m w = (case m w of (Inl r, w') \<Rightarrow> (r, w') | (Inr x, w') \<Rightarrow> (Inr x, w'))"

definition star_write_call ::
    "mutation_runtime \<Rightarrow> star_direction \<Rightarrow> string \<Rightarrow> nat \<Rightarrow>
     (provider_error, star_write_reply) result answer" where
  "star_write_call rt dir node n =
     (case dir of
        StarAdd \<Rightarrow> ma_star_repository (mr_gateway rt) n (mr_secret rt) node
      | StarRemove \<Rightarrow> ma_unstar_repository (mr_gateway rt) n (mr_secret rt) node)"

definition state_holds :: "star_direction \<Rightarrow> star_write_reply \<Rightarrow> bool" where
  "state_holds dir reply \<longleftrightarrow>
     (case dir of StarAdd \<Rightarrow> sw_viewer_has_starred reply | StarRemove \<Rightarrow> \<not> sw_viewer_has_starred reply)"

definition execute_star_write ::
    "mutation_runtime \<Rightarrow> repository_ref \<Rightarrow> string \<Rightarrow> star_direction \<Rightarrow>
     (mutation_error, mutation_outcome) io" where
  "execute_star_write rt repo key dir =
     (let fail = (\<lambda>reason. failed_outcome (mr_context rt) (kind_text (direction_kind dir))
            (rr_provider_repository_id repo) key reason)
      in
      io_settle (io_bind (resolve_node rt repo (direction_kind dir) key) (\<lambda>node.
        io_bind (call (star_write_call rt dir node)) (\<lambda>write.
          case write of
            Inl err \<Rightarrow> io_map_err Inl (fail (provider_error_text err))
          | Inr reply \<Rightarrow>
              io_bind (budget_observe (mr_token rt) (sw_rate_limit reply) (Inl MutPanicked)) (\<lambda>_.
                if \<not> state_holds dir reply
                then io_map_err Inl (fail ''the provider did not confirm the requested star state'')
                else io_map_err (\<lambda>e. Inl (MutConfirmedPersistence e))
                  (persist_confirmed_star (mr_context rt) (rr_provider_repository_id repo) key dir))))))"

section \<open>Writing list membership\<close>

datatype membership_change = MemberAdd | MemberRemove

fun change_kind :: "membership_change \<Rightarrow> mutation_kind" where
  "change_kind MemberAdd = KindListMemberAdd"
| "change_kind MemberRemove = KindListMemberRemove"

definition target_provider_id :: "uuid \<Rightarrow> uuid \<Rightarrow> catalog \<Rightarrow> string option" where
  "target_provider_id l acct db =
     map_option sl_provider
       (find (\<lambda>x. sl_id x = l \<and> sl_account x = acct \<and> sl_status x = ListActive) (star_lists db))"

definition live_member_list_ids :: "uuid \<Rightarrow> int \<Rightarrow> catalog \<Rightarrow> string list" where
  "live_member_list_ids acct p db =
     concat (map (\<lambda>l. concat (map (\<lambda>m. map (\<lambda>r. sl_provider l)
         (filter (\<lambda>r. repo_id r = lm_repo m \<and> repo_provider_id r = p) (repositories db)))
       (filter (\<lambda>m. lm_list m = sl_id l \<and> lm_member m) (memberships db))))
     (filter (\<lambda>l. sl_account l = acct \<and> sl_status l = ListActive) (star_lists db)))"

definition desired_lists :: "membership_change \<Rightarrow> string \<Rightarrow> string list \<Rightarrow> string list" where
  "desired_lists change target current =
     remdups_adj (sort (case change of
       MemberAdd \<Rightarrow> if target \<in> set current then current else current @ [target]
     | MemberRemove \<Rightarrow> filter (\<lambda>x. x \<noteq> target) current))"

definition mutated_member :: "uuid \<Rightarrow> uuid \<Rightarrow> membership_change \<Rightarrow> timestamp \<Rightarrow> member_row" where
  "mutated_member l r change now =
     \<lparr>lm_list = l, lm_repo = r, lm_member = (change = MemberAdd), lm_last = now,
      lm_removed = (if change = MemberAdd then None else Some now), lm_evidence = None\<rparr>"

definition membership_merge :: "member_row \<Rightarrow> member_row \<Rightarrow> member_row" where
  "membership_merge old new =
     old\<lparr>lm_member := lm_member new, lm_last := lm_last new, lm_removed := lm_removed new\<rparr>"

definition converge_membership_projection ::
    "uuid \<Rightarrow> uuid \<Rightarrow> membership_change \<Rightarrow> catalog \<Rightarrow> catalog" where
  "converge_membership_projection l r change db =
     db\<lparr>memberships := upsert member_key membership_merge (mutated_member l r change (db_clock db))
          (memberships db)\<rparr>"

definition persist_list_membership_tx ::
    "mutation_context \<Rightarrow> int \<Rightarrow> uuid \<Rightarrow> string \<Rightarrow> membership_change \<Rightarrow> string list \<Rightarrow> mutation_outcome tx"
where
  "persist_list_membership_tx ctx p l key change desired db =
     and_then (upsert_repository_in_tx p db) (\<lambda>(r, db1).
       Inr (finish_with_replay_guard
         (insert_audit_row ctx r (kind_text (change_kind change)) key AuditApplied
           (JObj [(''via'', JStr ''mutation''), (''desired_list_ids'', JArr (map JStr desired))])
           (converge_membership_projection l r change db1))
         db key True))"

definition execute_list_membership ::
    "mutation_runtime \<Rightarrow> repository_ref \<Rightarrow> uuid \<Rightarrow> string \<Rightarrow> membership_change \<Rightarrow>
     (mutation_error, mutation_outcome) io" where
  "execute_list_membership rt repo l key change =
     (let acct = mc_account_id (mr_context rt); p = rr_provider_repository_id repo;
          fail = (\<lambda>reason. failed_outcome (mr_context rt) (kind_text (change_kind change)) p key reason)
      in
      io_bind (io_map_err MutPersistence (query (target_provider_id l acct))) (\<lambda>target.
        case target of
          None \<Rightarrow> fail ''the target list does not exist for the acting account''
        | Some target_provider \<Rightarrow>
            io_bind (io_map_err MutPersistence (query (live_member_list_ids acct p))) (\<lambda>current.
              let desired = desired_lists change target_provider current in
              io_settle (io_bind (resolve_node rt repo (change_kind change) key) (\<lambda>node.
                io_bind (call (\<lambda>n. ma_set_repository_lists (mr_gateway rt) n (mr_secret rt) node desired))
                  (\<lambda>write.
                  case write of
                    Inl err \<Rightarrow> io_map_err Inl (fail (provider_error_text err))
                  | Inr reply \<Rightarrow>
                      io_map_err (\<lambda>e. Inl (MutPersistence e))
                        (transact (persist_list_membership_tx (mr_context rt) p l key change desired))))))))"

section \<open>Execution\<close>

definition dispatch ::
    "mutation_runtime \<Rightarrow> mutation_request \<Rightarrow> (mutation_error, mutation_outcome) io" where
  "dispatch rt req =
     (case req of
        ReqStar repo key \<Rightarrow> execute_star_write rt repo key StarAdd
      | ReqUnstar repo key \<Rightarrow> execute_star_write rt repo key StarRemove
      | ReqListMemberAdd repo l key \<Rightarrow> execute_list_membership rt repo l key MemberAdd
      | ReqListMemberRemove repo l key \<Rightarrow> execute_list_membership rt repo l key MemberRemove)"

definition acquire_or_pause ::
    "mutation_runtime \<Rightarrow> mutation_request \<Rightarrow> (mutation_error, mutation_outcome) io" where
  "acquire_or_pause rt req w =
     (case acquire_now (mr_token rt) w of
        (Inl (RateLimited t), w') \<Rightarrow> paused_outcome (mr_show_time rt) (mr_context rt) req t w'
      | (Inr _, w') \<Rightarrow> dispatch rt req w')"

definition execute_mutation ::
    "mutation_runtime \<Rightarrow> mutation_request \<Rightarrow> (mutation_error, mutation_outcome) io" where
  "execute_mutation rt req =
     io_bind (io_map_err MutPersistence (query (authorization_refusal (mr_context rt) req))) (\<lambda>refusal.
       case refusal of
         Some reason \<Rightarrow> refused_outcome (mr_context rt) req reason
       | None \<Rightarrow>
           io_bind (io_map_err MutPersistence (successful_outcome_exists (request_key req))) (\<lambda>consumed.
             if consumed then
               io_return \<lparr>mu_idempotency_key = request_key req, mu_status = StatusAlreadyApplied\<rparr>
             else
               io_bind (io_map_err MutPersistence (query (ignored_star_conflict req))) (\<lambda>conflict.
                 case conflict of
                   Some reason \<Rightarrow> refused_outcome (mr_context rt) req reason
                 | None \<Rightarrow> acquire_or_pause rt req)))"

fun execute_batch ::
    "mutation_runtime \<Rightarrow> mutation_request list \<Rightarrow> (mutation_error, mutation_outcome list) io" where
  "execute_batch rt [] = io_return []"
| "execute_batch rt (req # reqs) =
     io_bind (execute_mutation rt req) (\<lambda>oc.
     io_bind (execute_batch rt reqs) (\<lambda>ocs. io_return (oc # ocs)))"

end
