(* ===== verification/Mutation_Safety.thy ===== *)
theory Mutation_Safety
  imports Mutations
begin

text \<open>
  What authorized mutations guarantee: enforcement happens before any provider contact, a consumed
  idempotency key is never executed again, every attempt is audited once, local state changes only
  on the provider's confirmation, and list writes preserve every other membership.
\<close>

section \<open>Operations that do not contact the provider\<close>

definition quiet :: "('e, 'a) io \<Rightarrow> bool" where
  "quiet m \<longleftrightarrow> (\<forall>w. w_calls (snd (m w)) = w_calls w \<and> w_ledger (snd (m w)) = w_ledger w)"

lemma quiet_transact: "quiet (transact t)"
  by (auto simp: quiet_def transact_def transact_with_def Let_def
      split: list.split bool.split sum.split prod.split)

lemma quiet_query: "quiet (query f)"
  by (simp add: query_def quiet_transact)

lemma quiet_return: "quiet (io_return x)"
  by (simp add: quiet_def io_return_def)

lemma quiet_map_err: "quiet m \<Longrightarrow> quiet (io_map_err g m)"
  by (auto simp: quiet_def io_map_err_def split: prod.split sum.split) (metis snd_conv)+

lemma quiet_bind: "quiet m \<Longrightarrow> (\<And>x. quiet (f x)) \<Longrightarrow> quiet (io_bind m f)"
  by (auto simp: quiet_def io_bind_def split: prod.split sum.split) (metis snd_conv)+

lemmas quiet_intros = quiet_transact quiet_query quiet_return quiet_map_err quiet_bind

lemma quiet_refused: "quiet (refused_outcome ctx req reason)"
  unfolding refused_outcome_def record_attempt_def by (intro quiet_intros)

text \<open>A query followed by the rest: it either fails and changes nothing, or answers the truth.\<close>

lemma bind_query_cases:
  assumes "io_bind (io_map_err g (query f)) k w = (r, w')"
  obtains (lost) e where "r = Inl (g e)" "w_db w' = w_db w" "w_calls w' = w_calls w"
      "w_ledger w' = w_ledger w"
  | (answered) w1 where "k (f (w_db w)) w1 = (r, w')" "w_db w1 = w_db w" "w_calls w1 = w_calls w"
      "w_ledger w1 = w_ledger w"
proof (cases "query f w")
  case (Pair q w1)
  have same: "w_calls w1 = w_calls w" "w_ledger w1 = w_ledger w"
    using quiet_query [of f] Pair by (auto simp: quiet_def) (metis snd_conv)+
  show ?thesis
  proof (cases q)
    case (Inl e)
    with Pair have "w_db w1 = w_db w" by (simp add: query_InlD)
    with assms Pair Inl same lost [of e] show ?thesis by (simp add: io_bind_def io_map_err_def)
  next
    case (Inr x)
    with Pair have "x = f (w_db w)" "w_db w1 = w_db w" by (auto dest: query_InrD)
    with assms Pair Inr same answered [of w1] show ?thesis by (simp add: io_bind_def io_map_err_def)
  qed
qed

text \<open>The execution taken apart by what enforcement finds.\<close>

lemma execute_mutation_cases:
  assumes "execute_mutation rt req w = (r, w')"
  obtains (lost) e where "r = Inl (MutPersistence e)" "w_db w' = w_db w" "w_calls w' = w_calls w"
      "w_ledger w' = w_ledger w"
  | (refused) reason w1 where
      "authorization_refusal (mr_context rt) req (w_db w) = Some reason \<or>
       authorization_refusal (mr_context rt) req (w_db w) = None \<and>
       \<not> key_consumed (request_key req) (w_db w) \<and> ignored_star_conflict req (w_db w) = Some reason"
      "refused_outcome (mr_context rt) req reason w1 = (r, w')"
      "w_db w1 = w_db w" "w_calls w1 = w_calls w" "w_ledger w1 = w_ledger w"
  | (replayed) "authorization_refusal (mr_context rt) req (w_db w) = None"
      "key_consumed (request_key req) (w_db w)"
      "r = Inr \<lparr>mu_idempotency_key = request_key req, mu_status = StatusAlreadyApplied\<rparr>"
      "w_db w' = w_db w" "w_calls w' = w_calls w" "w_ledger w' = w_ledger w"
  | (cleared) w1 where "authorization_refusal (mr_context rt) req (w_db w) = None"
      "\<not> key_consumed (request_key req) (w_db w)" "ignored_star_conflict req (w_db w) = None"
      "acquire_or_pause rt req w1 = (r, w')" "w_db w1 = w_db w" "w_calls w1 = w_calls w"
      "w_ledger w1 = w_ledger w"
  using assms unfolding execute_mutation_def
proof (cases rule: bind_query_cases)
  case (lost e)
  then show ?thesis by (rule that(1))
next
  case (answered w1)
  show ?thesis
  proof (cases "authorization_refusal (mr_context rt) req (w_db w)")
    case (Some reason)
    with answered that(2) show ?thesis by simp
  next
    case None
    with answered(1) have "io_bind (io_map_err MutPersistence (query (key_consumed (request_key req))))
      (\<lambda>consumed. if consumed then
         io_return \<lparr>mu_idempotency_key = request_key req, mu_status = StatusAlreadyApplied\<rparr>
       else
         io_bind (io_map_err MutPersistence (query (ignored_star_conflict req))) (\<lambda>conflict.
           case conflict of
             Some reason \<Rightarrow> refused_outcome (mr_context rt) req reason
           | None \<Rightarrow> acquire_or_pause rt req)) w1 = (r, w')"
      by (simp add: successful_outcome_exists_def)
    then show ?thesis
    proof (cases rule: bind_query_cases)
      case (lost e)
      with answered that(1) show ?thesis by simp
    next
      case (answered w2)
      show ?thesis
      proof (cases "key_consumed (request_key req) (w_db w)")
        case True
        with answered None \<open>w_db w1 = w_db w\<close> \<open>w_calls w1 = w_calls w\<close> \<open>w_ledger w1 = w_ledger w\<close>
        show ?thesis by (intro that(3)) (auto simp: io_return_def)
      next
        case False
        with answered(1) \<open>w_db w1 = w_db w\<close>
        have "io_bind (io_map_err MutPersistence (query (ignored_star_conflict req))) (\<lambda>conflict.
           case conflict of
             Some reason \<Rightarrow> refused_outcome (mr_context rt) req reason
           | None \<Rightarrow> acquire_or_pause rt req) w2 = (r, w')"
          by simp
        then show ?thesis
        proof (cases rule: bind_query_cases)
          case (lost e)
          with answered \<open>w_db w1 = w_db w\<close> \<open>w_calls w1 = w_calls w\<close> \<open>w_ledger w1 = w_ledger w\<close>
          show ?thesis by (intro that(1)) auto
        next
          case (answered w3)
          with \<open>w_db w2 = w_db w1\<close> \<open>w_calls w2 = w_calls w1\<close> \<open>w_ledger w2 = w_ledger w1\<close>
            \<open>w_db w1 = w_db w\<close> \<open>w_calls w1 = w_calls w\<close> \<open>w_ledger w1 = w_ledger w\<close>
          have w3: "w_db w3 = w_db w" "w_calls w3 = w_calls w" "w_ledger w3 = w_ledger w"
            "w_db w2 = w_db w" by simp_all
          show ?thesis
          proof (cases "ignored_star_conflict req (w_db w)")
            case None
            with answered(1) w3 False \<open>authorization_refusal (mr_context rt) req (w_db w) = None\<close>
            show ?thesis by (intro that(4) [of w3]) simp_all
          next
            case (Some reason)
            with answered(1) w3 False \<open>authorization_refusal (mr_context rt) req (w_db w) = None\<close>
            show ?thesis by (intro that(2) [of reason w3]) simp_all
          qed
        qed
      qed
    qed
  qed
qed

section \<open>Recorded attempts\<close>

text \<open>The audit outcome that belongs to a reported status.\<close>

fun audited_as :: "mutation_status \<Rightarrow> audit_outcome" where
  "audited_as StatusApplied = AuditApplied"
| "audited_as StatusAlreadyApplied = AuditAlreadyApplied"
| "audited_as (StatusRejected reason) = AuditRejected"
| "audited_as (StatusFailed reason) = AuditFailed"

definition audited :: "string \<Rightarrow> mutation_status \<Rightarrow> catalog \<Rightarrow> catalog \<Rightarrow> bool" where
  "audited key status db db' \<longleftrightarrow>
     (\<exists>a. audit db' = audit db @ [a] \<and> au_key a = key \<and> au_outcome a = audited_as status)"

lemma attempt_cases:
  assumes "io_bind (io_map_err MutPersistence (transact (record_attempt_tx ctx p kind key oc d)))
      (\<lambda>_. io_return \<lparr>mu_idempotency_key = key', mu_status = status\<rparr>) w = (r, w')"
    and "\<not> audit_success oc" and "audited_as status = oc"
  obtains (lost) e where "r = Inl (MutPersistence e)" "w_db w' = w_db w"
  | (recorded) "r = Inr \<lparr>mu_idempotency_key = key', mu_status = status\<rparr>"
      "audited key status (w_db w) (w_db w')" "same_authority (w_db w) (w_db w')"
proof (cases "transact (record_attempt_tx ctx p kind key oc d) w")
  case (Pair q w1)
  show ?thesis
  proof (cases q)
    case (Inl e)
    with Pair have "w_db w1 = w_db w" by (simp add: transact_InlD)
    with assms(1) Pair Inl lost [of e] show ?thesis by (simp add: io_bind_def io_map_err_def)
  next
    case (Inr u)
    with Pair have tx: "record_attempt_tx ctx p kind key oc d (w_db w) = Inr (u, w_db w1)"
      by (simp add: transact_InrD)
    from assms(1) Pair Inr have "w1 = w'" "r = Inr \<lparr>mu_idempotency_key = key', mu_status = status\<rparr>"
      by (auto simp: io_bind_def io_map_err_def io_return_def)
    with record_attempt_tx_Inr [OF tx] assms(2,3) recorded show ?thesis
      by (simp add: audited_def)
  qed
qed

lemma refused_cases:
  assumes "refused_outcome ctx req reason w = (r, w')"
  obtains (lost) e where "r = Inl (MutPersistence e)" "w_db w' = w_db w"
  | (recorded) "r = Inr \<lparr>mu_idempotency_key = request_key req, mu_status = StatusRejected reason\<rparr>"
      "audited (request_key req) (StatusRejected reason) (w_db w) (w_db w')"
      "same_authority (w_db w) (w_db w')"
  using assms unfolding refused_outcome_def record_attempt_def
  by (rule attempt_cases) (simp_all add: audit_success_def)

lemma paused_cases:
  assumes "paused_outcome sh ctx req t w = (r, w')"
  obtains (lost) e where "r = Inl (MutPersistence e)" "w_db w' = w_db w"
  | (recorded) why where "r = Inr \<lparr>mu_idempotency_key = request_key req, mu_status = StatusFailed why\<rparr>"
      "audited (request_key req) (StatusFailed why) (w_db w) (w_db w')"
      "same_authority (w_db w) (w_db w')"
  using assms unfolding paused_outcome_def record_attempt_def
  by (rule attempt_cases) (auto simp: audit_success_def)

lemma failed_cases:
  assumes "failed_outcome ctx kind p key why w = (r, w')"
  obtains (lost) e where "r = Inl (MutPersistence e)" "w_db w' = w_db w"
  | (recorded) "r = Inr \<lparr>mu_idempotency_key = key, mu_status = StatusFailed why\<rparr>"
      "audited key (StatusFailed why) (w_db w) (w_db w')" "same_authority (w_db w) (w_db w')"
  using assms unfolding failed_outcome_def
  by (rule attempt_cases) (simp_all add: audit_success_def)

section \<open>Enforcement precedes provider contact\<close>

text \<open>What blocks a request, in terms of the records it is judged by.\<close>

definition acting_connected :: "mutation_context \<Rightarrow> catalog \<Rightarrow> bool" where
  "acting_connected ctx db \<longleftrightarrow>
     (\<exists>a. find_by acct_id (mc_account_id ctx) (accounts db) = Some a \<and> acct_status a = Connected)"

definition acting_scoped :: "mutation_context \<Rightarrow> mutation_request \<Rightarrow> catalog \<Rightarrow> bool" where
  "acting_scoped ctx req db \<longleftrightarrow>
     (\<exists>a scope. find_by acct_id (mc_account_id ctx) (accounts db) = Some a \<and> scope \<in> set (acct_scopes a) \<and>
       (case req of
          ReqStar r k \<Rightarrow> scope = ''repo'' \<or> scope = ''public_repo''
        | ReqUnstar r k \<Rightarrow> scope = ''repo'' \<or> scope = ''public_repo''
        | _ \<Rightarrow> scope = ''user''))"

definition stars_ignored :: "mutation_request \<Rightarrow> catalog \<Rightarrow> bool" where
  "stars_ignored req db \<longleftrightarrow>
     (\<exists>r k x. req = ReqStar r k \<and> repo_mode x = Some Ignored \<and>
       find_by repo_provider_id (rr_provider_repository_id r) (repositories db) = Some x)"

definition blocked :: "mutation_context \<Rightarrow> mutation_request \<Rightarrow> catalog \<Rightarrow> bool" where
  "blocked ctx req db \<longleftrightarrow>
     \<not> acting_connected ctx db \<or> \<not> acting_scoped ctx req db \<or> key_consumed (request_key req) db \<or>
     stars_ignored req db"

lemma authorization_refusal_eq:
  "authorization_refusal ctx req db =
     (if \<not> acting_connected ctx db then Some AccountNotConnected
      else if \<not> acting_scoped ctx req db then Some MissingScope else None)"
  by (cases req) (auto simp: authorization_refusal_def acting_connected_def acting_scoped_def
      satisfied_by_def split: option.splits)

lemma ignored_star_conflict_eq:
  "ignored_star_conflict req db = (if stars_ignored req db then Some RepositoryIgnored else None)"
  by (cases req) (auto simp: ignored_star_conflict_def stars_ignored_def split: option.splits)

text \<open>
  C25. Enforcement comes first: a request of an account that is not connected or lacks the scope,
  a request whose key a success already holds, and a star on an ignored repository never reach the
  provider and never spend budget; nothing but the audit trail changes, and the outcome, unless the
  trail itself is out of reach, is the refusal or, for the consumed key, the replay.
\<close>

theorem blocked_mutation_contacts_nobody:
  assumes "blocked (mr_context rt) req (w_db w)"
  shows "case execute_mutation rt req w of
    (r, w') \<Rightarrow> w_calls w' = w_calls w \<and> w_ledger w' = w_ledger w \<and>
      same_authority (w_db w) (w_db w') \<and>
      (case r of
         Inl e \<Rightarrow> (\<exists>s. e = MutPersistence s)
       | Inr oc \<Rightarrow> mu_status oc =
           (if \<not> acting_connected (mr_context rt) (w_db w) then StatusRejected AccountNotConnected
            else if \<not> acting_scoped (mr_context rt) req (w_db w) then StatusRejected MissingScope
            else if key_consumed (request_key req) (w_db w) then StatusAlreadyApplied
            else StatusRejected RepositoryIgnored))"
proof -
  obtain r w' where ex: "execute_mutation rt req w = (r, w')" by (cases "execute_mutation rt req w")
  from ex show ?thesis
  proof (cases rule: execute_mutation_cases)
    case (lost e)
    with ex show ?thesis by (simp add: authority_frame.R_refl)
  next
    case (refused reason w1)
    have q: "w_calls w' = w_calls w1 \<and> w_ledger w' = w_ledger w1"
      using quiet_refused [of "mr_context rt" req reason] refused(2)
      unfolding quiet_def by (metis snd_conv)
    show ?thesis
      using refused(2)
    proof (cases rule: refused_cases)
      case (lost e)
      with ex q refused(3-5) show ?thesis by (simp add: authority_frame.R_refl)
    next
      case recorded
      with ex q refused show ?thesis
        by (auto simp: authorization_refusal_eq ignored_star_conflict_eq split: if_splits)
    qed
  next
    case replayed
    with ex show ?thesis by (simp add: authority_frame.R_refl authorization_refusal_eq split: if_splits)
  next
    case (cleared w1)
    with assms show ?thesis
      by (simp add: blocked_def authorization_refusal_eq ignored_star_conflict_eq split: if_splits)
  qed
qed

section \<open>Steps of a write\<close>

text \<open>An attempt that ended without confirmation: authority as before, a failure reported and audited.\<close>

definition unconfirmed ::
    "string \<Rightarrow> catalog \<Rightarrow> (mutation_error, mutation_outcome) result \<Rightarrow> catalog \<Rightarrow> bool" where
  "unconfirmed key db r db' \<longleftrightarrow>
     same_authority db db' \<and>
     (case r of
        Inl e \<Rightarrow> audit db' = audit db
      | Inr oc \<Rightarrow> (\<exists>why. mu_status oc = StatusFailed why) \<and> mu_idempotency_key oc = key \<and>
          audited key (mu_status oc) db db')"

lemma unconfirmed_clock: "unconfirmed key (db\<lparr>db_clock := t\<rparr>) r db' \<longleftrightarrow> unconfirmed key db r db'"
  by (cases r) (simp_all add: unconfirmed_def audited_def same_authority_def same_stars_def
      same_lists_def repos_grow_def)

lemma failed_unconfirmed:
  assumes "failed_outcome ctx kind p key why w = (r, w')"
  shows "unconfirmed key (w_db w) r (w_db w')"
  using assms
  by (cases rule: failed_cases) (simp_all add: unconfirmed_def authority_frame.R_refl)

lemma provider_call_tick: "\<exists>t. w_db (snd (provider_call gw w)) = (w_db w)\<lparr>db_clock := t\<rparr>"
  by simp blast

lemma resolve_node_cases:
  assumes "resolve_node rt repo kind key w = (q, w')"
  obtains (resolved) node t where "q = Inr node" "w_db w' = (w_db w)\<lparr>db_clock := t\<rparr>"
  | (ended) r where "q = Inl r" "unconfirmed key (w_db w) r (w_db w')"
proof -
  let ?gw = "\<lambda>n. ma_fetch_repository_node_id (mr_gateway rt) n (mr_secret rt) (rr_owner repo) (rr_name repo)"
  let ?w1 = "snd (provider_call ?gw w)"
  obtain t where t: "w_db ?w1 = (w_db w)\<lparr>db_clock := t\<rparr>" using provider_call_tick by blast
  show ?thesis
  proof (cases "ans_result (?gw (w_calls w))")
    case (Inl err)
    obtain r w2 where f: "failed_outcome (mr_context rt) (kind_text kind)
        (rr_provider_repository_id repo) key (provider_error_text err) ?w1 = (r, w2)"
      by (cases "failed_outcome (mr_context rt) (kind_text kind)
        (rr_provider_repository_id repo) key (provider_error_text err) ?w1")
    have "unconfirmed key (w_db w) r (w_db w2)"
      using failed_unconfirmed [OF f] t by (simp add: unconfirmed_clock)
    moreover have "q = Inl r" "w' = w2"
      using assms f Inl unfolding resolve_node_def bind_call_eq
      by (auto simp: io_bind_def io_map_err_def io_fail_def split: sum.splits)
    ultimately show ?thesis using ended by blast
  next
    case (Inr reply)
    have rest: "io_bind (budget_observe (mr_token rt) (ni_rate_limit reply) (Inl MutPanicked))
        (\<lambda>_. io_return (ni_node_id reply)) ?w1 = (q, w')"
      using assms Inr unfolding resolve_node_def bind_call_eq by simp
    obtain b w2 where b: "budget_observe (mr_token rt) (ni_rate_limit reply)
        (Inl MutPanicked :: (mutation_error, mutation_outcome) result) ?w1 = (b, w2)"
      by (cases "budget_observe (mr_token rt) (ni_rate_limit reply)
        (Inl MutPanicked :: (mutation_error, mutation_outcome) result) ?w1")
    from b show ?thesis
    proof (cases rule: budget_observe_cases)
      case fine
      with rest b t show ?thesis
        by (intro resolved [of "ni_node_id reply" t]) (auto simp: io_bind_def io_return_def)
    next
      case panic
      with rest b t show ?thesis
        by (intro ended [of "Inl MutPanicked"])
          (auto simp: io_bind_def unconfirmed_def authority_frame.R_clock)
    qed
  qed
qed

text \<open>An operation that may end early, run step by step.\<close>

lemma settle_map_err: "io_settle (io_map_err Inl m) w = m w"
  by (simp add: io_settle_def io_map_err_def split: prod.split sum.split)

lemma settle_call:
  "io_settle (io_bind (call gw) k) w =
     io_settle (k (ans_result (gw (w_calls w)))) (snd (provider_call gw w))"
  by (simp add: io_settle_def bind_call_eq)

lemma settle_bind_Inr: "m w = (Inr x, w1) \<Longrightarrow> io_settle (io_bind m k) w = io_settle (k x) w1"
  by (simp add: io_settle_def io_bind_def)

lemma settle_bind_Inl: "m w = (Inl r, w1) \<Longrightarrow> io_settle (io_bind m k) w = (r, w1)"
  by (simp add: io_settle_def io_bind_def)

lemma execute_star_write_cases:
  assumes "execute_star_write rt repo key dir w = (r, w')"
  obtains (unconfirmed) "unconfirmed key (w_db w) r (w_db w')"
  | (unsaved) n node reply e where "ans_result (star_write_call rt dir node n) = Inr reply"
      "state_holds dir reply" "r = Inl (MutConfirmedPersistence e)" "same_authority (w_db w) (w_db w')"
      "audit (w_db w') = audit (w_db w)"
  | (saved) n node reply t oc where "ans_result (star_write_call rt dir node n) = Inr reply"
      "state_holds dir reply" "r = Inr oc"
      "persist_confirmed_star_tx (mr_context rt) (rr_provider_repository_id repo) key dir
         ((w_db w)\<lparr>db_clock := t\<rparr>) = Inr (oc, w_db w')"
proof -
  obtain q w1 where q: "resolve_node rt repo (direction_kind dir) key w = (q, w1)"
    by (cases "resolve_node rt repo (direction_kind dir) key w")
  from q show ?thesis
  proof (cases rule: resolve_node_cases)
    case (ended r')
    with assms q unconfirmed show ?thesis
      by (simp add: execute_star_write_def Let_def settle_bind_Inl)
  next
    case (resolved node t)
    let ?gw = "star_write_call rt dir node"
    define w2 where "w2 = snd (provider_call ?gw w1)"
    obtain t' where t': "w_db w2 = (w_db w)\<lparr>db_clock := t'\<rparr>"
      using provider_call_tick [of ?gw w1] resolved(2) by (auto simp: w2_def)
    note run = assms [unfolded execute_star_write_def Let_def
        settle_bind_Inr [where m = "resolve_node rt repo (direction_kind dir) key",
          OF q [unfolded resolved(1)]] settle_call, folded w2_def]
    show ?thesis
    proof (cases "ans_result (?gw (w_calls w1))")
      case (Inl err)
      with run have "failed_outcome (mr_context rt) (kind_text (direction_kind dir))
          (rr_provider_repository_id repo) key (provider_error_text err) w2 = (r, w')"
        by (simp add: settle_map_err)
      from failed_unconfirmed [OF this] t' show ?thesis
        by (intro unconfirmed) (simp add: unconfirmed_clock)
    next
      case (Inr reply)
      obtain b w3 where b: "budget_observe (mr_token rt) (sw_rate_limit reply)
          (Inl MutPanicked :: (mutation_error, mutation_outcome) result) w2 = (b, w3)"
        by (cases "budget_observe (mr_token rt) (sw_rate_limit reply)
          (Inl MutPanicked :: (mutation_error, mutation_outcome) result) w2")
      from b show ?thesis
      proof (cases rule: budget_observe_cases)
        case panic
        with run Inr b t' show ?thesis
          by (intro unconfirmed) (auto simp: settle_bind_Inl unconfirmed_def authority_frame.R_clock)
      next
        case fine
        with run Inr b have go: "io_settle
            (if \<not> state_holds dir reply
             then io_map_err Inl (failed_outcome (mr_context rt) (kind_text (direction_kind dir))
               (rr_provider_repository_id repo) key
               ''the provider did not confirm the requested star state'')
             else io_map_err (\<lambda>e. Inl (MutConfirmedPersistence e))
               (persist_confirmed_star (mr_context rt) (rr_provider_repository_id repo) key dir)) w3 =
            (r, w')"
          by (simp add: settle_bind_Inr)
        show ?thesis
        proof (cases "state_holds dir reply")
          case False
          with go failed_unconfirmed fine(2) t' show ?thesis
            by (intro unconfirmed) (fastforce simp: settle_map_err unconfirmed_clock)
        next
          case True
          obtain x w4 where p: "persist_confirmed_star (mr_context rt)
              (rr_provider_repository_id repo) key dir w3 = (x, w4)"
            by (cases "persist_confirmed_star (mr_context rt) (rr_provider_repository_id repo) key dir w3")
          show ?thesis
          proof (cases x)
            case (Inl e)
            with p have "w_db w4 = w_db w3" by (simp add: persist_confirmed_star_def transact_InlD)
            with True go p Inl fine(2) t' Inr show ?thesis
              by (intro unsaved [of node "w_calls w1" reply e])
                (auto simp: io_settle_def io_map_err_def authority_frame.R_clock)
          next
            case (Inr oc)
            with p have "persist_confirmed_star_tx (mr_context rt) (rr_provider_repository_id repo)
                key dir (w_db w3) = Inr (oc, w_db w4)"
              by (simp add: persist_confirmed_star_def transact_InrD)
            with True go p Inr fine(2) t' \<open>ans_result (?gw (w_calls w1)) = Inr reply\<close> show ?thesis
              by (intro saved [of node "w_calls w1" reply oc t'])
                (auto simp: io_settle_def io_map_err_def)
          qed
        qed
      qed
    qed
  qed
qed

section \<open>Local convergence of a star write\<close>

lemma mutation_merge_simps [simp]:
  "star_key (mutation_merge dir old new) = star_key old"
  "ss_starred (mutation_merge dir old new) \<longleftrightarrow> dir = StarAdd"
  by (cases dir; simp add: mutation_merge_def star_key_def)+

interpretation mutated_stars: keyed_table star_key "mutation_merge dir" for dir
  by unfold_locales simp

lemma mutated_star_simps [simp]:
  "star_key (mutated_star acct r dir now) = (acct, r)"
  "ss_starred (mutated_star acct r dir now) \<longleftrightarrow> dir = StarAdd"
  by (cases dir; simp add: mutated_star_def star_key_def)+

lemma apply_star_projection_star_of:
  "star_of (apply_star_projection acct r dir db) a x =
     (if (a, x) = (acct, r)
      then Some (case star_of db acct r of
             None \<Rightarrow> mutated_star acct r dir (db_clock db)
           | Some old \<Rightarrow> mutation_merge dir old (mutated_star acct r dir (db_clock db)))
      else star_of db a x)"
  by (auto simp: apply_star_projection_def star_of_def mutated_stars.find_upsert)

lemma apply_star_projection_starred:
  "is_starred (apply_star_projection acct r dir db) acct r \<longleftrightarrow> dir = StarAdd"
  by (auto simp: is_starred_def apply_star_projection_star_of split: option.split)

lemma release_auto_find:
  "find_by repo_id x (release_auto now r t) =
     map_option (\<lambda>y. if x = r \<and> repo_mode y = Some Auto
       then y\<lparr>repo_mode := None, repo_updated_at := now\<rparr> else y) (find_by repo_id x t)"
  using fold_release_auto [of x now "[r]" t] by simp

lemma apply_star_projection_mode:
  "mode_of (apply_star_projection acct r dir db) x =
     (if x = r \<and> x \<in> repo_id ` set (repositories db) then
        (case dir of
           StarAdd \<Rightarrow> (case mode_of db x of None \<Rightarrow> Some Auto | Some m \<Rightarrow> Some m)
         | StarRemove \<Rightarrow> if mode_of db x = Some Auto then None else mode_of db x)
      else mode_of db x)"
proof (cases "find_by repo_id x (repositories db)")
  case None
  then have "x \<notin> repo_id ` set (repositories db)" by (simp add: find_by_None)
  with None show ?thesis
    by (cases dir) (simp_all add: mode_of_def apply_star_projection_def find_by_update_where
        release_auto_find)
next
  case (Some y)
  then have "x \<in> repo_id ` set (repositories db)" "repo_id y = x" by (auto dest: find_by_SomeD)
  with Some show ?thesis
    by (cases dir) (auto simp: mode_of_def apply_star_projection_def find_by_update_where
        release_auto_find split: option.split)
qed

lemma apply_star_projection_provider:
  "repo_by_provider (apply_star_projection acct r dir db) p = repo_by_provider db p"
  by (cases dir) (auto simp: apply_star_projection_def repo_by_provider_def release_auto_def
      find_by_update_where option.map_comp comp_def intro!: map_option_cong)

lemma mark_dirty_frame:
  assumes "mark_backup_policy_dirty_in_tx db = Inr db'"
  shows "\<exists>c. db' = db\<lparr>policy_cursor := Some c\<rparr> \<and> cu_not_before c = Some (db_clock db + policy_debounce) \<and>
    cu_dirty c = cu_dirty (cursor_of db) + 1 \<and> cu_published c = cu_published (cursor_of db)"
  using assms
  by (auto simp: mark_backup_policy_dirty_in_tx_def mark_dirty_at_def cursor_of_def fresh_cursor_def
      split: option.splits if_splits)

text \<open>Everything the final transaction of a confirmed star write does when its key is free.\<close>

lemma persist_confirmed_star_effect:
  assumes "persist_confirmed_star_tx ctx p key dir db = Inr (oc, db')"
    and "\<not> key_consumed key db"
  obtains r where "repo_by_provider db' p = Some r"
    and "is_starred db' (mc_account_id ctx) r \<longleftrightarrow> dir = StarAdd"
    and "\<And>a x. (a, x) \<noteq> (mc_account_id ctx, r) \<Longrightarrow> star_of db' a x = star_of db a x"
    and "mu_idempotency_key oc = key"
    and "mu_status oc = (if is_starred db (mc_account_id ctx) r \<longleftrightarrow> dir = StarAdd
      then StatusAlreadyApplied else StatusApplied)"
    and "audited key (mu_status oc) db db'" and "key_consumed key db'" and "trail_grows db db'"
proof -
  let ?acct = "mc_account_id ctx"
  obtain r db1 where up: "upsert_repository_in_tx p db = Inr (r, db1)"
    using upsert_repository_total by blast
  note f1 = upsert_repository_frame [OF up] upsert_repository_audit [OF up]
  have star1: "star_of db1 a x = star_of db a x" for a x
    using f1(1) by (simp add: star_of_def same_authority_def same_stars_def)
  define new where "new \<longleftrightarrow> \<not> (is_starred db ?acct r \<longleftrightarrow> dir = StarAdd)"
  have newly: "(case dir of StarAdd \<Rightarrow> \<not> (case star_of db1 ?acct r of None \<Rightarrow> False | Some s \<Rightarrow> ss_starred s)
      | StarRemove \<Rightarrow> (case star_of db1 ?acct r of None \<Rightarrow> False | Some s \<Rightarrow> ss_starred s)) = new"
    by (cases dir) (auto simp: new_def is_starred_def star1)
  let ?db2 = "apply_star_projection ?acct r dir db1"
  obtain db3 where 3: "(if new then mark_backup_policy_dirty_in_tx ?db2 else Inr ?db2) = Inr db3"
    and fin: "(oc, db') = finish_with_replay_guard
         (insert_audit_row ctx r (kind_text (direction_kind dir)) key
           (if new then AuditApplied else AuditAlreadyApplied)
           (JObj [(''via'', JStr ''mutation'')]) db3) db key new"
    using assms(1) up newly by (auto simp: persist_confirmed_star_tx_def Let_def and_then_eq_Inr)
  have f3: "audit db3 = audit db" "star_state db3 = star_state ?db2" "repositories db3 = repositories ?db2"
    using 3 mark_dirty_frame [of ?db2 db3] f1(5)
    by (auto simp: apply_star_projection_def split: if_splits)
  have free: "\<not> key_consumed key db3" using assms(2) f3(1) by (simp add: key_consumed_def)
  let ?row = "insert_audit_row ctx r (kind_text (direction_kind dir)) key
      (if new then AuditApplied else AuditAlreadyApplied) (JObj [(''via'', JStr ''mutation'')]) db3"
  have won: "fst ?row \<noteq> 0" using free unfolding insert_audit_row_won by simp
  then have oc: "oc = \<lparr>mu_idempotency_key = key,
      mu_status = (if new then StatusApplied else StatusAlreadyApplied)\<rparr>" and db': "db' = snd ?row"
    using fin by (simp_all add: finish_with_replay_guard_def)
  have row: "audit db' = audit db @ [\<lparr>au_key = key, au_account = ?acct, au_repo = r, au_list = None,
      au_kind = kind_text (direction_kind dir), au_principal = mc_principal ctx,
      au_source = source_text (mc_source ctx),
      au_outcome = (if new then AuditApplied else AuditAlreadyApplied),
      au_detail = JObj [(''via'', JStr ''mutation'')], au_created = db_clock db3\<rparr>]"
    using free f3(1) by (simp add: db' insert_audit_row_def)
  have star: "star_of db' a x = star_of ?db2 a x" for a x
    using f3 by (simp add: db' star_of_def)
  have known: "repo_by_provider db' p = Some r"
  proof -
    have "repositories db' = repositories ?db2" using f3 by (simp add: db')
    then have "repo_by_provider db' p = repo_by_provider ?db2 p" by (simp add: repo_by_provider_def)
    then show ?thesis
      using repo_identity.makes_known [OF up] by (simp add: apply_star_projection_provider)
  qed
  have "is_starred db' ?acct r \<longleftrightarrow> dir = StarAdd"
    using apply_star_projection_starred [of ?acct r dir db1] by (simp add: is_starred_def star)
  moreover have "star_of db' a x = star_of db a x" if "(a, x) \<noteq> (?acct, r)" for a x
    using that by (auto simp: star apply_star_projection_star_of star1)
  moreover have "audited key (mu_status oc) db db'" by (simp add: audited_def row oc)
  moreover have "key_consumed key db'" using insert_audit_row_consumes [OF won] by (simp add: db' audit_success_def)
  moreover have "trail_grows db db'"
    using same_audit_trail [OF f3(1)] insert_audit_row_trail unfolding db' by (rule trail_frame.R_trans)
  ultimately show ?thesis using known by (intro that [of r]) (simp_all add: oc new_def)
qed

section \<open>Starring and unstarring\<close>

definition star_request :: "star_direction \<Rightarrow> repository_ref \<Rightarrow> string \<Rightarrow> mutation_request" where
  "star_request dir repo key = (case dir of StarAdd \<Rightarrow> ReqStar repo key | StarRemove \<Rightarrow> ReqUnstar repo key)"

lemma star_request_simps [simp]:
  "request_key (star_request dir repo key) = key"
  "request_repository (star_request dir repo key) = repo"
  by (cases dir; simp add: star_request_def)+

lemma dispatch_star: "dispatch rt (star_request dir repo key) = execute_star_write rt repo key dir"
  by (cases dir) (simp_all add: dispatch_def star_request_def)

lemma key_consumed_clock [simp]: "key_consumed key (db\<lparr>db_clock := t\<rparr>) = key_consumed key db"
  by (simp add: key_consumed_def)

text \<open>What a request that is not a replay can end with before it is dispatched.\<close>

lemma unreplayed_cases:
  assumes "execute_mutation rt req w = (r, w')" and "\<not> key_consumed (request_key req) (w_db w)"
  obtains (refused) reason where
      "r = Inr \<lparr>mu_idempotency_key = request_key req, mu_status = StatusRejected reason\<rparr>"
      "audited (request_key req) (StatusRejected reason) (w_db w) (w_db w')"
      "same_authority (w_db w) (w_db w')"
  | (unconfirmed) "unconfirmed (request_key req) (w_db w) r (w_db w')"
  | (dispatched) w2 where "dispatch rt req w2 = (r, w')" "w_db w2 = w_db w"
  using assms(1)
proof (cases rule: execute_mutation_cases)
  case (lost e)
  then show ?thesis by (intro that(2)) (simp add: unconfirmed_def authority_frame.R_refl)
next
  case (refused reason w1)
  from refused(2) show ?thesis
  proof (cases rule: refused_cases)
    case (lost e)
    with refused(3) show ?thesis by (intro that(2)) (simp add: unconfirmed_def authority_frame.R_refl)
  next
    case recorded
    with refused(3) show ?thesis by (intro that(1) [of reason]) simp_all
  qed
next
  case replayed
  with assms(2) show ?thesis by simp
next
  case (cleared w1)
  obtain q w2 where q: "acquire_now (mr_token rt) w1 = (q, w2)" by (cases "acquire_now (mr_token rt) w1")
  have db2: "w_db w2 = w_db w" using acquire_now_other [OF q] cleared(5) by simp
  show ?thesis
  proof (cases q)
    case (Inl e)
    obtain t where "e = RateLimited t" by (cases e)
    with Inl q cleared(4)
    have "paused_outcome (mr_show_time rt) (mr_context rt) req t w2 = (r, w')"
      by (simp add: acquire_or_pause_def)
    then show ?thesis
      using db2
      by (cases rule: paused_cases)
        (auto intro!: that(2) simp: unconfirmed_def authority_frame.R_refl)
  next
    case (Inr u)
    with q cleared(4) db2 show ?thesis by (intro that(3) [of w2]) (simp_all add: acquire_or_pause_def)
  qed
qed

lemma star_mutation_cases:
  assumes "execute_mutation rt (star_request dir repo key) w = (r, w')"
    and "\<not> key_consumed key (w_db w)"
  obtains (refused) reason where "r = Inr \<lparr>mu_idempotency_key = key, mu_status = StatusRejected reason\<rparr>"
      "audited key (StatusRejected reason) (w_db w) (w_db w')" "same_authority (w_db w) (w_db w')"
  | (unconfirmed) "unconfirmed key (w_db w) r (w_db w')"
  | (unsaved) n node reply e where "ans_result (star_write_call rt dir node n) = Inr reply"
      "state_holds dir reply" "r = Inl (MutConfirmedPersistence e)" "same_authority (w_db w) (w_db w')"
      "audit (w_db w') = audit (w_db w)"
  | (saved) n node reply t oc where "ans_result (star_write_call rt dir node n) = Inr reply"
      "state_holds dir reply" "r = Inr oc"
      "persist_confirmed_star_tx (mr_context rt) (rr_provider_repository_id repo) key dir
         ((w_db w)\<lparr>db_clock := t\<rparr>) = Inr (oc, w_db w')"
proof -
  have free: "\<not> key_consumed (request_key (star_request dir repo key)) (w_db w)"
    using assms(2) by simp
  from assms(1) free show ?thesis
  proof (cases rule: unreplayed_cases)
    case (refused reason)
    then show ?thesis by (intro that(1) [of reason]) simp_all
  next
    case unconfirmed
    then show ?thesis by (intro that(2)) simp
  next
    case (dispatched w2)
    then have "execute_star_write rt repo key dir w2 = (r, w')" by (simp add: dispatch_star)
    then show ?thesis
    proof (cases rule: execute_star_write_cases)
      case unconfirmed
      with dispatched(2) show ?thesis by (intro that(2)) simp
    next
      case (unsaved n node reply e)
      with dispatched(2) show ?thesis by (intro that(3)) simp_all
    next
      case (saved n node reply t oc)
      with dispatched(2) show ?thesis by (intro that(4)) simp_all
    qed
  qed
qed

text \<open>
  C5. A star or unstar is truthful. When a request with a free key reports that it applied, or that
  the state already held, the provider has confirmed the requested state and the projection of the
  acting account says so for the repository's stable identity, all other stars being untouched -
  and it reports ``applied'' exactly if the projection changed. When it reports a refusal or a
  failure, or fails itself (also after the provider's confirmation), no star, list or mode differs.
\<close>

theorem star_mutation_truthful:
  assumes "\<not> key_consumed key (w_db w)"
  shows "case execute_mutation rt (star_request dir repo key) w of
    (Inr oc, w') \<Rightarrow>
      if mu_status oc \<in> {StatusApplied, StatusAlreadyApplied}
      then (\<exists>n node reply. ans_result (star_write_call rt dir node n) = Inr reply \<and>
          (sw_viewer_has_starred reply \<longleftrightarrow> dir = StarAdd)) \<and>
        (\<exists>r. repo_by_provider (w_db w') (rr_provider_repository_id repo) = Some r \<and>
          (is_starred (w_db w') (mc_account_id (mr_context rt)) r \<longleftrightarrow> dir = StarAdd) \<and>
          (mu_status oc = StatusApplied \<longleftrightarrow>
            (is_starred (w_db w) (mc_account_id (mr_context rt)) r \<longleftrightarrow> dir \<noteq> StarAdd)) \<and>
          (\<forall>a x. (a, x) \<noteq> (mc_account_id (mr_context rt), r) \<longrightarrow>
            star_of (w_db w') a x = star_of (w_db w) a x))
      else same_authority (w_db w) (w_db w')
  | (Inl e, w') \<Rightarrow> same_authority (w_db w) (w_db w')"
proof -
  obtain r w' where ex: "execute_mutation rt (star_request dir repo key) w = (r, w')"
    by (cases "execute_mutation rt (star_request dir repo key) w")
  from ex assms show ?thesis
  proof (cases rule: star_mutation_cases)
    case (refused reason)
    with ex show ?thesis by simp
  next
    case unconfirmed
    with ex show ?thesis by (cases r) (auto simp: unconfirmed_def)
  next
    case (unsaved n node reply e)
    with ex show ?thesis by simp
  next
    case (saved n node reply t oc)
    let ?db = "(w_db w)\<lparr>db_clock := t\<rparr>"
    have clock: "star_of ?db a x = star_of (w_db w) a x" "is_starred ?db a x = is_starred (w_db w) a x" for a x
      by (simp_all add: star_of_def is_starred_def)
    have free: "\<not> key_consumed key ?db" using assms by simp
    obtain i where
      "repo_by_provider (w_db w') (rr_provider_repository_id repo) = Some i"
      "is_starred (w_db w') (mc_account_id (mr_context rt)) i \<longleftrightarrow> dir = StarAdd"
      "\<And>a x. (a, x) \<noteq> (mc_account_id (mr_context rt), i) \<Longrightarrow> star_of (w_db w') a x = star_of ?db a x"
      "mu_status oc = (if is_starred ?db (mc_account_id (mr_context rt)) i \<longleftrightarrow> dir = StarAdd
        then StatusAlreadyApplied else StatusApplied)"
      using persist_confirmed_star_effect [OF saved(4) free] by metis
    note this [unfolded clock]
    moreover have "sw_viewer_has_starred reply \<longleftrightarrow> dir = StarAdd"
      using saved(2) by (cases dir) (simp_all add: state_holds_def)
    ultimately show ?thesis using ex saved(1,3) by auto
  qed
qed

section \<open>List membership\<close>

lemma execute_list_membership_cases:
  assumes "execute_list_membership rt repo l key change w = (r, w')"
  obtains (unconfirmed) "unconfirmed key (w_db w) r (w_db w')"
  | (saved) target n node reply t oc where
      "target_provider_id l (mc_account_id (mr_context rt)) (w_db w) = Some target"
      "ans_result (ma_set_repository_lists (mr_gateway rt) n (mr_secret rt) node
         (desired_lists change target (live_member_list_ids (mc_account_id (mr_context rt))
            (rr_provider_repository_id repo) (w_db w)))) = Inr reply"
      "r = Inr oc"
      "persist_list_membership_tx (mr_context rt) (rr_provider_repository_id repo) l key change
         (desired_lists change target (live_member_list_ids (mc_account_id (mr_context rt))
            (rr_provider_repository_id repo) (w_db w)))
         ((w_db w)\<lparr>db_clock := t\<rparr>) = Inr (oc, w_db w')"
  using assms unfolding execute_list_membership_def Let_def
proof (cases rule: bind_query_cases)
  case (lost e)
  then show ?thesis by (intro that(1)) (simp add: unconfirmed_def authority_frame.R_refl)
next
  case (answered w1)
  let ?acct = "mc_account_id (mr_context rt)" and ?p = "rr_provider_repository_id repo"
  show ?thesis
  proof (cases "target_provider_id l ?acct (w_db w)")
    case None
    with answered failed_unconfirmed show ?thesis by (intro that(1)) fastforce
  next
    case (Some target)
    let ?desired = "desired_lists change target (live_member_list_ids ?acct ?p (w_db w))"
    from answered(1) [unfolded Some option.case] show ?thesis
    proof (cases rule: bind_query_cases)
      case (lost e)
      with answered(2) show ?thesis by (intro that(1)) (simp add: unconfirmed_def authority_frame.R_refl)
    next
      case (answered w2)
      then have db2: "w_db w2 = w_db w" using \<open>w_db w1 = w_db w\<close> by simp
      obtain q w3 where q: "resolve_node rt repo (change_kind change) key w2 = (q, w3)"
        by (cases "resolve_node rt repo (change_kind change) key w2")
      from q show ?thesis
      proof (cases rule: resolve_node_cases)
        case (ended r')
        with answered(1) q db2 show ?thesis
          by (intro that(1)) (simp add: settle_bind_Inl)
      next
        case (resolved node t)
        let ?gw = "\<lambda>n. ma_set_repository_lists (mr_gateway rt) n (mr_secret rt) node ?desired"
        define w4 where "w4 = snd (provider_call ?gw w3)"
        obtain t' where t': "w_db w4 = (w_db w)\<lparr>db_clock := t'\<rparr>"
          using provider_call_tick [of ?gw w3] resolved(2) db2 by (auto simp: w4_def)
        note run = answered(1) [unfolded \<open>w_db w1 = w_db w\<close>
            settle_bind_Inr [where m = "resolve_node rt repo (change_kind change) key",
              OF q [unfolded resolved(1)]] settle_call, folded w4_def]
        show ?thesis
        proof (cases "ans_result (?gw (w_calls w3))")
          case (Inl err)
          with run have "failed_outcome (mr_context rt) (kind_text (change_kind change)) ?p key
              (provider_error_text err) w4 = (r, w')"
            by (simp add: settle_map_err)
          from failed_unconfirmed [OF this] t' show ?thesis
            by (intro that(1)) (simp add: unconfirmed_clock)
        next
          case (Inr reply)
          with run have go: "io_settle (io_map_err (\<lambda>e. Inl (MutPersistence e))
              (transact (persist_list_membership_tx (mr_context rt) ?p l key change ?desired))) w4 = (r, w')"
            by simp
          obtain x w5 where x: "transact (persist_list_membership_tx (mr_context rt) ?p l key change
              ?desired) w4 = (x, w5)"
            by (cases "transact (persist_list_membership_tx (mr_context rt) ?p l key change ?desired) w4")
          show ?thesis
          proof (cases x)
            case (Inl e)
            with x have "w_db w5 = w_db w4" by (simp add: transact_InlD)
            with go x Inl t' show ?thesis
              by (intro that(1))
                (auto simp: io_settle_def io_map_err_def unconfirmed_def authority_frame.R_clock)
          next
            case (Inr oc)
            with x have "persist_list_membership_tx (mr_context rt) ?p l key change ?desired (w_db w4) =
                Inr (oc, w_db w5)" by (simp add: transact_InrD)
            with go x Inr t' Some \<open>ans_result (?gw (w_calls w3)) = Inr reply\<close> show ?thesis
              by (intro that(2) [of target "w_calls w3" node reply oc t'])
                (auto simp: io_settle_def io_map_err_def)
          qed
        qed
      qed
    qed
  qed
qed

lemma desired_lists_set:
  "sorted (desired_lists change target current)" "distinct (desired_lists change target current)"
  "set (desired_lists change target current) =
     (case change of MemberAdd \<Rightarrow> insert target (set current) | MemberRemove \<Rightarrow> set current - {target})"
proof -
  have "sorted xs \<Longrightarrow> sorted (remdups_adj xs) \<and> distinct (remdups_adj xs)" for xs :: "string list"
    by (induction xs rule: remdups_adj.induct) (auto simp: order.strict_iff_order)
  then show "sorted (desired_lists change target current)"
    "distinct (desired_lists change target current)"
    by (simp_all add: desired_lists_def)
  show "set (desired_lists change target current) =
     (case change of MemberAdd \<Rightarrow> insert target (set current) | MemberRemove \<Rightarrow> set current - {target})"
    by (cases change) (auto simp: desired_lists_def)
qed

lemma membership_merge_simps [simp]:
  "member_key (membership_merge old new) = member_key old"
  "lm_member (membership_merge old new) = lm_member new"
  by (simp_all add: membership_merge_def member_key_def)

interpretation mutated_members: keyed_table member_key membership_merge
  by unfold_locales simp

lemma mutated_member_simps [simp]:
  "member_key (mutated_member l r change now) = (l, r)"
  "lm_member (mutated_member l r change now) \<longleftrightarrow> change = MemberAdd"
  by (simp_all add: mutated_member_def member_key_def)

text \<open>Everything the final transaction of a confirmed list write does when its key is free.\<close>

lemma persist_list_membership_effect:
  assumes "persist_list_membership_tx ctx p l key change desired db = Inr (oc, db')"
    and "\<not> key_consumed key db"
  obtains r m where "repo_by_provider db' p = Some r"
    and "find_by member_key (l, r) (memberships db') = Some m" and "lm_member m \<longleftrightarrow> change = MemberAdd"
    and "\<And>k. k \<noteq> (l, r) \<Longrightarrow> find_by member_key k (memberships db') = find_by member_key k (memberships db)"
    and "oc = \<lparr>mu_idempotency_key = key, mu_status = StatusApplied\<rparr>"
    and "same_stars db db'" and "star_lists db' = star_lists db"
    and "audited key StatusApplied db db'" and "key_consumed key db'" and "trail_grows db db'"
proof -
  obtain r db1 where up: "upsert_repository_in_tx p db = Inr (r, db1)"
    using upsert_repository_total by blast
  note f1 = upsert_repository_frame [OF up] upsert_repository_audit [OF up]
  have same1: "memberships db1 = memberships db" "star_lists db1 = star_lists db" "same_stars db db1"
    using f1(1) by (simp_all add: same_authority_def same_lists_def)
  let ?db2 = "converge_membership_projection l r change db1"
  let ?d = "JObj [(''via'', JStr ''mutation''), (''desired_list_ids'', JArr (map JStr desired))]"
  let ?row = "insert_audit_row ctx r (kind_text (change_kind change)) key AuditApplied ?d ?db2"
  have free: "\<not> key_consumed key ?db2"
    using assms(2) f1(5) by (simp add: key_consumed_def converge_membership_projection_def)
  then have won: "fst ?row \<noteq> 0" unfolding insert_audit_row_won by simp
  then have oc: "oc = \<lparr>mu_idempotency_key = key, mu_status = StatusApplied\<rparr>" and db': "db' = snd ?row"
    using assms(1) up
    by (auto simp: persist_list_membership_tx_def finish_with_replay_guard_def)
  have "repositories db' = repositories db1"
    by (simp add: db' converge_membership_projection_def)
  then have known: "repo_by_provider db' p = Some r"
    using repo_identity.makes_known [OF up] by (simp add: repo_by_provider_def)
  have look: "find_by member_key k (memberships db') =
      (if k = (l, r) then Some (case find_by member_key (l, r) (memberships db) of
           None \<Rightarrow> mutated_member l r change (db_clock db1)
         | Some old \<Rightarrow> membership_merge old (mutated_member l r change (db_clock db1)))
       else find_by member_key k (memberships db))" for k
    by (auto simp: db' converge_membership_projection_def mutated_members.find_upsert same1)
  have "audit db' = audit db @ [\<lparr>au_key = key, au_account = mc_account_id ctx, au_repo = r, au_list = None,
      au_kind = kind_text (change_kind change), au_principal = mc_principal ctx,
      au_source = source_text (mc_source ctx), au_outcome = AuditApplied, au_detail = ?d,
      au_created = db_clock ?db2\<rparr>]"
    using free f1(5) by (simp add: db' insert_audit_row_def converge_membership_projection_def)
  then have aud: "audited key StatusApplied db db'" by (simp add: audited_def)
  have "trail_grows db ?db2" using f1(5) by (simp add: same_audit_trail converge_membership_projection_def)
  then have trail: "trail_grows db db'"
    using insert_audit_row_trail unfolding db' by (rule trail_frame.R_trans)
  have stars: "same_stars db db'" "star_lists db' = star_lists db"
    using same1 by (simp_all add: db' insert_audit_row_def converge_membership_projection_def same_stars_def)
  have cons: "key_consumed key db'" using insert_audit_row_consumes [OF won] by (simp add: db' audit_success_def)
  obtain m where "find_by member_key (l, r) (memberships db') = Some m" "lm_member m \<longleftrightarrow> change = MemberAdd"
    by (cases "find_by member_key (l, r) (memberships db)") (simp_all add: look)
  then show ?thesis
    by (rule that [of r, OF known _ _ _ oc stars aud cons trail]) (simp add: look)
qed

text \<open>What any request that is not a replay can end with.\<close>

definition list_request :: "membership_change \<Rightarrow> repository_ref \<Rightarrow> uuid \<Rightarrow> string \<Rightarrow> mutation_request" where
  "list_request change repo l key =
     (case change of MemberAdd \<Rightarrow> ReqListMemberAdd repo l key | MemberRemove \<Rightarrow> ReqListMemberRemove repo l key)"

lemma list_request_simps [simp]:
  "request_key (list_request change repo l key) = key"
  by (cases change; simp add: list_request_def)

lemma dispatch_list:
  "dispatch rt (list_request change repo l key) = execute_list_membership rt repo l key change"
  by (cases change) (simp_all add: dispatch_def list_request_def)

lemma request_forms:
  obtains (star) dir repo key where "req = star_request dir repo key"
  | (membership) change repo l key where "req = list_request change repo l key"
  by (cases req)
    (force simp: star_request_def list_request_def split: star_direction.splits membership_change.splits)+


section \<open>One audit row per attempt\<close>

lemma audited_not_success:
  assumes "audited key status db db'" and "\<not> audit_success (audited_as status)"
  shows "audit_ok db \<longleftrightarrow> audit_ok db'"
  using assms by (auto simp: audited_def audit_ok_def)

definition attempt_audited ::
    "string \<Rightarrow> catalog \<Rightarrow> (mutation_error, mutation_outcome) result \<Rightarrow> catalog \<Rightarrow> bool" where
  "attempt_audited key db r db' \<longleftrightarrow>
     (audit_ok db \<longrightarrow> audit_ok db') \<and>
     (case r of
        Inr oc \<Rightarrow> audited key (mu_status oc) db db' \<and>
          (mu_status oc \<in> {StatusApplied, StatusAlreadyApplied} \<longleftrightarrow> key_consumed key db')
      | Inl e \<Rightarrow> audit db' = audit db)"

lemma audited_consumed:
  assumes "audited key status db db'" and "\<not> key_consumed key db"
  shows "key_consumed key db' \<longleftrightarrow> audit_success (audited_as status)"
  using assms by (auto simp: audited_def key_consumed_def)

lemma audited_as_success [simp]:
  "audit_success (audited_as status) \<longleftrightarrow> status \<in> {StatusApplied, StatusAlreadyApplied}"
  by (cases status) (simp_all add: audit_success_def)

lemma unconfirmed_audited:
  assumes "unconfirmed key db r db'" and "\<not> key_consumed key db"
  shows "attempt_audited key db r db'"
proof (cases r)
  case (Inl e)
  with assms(1) show ?thesis by (simp add: unconfirmed_def attempt_audited_def audit_ok_def)
next
  case (Inr oc)
  with assms(1) obtain why where a: "audited key (StatusFailed why) db db'" "mu_status oc = StatusFailed why"
    by (auto simp: unconfirmed_def)
  from audited_not_success [OF a(1)] audited_consumed [OF a(1) assms(2)] a Inr show ?thesis
    by (simp add: attempt_audited_def audit_success_def)
qed

lemma saved_audited:
  assumes "audited key (mu_status oc) db db'" and "key_consumed key db'" and "trail_grows db db'"
    and "mu_status oc \<in> {StatusApplied, StatusAlreadyApplied}"
  shows "attempt_audited key db (Inr oc) db'"
  using assms by (simp add: attempt_audited_def trail_grows_def)

lemma attempt_audited_clock:
  "attempt_audited key (db\<lparr>db_clock := t\<rparr>) r db' \<longleftrightarrow> attempt_audited key db r db'"
  by (cases r) (simp_all add: attempt_audited_def audited_def audit_ok_def)

lemma dispatch_audited:
  assumes "dispatch rt req w = (r, w')" and "\<not> key_consumed (request_key req) (w_db w)"
  shows "attempt_audited (request_key req) (w_db w) r (w_db w')"
proof (cases req rule: request_forms)
  case (star dir repo key)
  with assms have run: "execute_star_write rt repo key dir w = (r, w')" and free: "\<not> key_consumed key (w_db w)"
    by (simp_all add: dispatch_star)
  from run have "attempt_audited key (w_db w) r (w_db w')"
  proof (cases rule: execute_star_write_cases)
    case unconfirmed
    then show ?thesis using free by (rule unconfirmed_audited)
  next
    case (unsaved n node reply e)
    then show ?thesis by (simp add: attempt_audited_def audit_ok_def)
  next
    case (saved n node reply t oc)
    have free': "\<not> key_consumed key ((w_db w)\<lparr>db_clock := t\<rparr>)" using free by simp
    have "attempt_audited key ((w_db w)\<lparr>db_clock := t\<rparr>) (Inr oc) (w_db w')"
      using saved(4) free' by (rule persist_confirmed_star_effect) (rule saved_audited, simp_all)
    then show ?thesis by (simp add: saved(3) attempt_audited_clock)
  qed
  then show ?thesis by (simp add: star)
next
  case (membership change repo l key)
  with assms have run: "execute_list_membership rt repo l key change w = (r, w')"
    and free: "\<not> key_consumed key (w_db w)"
    by (simp_all add: dispatch_list)
  from run have "attempt_audited key (w_db w) r (w_db w')"
  proof (cases rule: execute_list_membership_cases)
    case unconfirmed
    then show ?thesis using free by (rule unconfirmed_audited)
  next
    case (saved target n node reply t oc)
    have free': "\<not> key_consumed key ((w_db w)\<lparr>db_clock := t\<rparr>)" using free by simp
    have "attempt_audited key ((w_db w)\<lparr>db_clock := t\<rparr>) (Inr oc) (w_db w')"
      using saved(4) free' by (rule persist_list_membership_effect) (rule saved_audited, simp_all)
    then show ?thesis by (simp add: saved(3) attempt_audited_clock)
  qed
  then show ?thesis by (simp add: membership)
qed

text \<open>
  C27. Every attempt leaves exactly one audit row: a request with a free key that ends with an
  outcome has appended exactly one row under its key, with that very outcome, and the key is
  consumed exactly if the outcome is a success; one that ends with an error has left the trail as it
  was. Whatever happens, no key ever holds two successes.
\<close>

theorem attempts_are_audited_once:
  assumes "audit_ok (w_db w)" and "\<not> key_consumed (request_key req) (w_db w)"
  shows "case execute_mutation rt req w of
    (r, w') \<Rightarrow> audit_ok (w_db w') \<and>
      (case r of
         Inr oc \<Rightarrow> audited (request_key req) (mu_status oc) (w_db w) (w_db w') \<and>
           (mu_status oc \<in> {StatusApplied, StatusAlreadyApplied} \<longleftrightarrow>
             key_consumed (request_key req) (w_db w'))
       | Inl e \<Rightarrow> audit (w_db w') = audit (w_db w))"
proof -
  obtain r w' where ex: "execute_mutation rt req w = (r, w')" by (cases "execute_mutation rt req w")
  from ex assms(2) have "attempt_audited (request_key req) (w_db w) r (w_db w')"
  proof (cases rule: unreplayed_cases)
    case (refused reason)
    with audited_not_success [OF refused(2)] audited_consumed [OF refused(2) assms(2)] show ?thesis
      by (simp add: attempt_audited_def audit_success_def)
  next
    case unconfirmed
    then show ?thesis using assms(2) by (rule unconfirmed_audited)
  next
    case (dispatched w2)
    with dispatch_audited [of rt req w2] assms(2) show ?thesis by simp
  qed
  with ex assms(1) show ?thesis by (simp add: attempt_audited_def)
qed

section \<open>A session of an account\<close>

text \<open>
  Account 7 is connected with both scopes and owns the live list 5 known to the provider as
  \<open>UL_5\<close>; the provider resolves every repository and confirms every write.
\<close>

definition agreeable_gateway :: mutation_api where
  "agreeable_gateway =
     \<lparr>ma_fetch_repository_node_id = (\<lambda>n s ow nm. Answer 1 (Inr \<lparr>ni_node_id = ''R_1'', ni_rate_limit = no_headers\<rparr>)),
      ma_star_repository = (\<lambda>n s node. Answer 1 (Inr \<lparr>sw_viewer_has_starred = True, sw_rate_limit = no_headers\<rparr>)),
      ma_unstar_repository = (\<lambda>n s node. Answer 1 (Inr \<lparr>sw_viewer_has_starred = False, sw_rate_limit = no_headers\<rparr>)),
      ma_set_repository_lists = (\<lambda>n s node ls. Answer 1 (Inr \<lparr>lw_lists = ls, lw_rate_limit = no_headers\<rparr>))\<rparr>"

definition runtime_example :: mutation_runtime where
  "runtime_example =
     \<lparr>mr_gateway = agreeable_gateway, mr_token = ''t'', mr_secret = None,
      mr_context = \<lparr>mc_account_id = 7, mc_principal = ''p'', mc_source = Web\<rparr>, mr_show_time = (\<lambda>_. ''later'')\<rparr>"

definition world_example :: "account_status \<Rightarrow> world" where
  "world_example status =
     \<lparr>w_db = empty_catalog\<lparr>accounts := [\<lparr>acct_id = 7, acct_owner = ''o'', acct_status = status,
          acct_scopes = [''repo'', ''user''], acct_provider = Some 9,
      acct_login = None\<rparr>],
        star_lists := [\<lparr>sl_id = 5, sl_account = 7, sl_provider = ''UL_5'', sl_name = ''tools'',
          sl_status = ListActive, sl_removed = None, sl_evidence = None\<rparr>], next_uuid := 9\<rparr>,
      w_ledger = (\<lambda>_. None), w_clock = 0, w_faults = [], w_calls = 0\<rparr>"

definition ref_example :: repository_ref where
  "ref_example = \<lparr>rr_provider_repository_id = 11, rr_owner = ''o'', rr_name = ''n''\<rparr>"

lemma example_free:
  "\<not> key_consumed key (w_db (world_example status))" "audit_ok (w_db (world_example status))"
  by (simp_all add: world_example_def empty_catalog_def key_consumed_def audit_ok_def)

theorem blocked_mutation_contacts_nobody_witness:
  "\<exists>w'. execute_mutation runtime_example (ReqStar ref_example ''k'') (world_example Revoked) =
      (Inr \<lparr>mu_idempotency_key = ''k'', mu_status = StatusRejected AccountNotConnected\<rparr>, w') \<and>
    w_calls w' = 0"
proof -
  let ?ex = "execute_mutation runtime_example (ReqStar ref_example ''k'') (world_example Revoked)"
  have "blocked (mr_context runtime_example) (ReqStar ref_example ''k'') (w_db (world_example Revoked))"
    by (simp add: blocked_def acting_connected_def runtime_example_def world_example_def)
  note safe = blocked_mutation_contacts_nobody [OF this]
  have "fst ?ex = Inr \<lparr>mu_idempotency_key = ''k'', mu_status = StatusRejected AccountNotConnected\<rparr>"
    by code_simp
  moreover obtain w' where "?ex = (fst ?ex, w')" by (cases ?ex) simp
  ultimately show ?thesis using safe by (auto simp: world_example_def)
qed

theorem star_mutation_truthful_witness:
  "\<exists>w' r. execute_mutation runtime_example (star_request StarAdd ref_example ''k'') (world_example Connected) =
      (Inr \<lparr>mu_idempotency_key = ''k'', mu_status = StatusApplied\<rparr>, w') \<and>
    repo_by_provider (w_db w') 11 = Some r \<and> is_starred (w_db w') 7 r"
proof -
  let ?ex = "execute_mutation runtime_example (star_request StarAdd ref_example ''k'') (world_example Connected)"
  have "fst ?ex = Inr \<lparr>mu_idempotency_key = ''k'', mu_status = StatusApplied\<rparr>" by code_simp
  moreover obtain w' where "?ex = (fst ?ex, w')" by (cases ?ex) simp
  ultimately show ?thesis
    using star_mutation_truthful [OF example_free(1) [of "''k''" Connected],
        where rt = runtime_example and dir = StarAdd and repo = ref_example]
    by (auto simp: runtime_example_def ref_example_def)
qed


theorem attempts_are_audited_once_witness:
  "\<exists>w'. execute_mutation runtime_example (ReqUnstar ref_example ''k'') (world_example Connected) =
      (Inr \<lparr>mu_idempotency_key = ''k'', mu_status = StatusAlreadyApplied\<rparr>, w') \<and>
    audited ''k'' StatusAlreadyApplied (w_db (world_example Connected)) (w_db w') \<and>
    key_consumed ''k'' (w_db w')"
proof -
  let ?ex = "execute_mutation runtime_example (ReqUnstar ref_example ''k'') (world_example Connected)"
  have "fst ?ex = Inr \<lparr>mu_idempotency_key = ''k'', mu_status = StatusAlreadyApplied\<rparr>" by code_simp
  moreover obtain w' where "?ex = (fst ?ex, w')" by (cases ?ex) simp
  ultimately show ?thesis
    using attempts_are_audited_once [OF example_free(2) example_free(1),
        of Connected "ReqUnstar ref_example ''k''" runtime_example]
    by auto
qed

end
