(* ===== verification/Modes.thy ===== *)
theory Modes
  imports Mutation_Safety
begin

text \<open>
  Explicit repository modes (\<open>crates/catalog/src/modes.rs\<close>): the enforcement matrix, the audited
  transition of an authorized caller and the account-less acceptance of tracked intent, both of
  which mark the desired backup policy dirty in the transaction that changes the mode.
\<close>

section \<open>Requests\<close>

datatype requested_mode = RequestAuto | RequestTracked | RequestIgnored

fun requested_governance :: "requested_mode \<Rightarrow> repo_governance" where
  "requested_governance RequestAuto = Auto"
| "requested_governance RequestTracked = Tracked"
| "requested_governance RequestIgnored = Ignored"

record set_mode_request =
  sm_provider_repository_id :: int
  sm_mode :: requested_mode
  sm_idempotency_key :: string

datatype track_outcome = TrackAccepted | TrackAlreadyApplied

definition validate :: "requested_mode \<Rightarrow> repo_governance option \<Rightarrow> bool \<Rightarrow> string option" where
  "validate requested current starred =
     (case requested of
        RequestAuto \<Rightarrow> Some ''auto_not_directly_requestable''
      | RequestIgnored \<Rightarrow> if starred then Some ''repository_currently_starred'' else None
      | RequestTracked \<Rightarrow> None)"

fun mode_label :: "repo_governance option \<Rightarrow> string" where
  "mode_label (Some Auto) = ''auto''"
| "mode_label (Some Tracked) = ''tracked''"
| "mode_label (Some Ignored) = ''ignored''"
| "mode_label None = ''unclassified''"

definition refusal_from_label :: "string \<Rightarrow> refusal_reason" where
  "refusal_from_label label =
     (if label = ''auto_not_directly_requestable'' then AutoNotDirectlyRequestable
      else RepositoryCurrentlyStarred)"

section \<open>Transitions\<close>

definition put_mode :: "uuid \<Rightarrow> repo_governance \<Rightarrow> catalog \<Rightarrow> catalog" where
  "put_mode r m db =
     db\<lparr>repositories := update_where (\<lambda>x. repo_id x = r)
          (\<lambda>x. x\<lparr>repo_mode := Some m, repo_updated_at := db_clock db\<rparr>) (repositories db)\<rparr>"

definition mode_refused ::
    "mutation_context \<Rightarrow> uuid \<Rightarrow> string \<Rightarrow> string \<Rightarrow> string \<Rightarrow> mutation_outcome tx" where
  "mode_refused ctx r operation key label db =
     Inr (\<lparr>mu_idempotency_key = key, mu_status = StatusRejected (refusal_from_label label)\<rparr>,
          snd (insert_audit_row ctx r operation key AuditRejected (reason_detail label) db))"

definition set_mode_tx :: "mutation_context \<Rightarrow> set_mode_request \<Rightarrow> mutation_outcome tx" where
  "set_mode_tx ctx req db =
     and_then (upsert_repository_in_tx (sm_provider_repository_id req) db) (\<lambda>(r, db1).
     let current = mode_of db1 r;
         wanted = requested_governance (sm_mode req);
         starred = is_starred db1 (mc_account_id ctx) r
     in case validate (sm_mode req) current starred of
       Some label \<Rightarrow> mode_refused ctx r ''mode_set'' (sm_idempotency_key req) label db1
     | None \<Rightarrow>
         let unchanged = (current = Some wanted) in
         and_then (if unchanged then Inr db1 else mark_backup_policy_dirty_in_tx (put_mode r wanted db1))
           (\<lambda>db2. Inr (finish_with_replay_guard
             (insert_audit_row ctx r ''mode_set'' (sm_idempotency_key req)
               (if unchanged then AuditAlreadyApplied else AuditApplied)
               (JObj [(''from'', JStr (mode_label current)), (''to'', JStr (mode_label (Some wanted)))])
               db2)
             db (sm_idempotency_key req) (\<not> unchanged))))"

definition set_repository_mode ::
    "mutation_context \<Rightarrow> set_mode_request \<Rightarrow> (mutation_error, mutation_outcome) io" where
  "set_repository_mode ctx req =
     io_bind (io_map_err MutPersistence (successful_outcome_exists (sm_idempotency_key req)))
       (\<lambda>consumed.
         if consumed then
           io_return \<lparr>mu_idempotency_key = sm_idempotency_key req, mu_status = StatusAlreadyApplied\<rparr>
         else io_map_err MutPersistence (transact (set_mode_tx ctx req)))"

definition track_tx :: "int \<Rightarrow> track_outcome tx" where
  "track_tx p db =
     and_then (upsert_repository_in_tx p db) (\<lambda>(r, db1).
       if mode_of db1 r = Some Tracked then Inr (TrackAlreadyApplied, db1)
       else and_then (mark_backup_policy_dirty_in_tx (put_mode r Tracked db1))
         (\<lambda>db2. Inr (TrackAccepted, db2)))"

definition track_repository :: "int \<Rightarrow> (sql_error, track_outcome) io" where
  "track_repository p = transact (track_tx p)"

section \<open>Modes after a transition\<close>

lemma mode_of_repos_grow:
  assumes "repos_grow db db'"
  shows "mode_of db' x = mode_of db x"
proof -
  obtain new where new: "repositories db' = repositories db @ new" "\<forall>r\<in>set new. repo_mode r = None"
    using assms by (auto simp: repos_grow_def)
  have "Option.bind (find_by repo_id x new) repo_mode = None"
    using new(2) by (cases "find_by repo_id x new") (auto dest: find_by_SomeD)
  then show ?thesis
    by (cases "find_by repo_id x (repositories db)") (simp_all add: mode_of_def new(1) find_by_append)
qed

lemma upsert_repository_modes:
  assumes "upsert_repository_in_tx p db = Inr (r, db')"
  shows "mode_of db' x = mode_of db x" and "is_starred db' a x = is_starred db a x"
  using upsert_repository_frame(1) [OF assms]
  by (auto simp: same_authority_def same_stars_def is_starred_def star_of_def intro: mode_of_repos_grow)

lemma upsert_repository_row:
  "upsert_repository_in_tx p db = Inr (r, db') \<Longrightarrow> find_by repo_id r (repositories db') \<noteq> None"
  using repo_identity.makes_known [of p db r db']
  by (auto simp: repo_by_provider_def find_by_None dest!: find_by_SomeD)

lemma put_mode_mode_of:
  assumes "find_by repo_id r (repositories db) \<noteq> None"
  shows "mode_of (put_mode r m db) x = (if x = r then Some m else mode_of db x)"
  using assms
  by (cases "find_by repo_id x (repositories db)")
    (auto simp: mode_of_def put_mode_def find_by_update_where dest: find_by_SomeD)

lemma put_mode_provider: "repo_by_provider (put_mode r m db) p = repo_by_provider db p"
  by (auto simp: repo_by_provider_def put_mode_def find_by_update_where option.map_comp comp_def
      intro!: map_option_cong)

lemma put_mode_frame [simp]:
  "audit (put_mode r m db) = audit db" "star_state (put_mode r m db) = star_state db"
  "policy_cursor (put_mode r m db) = policy_cursor db" "db_clock (put_mode r m db) = db_clock db"
  "memberships (put_mode r m db) = memberships db" "star_lists (put_mode r m db) = star_lists db"
  by (simp_all add: put_mode_def)

text \<open>The policy owes a publication of the change, not before the debounce window has passed.\<close>

definition policy_dirtied :: "catalog \<Rightarrow> catalog \<Rightarrow> bool" where
  "policy_dirtied db db' \<longleftrightarrow>
     cu_dirty (cursor_of db') = cu_dirty (cursor_of db) + 1 \<and>
     cu_published (cursor_of db') = cu_published (cursor_of db) \<and>
     cu_not_before (cursor_of db') = Some (db_clock db + policy_debounce)"

text \<open>The mode of one repository changed and with it the owed policy, in one transaction.\<close>

lemma change_mode_effect:
  assumes up: "upsert_repository_in_tx p db = Inr (r, db1)"
    and mark: "mark_backup_policy_dirty_in_tx (put_mode r m db1) = Inr db2"
  shows "mode_of db2 x = (if x = r then Some m else mode_of db x)"
    and "repo_by_provider db2 q = (if q = p then Some r else repo_by_provider db q)"
    and "policy_dirtied db db2" and "audit db2 = audit db" and "star_state db2 = star_state db"
proof -
  note f1 = upsert_repository_frame [OF up] upsert_repository_audit [OF up]
  obtain c where db2: "db2 = (put_mode r m db1)\<lparr>policy_cursor := Some c\<rparr>"
    and c: "cu_not_before c = Some (db_clock db1 + policy_debounce)"
      "cu_dirty c = cu_dirty (cursor_of db1) + 1" "cu_published c = cu_published (cursor_of db1)"
    using mark_dirty_frame [OF mark] by (auto simp: cursor_of_def)
  have cur: "cursor_of db1 = cursor_of db" using f1(5) by (simp add: cursor_of_def)
  show "mode_of db2 x = (if x = r then Some m else mode_of db x)"
    using put_mode_mode_of [OF upsert_repository_row [OF up], of m x] upsert_repository_modes(1) [OF up]
    by (simp add: db2 mode_of_def)
  show "repo_by_provider db2 q = (if q = p then Some r else repo_by_provider db q)"
    using repo_identity.lookup [OF up, of q] put_mode_provider [of r m db1 q]
    by (simp add: db2 repo_by_provider_def)
  show "policy_dirtied db db2"
    using c f1(4) cur by (simp add: db2 policy_dirtied_def cursor_of_def [of "_\<lparr>policy_cursor := _\<rparr>"])
  show "audit db2 = audit db" "star_state db2 = star_state db"
    using f1 by (simp_all add: db2 same_authority_def same_stars_def)
qed

text \<open>The three ways a transition with a free key ends.\<close>

lemma set_mode_tx_refused:
  assumes up: "upsert_repository_in_tx (sm_provider_repository_id req) db = Inr (r, db1)"
    and tx: "set_mode_tx ctx req db = Inr (oc, db')"
    and no: "validate (sm_mode req) (mode_of db r) (is_starred db (mc_account_id ctx) r) = Some label"
  shows "mu_status oc = StatusRejected (refusal_from_label label)"
    and "audited (sm_idempotency_key req) (mu_status oc) db db'"
    and "mode_of db' x = mode_of db x" and "star_state db' = star_state db"
    and "policy_cursor db' = policy_cursor db"
    and "repo_by_provider db' (sm_provider_repository_id req) = Some r"
proof -
  note f1 = upsert_repository_frame [OF up] upsert_repository_audit [OF up]
  have run: "oc = \<lparr>mu_idempotency_key = sm_idempotency_key req,
      mu_status = StatusRejected (refusal_from_label label)\<rparr>"
    "db' = snd (insert_audit_row ctx r ''mode_set'' (sm_idempotency_key req) AuditRejected
       (reason_detail label) db1)"
    using tx up no upsert_repository_modes [OF up]
    by (simp_all add: set_mode_tx_def Let_def mode_refused_def)
  show "mu_status oc = StatusRejected (refusal_from_label label)" by (simp add: run)
  show "audited (sm_idempotency_key req) (mu_status oc) db db'"
    using f1(5) by (simp add: run audited_def insert_audit_row_def audit_success_def)
  show "mode_of db' x = mode_of db x"
    using upsert_repository_modes(1) [OF up, of x] by (simp add: run mode_of_def)
  show "star_state db' = star_state db" "policy_cursor db' = policy_cursor db"
    using f1 by (simp_all add: run same_authority_def same_stars_def)
  show "repo_by_provider db' (sm_provider_repository_id req) = Some r"
    using repo_identity.makes_known [OF up] by (simp add: run repo_by_provider_def)
qed

lemma won_row:
  assumes "\<not> key_consumed key db" and "audit db2 = audit db"
    and "finish_with_replay_guard (insert_audit_row ctx r kind key a d db2) before key new = (oc, db')"
    and "a = (if new then AuditApplied else AuditAlreadyApplied)"
  shows "oc = \<lparr>mu_idempotency_key = key, mu_status = (if new then StatusApplied else StatusAlreadyApplied)\<rparr>"
    and "db' = snd (insert_audit_row ctx r kind key a d db2)"
    and "audited key (mu_status oc) db db'"
proof -
  have "\<not> key_consumed key db2" using assms(1,2) by (simp add: key_consumed_def)
  then have "fst (insert_audit_row ctx r kind key a d db2) \<noteq> 0"
    unfolding insert_audit_row_won by simp
  with assms(3)
  show oc: "oc = \<lparr>mu_idempotency_key = key, mu_status = (if new then StatusApplied else StatusAlreadyApplied)\<rparr>"
    and db': "db' = snd (insert_audit_row ctx r kind key a d db2)"
    by (simp_all add: finish_with_replay_guard_def)
  show "audited key (mu_status oc) db db'"
    using \<open>\<not> key_consumed key db2\<close> assms(2,4) by (simp add: oc db' audited_def insert_audit_row_def)
qed

lemma set_mode_tx_granted:
  assumes up: "upsert_repository_in_tx (sm_provider_repository_id req) db = Inr (r, db1)"
    and tx: "set_mode_tx ctx req db = Inr (oc, db')"
    and ok: "validate (sm_mode req) (mode_of db r) (is_starred db (mc_account_id ctx) r) = None"
    and free: "\<not> key_consumed (sm_idempotency_key req) db"
  defines "m \<equiv> requested_governance (sm_mode req)"
  shows "mu_status oc = (if mode_of db r = Some m then StatusAlreadyApplied else StatusApplied)"
    and "audited (sm_idempotency_key req) (mu_status oc) db db'"
    and "mode_of db' x = (if x = r then Some m else mode_of db x)" and "star_state db' = star_state db"
    and "mode_of db r = Some m \<Longrightarrow> policy_cursor db' = policy_cursor db"
    and "mode_of db r \<noteq> Some m \<Longrightarrow> policy_dirtied db db'"
    and "repo_by_provider db' (sm_provider_repository_id req) = Some r"
proof -
  let ?same = "mode_of db r = Some m" and ?key = "sm_idempotency_key req"
  note f1 = upsert_repository_frame [OF up] upsert_repository_audit [OF up]
    upsert_repository_modes [OF up] repo_identity.makes_known [OF up]
  let ?a = "if ?same then AuditAlreadyApplied else AuditApplied"
  let ?d = "JObj [(''from'', JStr (mode_label (mode_of db r))), (''to'', JStr (mode_label (Some m)))]"
  have "\<exists>db2. (if ?same then Inr db1 else mark_backup_policy_dirty_in_tx (put_mode r m db1)) = Inr db2 \<and>
      finish_with_replay_guard (insert_audit_row ctx r ''mode_set'' ?key ?a ?d db2) db ?key (\<not> ?same) = (oc, db')"
    using tx up ok f1(6-7) unfolding m_def by (simp add: set_mode_tx_def Let_def and_then_eq_Inr)
  then obtain db2 where mid: "(if ?same then Inr db1 else mark_backup_policy_dirty_in_tx (put_mode r m db1)) = Inr db2"
    and fin: "finish_with_replay_guard (insert_audit_row ctx r ''mode_set'' ?key ?a ?d db2) db
      ?key (\<not> ?same) = (oc, db')"
    by blast
  have eff: "audit db2 = audit db" "star_state db2 = star_state db"
    "mode_of db2 y = (if y = r then Some m else mode_of db y)"
    "repo_by_provider db2 (sm_provider_repository_id req) = Some r"
    "?same \<Longrightarrow> policy_cursor db2 = policy_cursor db" "\<not> ?same \<Longrightarrow> policy_dirtied db db2" for y
    using mid f1 change_mode_effect [OF up, of m db2]
    by (auto simp: same_authority_def same_stars_def split: if_splits)
  have "?a = (if \<not> ?same then AuditApplied else AuditAlreadyApplied)" by simp
  note row = won_row [OF free eff(1) fin this]
  show "mu_status oc = (if ?same then StatusAlreadyApplied else StatusApplied)" by (simp add: row(1))
  show "audited ?key (mu_status oc) db db'" by (rule row(3))
  show "mode_of db' x = (if x = r then Some m else mode_of db x)"
    using eff(3) [of x] by (simp add: row(2) mode_of_def)
  show "star_state db' = star_state db" using eff(2) by (simp add: row(2))
  show "?same \<Longrightarrow> policy_cursor db' = policy_cursor db" using eff(5) by (simp add: row(2))
  show "\<not> ?same \<Longrightarrow> policy_dirtied db db'" using eff(6) by (simp add: row(2) policy_dirtied_def cursor_of_def)
  show "repo_by_provider db' (sm_provider_repository_id req) = Some r"
    using eff(4) by (simp add: row(2) repo_by_provider_def)
qed

text \<open>
  C33. An explicit mode request with a free key obeys the enforcement matrix. \<open>auto\<close> is always
  refused, \<open>ignored\<close> is refused while the acting account stars the repository, and everything else
  is granted; a refusal leaves every mode, every star and the owed policy as they were; a granted
  request leaves the repository in the requested mode, all others in theirs, and reports
  ``applied'' and marks the policy dirty, due one debounce window later, exactly if the mode
  differs from before. Either way the attempt is audited once, under the very outcome reported.
  A failed request changes nothing at all.
\<close>

theorem set_mode_matrix:
  assumes "\<not> key_consumed (sm_idempotency_key req) (w_db w)"
  shows "case set_repository_mode ctx req w of
    (Inl e, w') \<Rightarrow> w_db w' = w_db w
  | (Inr oc, w') \<Rightarrow>
      star_state (w_db w') = star_state (w_db w) \<and>
      audited (sm_idempotency_key req) (mu_status oc) (w_db w) (w_db w') \<and>
      (\<exists>r. repo_by_provider (w_db w') (sm_provider_repository_id req) = Some r \<and>
        (if sm_mode req = RequestAuto \<or>
            sm_mode req = RequestIgnored \<and> is_starred (w_db w) (mc_account_id ctx) r
         then mu_status oc = StatusRejected (if sm_mode req = RequestAuto
               then AutoNotDirectlyRequestable else RepositoryCurrentlyStarred) \<and>
           (\<forall>x. mode_of (w_db w') x = mode_of (w_db w) x) \<and>
           policy_cursor (w_db w') = policy_cursor (w_db w)
         else (\<forall>x. mode_of (w_db w') x =
             (if x = r then Some (requested_governance (sm_mode req)) else mode_of (w_db w) x)) \<and>
           (if mode_of (w_db w) r = Some (requested_governance (sm_mode req))
            then mu_status oc = StatusAlreadyApplied \<and> policy_cursor (w_db w') = policy_cursor (w_db w)
            else mu_status oc = StatusApplied \<and> policy_dirtied (w_db w) (w_db w'))))"
proof -
  let ?db = "w_db w" and ?key = "sm_idempotency_key req" and ?p = "sm_provider_repository_id req"
  obtain q w' where ex: "set_repository_mode ctx req w = (q, w')" by (cases "set_repository_mode ctx req w")
  from ex [unfolded set_repository_mode_def successful_outcome_exists_def] show ?thesis
  proof (cases rule: bind_query_cases)
    case (lost e)
    with ex show ?thesis by simp
  next
    case (answered w1)
    with assms have run: "io_map_err MutPersistence (transact (set_mode_tx ctx req)) w1 = (q, w')" by simp
    obtain x w2 where x: "transact (set_mode_tx ctx req) w1 = (x, w2)" by (cases "transact (set_mode_tx ctx req) w1")
    show ?thesis
    proof (cases x)
      case (Inl e)
      with x run ex answered(2) transact_InlD [of "set_mode_tx ctx req" w1 e w2] show ?thesis
        by (auto simp: io_map_err_def)
    next
      case (Inr oc)
      with x answered(2) have tx: "set_mode_tx ctx req ?db = Inr (oc, w_db w2)" by (auto dest: transact_InrD)
      from run x Inr have "q = Inr oc" "w' = w2" by (simp_all add: io_map_err_def)
      with ex have ex: "set_repository_mode ctx req w = (Inr oc, w2)" by simp
      obtain r db1 where up: "upsert_repository_in_tx ?p ?db = Inr (r, db1)"
        using upsert_repository_total by blast
      show ?thesis
      proof (cases "validate (sm_mode req) (mode_of ?db r) (is_starred ?db (mc_account_id ctx) r)")
        case (Some label)
        from set_mode_tx_refused [OF up tx Some] Some show ?thesis
          by (cases "sm_mode req")
            (auto simp: ex validate_def refusal_from_label_def split: if_splits)
      next
        case None
        from set_mode_tx_granted [OF up tx None assms] None show ?thesis
          by (cases "sm_mode req") (auto simp: ex validate_def split: if_splits)
      qed
    qed
  qed
qed

text \<open>
  Accepting tracked intent without an account is idempotent and atomic with the owed policy:
  the repository ends up tracked, every other mode as it was, no star and no audit row touched, and
  the policy is marked dirty exactly if the repository was not tracked before, which is also what
  the result says. A failure changes nothing.
\<close>

theorem track_repository_effect:
  "case track_repository p w of
    (Inl e, w') \<Rightarrow> w_db w' = w_db w
  | (Inr oc, w') \<Rightarrow>
      star_state (w_db w') = star_state (w_db w) \<and> audit (w_db w') = audit (w_db w) \<and>
      (\<exists>r. repo_by_provider (w_db w') p = Some r \<and>
        (\<forall>x. mode_of (w_db w') x = (if x = r then Some Tracked else mode_of (w_db w) x)) \<and>
        (if mode_of (w_db w) r = Some Tracked
         then oc = TrackAlreadyApplied \<and> policy_cursor (w_db w') = policy_cursor (w_db w)
         else oc = TrackAccepted \<and> policy_dirtied (w_db w) (w_db w')))"
proof -
  obtain q w' where ex: "track_repository p w = (q, w')" by (cases "track_repository p w")
  show ?thesis
  proof (cases q)
    case (Inl e)
    with ex show ?thesis by (simp add: track_repository_def transact_InlD)
  next
    case (Inr oc)
    with ex have tx: "track_tx p (w_db w) = Inr (oc, w_db w')"
      by (simp add: track_repository_def transact_InrD)
    obtain r db1 where up: "upsert_repository_in_tx p (w_db w) = Inr (r, db1)"
      using upsert_repository_total by blast
    note f1 = upsert_repository_frame [OF up] upsert_repository_audit [OF up]
      upsert_repository_modes(1) [OF up] repo_identity.makes_known [OF up]
    show ?thesis
    proof (cases "mode_of (w_db w) r = Some Tracked")
      case True
      with tx up f1 have "oc = TrackAlreadyApplied" "w_db w' = db1"
        by (simp_all add: track_tx_def)
      with True f1 show ?thesis
        by (auto simp: ex Inr same_authority_def same_stars_def)
    next
      case False
      with tx up f1(6) obtain db2 where "oc = TrackAccepted" "w_db w' = db2"
        and mark: "mark_backup_policy_dirty_in_tx (put_mode r Tracked db1) = Inr db2"
        by (auto simp: track_tx_def and_then_eq_Inr)
      with False change_mode_effect [OF up mark] show ?thesis by (simp add: ex Inr)
    qed
  qed
qed

section \<open>An example\<close>

theorem set_mode_matrix_witness:
  "\<exists>w' r. set_repository_mode \<lparr>mc_account_id = 7, mc_principal = ''p'', mc_source = Web\<rparr>
      \<lparr>sm_provider_repository_id = 11, sm_mode = RequestIgnored, sm_idempotency_key = ''k''\<rparr>
      (world_example Connected) = (Inr \<lparr>mu_idempotency_key = ''k'', mu_status = StatusApplied\<rparr>, w') \<and>
    repo_by_provider (w_db w') 11 = Some r \<and> mode_of (w_db w') r = Some Ignored \<and>
    policy_dirtied (w_db (world_example Connected)) (w_db w')"
proof -
  let ?ctx = "\<lparr>mc_account_id = 7, mc_principal = ''p'', mc_source = Web\<rparr>"
  let ?req = "\<lparr>sm_provider_repository_id = 11, sm_mode = RequestIgnored, sm_idempotency_key = ''k''\<rparr>"
  let ?ex = "set_repository_mode ?ctx ?req (world_example Connected)"
  have "fst ?ex = Inr \<lparr>mu_idempotency_key = ''k'', mu_status = StatusApplied\<rparr>" by code_simp
  moreover obtain w' where "?ex = (fst ?ex, w')" by (cases ?ex) simp
  moreover have "\<not> key_consumed (sm_idempotency_key ?req) (w_db (world_example Connected))"
    using example_free(1) by simp
  moreover have "\<not> is_starred (w_db (world_example Connected)) 7 r" "mode_of (w_db (world_example Connected)) r = None" for r
    by (simp_all add: world_example_def empty_catalog_def is_starred_def star_of_def mode_of_def)
  ultimately show ?thesis
    using set_mode_matrix [of ?req "world_example Connected" ?ctx] by auto
qed

end
