(* ===== verification/Watches.thy ===== *)
theory Watches
  imports Process Grammar
begin

text \<open>
  Metadata watches and durable analysis requests (\<open>crates/catalog/src/watches.rs\<close>, with the request
  envelope of \<open>envelopes.rs\<close>): registration with a baseline, evaluation of all watches of a
  repository against its stored revision with paced due times, dispatch of one due request into the
  outbox, and consumption of Knowledge's terminal facts. The contract and identifier crates,
  \<open>serde_json\<close> and SHA-256 are a record of functions.
\<close>

section \<open>Data\<close>

definition dispatch_spacing :: timestamp where "dispatch_spacing = 1000000"
definition requested_contract :: string where "requested_contract = ''repository_analysis''"
definition completed_subject :: string where
  "completed_subject = ''evt.knowledge.repository_analysis.completed.v1''"
definition failed_subject :: string where
  "failed_subject = ''evt.knowledge.repository_analysis.failed.v1''"
definition analysis_requested_subject :: string where
  "analysis_requested_subject = ''evt.knowledge.repository_analysis.requested.v1''"

datatype watch_baseline = BaselineCurrent | BaselineUnevaluated

datatype watch_evaluation = WatchesUnchanged | WatchesQueued (queued_requests: nat)

datatype analysis_dispatch = NotDue | DispatchPending uuid

datatype terminal_fact_outcome = FactResolved | FactDuplicate | FactIgnored

record analysis_request_state =
  rs_status :: request_status
  rs_analysis_result_ref :: "string option"

datatype watch_error =
    MissingMetadata
  | InvalidMetadata
  | InvalidStoredIdentity
  | WatchSerialization
  | WatchPersistence sql_error

datatype envelope_build_error = EnvelopeIdentity | EnvelopeEncode

fun watch_error_of :: "envelope_build_error \<Rightarrow> watch_error" where
  "watch_error_of EnvelopeIdentity = InvalidStoredIdentity"
| "watch_error_of EnvelopeEncode = WatchSerialization"

record stored_body =
  sb_provider_repository_id :: int
  sb_full_name :: string
  sb_description :: "string option"
  sb_language :: "string option"

text \<open>
  Values of the shared contract: parsed texts are known by their wire text, README evidence by its
  JSON form.
\<close>

record analysis_attributes =
  aa_full_name :: string
  aa_description :: "string option"
  aa_language :: "string option"

record analysis_revision =
  an_attributes_digest :: string
  an_readme :: json

record analysis_requested =
  ar_owner :: string
  ar_repository_id :: uuid
  ar_numeric_id :: int
  ar_request_id :: uuid
  ar_source_revision :: analysis_revision
  ar_attributes :: analysis_attributes
  ar_idempotency_key :: string

record terminal_identity =
  ti_owner :: string
  ti_repository_id :: uuid
  ti_numeric_id :: int
  ti_request_id :: uuid
  ti_source_revision :: analysis_revision

datatype analysis_failure_code =
  SourceUnavailable | ContractInvalid | DependencyUnavailable | NotAuthorized | UnknownFailure

datatype terminal_fact =
    FactCompleted (fact_identity: terminal_identity) (fact_result_ref: string)
  | FactFailed (fact_identity: terminal_identity) analysis_failure_code bool

text \<open>
  The functions of the contract crates and \<open>serde_json\<close>: parsing of identifiers and bounded texts (to
  their wire text), serialization and deserialization of contract values, the two SHA-256 digests
  over their serialized form (of the attributes, and of a request's identity without its
  identifier), the entity references and the assembled envelope.
\<close>

record watch_contracts =
  wc_repository_id :: "uuid \<Rightarrow> bool"
  wc_request_id :: "uuid \<Rightarrow> bool"
  wc_tenant :: "string \<Rightarrow> string option"
  wc_full_name :: "string \<Rightarrow> string option"
  wc_description :: "string \<Rightarrow> string option"
  wc_language :: "string \<Rightarrow> string option"
  wc_readme :: "json \<Rightarrow> json option"
  wc_attributes_digest :: "analysis_attributes \<Rightarrow> string option"
  wc_key_digest :: "string \<Rightarrow> uuid \<Rightarrow> int \<Rightarrow> analysis_revision \<Rightarrow> analysis_attributes \<Rightarrow> string \<Rightarrow> string option"
  wc_revision_json :: "analysis_revision \<Rightarrow> json option"
  wc_attributes_json :: "analysis_attributes \<Rightarrow> json option"
  wc_requested_json :: "analysis_requested \<Rightarrow> json option"
  wc_requested_of_json :: "json \<Rightarrow> analysis_requested option"
  wc_fact_json :: "terminal_fact \<Rightarrow> json option"
  wc_producer :: "string \<Rightarrow> string option"
  wc_entity_ref :: "string \<Rightarrow> string option"
  wc_uuid_text :: "uuid \<Rightarrow> string"
  wc_event_payload :: "analysis_requested \<Rightarrow> json option"
  wc_event_json :: "uuid \<Rightarrow> string \<Rightarrow> string \<Rightarrow> string \<Rightarrow> string \<Rightarrow> json \<Rightarrow> json option"

section \<open>Registration\<close>

definition new_watch :: "uuid \<Rightarrow> string \<Rightarrow> uuid \<Rightarrow> string option \<Rightarrow> timestamp \<Rightarrow> watch_row" where
  "new_watch i owner repo checkpoint now =
     \<lparr>wt_id = i, wt_owner = owner, wt_repo = repo, wt_enabled = True, wt_checkpoint = checkpoint,
      wt_updated = now\<rparr>"

definition watch_merge :: "watch_row \<Rightarrow> watch_row \<Rightarrow> watch_row" where
  "watch_merge old new =
     old\<lparr>wt_enabled := True,
         wt_checkpoint := (case wt_checkpoint new of None \<Rightarrow> wt_checkpoint old | Some h \<Rightarrow> Some h),
         wt_updated := wt_updated new\<rparr>"

definition register_watch_tx ::
    "string \<Rightarrow> uuid \<Rightarrow> watch_baseline \<Rightarrow> catalog \<Rightarrow> (watch_error, uuid \<times> catalog) result" where
  "register_watch_tx owner repo baseline db0 =
     and_then
       (case baseline of
          BaselineCurrent \<Rightarrow>
            (case find_by md_repo repo (metadata db0) of
               None \<Rightarrow> Inl MissingMetadata | Some m \<Rightarrow> Inr (Some (md_hash m)))
        | BaselineUnevaluated \<Rightarrow> Inr None) (\<lambda>checkpoint.
     if \<not> matches user_owner_pattern owner then Inl (WatchPersistence CheckViolation)
     else if repo \<notin> repo_id ` set (repositories db0) then Inl (WatchPersistence ForeignKeyViolation)
     else
       let (new_id, db) = fresh_uuid db0;
           t = upsert watch_key watch_merge (new_watch new_id owner repo checkpoint (db_clock db)) (watches db)
       in Inr (case find_by watch_key (owner, repo) t of None \<Rightarrow> new_id | Some w \<Rightarrow> wt_id w,
            db\<lparr>watches := t\<rparr>))"

definition register_repository_analysis_watch ::
    "string \<Rightarrow> uuid \<Rightarrow> watch_baseline \<Rightarrow> (watch_error, uuid) io" where
  "register_repository_analysis_watch owner repo baseline =
     transact_with WatchPersistence (register_watch_tx owner repo baseline)"

definition set_watch_enabled_tx :: "uuid \<Rightarrow> bool \<Rightarrow> catalog \<Rightarrow> (watch_error, unit \<times> catalog) result" where
  "set_watch_enabled_tx watch enabled db =
     Inr ((), db\<lparr>watches := update_where (\<lambda>w. wt_id w = watch)
       (\<lambda>w. w\<lparr>wt_enabled := enabled, wt_updated := db_clock db\<rparr>) (watches db)\<rparr>)"

definition set_repository_analysis_watch_enabled :: "uuid \<Rightarrow> bool \<Rightarrow> (watch_error, unit) io" where
  "set_repository_analysis_watch_enabled watch enabled =
     transact_with WatchPersistence (set_watch_enabled_tx watch enabled)"

section \<open>Evaluation\<close>

text \<open>Deserialization of a stored revision: unknown members are ignored, optional ones may be absent.\<close>

fun as_optional_str :: "json option \<Rightarrow> string option option" where
  "as_optional_str None = Some None"
| "as_optional_str (Some JNull) = Some None"
| "as_optional_str (Some (JStr s)) = Some (Some s)"
| "as_optional_str (Some _) = None"

fun stored_body_of :: "json \<Rightarrow> stored_body option" where
  "stored_body_of (JObj ms) =
     (case (map_of ms ''provider_repository_id'', map_of ms ''full_name'',
            as_optional_str (map_of ms ''description''), as_optional_str (map_of ms ''language'')) of
        (Some (JNum p), Some (JStr n), Some d, Some l) \<Rightarrow>
          if i64_min \<le> p \<and> p \<le> i64_max
          then Some \<lparr>sb_provider_repository_id = p, sb_full_name = n, sb_description = d, sb_language = l\<rparr>
          else None
      | _ \<Rightarrow> None)"
| "stored_body_of _ = None"

definition parse_present :: "(string \<Rightarrow> string option) \<Rightarrow> string option \<Rightarrow> (watch_error, string option) result" where
  "parse_present p value =
     (case value of
        None \<Rightarrow> Inr None
      | Some s \<Rightarrow>
          if trim_text s = [] then Inr None
          else (case p s of None \<Rightarrow> Inl InvalidMetadata | Some t \<Rightarrow> Inr (Some t)))"

definition analysis_attributes_of ::
    "watch_contracts \<Rightarrow> stored_body \<Rightarrow> (watch_error, analysis_attributes) result" where
  "analysis_attributes_of wc b =
     and_then (parse_present (wc_description wc) (sb_description b)) (\<lambda>description.
     and_then (parse_present (wc_language wc) (sb_language b)) (\<lambda>primary_language.
     and_then (ok_or InvalidMetadata (wc_full_name wc (sb_full_name b))) (\<lambda>name.
       Inr \<lparr>aa_full_name = name, aa_description = description, aa_language = primary_language\<rparr>)))"

definition analysis_request ::
    "watch_contracts \<Rightarrow> string \<Rightarrow> uuid \<Rightarrow> int \<Rightarrow> analysis_revision \<Rightarrow> analysis_attributes \<Rightarrow> catalog \<Rightarrow>
     (watch_error, analysis_requested \<times> catalog) result" where
  "analysis_request wc owner repo numeric revision attributes db =
     and_then (ok_or WatchSerialization
         (wc_key_digest wc owner repo numeric revision attributes requested_contract)) (\<lambda>key.
     let (new_id, db1) = fresh_uuid db in
     if \<not> wc_request_id wc new_id then Inl InvalidStoredIdentity
     else Inr (\<lparr>ar_owner = owner, ar_repository_id = repo, ar_numeric_id = numeric, ar_request_id = new_id,
                ar_source_revision = revision, ar_attributes = attributes, ar_idempotency_key = key\<rparr>, db1))"

text \<open>The source of a repository's requests, read from the stored projection and its raw revision.\<close>

record evaluation_source =
  es_hash :: string
  es_numeric :: int
  es_revision :: analysis_revision
  es_attributes :: analysis_attributes

definition stored_revision :: "uuid \<Rightarrow> string \<Rightarrow> catalog \<Rightarrow> revision_row option" where
  "stored_revision repo h db =
     max_by (\<lambda>r. (rv_observed r, rv_id r)) (filter (\<lambda>r. rv_repo r = repo \<and> rv_hash r = h) (revisions db))"

definition evaluation_source_of ::
    "watch_contracts \<Rightarrow> uuid \<Rightarrow> catalog \<Rightarrow> (watch_error, evaluation_source) result" where
  "evaluation_source_of wc repo db =
     and_then (ok_or MissingMetadata (find_by md_repo repo (metadata db))) (\<lambda>m.
     and_then (ok_or MissingMetadata (stored_revision repo (md_hash m) db)) (\<lambda>r.
     and_then (ok_or InvalidMetadata (stored_body_of (rv_payload r))) (\<lambda>stored.
     and_then (analysis_attributes_of wc stored) (\<lambda>attributes.
     and_then (ok_or WatchSerialization (wc_attributes_digest wc attributes)) (\<lambda>digest.
     if sb_provider_repository_id stored < 0 then Inl InvalidMetadata
     else
     and_then (ok_or InvalidStoredIdentity (wc_readme wc (md_readme m))) (\<lambda>readme.
       Inr \<lparr>es_hash = md_hash m, es_numeric = sb_provider_repository_id stored,
            es_revision = \<lparr>an_attributes_digest = digest, an_readme = readme\<rparr>,
            es_attributes = attributes\<rparr>))))))"

definition stale_watches :: "uuid \<Rightarrow> string \<Rightarrow> catalog \<Rightarrow> watch_row list" where
  "stale_watches repo h db =
     sort_key wt_id (filter (\<lambda>w. wt_repo w = repo \<and> wt_enabled w \<and> wt_checkpoint w \<noteq> Some h) (watches db))"

definition new_request ::
    "watch_row \<Rightarrow> analysis_requested \<Rightarrow> json \<Rightarrow> json \<Rightarrow> json \<Rightarrow> timestamp \<Rightarrow> request_row" where
  "new_request watch request revision attributes payload due =
     \<lparr>rq_id = ar_request_id request, rq_watch = wt_id watch, rq_owner = wt_owner watch,
      rq_repo = ar_repository_id request, rq_provider_id = ar_numeric_id request,
      rq_revision = revision, rq_attributes = attributes, rq_payload = payload,
      rq_attributes_digest = an_attributes_digest (ar_source_revision request),
      rq_digest = ar_idempotency_key request, rq_status = ReqQueued, rq_not_before = due,
      rq_outbox = None, rq_result = None, rq_failure = None, rq_retryable = None, rq_terminal = None\<rparr>"

text \<open>
  The checks of the table on an inserted request: the owner's form, a positive numeric identity, the two
  hexadecimal digests and the three JSON objects. The contract and the status are literals, and the
  columns of a terminal request are null, so the remaining checks hold.
\<close>

definition request_row_check :: "request_row \<Rightarrow> (sql_error, unit) result" where
  "request_row_check r =
     (if matches user_owner_pattern (rq_owner r) \<and> 0 < rq_provider_id r \<and>
         matches digest_pattern (rq_attributes_digest r) \<and> matches digest_pattern (rq_digest r) \<and>
         json_object (rq_revision r) \<and> json_object (rq_attributes r) \<and> json_object (rq_payload r)
      then Inr () else Inl CheckViolation)"

definition set_checkpoint :: "uuid \<Rightarrow> string \<Rightarrow> catalog \<Rightarrow> catalog" where
  "set_checkpoint watch h db =
     db\<lparr>watches := update_where (\<lambda>w. wt_id w = watch)
       (\<lambda>w. w\<lparr>wt_checkpoint := Some h, wt_updated := db_clock db\<rparr>) (watches db)\<rparr>"

text \<open>
  One round of the loop over the stale watches: the request is inserted unless the watch already has
  one for the same digest, the checkpoint advances either way, and only an insertion moves the due
  time of the next one.
\<close>

definition queue_watch ::
    "watch_contracts \<Rightarrow> uuid \<Rightarrow> evaluation_source \<Rightarrow> timestamp \<Rightarrow> watch_row \<Rightarrow> timestamp \<times> nat \<Rightarrow> catalog \<Rightarrow>
     (watch_error, (timestamp \<times> nat) \<times> catalog) result" where
  "queue_watch wc repo src now watch = (\<lambda>(next_not_before, queued) db.
     and_then (ok_or InvalidStoredIdentity (wc_tenant wc (wt_owner watch))) (\<lambda>owner.
     and_then (analysis_request wc owner repo (es_numeric src) (es_revision src) (es_attributes src) db)
       (\<lambda>(request, db1).
     and_then (ok_or WatchSerialization (wc_requested_json wc request)) (\<lambda>payload.
     and_then (ok_or WatchSerialization (wc_revision_json wc (ar_source_revision request))) (\<lambda>revision.
     and_then (ok_or WatchSerialization (wc_attributes_json wc (ar_attributes request))) (\<lambda>attributes.
       let due = max next_not_before now;
           row = new_request watch request revision attributes payload due
       in
       case request_row_check row of
         Inl e \<Rightarrow> Inl (WatchPersistence e)
       | Inr _ \<Rightarrow>
           if request_key_of row \<in> request_key_of ` set (requests db1)
           then Inr ((next_not_before, queued), set_checkpoint (wt_id watch) (es_hash src) db1)
           else if rq_id row \<in> rq_id ` set (requests db1) then Inl (WatchPersistence UniqueViolation)
           else Inr ((due + dispatch_spacing, Suc queued),
             set_checkpoint (wt_id watch) (es_hash src) (db1\<lparr>requests := requests db1 @ [row]\<rparr>))))))))"

fun queue_watches ::
    "watch_contracts \<Rightarrow> uuid \<Rightarrow> evaluation_source \<Rightarrow> timestamp \<Rightarrow> watch_row list \<Rightarrow> timestamp \<times> nat \<Rightarrow> catalog \<Rightarrow>
     (watch_error, (timestamp \<times> nat) \<times> catalog) result" where
  "queue_watches wc repo src now [] s db = Inr (s, db)"
| "queue_watches wc repo src now (w # ws) s db =
     and_then (queue_watch wc repo src now w s db) (\<lambda>(s1, db1). queue_watches wc repo src now ws s1 db1)"

definition evaluate_watches_tx ::
    "watch_contracts \<Rightarrow> uuid \<Rightarrow> timestamp \<Rightarrow> catalog \<Rightarrow> (watch_error, watch_evaluation \<times> catalog) result" where
  "evaluate_watches_tx wc repo now db =
     and_then (evaluation_source_of wc repo db) (\<lambda>src.
       let stale = stale_watches repo (es_hash src) db in
       if stale = [] then Inr (WatchesUnchanged, db)
       else
         let start = (case dispatch_cursor db of None \<Rightarrow> now | Some t \<Rightarrow> t) in
         and_then (queue_watches wc repo src now stale (start, 0) (db\<lparr>dispatch_cursor := Some start\<rparr>))
           (\<lambda>((next_not_before, queued), db1).
              Inr (WatchesQueued queued,
                if 0 < queued then db1\<lparr>dispatch_cursor := Some next_not_before\<rparr> else db1)))"

definition evaluate_metadata_watches ::
    "watch_contracts \<Rightarrow> uuid \<Rightarrow> timestamp \<Rightarrow> (watch_error, watch_evaluation) io" where
  "evaluate_metadata_watches wc repo now =
     (if \<not> wc_repository_id wc repo then io_fail InvalidStoredIdentity
      else transact_with WatchPersistence (evaluate_watches_tx wc repo now))"

section \<open>Dispatch\<close>

definition analysis_requested_envelope ::
    "watch_contracts \<Rightarrow> uuid \<Rightarrow> analysis_requested \<Rightarrow> (envelope_build_error, json) result" where
  "analysis_requested_envelope wc event_id request =
     and_then (ok_or EnvelopeIdentity (wc_producer wc ''ratatoskr-github'')) (\<lambda>producer.
     and_then (ok_or EnvelopeIdentity
         (wc_entity_ref wc (''repository:'' @ wc_uuid_text wc (ar_repository_id request)))) (\<lambda>aggregate.
     and_then (ok_or EnvelopeIdentity
         (wc_entity_ref wc (''repository_analysis:'' @ wc_uuid_text wc (ar_request_id request)))) (\<lambda>correlation.
     and_then (ok_or EnvelopeIdentity (wc_event_payload wc request)) (\<lambda>payload.
       ok_or EnvelopeEncode
         (wc_event_json wc event_id producer aggregate correlation (ar_owner request) payload)))))"

definition due_request :: "timestamp \<Rightarrow> catalog \<Rightarrow> request_row option" where
  "due_request now db =
     min_by (\<lambda>r. (rq_not_before r, rq_id r))
       (filter (\<lambda>r. rq_status r = ReqQueued \<and> rq_not_before r \<le> now) (requests db))"

definition set_pending :: "uuid \<Rightarrow> uuid \<Rightarrow> request_row list \<Rightarrow> request_row list" where
  "set_pending request message t =
     update_where (\<lambda>r. rq_id r = request) (\<lambda>r. r\<lparr>rq_status := ReqPending, rq_outbox := Some message\<rparr>) t"

definition dispatch_due_tx ::
    "watch_contracts \<Rightarrow> timestamp \<Rightarrow> catalog \<Rightarrow> (watch_error, uuid option \<times> catalog) result" where
  "dispatch_due_tx wc now db =
     (case due_request now db of
        None \<Rightarrow> Inr (None, db)
      | Some r \<Rightarrow>
          let (message, db1) = fresh_uuid db in
          and_then (ok_or WatchSerialization (wc_requested_of_json wc (rq_payload r))) (\<lambda>requested.
          case analysis_requested_envelope wc message requested of
            Inl e \<Rightarrow> Inl (watch_error_of e)
          | Inr envelope \<Rightarrow>
              if message \<in> ob_message ` set (outbox db1) \<or> Some message \<in> rq_outbox ` set (requests db1)
              then Inl (WatchPersistence UniqueViolation)
              else Inr (Some (rq_id r), db1\<lparr>
                outbox := outbox db1 @
                  [outbox_entry message analysis_requested_subject envelope (db_clock db1)],
                requests := set_pending (rq_id r) message (requests db1)\<rparr>)))"

definition dispatch_due_repository_analysis ::
    "watch_contracts \<Rightarrow> timestamp \<Rightarrow> (watch_error, analysis_dispatch) io" where
  "dispatch_due_repository_analysis wc now =
     io_bind (transact_with WatchPersistence (dispatch_due_tx wc now)) (\<lambda>sent.
       case sent of
         None \<Rightarrow> io_return NotDue
       | Some request \<Rightarrow>
           if wc_request_id wc request then io_return (DispatchPending request)
           else io_fail InvalidStoredIdentity)"

section \<open>Terminal facts\<close>

definition matches_pending :: "terminal_identity \<Rightarrow> json \<Rightarrow> request_row \<Rightarrow> bool" where
  "matches_pending i revision r \<longleftrightarrow>
     rq_id r = ti_request_id i \<and> rq_owner r = ti_owner i \<and> rq_repo r = ti_repository_id i \<and>
     rq_provider_id r = ti_numeric_id i \<and> rq_revision r = revision \<and> rq_status r = ReqPending"

definition close_request ::
    "request_status \<Rightarrow> string option \<Rightarrow> string option \<Rightarrow> bool option \<Rightarrow> timestamp \<Rightarrow> request_row \<Rightarrow> request_row" where
  "close_request status result_ref failure retryable now r =
     r\<lparr>rq_status := status, rq_result := result_ref, rq_failure := failure, rq_retryable := retryable,
       rq_terminal := Some now\<rparr>"

definition link_merge :: "link_row \<Rightarrow> link_row \<Rightarrow> link_row" where
  "link_merge old new =
     old\<lparr>ln_request := ln_request new, ln_result := ln_result new, ln_completed := ln_completed new\<rparr>"

definition link_result ::
    "terminal_identity \<Rightarrow> string \<Rightarrow> catalog \<Rightarrow> (sql_error, catalog) result" where
  "link_result i result_ref db =
     (let t = upsert link_key link_merge
            \<lparr>ln_owner = ti_owner i, ln_repo = ti_repository_id i, ln_request = ti_request_id i,
             ln_result = result_ref, ln_completed = db_clock db\<rparr> (links db)
      in if distinct (map ln_request t) then Inr (db\<lparr>links := t\<rparr>) else Inl UniqueViolation)"

definition consume_terminal_fact_tx ::
    "watch_contracts \<Rightarrow> uuid \<Rightarrow> string \<Rightarrow> terminal_identity \<Rightarrow> json \<Rightarrow> request_status \<Rightarrow> string option \<Rightarrow>
     string option \<Rightarrow> bool option \<Rightarrow> catalog \<Rightarrow> (watch_error, terminal_fact_outcome \<times> catalog) result" where
  "consume_terminal_fact_tx wc message_id subject i payload status result_ref failure retryable db =
     (if message_id \<in> ib_message ` set (inbox db) then Inr (FactDuplicate, db)
      else
        let db1 = db\<lparr>inbox := inbox db @
              [\<lparr>ib_message = message_id, ib_subject = subject, ib_payload = payload, ib_consumed = None\<rparr>]\<rparr>
        in
        and_then (ok_or WatchSerialization (wc_revision_json wc (ti_source_revision i))) (\<lambda>revision.
        if i64_max < ti_numeric_id i then Inl InvalidStoredIdentity
        else
          let changed = length (filter (matches_pending i revision) (requests db1));
              db2 = db1\<lparr>requests := update_where (matches_pending i revision)
                (close_request status result_ref failure retryable (db_clock db1)) (requests db1)\<rparr>
          in
          and_then
            (case result_ref of
               Some ref \<Rightarrow>
                 if changed = 1 \<and> status = ReqCompleted
                 then (case link_result i ref db2 of Inl e \<Rightarrow> Inl (WatchPersistence e) | Inr db3 \<Rightarrow> Inr db3)
                 else Inr db2
             | None \<Rightarrow> Inr db2) (\<lambda>db3.
          Inr (if changed = 1 then FactResolved else FactIgnored,
            db3\<lparr>inbox := update_where (\<lambda>r. ib_message r = message_id)
              (\<lambda>r. r\<lparr>ib_consumed := Some (db_clock db3)\<rparr>) (inbox db3)\<rparr>))))"

definition consume_terminal_fact ::
    "watch_contracts \<Rightarrow> uuid \<Rightarrow> string \<Rightarrow> terminal_fact \<Rightarrow> request_status \<Rightarrow> string option \<Rightarrow>
     string option \<Rightarrow> bool option \<Rightarrow> (watch_error, terminal_fact_outcome) io" where
  "consume_terminal_fact wc message_id subject terminal status result_ref failure retryable w =
     (case wc_fact_json wc terminal of
        None \<Rightarrow> (Inl WatchSerialization, w)
      | Some payload \<Rightarrow>
          transact_with WatchPersistence
            (consume_terminal_fact_tx wc message_id subject (fact_identity terminal) payload status
              result_ref failure retryable) w)"

definition consume_repository_analysis_completed ::
    "watch_contracts \<Rightarrow> uuid \<Rightarrow> terminal_identity \<Rightarrow> string \<Rightarrow> (watch_error, terminal_fact_outcome) io" where
  "consume_repository_analysis_completed wc message_id i result_ref =
     consume_terminal_fact wc message_id completed_subject (FactCompleted i result_ref) ReqCompleted
       (Some result_ref) None None"

fun failure_code_text :: "analysis_failure_code \<Rightarrow> string option" where
  "failure_code_text SourceUnavailable = Some ''source_unavailable''"
| "failure_code_text ContractInvalid = Some ''contract_invalid''"
| "failure_code_text DependencyUnavailable = Some ''dependency_unavailable''"
| "failure_code_text NotAuthorized = Some ''not_authorized''"
| "failure_code_text UnknownFailure = None"

definition consume_repository_analysis_failed ::
    "watch_contracts \<Rightarrow> uuid \<Rightarrow> terminal_identity \<Rightarrow> analysis_failure_code \<Rightarrow> bool \<Rightarrow>
     (watch_error, terminal_fact_outcome) io" where
  "consume_repository_analysis_failed wc message_id i code retryable =
     (case failure_code_text code of
        None \<Rightarrow> io_fail InvalidStoredIdentity
      | Some text \<Rightarrow>
          consume_terminal_fact wc message_id failed_subject (FactFailed i code retryable) ReqFailed
            None (Some text) (Some retryable))"

definition repository_analysis_request_state :: "uuid \<Rightarrow> catalog \<Rightarrow> analysis_request_state option" where
  "repository_analysis_request_state request db =
     map_option (\<lambda>r. \<lparr>rs_status = rq_status r, rs_analysis_result_ref = rq_result r\<rparr>)
       (find_by rq_id request (requests db))"

end
