(* ===== verification/Metadata.thy ===== *)
theory Metadata
  imports Watches Provider Grammar "HOL-Library.Word"
begin

unbundle bit_operations_syntax

text \<open>
  The metadata projection and its bounded history (\<open>crates/catalog/src/metadata.rs\<close>): README bytes
  under their digest, the content-addressed application of a source revision, pruning to the most
  recent revisions, and the cheap not-modified refresh. The contract and identifier crates,
  \<open>serde_json\<close> and SHA-256 are a record of functions.
\<close>

section \<open>Data\<close>

definition revision_history_limit :: nat where "revision_history_limit = 10"

datatype applied_outcome = AppliedCreated | AppliedUpdated | AppliedUnchanged

record blob_ref =
  br_owner_service :: string
  br_digest :: string
  br_media_type :: string
  br_length_bytes :: int

datatype readme_absence_reason = ReadmeNotFound | ReadmeNotAuthorized

datatype readme_revision = ReadmePresent blob_ref | ReadmeAbsent readme_absence_reason

record repository_analysis_source =
  as_readme :: readme_revision
  as_readme_etag :: "string option"

datatype repository_source_error = SourcePersistence sql_error | SourceContract | SourceEncode

datatype readme_blob_error = BlobPersistence sql_error | BlobContract | BlobLengthOverflow

text \<open>
  The functions of the contract crates, \<open>serde_json\<close> and \<open>sha2\<close>: bounded texts, digests and media
  types (to their wire text), JSON forms of contract values, the bytes of a JSON value, and the hash.
\<close>

record source_contracts =
  so_description :: "string \<Rightarrow> string option"
  so_language :: "string \<Rightarrow> string option"
  so_full_name :: "string \<Rightarrow> string option"
  so_digest_hex :: "string \<Rightarrow> string option"
  so_blob_owner :: "string \<Rightarrow> string option"
  so_media_type :: "string \<Rightarrow> string option"
  so_attributes_json :: "analysis_attributes \<Rightarrow> json option"
  so_digest_json :: "string \<Rightarrow> json"
  so_readme_json :: "readme_revision \<Rightarrow> json option"
  so_readme_of_json :: "json \<Rightarrow> readme_revision option"
  so_to_vec :: "json \<Rightarrow> 8 word list option"
  so_sha256 :: "8 word list \<Rightarrow> 8 word list"

section \<open>Digests\<close>

definition nibble_char :: "8 word \<Rightarrow> char" where
  "nibble_char n = (let k = unat n in
     if k < 10 then char_of (48 + k) else if k < 15 then char_of (87 + k) else CHR ''f'')"

definition sha256_hex :: "8 word list \<Rightarrow> string" where
  "sha256_hex digest =
     concat (map (\<lambda>byte. [nibble_char (drop_bit 4 byte), nibble_char (byte AND 0x0f)]) digest)"

definition content_digest :: "source_contracts \<Rightarrow> json \<Rightarrow> (repository_source_error, string) result" where
  "content_digest sc v =
     and_then (ok_or SourceEncode (so_to_vec sc v)) (\<lambda>serialized.
       ok_or SourceContract (so_digest_hex sc (sha256_hex (so_sha256 sc serialized))))"

section \<open>README bytes\<close>

definition bytes_text :: "8 word list \<Rightarrow> string" where
  "bytes_text bs = map (\<lambda>b. char_of (unat b)) bs"

definition store_readme_tx :: "string \<Rightarrow> 8 word list \<Rightarrow> catalog \<Rightarrow> (readme_blob_error, unit \<times> catalog) result" where
  "store_readme_tx digest bytes db =
     Inr ((), db\<lparr>readme_blobs := insert_ignore rb_digest
       \<lparr>rb_digest = digest, rb_bytes = bytes_text bytes, rb_length = int (length bytes)\<rparr> (readme_blobs db)\<rparr>)"

definition store_readme :: "source_contracts \<Rightarrow> 8 word list \<Rightarrow> (readme_blob_error, blob_ref) io" where
  "store_readme sc bytes =
     (let digest_hex = sha256_hex (so_sha256 sc bytes) in
      if i64_max < int (length bytes) then io_fail BlobLengthOverflow
      else
        io_bind (transact_with BlobPersistence (store_readme_tx digest_hex bytes)) (\<lambda>_.
          case (so_blob_owner sc ''ratatoskr-github'', so_digest_hex sc digest_hex,
                so_media_type sc ''text/markdown'') of
            (Some owner, Some digest, Some media) \<Rightarrow>
              io_return \<lparr>br_owner_service = owner, br_digest = digest, br_media_type = media,
                         br_length_bytes = int (length bytes)\<rparr>
          | _ \<Rightarrow> io_fail BlobContract))"

section \<open>Applying a source revision\<close>

definition parse_nonempty ::
    "(string \<Rightarrow> string option) \<Rightarrow> string option \<Rightarrow> (repository_source_error, string option) result" where
  "parse_nonempty p value =
     (case value of
        None \<Rightarrow> Inr None
      | Some s \<Rightarrow>
          if s = [] then Inr None
          else (case p s of None \<Rightarrow> Inl SourceContract | Some t \<Rightarrow> Inr (Some t)))"

definition repository_attributes ::
    "source_contracts \<Rightarrow> provider_repository_body \<Rightarrow> (repository_source_error, analysis_attributes) result" where
  "repository_attributes sc body =
     and_then (parse_nonempty (so_description sc) (pb_description body)) (\<lambda>description.
     and_then (parse_nonempty (so_language sc) (pb_language body)) (\<lambda>primary_language.
     and_then (ok_or SourceContract (so_full_name sc (pb_full_name body))) (\<lambda>name.
       Inr \<lparr>aa_full_name = name, aa_description = description, aa_language = primary_language\<rparr>)))"

fun optional_json :: "string option \<Rightarrow> json" where
  "optional_json None = JNull"
| "optional_json (Some s) = JStr s"

definition normalized_payload :: "provider_repository_body \<Rightarrow> json" where
  "normalized_payload body = JObj
     [(''provider_repository_id'', JNum (pb_provider_repository_id body)),
      (''full_name'', JStr (pb_full_name body)),
      (''description'', optional_json (pb_description body)),
      (''language'', optional_json (pb_language body)),
      (''stargazers'', JNum (pb_stargazers body)),
      (''topics'', JArr (map JStr (pb_topics body))),
      (''default_branch'', optional_json (pb_default_branch body)),
      (''pushed_at'', optional_json (pb_pushed_at body))]"

text \<open>The identity of a source: its attributes' digest and its README evidence.\<close>

definition source_digest_of ::
    "source_contracts \<Rightarrow> provider_repository_body \<Rightarrow> readme_revision \<Rightarrow> (repository_source_error, string) result" where
  "source_digest_of sc body readme =
     and_then (repository_attributes sc body) (\<lambda>attributes.
     and_then (ok_or SourceEncode (so_attributes_json sc attributes)) (\<lambda>attributes_value.
     and_then (content_digest sc attributes_value) (\<lambda>attributes_digest.
     and_then (ok_or SourceEncode (so_readme_json sc readme)) (\<lambda>readme_value.
       content_digest sc (JObj [(''attributes_digest'', so_digest_json sc attributes_digest),
         (''readme'', readme_value)])))))"

definition metadata_merge :: "metadata_row \<Rightarrow> metadata_row \<Rightarrow> metadata_row" where
  "metadata_merge old new = new\<lparr>md_repo := md_repo old, md_attempted := md_attempted old\<rparr>"

definition write_metadata_projection ::
    "(string \<Rightarrow> timestamp option) \<Rightarrow> uuid \<Rightarrow> provider_repository_body \<Rightarrow> string option \<Rightarrow> string option \<Rightarrow>
     json \<Rightarrow> string \<Rightarrow> catalog \<Rightarrow> (sql_error, catalog) result" where
  "write_metadata_projection cast repo body etag readme_etag readme_value content_hash db =
     and_then
       (case pb_pushed_at body of
          None \<Rightarrow> Inr None
        | Some s \<Rightarrow> (case cast s of None \<Rightarrow> Inl InvalidText | Some t \<Rightarrow> Inr (Some t))) (\<lambda>pushed_at.
     if \<not> json_object readme_value then Inl CheckViolation
     else if repo \<notin> repo_id ` set (repositories db) then Inl ForeignKeyViolation
     else Inr (db\<lparr>metadata := upsert md_repo metadata_merge
       \<lparr>md_repo = repo, md_description = pb_description body, md_language = pb_language body,
        md_stargazers = pb_stargazers body, md_topics = JArr (map JStr (pb_topics body)),
        md_default_branch = pb_default_branch body, md_pushed_at = pushed_at, md_etag = etag,
        md_readme_etag = readme_etag, md_readme = readme_value, md_hash = content_hash,
        md_fetched = db_clock db, md_attempted = None\<rparr> (metadata db)\<rparr>))"

definition recent_revisions :: "uuid \<Rightarrow> catalog \<Rightarrow> uuid list" where
  "recent_revisions repo db =
     map rv_id (take revision_history_limit (rev (sort_key (\<lambda>r. (rv_observed r, rv_id r))
       (filter (\<lambda>r. rv_repo r = repo) (revisions db)))))"

definition prune_history_in_tx :: "uuid \<Rightarrow> catalog \<Rightarrow> catalog" where
  "prune_history_in_tx repo db =
     db\<lparr>revisions := delete_where
       (\<lambda>r. rv_repo r = repo \<and> rv_id r \<notin> set (recent_revisions repo db)) (revisions db)\<rparr>"

definition touch_fetched :: "uuid \<Rightarrow> catalog \<Rightarrow> catalog" where
  "touch_fetched repo db =
     db\<lparr>metadata := update_where (\<lambda>m. md_repo m = repo) (\<lambda>m. m\<lparr>md_fetched := db_clock db\<rparr>) (metadata db)\<rparr>"

definition apply_source_tx ::
    "source_contracts \<Rightarrow> (string \<Rightarrow> timestamp option) \<Rightarrow> uuid \<Rightarrow> provider_repository_body \<Rightarrow> string option \<Rightarrow>
     repository_analysis_source \<Rightarrow> string \<Rightarrow> catalog \<Rightarrow> (repository_source_error, applied_outcome \<times> catalog) result" where
  "apply_source_tx sc cast repo body etag source digest db =
     (let current = map_option md_hash (find_by md_repo repo (metadata db)) in
      if current = Some digest then Inr (AppliedUnchanged, touch_fetched repo db)
      else
        and_then (ok_or SourceEncode (so_readme_json sc (as_readme source))) (\<lambda>readme_value.
        case write_metadata_projection cast repo body etag (as_readme_etag source) readme_value digest db of
          Inl e \<Rightarrow> Inl (SourcePersistence e)
        | Inr db1 \<Rightarrow>
            let (revision, db2) = fresh_uuid db1 in
            Inr (if current = None then AppliedCreated else AppliedUpdated,
              prune_history_in_tx repo (db2\<lparr>revisions := revisions db2 @
                [\<lparr>rv_id = revision, rv_repo = repo, rv_payload = normalized_payload body,
                  rv_hash = digest, rv_observed = db_clock db2\<rparr>]\<rparr>))))"

definition apply_fresh_source ::
    "source_contracts \<Rightarrow> (string \<Rightarrow> timestamp option) \<Rightarrow> uuid \<Rightarrow> provider_repository_body \<Rightarrow> string option \<Rightarrow>
     repository_analysis_source \<Rightarrow> (repository_source_error, applied_outcome) io" where
  "apply_fresh_source sc cast repo body etag source w =
     (case source_digest_of sc body (as_readme source) of
        Inl e \<Rightarrow> (Inl e, w)
      | Inr digest \<Rightarrow>
          transact_with SourcePersistence (apply_source_tx sc cast repo body etag source digest) w)"

definition apply_not_modified :: "uuid \<Rightarrow> (sql_error, unit) io" where
  "apply_not_modified repo = transact (\<lambda>db. Inr ((), touch_fetched repo db))"

section \<open>Laws of the hexadecimal form\<close>

definition char_nibble :: "char \<Rightarrow> nat" where
  "char_nibble c = (let n = of_char c in if n < 58 then n - 48 else n - 87)"

fun hex_bytes :: "string \<Rightarrow> 8 word list" where
  "hex_bytes (a # b # s) = word_of_nat (16 * char_nibble a + char_nibble b) # hex_bytes s"
| "hex_bytes _ = []"

end
