(* ===== verification/Metadata_History.thy ===== *)
theory Metadata_History
  imports Metadata
begin

text \<open>
  Correctness of the metadata projection: the hexadecimal form of a digest, the bounded history that
  always holds the raw revision of the current projection, and content addressing.
\<close>

section \<open>Hexadecimal digests\<close>

lemma nibble_bounds: "unat (drop_bit 4 (b :: 8 word)) = unat b div 16" "unat (b AND 0x0f) = unat b mod 16"
proof -
  show "unat (drop_bit 4 b) = unat b div 16"
    by (simp add: drop_bit_eq_div unat_div_distrib)
  have "b AND 0x0f = take_bit 4 b" by (simp add: take_bit_eq_mask mask_eq_decr_exp)
  then show "unat (b AND 0x0f) = unat b mod 16" by (simp add: take_bit_eq_mod unat_mod_distrib)
qed

lemma of_char_char_of: "n < 256 \<Longrightarrow> of_char (char_of n) = (n::nat)"
  by simp

lemma nibble_char_of:
  assumes "unat n < 16"
  shows "of_char (nibble_char n) = (if unat n < 10 then 48 + unat n else 87 + unat n)"
    and "nibble_char n \<in> set hex_digits" and "char_nibble (nibble_char n) = unat n"
proof -
  show code: "of_char (nibble_char n) = (if unat n < 10 then 48 + unat n else 87 + unat n)"
    using assms by (auto simp: nibble_char_def Let_def)
  show "nibble_char n \<in> set hex_digits"
    using assms code by (auto simp: hex_digits_def digits_def set_char_range)
  show "char_nibble (nibble_char n) = unat n"
    using code by (simp add: char_nibble_def)
qed

text \<open>
  The digest text is a faithful encoding: its characters are lower-case hexadecimal, two for each
  byte - for the 32 bytes of SHA-256 the 64 that the schema's digest check demands - and the bytes
  can be read back from it, so different digests have different texts.
\<close>

theorem sha256_hex_roundtrip:
  "hex_bytes (sha256_hex bs) = bs \<and>
   sha256_hex bs \<in> language (Rep (2 * length bs) (2 * length bs) (OneOf hex_digits))"
proof (induction bs)
  case Nil
  then show ?case by (simp add: sha256_hex_def language_Rep_OneOf del: language.simps)
next
  case (Cons b bs)
  have hex: "sha256_hex (b # bs) = nibble_char (drop_bit 4 b) # nibble_char (b AND 0x0f) # sha256_hex bs"
    by (simp add: sha256_hex_def)
  have small: "unat (drop_bit 4 b) < 16" "unat (b AND 0x0f) < 16"
  proof -
    have "unat b < 2 ^ 8" by (rule order_less_le_trans [OF unsigned_less]) simp
    then show "unat (drop_bit 4 b) < 16" "unat (b AND 0x0f) < 16" by (auto simp: nibble_bounds)
  qed
  have "word_of_nat (16 * unat (drop_bit 4 b) + unat (b AND 0x0f)) = b"
    unfolding nibble_bounds by (simp only: mult_div_mod_eq) simp
  with Cons small show ?case
    unfolding hex by (simp add: nibble_char_of language_Rep_OneOf del: language.simps)
qed

section \<open>The history\<close>

definition history_ok :: "catalog \<Rightarrow> bool" where
  "history_ok db \<longleftrightarrow>
     distinct (map md_repo (metadata db)) \<and> distinct (map rv_id (revisions db)) \<and>
     (\<forall>r\<in>set (revisions db). rv_id r < next_uuid db \<and> rv_observed r \<le> db_clock db) \<and>
     (\<forall>m\<in>set (metadata db). \<exists>r\<in>set (revisions db). rv_repo r = md_repo m \<and> rv_hash r = md_hash m) \<and>
     (\<forall>repo. length (filter (\<lambda>r. rv_repo r = repo) (revisions db)) \<le> revision_history_limit)"

lemma history_ok_later: "history_ok db \<Longrightarrow> db_clock db \<le> t \<Longrightarrow> history_ok (db\<lparr>db_clock := t\<rparr>)"
  unfolding history_ok_def by (auto intro: order_trans)

interpretation metadata_table: keyed_table md_repo metadata_merge
  by unfold_locales (simp add: metadata_merge_def)

lemma rev_sort_takes_greatest:
  assumes "x \<in> set xs" and "\<And>y. y \<in> set xs \<Longrightarrow> y \<noteq> x \<Longrightarrow> (f y :: 'k::linorder) < f x" and "distinct xs" and "0 < n"
  shows "x \<in> set (take n (rev (sort_key f xs)))"
proof -
  let ?s = "sort_key f xs"
  have ne: "?s \<noteq> []" using assms(1) by (metis empty_iff list.set(1) set_sort)
  then obtain ys y where ys: "?s = ys @ [y]" by (metis append_butlast_last_id)
  have "y \<in> set xs" using ys by (metis in_set_conv_decomp set_sort)
  have "x = y"
  proof (rule ccontr)
    assume "x \<noteq> y"
    then have "x \<in> set ys" using assms(1) ys by (metis Un_iff empty_iff insert_iff list.set set_append set_sort)
    moreover have "sorted (map f ys @ [f y])" using sorted_sort_key [of f xs] unfolding ys by simp
    ultimately have "f x \<le> f y" by (auto simp: sorted_append)
    with assms(2) [OF \<open>y \<in> set xs\<close>] \<open>x \<noteq> y\<close> show False by auto
  qed
  then show ?thesis using assms(4) unfolding ys by (cases n) simp_all
qed

lemma recent_revisions_bound:
  assumes "distinct (map rv_id (revisions db))"
  shows "length (filter (\<lambda>r. rv_repo r = repo \<and> rv_id r \<in> set (recent_revisions repo db)) (revisions db))
    \<le> revision_history_limit"
proof -
  let ?kept = "filter (\<lambda>r. rv_repo r = repo \<and> rv_id r \<in> set (recent_revisions repo db)) (revisions db)"
  have "distinct (map rv_id ?kept)" using assms by (rule distinct_map_filter)
  then have "length ?kept = card (rv_id ` set ?kept)" using distinct_card [of "map rv_id ?kept"] by (simp only: length_map list.set_map)
  also have "\<dots> \<le> card (set (recent_revisions repo db))" by (rule card_mono) auto
  also have "\<dots> \<le> revision_history_limit"
  proof -
    have "length (recent_revisions repo db) \<le> revision_history_limit" by (simp add: recent_revisions_def)
    then show ?thesis using card_length [of "recent_revisions repo db"] by linarith
  qed
  finally show ?thesis .
qed

text \<open>Appending the newest revision and pruning.\<close>

lemma prune_after_append:
  assumes "history_ok db" and "rv_id new = next_uuid db" and "rv_observed new = db_clock db"
    and "db1 = db\<lparr>metadata := t, next_uuid := Suc (next_uuid db), revisions := revisions db @ [new]\<rparr>"
    and "rv_repo new = repo"
  shows "new \<in> set (revisions (prune_history_in_tx repo db1))"
    and "distinct (map rv_id (revisions (prune_history_in_tx repo db1)))"
    and "\<forall>r\<in>set (revisions (prune_history_in_tx repo db1)). rv_id r < Suc (next_uuid db) \<and> rv_observed r \<le> db_clock db"
    and "length (filter (\<lambda>r. rv_repo r = q) (revisions (prune_history_in_tx repo db1))) \<le> revision_history_limit"
    and "q \<noteq> repo \<Longrightarrow> filter (\<lambda>r. rv_repo r = q) (revisions (prune_history_in_tx repo db1)) =
      filter (\<lambda>r. rv_repo r = q) (revisions db)"
proof -
  let ?all = "revisions db @ [new]"
  have ids: "distinct (map rv_id ?all)" using assms(1,2) by (auto simp: history_ok_def)
  have pruned: "revisions (prune_history_in_tx repo db1) =
      delete_where (\<lambda>r. rv_repo r = repo \<and> rv_id r \<notin> set (recent_revisions repo db1)) ?all"
    using assms(4) by (simp add: prune_history_in_tx_def)
  have "new \<in> set (take revision_history_limit (rev (sort_key (\<lambda>r. (rv_observed r, rv_id r))
      (filter (\<lambda>r. rv_repo r = repo) ?all))))"
  proof (rule rev_sort_takes_greatest)
    fix y
    assume "y \<in> set (filter (\<lambda>r. rv_repo r = repo) ?all)" "y \<noteq> new"
    then have "y \<in> set (revisions db)" by (auto split: if_splits)
    then have "rv_id y < next_uuid db" "rv_observed y \<le> db_clock db" using assms(1) by (auto simp: history_ok_def)
    then show "(rv_observed y, rv_id y) < (rv_observed new, rv_id new)" using assms(2,3) by (auto simp: less_prod_def)
  next
    show "distinct (filter (\<lambda>r. rv_repo r = repo) ?all)" using ids by (auto simp: distinct_map)
  qed (use assms(5) ids in \<open>auto simp: revision_history_limit_def distinct_map\<close>)
  then have "rv_id new \<in> set (recent_revisions repo db1)" using assms(4) by (simp add: recent_revisions_def)
  then show "new \<in> set (revisions (prune_history_in_tx repo db1))" by (simp add: pruned)
  show "distinct (map rv_id (revisions (prune_history_in_tx repo db1)))"
    unfolding pruned by (rule distinct_delete_where [OF ids])
  show "\<forall>r\<in>set (revisions (prune_history_in_tx repo db1)). rv_id r < Suc (next_uuid db) \<and> rv_observed r \<le> db_clock db"
    using assms(1,2,3) by (auto simp: pruned history_ok_def)
  have rows: "revisions db1 = ?all" using assms(4) by simp
  have other: "q \<noteq> repo \<Longrightarrow> filter (\<lambda>r. rv_repo r = q) (revisions (prune_history_in_tx repo db1)) =
      filter (\<lambda>r. rv_repo r = q) (revisions db)" for q
    using assms(5) by (auto simp: pruned delete_where_def intro!: filter_cong)
  then show "q \<noteq> repo \<Longrightarrow> filter (\<lambda>r. rv_repo r = q) (revisions (prune_history_in_tx repo db1)) =
      filter (\<lambda>r. rv_repo r = q) (revisions db)" .
  have "filter (\<lambda>r. rv_repo r = repo) (revisions (prune_history_in_tx repo db1)) =
      filter (\<lambda>r. rv_repo r = repo \<and> rv_id r \<in> set (recent_revisions repo db1)) (revisions db1)"
    unfolding pruned rows by (auto simp: delete_where_def intro!: filter_cong)
  then show "length (filter (\<lambda>r. rv_repo r = q) (revisions (prune_history_in_tx repo db1))) \<le> revision_history_limit"
    using recent_revisions_bound [of db1 repo] ids rows other [of q] assms(1)
    by (cases "q = repo") (simp_all add: history_ok_def)
qed

text \<open>The projection holds what a reply said: the body's fields, the two validators and the README evidence.\<close>

definition shows_reply ::
    "source_contracts \<Rightarrow> (string \<Rightarrow> timestamp option) \<Rightarrow> provider_repository_body \<Rightarrow> string option \<Rightarrow>
     repository_analysis_source \<Rightarrow> metadata_row \<Rightarrow> bool" where
  "shows_reply sc cast body etag source m \<longleftrightarrow>
     md_description m = pb_description body \<and> md_language m = pb_language body \<and>
     md_stargazers m = pb_stargazers body \<and> md_topics m = JArr (map JStr (pb_topics body)) \<and>
     md_default_branch m = pb_default_branch body \<and> md_pushed_at m = Option.bind (pb_pushed_at body) cast \<and>
     md_etag m = etag \<and> md_readme_etag m = as_readme_etag source \<and>
     so_readme_json sc (as_readme source) = Some (md_readme m)"

lemma apply_source_Inr:
  assumes "apply_source_tx sc cast repo body etag source digest db = Inr (out, db')"
  obtains (unchanged) m where "find_by md_repo repo (metadata db) = Some m" "md_hash m = digest"
      "out = AppliedUnchanged" "db' = touch_fetched repo db"
  | (applied) readme row where "map_option md_hash (find_by md_repo repo (metadata db)) \<noteq> Some digest"
      "out = (if find_by md_repo repo (metadata db) = None then AppliedCreated else AppliedUpdated)"
      "so_readme_json sc (as_readme source) = Some readme"
      "md_repo row = repo" "md_hash row = digest" "md_readme row = readme" "md_fetched row = db_clock db"
      "db' = prune_history_in_tx repo (db\<lparr>metadata := upsert md_repo metadata_merge row (metadata db),
         next_uuid := Suc (next_uuid db),
         revisions := revisions db @ [\<lparr>rv_id = next_uuid db, rv_repo = repo,
           rv_payload = normalized_payload body, rv_hash = digest, rv_observed = db_clock db\<rparr>]\<rparr>)"
      "shows_reply sc cast body etag source row"
proof (cases "map_option md_hash (find_by md_repo repo (metadata db)) = Some digest")
  case True
  with assms unchanged show ?thesis by (auto simp: apply_source_tx_def)
next
  case False
  note changed = assms [unfolded apply_source_tx_def Let_def if_not_P [OF False]]
  obtain readme where readme: "so_readme_json sc (as_readme source) = Some readme"
    using changed by (auto simp: and_then_eq_Inr ok_or_eq_Inr)
  define row where "row = \<lparr>md_repo = repo, md_description = pb_description body, md_language = pb_language body,
    md_stargazers = pb_stargazers body, md_topics = JArr (map JStr (pb_topics body)),
    md_default_branch = pb_default_branch body, md_pushed_at = Option.bind (pb_pushed_at body) cast, md_etag = etag,
    md_readme_etag = as_readme_etag source, md_readme = readme, md_hash = digest,
    md_fetched = db_clock db, md_attempted = None\<rparr>"
  have "db' = prune_history_in_tx repo (db\<lparr>metadata := upsert md_repo metadata_merge row (metadata db),
         next_uuid := Suc (next_uuid db),
         revisions := revisions db @ [\<lparr>rv_id = next_uuid db, rv_repo = repo,
           rv_payload = normalized_payload body, rv_hash = digest, rv_observed = db_clock db\<rparr>]\<rparr>)"
    and "out = (if find_by md_repo repo (metadata db) = None then AppliedCreated else AppliedUpdated)"
    using changed
    by (auto simp: row_def readme write_metadata_projection_def fresh_uuid_def and_then_eq_Inr
        split: sum.splits option.splits if_splits)
  from applied [OF False this(2) readme _ _ _ _ this(1)] show ?thesis by (simp add: row_def shows_reply_def readme)
qed

text \<open>
  C17. Applying an observed source keeps the history sound: the projection of every repository has its
  raw revision in a history of at most ten per repository. Afterwards the repository's projection
  carries the source's digest; an equal source only moves the fetch time, and any other one adds
  exactly its own revision; the projections and histories of other repositories stay as they were.
\<close>

theorem apply_source_sound:
  assumes "history_ok db" and "apply_source_tx sc cast repo body etag source digest db = Inr (out, db')"
  shows "history_ok db' \<and>
    (\<exists>m. find_by md_repo repo (metadata db') = Some m \<and> md_hash m = digest \<and> md_fetched m = db_clock db) \<and>
    (out = AppliedUnchanged \<longleftrightarrow> map_option md_hash (find_by md_repo repo (metadata db)) = Some digest) \<and>
    (out = AppliedUnchanged \<longrightarrow> revisions db' = revisions db) \<and>
    (out \<noteq> AppliedUnchanged \<longrightarrow> \<lparr>rv_id = next_uuid db, rv_repo = repo, rv_payload = normalized_payload body,
       rv_hash = digest, rv_observed = db_clock db\<rparr> \<in> set (revisions db')) \<and>
    (\<forall>q. q \<noteq> repo \<longrightarrow> find_by md_repo q (metadata db') = find_by md_repo q (metadata db) \<and>
       filter (\<lambda>r. rv_repo r = q) (revisions db') = filter (\<lambda>r. rv_repo r = q) (revisions db))"
  using assms(2)
proof (cases rule: apply_source_Inr)
  case (unchanged m)
  have "map md_repo (metadata db') = map md_repo (metadata db)"
    and "map (\<lambda>m. (md_repo m, md_hash m)) (metadata db') = map (\<lambda>m. (md_repo m, md_hash m)) (metadata db)"
    using unchanged(4) by (simp_all add: touch_fetched_def map_update_where_key)
  then have "\<forall>m\<in>set (metadata db'). \<exists>n\<in>set (metadata db). md_repo n = md_repo m \<and> md_hash n = md_hash m"
    and "distinct (map md_repo (metadata db'))"
    using assms(1) unchanged(4) by (auto simp: touch_fetched_def set_update_where history_ok_def)
  with assms(1) unchanged(4) have "history_ok db'"
    unfolding history_ok_def by (simp add: touch_fetched_def) (metis (no_types, lifting))
  moreover have "find_by md_repo q (metadata db') =
      map_option (\<lambda>m. if md_repo m = repo then m\<lparr>md_fetched := db_clock db\<rparr> else m) (find_by md_repo q (metadata db))" for q
    using unchanged(4) by (simp add: touch_fetched_def find_by_update_where)
  moreover have "revisions db' = revisions db" using unchanged(4) by (simp add: touch_fetched_def)
  ultimately show ?thesis
    using unchanged by (auto dest: find_by_SomeD simp: option.map_ident option.case_eq_if map_option_case)
next
  case (applied readme row)
  let ?new = "\<lparr>rv_id = next_uuid db, rv_repo = repo, rv_payload = normalized_payload body,
    rv_hash = digest, rv_observed = db_clock db\<rparr>"
  let ?t = "upsert md_repo metadata_merge row (metadata db)"
  let ?db1 = "db\<lparr>metadata := ?t, next_uuid := Suc (next_uuid db), revisions := revisions db @ [?new]\<rparr>"
  have db': "db' = prune_history_in_tx repo ?db1" using applied(8) by simp
  note prune = prune_after_append [OF assms(1), where new = ?new and t = ?t and repo = repo, OF _ _ refl, simplified, folded db']
  have find: "find_by md_repo q (metadata db') = (if q = repo then Some (case find_by md_repo repo (metadata db) of
      None \<Rightarrow> row | Some old \<Rightarrow> metadata_merge old row) else find_by md_repo q (metadata db))" for q
    using applied(4) by (auto simp: db' prune_history_in_tx_def metadata_table.find_upsert)
  have dist: "distinct (map md_repo (metadata db'))"
    using assms(1) by (simp add: db' prune_history_in_tx_def history_ok_def metadata_table.distinct_upsert)
  have "\<exists>r\<in>set (revisions db'). rv_repo r = md_repo m \<and> rv_hash r = md_hash m" if "m \<in> set (metadata db')" for m
  proof (cases "md_repo m = repo")
    case True
    then have "find_by md_repo repo (metadata db') = Some m" using that dist by (simp add: find_by_unique)
    then have "md_hash m = digest" using find applied(5) by (auto simp: metadata_merge_def split: option.splits)
    with True prune(1) show ?thesis by (intro bexI [of _ ?new]) simp_all
  next
    case False
    have "find_by md_repo (md_repo m) (metadata db') = Some m" using that dist by (simp add: find_by_unique)
    with False find [of "md_repo m"] have "find_by md_repo (md_repo m) (metadata db) = Some m" by simp
    then obtain r where "r \<in> set (filter (\<lambda>r. rv_repo r = md_repo m) (revisions db))" "rv_hash r = md_hash m"
      using assms(1) by (auto simp: history_ok_def dest!: find_by_SomeD)
    with prune(5) [OF False] show ?thesis by (metis (mono_tags, lifting) filter_set mem_Collect_eq set_filter)
  qed
  then have "history_ok db'"
    using dist prune(2,3,4) unfolding history_ok_def by (simp add: db' prune_history_in_tx_def)
  moreover have "out \<noteq> AppliedUnchanged" using applied(2) by simp
  moreover have "\<exists>m. find_by md_repo repo (metadata db') = Some m \<and> md_hash m = digest \<and> md_fetched m = db_clock db"
    using find [of repo] applied(5,7) by (auto simp: metadata_merge_def split: option.splits)
  ultimately show ?thesis
    using find applied(1) prune(1,5) by auto
qed

section \<open>A first revision\<close>

definition sample_source :: source_contracts where
  "sample_source =
     \<lparr>so_description = Some, so_language = Some, so_full_name = Some, so_digest_hex = Some, so_blob_owner = Some,
      so_media_type = Some, so_attributes_json = (\<lambda>a. Some (JStr (aa_full_name a))), so_digest_json = JStr,
      so_readme_json = (\<lambda>_. Some (JObj [])), so_readme_of_json = (\<lambda>_. None), so_to_vec = (\<lambda>_. Some [1]),
      so_sha256 = (\<lambda>bs. bs)\<rparr>"

definition sample_body :: provider_repository_body where
  "sample_body = \<lparr>pb_provider_repository_id = 42, pb_full_name = ''o/a'', pb_description = None,
     pb_language = None, pb_stargazers = 0, pb_topics = [], pb_default_branch = None, pb_pushed_at = None\<rparr>"

definition first_applied where
  "first_applied = apply_source_tx sample_source (\<lambda>_. None) 1 sample_body None
     \<lparr>as_readme = ReadmeAbsent ReadmeNotFound, as_readme_etag = None\<rparr> ''d''
     (empty_catalog\<lparr>next_uuid := 2, repositories := [\<lparr>repo_id = 1, repo_provider_id = 42, repo_mode = Some Tracked, repo_updated_at = 0\<rparr>]\<rparr>)"

theorem apply_source_sound_witness:
  "fst (projr first_applied) = AppliedCreated \<and> history_ok (snd (projr first_applied)) \<and>
   map rv_hash (revisions (snd (projr first_applied))) = [''d'']"
proof (intro conjI)
  show "fst (projr first_applied) = AppliedCreated" by code_simp
  show "map rv_hash (revisions (snd (projr first_applied))) = [''d'']" by code_simp
  have "\<not> isl first_applied" by code_simp
  then obtain out db' where r: "first_applied = Inr (out, db')" by (metis prod.collapse sum.collapse(2))
  have "history_ok (empty_catalog\<lparr>next_uuid := 2, repositories := [\<lparr>repo_id = 1, repo_provider_id = 42, repo_mode = Some Tracked, repo_updated_at = 0\<rparr>]\<rparr>)"
    by (simp add: history_ok_def empty_catalog_def)
  from apply_source_sound [OF this r [unfolded first_applied_def]]
  show "history_ok (snd (projr first_applied))" unfolding r by simp
qed

end
