(* ===== verification/Watch_Safety.thy ===== *)
theory Watch_Safety
  imports Watches
begin

text \<open>
  Correctness of watches and analysis requests: the shape and life cycle of a request, the pacing of
  due times, one request per watch and source, exact matching of terminal facts, and soundness of the
  result links, for every sequence of operations.
\<close>

section \<open>Requests\<close>

text \<open>\<open>repository_analysis_requests_terminal_check\<close> of the schema.\<close>

definition request_check :: "request_row \<Rightarrow> bool" where
  "request_check r \<longleftrightarrow>
     (case rq_status r of
        ReqQueued \<Rightarrow> rq_outbox r = None \<and> rq_result r = None \<and> rq_failure r = None \<and>
          rq_retryable r = None \<and> rq_terminal r = None
      | ReqPending \<Rightarrow> rq_outbox r \<noteq> None \<and> rq_result r = None \<and> rq_failure r = None \<and>
          rq_retryable r = None \<and> rq_terminal r = None
      | ReqCompleted \<Rightarrow> rq_outbox r \<noteq> None \<and> rq_result r \<noteq> None \<and> rq_failure r = None \<and>
          rq_retryable r = None \<and> rq_terminal r \<noteq> None
      | ReqFailed \<Rightarrow> rq_outbox r \<noteq> None \<and> rq_result r = None \<and> rq_failure r \<noteq> None \<and>
          rq_retryable r \<noteq> None \<and> rq_terminal r \<noteq> None)"

definition paced :: "timestamp list \<Rightarrow> bool" where
  "paced ts \<longleftrightarrow> sorted_wrt (\<lambda>a b. a + dispatch_spacing \<le> b) ts"

definition linked :: "request_row list \<Rightarrow> link_row \<Rightarrow> bool" where
  "linked rs l \<longleftrightarrow>
     (\<exists>r\<in>set rs. rq_id r = ln_request l \<and> rq_status r = ReqCompleted \<and> rq_owner r = ln_owner l \<and>
        rq_repo r = ln_repo l \<and> rq_result r = Some (ln_result l))"

definition requests_ok :: "catalog \<Rightarrow> bool" where
  "requests_ok db \<longleftrightarrow>
     distinct (map rq_id (requests db)) \<and> distinct (map request_key_of (requests db)) \<and>
     list_all request_check (requests db) \<and> (\<forall>r\<in>set (requests db). rq_id r < next_uuid db) \<and>
     paced (map rq_not_before (requests db)) \<and>
     (\<forall>r\<in>set (requests db). \<exists>t. dispatch_cursor db = Some t \<and> rq_not_before r + dispatch_spacing \<le> t) \<and>
     distinct (map link_key (links db)) \<and> list_all (linked (requests db)) (links db)"

definition watches_ok :: "catalog \<Rightarrow> bool" where
  "watches_ok db \<longleftrightarrow>
     distinct (map watch_key (watches db)) \<and> distinct (map wt_id (watches db)) \<and>
     (\<forall>w\<in>set (watches db). wt_id w < next_uuid db)"

text \<open>How one row may evolve: its identity and content are fixed, its status only moves forward.\<close>

fun status_rank :: "request_status \<Rightarrow> nat" where
  "status_rank ReqQueued = 0"
| "status_rank ReqPending = 1"
| "status_rank ReqCompleted = 2"
| "status_rank ReqFailed = 2"

definition frozen where
  "frozen r = ((rq_id r, rq_watch r, rq_owner r, rq_repo r, rq_provider_id r),
     (rq_revision r, rq_attributes r, rq_payload r, rq_attributes_digest r, rq_digest r, rq_not_before r))"

definition advances :: "request_row \<Rightarrow> request_row \<Rightarrow> bool" where
  "advances r r' \<longleftrightarrow> frozen r' = frozen r \<and> (r' = r \<or> status_rank (rq_status r) < status_rank (rq_status r')) \<and>
     (rq_outbox r \<noteq> None \<longrightarrow> rq_outbox r' = rq_outbox r)"

lemma advances_refl [simp]: "advances r r"
  by (simp add: advances_def)

lemma advances_trans: "advances a b \<Longrightarrow> advances b c \<Longrightarrow> advances a c"
  by (auto simp: advances_def)

lemma status_rank_le: "status_rank s \<le> 2"
  by (cases s) simp_all

lemma advances_terminal: "advances r r' \<Longrightarrow> status_rank (rq_status r) = 2 \<Longrightarrow> r' = r"
  using status_rank_le [of "rq_status r'"] by (auto simp: advances_def)

text \<open>The table as a whole: every row is still there, evolved, in its place; new rows come at the end.\<close>

definition requests_advance :: "catalog \<Rightarrow> catalog \<Rightarrow> bool" where
  "requests_advance db db' \<longleftrightarrow>
     (\<exists>old new. requests db' = old @ new \<and> list_all2 advances (requests db) old)"

lemma requests_advance_refl: "requests db' = requests db \<Longrightarrow> requests_advance db db'"
  unfolding requests_advance_def by (metis advances_refl append_Nil2 list.rel_refl)

lemma requests_advance_trans: "requests_advance a b \<Longrightarrow> requests_advance b c \<Longrightarrow> requests_advance a c"
proof -
  assume "requests_advance a b" "requests_advance b c"
  then obtain o1 n1 o2 n2 where b: "requests b = o1 @ n1" "list_all2 advances (requests a) o1"
    and c: "requests c = o2 @ n2" "list_all2 advances (requests b) o2"
    by (auto simp: requests_advance_def)
  from c(2) b(1) obtain u v where "o2 = u @ v" "list_all2 advances o1 u"
    by (auto simp: list_all2_append1)
  with b c(1) show ?thesis
    unfolding requests_advance_def
    by (intro exI [of _ u] exI [of _ "v @ n2"]) (auto intro: list_all2_trans [OF advances_trans])
qed

interpretation request_history: durable_relation requests_advance
  by unfold_locales (auto intro: requests_advance_refl requests_advance_trans)

lemma requests_advance_rows:
  assumes "requests_advance db db'" and "r \<in> set (requests db)"
  shows "\<exists>r'\<in>set (requests db'). advances r r'"
proof -
  obtain old new where old: "requests db' = old @ new" "list_all2 advances (requests db) old"
    using assms(1) by (auto simp: requests_advance_def)
  obtain i where "i < length (requests db)" "r = requests db ! i"
    using assms(2) by (auto simp: in_set_conv_nth)
  with old(2) have "advances r (old ! i)" "old ! i \<in> set old" by (auto simp: list_all2_conv_all_nth)
  with old(1) show ?thesis by auto
qed

section \<open>One watch\<close>

text \<open>The idempotency digest of a watch's request for a source.\<close>

definition watch_digest :: "watch_contracts \<Rightarrow> uuid \<Rightarrow> evaluation_source \<Rightarrow> watch_row \<Rightarrow> string option" where
  "watch_digest wc repo src w =
     Option.bind (wc_tenant wc (wt_owner w)) (\<lambda>owner.
       wc_key_digest wc owner repo (es_numeric src) (es_revision src) (es_attributes src) requested_contract)"

definition queued_for :: "uuid \<Rightarrow> watch_row \<Rightarrow> string \<Rightarrow> timestamp \<Rightarrow> uuid \<Rightarrow> request_row \<Rightarrow> bool" where
  "queued_for repo w key due i row \<longleftrightarrow>
     rq_id row = i \<and> request_key_of row = (wt_id w, key) \<and> rq_owner row = wt_owner w \<and> rq_repo row = repo \<and>
     rq_status row = ReqQueued \<and> rq_not_before row = due \<and> request_check row"

lemma queue_watch_Inr:
  assumes "queue_watch wc repo src now w (nx, q) db = Inr ((nx', q'), db')"
  obtains (again) key where "watch_digest wc repo src w = Some key"
      "(wt_id w, key) \<in> request_key_of ` set (requests db)" "nx' = nx" "q' = q"
      "db' = set_checkpoint (wt_id w) (es_hash src) (db\<lparr>next_uuid := Suc (next_uuid db)\<rparr>)"
  | (new) key row where "watch_digest wc repo src w = Some key"
      "(wt_id w, key) \<notin> request_key_of ` set (requests db)" "next_uuid db \<notin> rq_id ` set (requests db)"
      "nx' = max nx now + dispatch_spacing" "q' = Suc q"
      "queued_for repo w key (max nx now) (next_uuid db) row"
      "db' = set_checkpoint (wt_id w) (es_hash src)
        (db\<lparr>next_uuid := Suc (next_uuid db), requests := requests db @ [row]\<rparr>)"
proof -
  obtain owner key payload revision attributes where owner: "wc_tenant wc (wt_owner w) = Some owner"
    "wc_key_digest wc owner repo (es_numeric src) (es_revision src) (es_attributes src) requested_contract = Some key"
    and json: "wc_revision_json wc (es_revision src) = Some revision"
      "wc_attributes_json wc (es_attributes src) = Some attributes"
      "wc_requested_json wc \<lparr>ar_owner = owner, ar_repository_id = repo, ar_numeric_id = es_numeric src,
         ar_request_id = next_uuid db, ar_source_revision = es_revision src, ar_attributes = es_attributes src,
         ar_idempotency_key = key\<rparr> = Some payload"
    and ok: "wc_request_id wc (next_uuid db)"
    using assms
    by (auto simp: queue_watch_def analysis_request_def and_then_eq_Inr ok_or_eq_Inr Let_def fresh_uuid_def
        split: if_splits)
  have key: "watch_digest wc repo src w = Some key" by (simp add: watch_digest_def owner)
  define row where "row = new_request w \<lparr>ar_owner = owner, ar_repository_id = repo,
      ar_numeric_id = es_numeric src, ar_request_id = next_uuid db, ar_source_revision = es_revision src,
      ar_attributes = es_attributes src, ar_idempotency_key = key\<rparr> revision attributes payload (max nx now)"
  have row: "queued_for repo w key (max nx now) (next_uuid db) row" "request_key_of row = (wt_id w, key)"
    "rq_id row = next_uuid db"
    by (simp_all add: row_def queued_for_def new_request_def request_key_of_def request_check_def)
  have "queue_watch wc repo src now w (nx, q) db =
    (case request_row_check row of
       Inl e \<Rightarrow> Inl (WatchPersistence e)
     | Inr _ \<Rightarrow>
         if (wt_id w, key) \<in> request_key_of ` set (requests db)
         then Inr ((nx, q), set_checkpoint (wt_id w) (es_hash src) (db\<lparr>next_uuid := Suc (next_uuid db)\<rparr>))
         else if next_uuid db \<in> rq_id ` set (requests db) then Inl (WatchPersistence UniqueViolation)
         else Inr ((max nx now + dispatch_spacing, Suc q), set_checkpoint (wt_id w) (es_hash src)
           (db\<lparr>next_uuid := Suc (next_uuid db), requests := requests db @ [row]\<rparr>)))"
    using row(2,3)
    by (simp add: queue_watch_def analysis_request_def owner json ok fresh_uuid_def Let_def row_def
        split: sum.split)
  with assms key row(1) again new show ?thesis by (auto split: sum.splits if_splits)
qed

lemma set_checkpoint_simps [simp]:
  "requests (set_checkpoint w h db) = requests db" "next_uuid (set_checkpoint w h db) = next_uuid db"
  "dispatch_cursor (set_checkpoint w h db) = dispatch_cursor db" "links (set_checkpoint w h db) = links db"
  "metadata (set_checkpoint w h db) = metadata db" "revisions (set_checkpoint w h db) = revisions db"
  "db_clock (set_checkpoint w h db) = db_clock db"
  by (simp_all add: set_checkpoint_def)

lemma linked_append: "linked rs l \<Longrightarrow> linked (rs @ xs) l"
  by (auto simp: linked_def)

lemma requests_ok_cong:
  assumes "requests db' = requests db" "links db' = links db" "dispatch_cursor db' = dispatch_cursor db"
    "next_uuid db \<le> next_uuid db'" "requests_ok db"
  shows "requests_ok db'"
  using assms unfolding requests_ok_def by (metis order_less_le_trans)

lemma queue_watch_ok:
  assumes "queue_watch wc repo src now w (nx, q) db = Inr ((nx', q'), db')"
    and "requests_ok (db\<lparr>dispatch_cursor := Some nx\<rparr>)"
  shows "requests_ok (db'\<lparr>dispatch_cursor := Some nx'\<rparr>)"
  using assms(1)
proof (cases rule: queue_watch_Inr)
  case (again key)
  then show ?thesis by (intro requests_ok_cong [OF _ _ _ _ assms(2)]) simp_all
next
  case (new key row)
  have before: "rq_not_before r + dispatch_spacing \<le> nx" if "r \<in> set (requests db)" for r
    using assms(2) that by (auto simp: requests_ok_def)
  have "paced (map rq_not_before (requests db) @ [rq_not_before row])"
    using assms(2) new(6) before by (fastforce simp: requests_ok_def paced_def sorted_wrt_append queued_for_def)
  moreover have "rq_not_before r + dispatch_spacing \<le> nx'" if "r \<in> set (requests db @ [row])" for r
    using that before [of r] new(4,6) by (auto simp: queued_for_def dispatch_spacing_def)
  ultimately show ?thesis
    using assms(2) new
    by (auto simp: requests_ok_def queued_for_def list_all_iff less_Suc_eq intro: linked_append)
qed

lemma queue_watches_ok:
  assumes "queue_watches wc repo src now ws (nx, q) db = Inr ((nx', q'), db')"
    and "requests_ok (db\<lparr>dispatch_cursor := Some nx\<rparr>)"
  shows "requests_ok (db'\<lparr>dispatch_cursor := Some nx'\<rparr>)"
  using assms
proof (induction ws arbitrary: nx q db)
  case (Cons w ws)
  then obtain nx1 q1 db1 where "queue_watch wc repo src now w (nx, q) db = Inr ((nx1, q1), db1)"
    and "queue_watches wc repo src now ws (nx1, q1) db1 = Inr ((nx', q'), db')"
    by (auto simp: and_then_eq_Inr)
  then show ?case using Cons queue_watch_ok by blast
qed simp

text \<open>What the loop does: rows are appended, checkpoints advance, every watch has its request.\<close>

definition at_checkpoint :: "string \<Rightarrow> timestamp \<Rightarrow> watch_row \<Rightarrow> watch_row" where
  "at_checkpoint h now w = w\<lparr>wt_checkpoint := Some h, wt_updated := now\<rparr>"

lemma at_checkpoint_simps [simp]:
  "wt_id (at_checkpoint h now w) = wt_id w" "watch_key (at_checkpoint h now w) = watch_key w"
  "wt_enabled (at_checkpoint h now w) = wt_enabled w" "wt_repo (at_checkpoint h now w) = wt_repo w"
  "wt_checkpoint (at_checkpoint h now w) = Some h"
  "at_checkpoint h now (at_checkpoint h now w) = at_checkpoint h now w"
  by (simp_all add: at_checkpoint_def watch_key_def)

definition fresh_for :: "uuid \<Rightarrow> timestamp \<Rightarrow> uuid set \<Rightarrow> request_row \<Rightarrow> bool" where
  "fresh_for repo now ids r \<longleftrightarrow>
     rq_repo r = repo \<and> now \<le> rq_not_before r \<and> rq_status r = ReqQueued \<and> rq_watch r \<in> ids"

text \<open>Rows whose due times start at \<open>t\<close> and lie one spacing apart.\<close>

definition due_from :: "timestamp \<Rightarrow> request_row list \<Rightarrow> bool" where
  "due_from t rs \<longleftrightarrow> (\<forall>k<length rs. rq_not_before (rs ! k) = t + int k * dispatch_spacing)"

lemma due_from_append:
  assumes "due_from t xs" and "due_from (t + int (length xs) * dispatch_spacing) ys"
  shows "due_from t (xs @ ys)"
  unfolding due_from_def
proof (intro allI impI)
  fix k
  assume "k < length (xs @ ys)"
  then show "rq_not_before ((xs @ ys) ! k) = t + int k * dispatch_spacing"
    using assms by (cases "k < length xs") (simp_all add: due_from_def nth_append of_nat_diff algebra_simps)
qed

lemma update_where_update_where:
  assumes "\<And>r. q (f r) = q r"
  shows "update_where q g (update_where p f t) = map (\<lambda>r. if q r then g (if p r then f r else r) else if p r then f r else r) t"
  using assms by (auto simp: update_where_def)

definition queue_effect where
  "queue_effect wc repo src now ws nx q db nx' q' db' \<longleftrightarrow>
     (\<exists>new. requests db' = requests db @ new \<and> q' = q + length new \<and> due_from (max nx now) new \<and>
        nx' = (if new = [] then nx else max nx now + int (length new) * dispatch_spacing) \<and>
        list_all (fresh_for repo now (wt_id ` set ws)) new) \<and>
     watches db' = update_where (\<lambda>x. wt_id x \<in> wt_id ` set ws)
       (at_checkpoint (es_hash src) (db_clock db)) (watches db) \<and>
     metadata db' = metadata db \<and> revisions db' = revisions db \<and> dispatch_cursor db' = dispatch_cursor db \<and>
     links db' = links db \<and> db_clock db' = db_clock db \<and> next_uuid db \<le> next_uuid db' \<and>
     (\<forall>w\<in>set ws. \<exists>key. watch_digest wc repo src w = Some key \<and>
        (wt_id w, key) \<in> request_key_of ` set (requests db'))"

lemma queue_watch_effect:
  assumes "queue_watch wc repo src now w (nx, q) db = Inr ((nx', q'), db')"
  shows "queue_effect wc repo src now [w] nx q db nx' q' db'"
  using assms
proof (cases rule: queue_watch_Inr)
  case (again key)
  then show ?thesis by (auto simp: queue_effect_def set_checkpoint_def at_checkpoint_def [abs_def] due_from_def)
next
  case (new key row)
  then show ?thesis
    by (auto simp: queue_effect_def set_checkpoint_def at_checkpoint_def [abs_def] fresh_for_def
        queued_for_def request_key_of_def due_from_def)
qed

lemma queue_effect_seq:
  assumes "queue_effect wc repo src now [w] nx q db nx1 q1 db1"
    and "queue_effect wc repo src now ws nx1 q1 db1 nx' q' db'"
  shows "queue_effect wc repo src now (w # ws) nx q db nx' q' db'"
proof -
  obtain n1 where n1: "requests db1 = requests db @ n1" "q1 = q + length n1" "due_from (max nx now) n1"
    "nx1 = (if n1 = [] then nx else max nx now + int (length n1) * dispatch_spacing)"
    "list_all (fresh_for repo now {wt_id w}) n1"
    using assms(1) unfolding queue_effect_def by auto
  obtain n2 where n2: "requests db' = requests db1 @ n2" "q' = q1 + length n2" "due_from (max nx1 now) n2"
    "nx' = (if n2 = [] then nx1 else max nx1 now + int (length n2) * dispatch_spacing)"
    "list_all (fresh_for repo now (wt_id ` set ws)) n2"
    using assms(2) unfolding queue_effect_def by auto
  have start: "max nx1 now = max nx now + int (length n1) * dispatch_spacing"
    using n1(4) by (auto simp: dispatch_spacing_def)
  have "due_from (max nx now) (n1 @ n2)"
    using due_from_append [OF n1(3)] n2(3) start by simp
  moreover have "nx' = (if n1 @ n2 = [] then nx else max nx now + int (length (n1 @ n2)) * dispatch_spacing)"
    using n1(4) n2(4) start by (auto simp: algebra_simps)
  ultimately have "\<exists>new. requests db' = requests db @ new \<and> q' = q + length new \<and> due_from (max nx now) new \<and>
      nx' = (if new = [] then nx else max nx now + int (length new) * dispatch_spacing) \<and>
      list_all (fresh_for repo now (wt_id ` set (w # ws))) new"
    using n1(1,2,5) n2(1,2,5) by (intro exI [of _ "n1 @ n2"]) (auto simp: list_all_iff fresh_for_def)
  moreover have "watches db' = update_where (\<lambda>x. wt_id x \<in> wt_id ` set (w # ws))
      (at_checkpoint (es_hash src) (db_clock db)) (watches db)"
    using assms by (simp add: queue_effect_def update_where_update_where) (simp add: update_where_def)
  moreover have "\<forall>v\<in>set (w # ws). \<exists>key. watch_digest wc repo src v = Some key \<and>
      (wt_id v, key) \<in> request_key_of ` set (requests db')"
    using assms n2(1) by (fastforce simp: queue_effect_def image_Un)
  ultimately show ?thesis
    using assms unfolding queue_effect_def by simp
qed

lemma queue_watches_effect:
  "queue_watches wc repo src now ws (nx, q) db = Inr ((nx', q'), db') \<Longrightarrow>
     queue_effect wc repo src now ws nx q db nx' q' db'"
proof (induction ws arbitrary: nx q db)
  case Nil
  then show ?case by (auto simp: queue_effect_def update_where_none due_from_def)
next
  case (Cons w ws)
  then obtain nx1 q1 db1 where "queue_watch wc repo src now w (nx, q) db = Inr ((nx1, q1), db1)"
    and "queue_watches wc repo src now ws (nx1, q1) db1 = Inr ((nx', q'), db')"
    by (auto simp: and_then_eq_Inr)
  then show ?case using Cons.IH queue_watch_effect queue_effect_seq by metis
qed

section \<open>Evaluation\<close>

lemma stale_set:
  "set (stale_watches repo h db) = {w \<in> set (watches db). wt_repo w = repo \<and> wt_enabled w \<and> wt_checkpoint w \<noteq> Some h}"
  by (auto simp: stale_watches_def)

lemma evaluation_source_cong:
  "metadata db' = metadata db \<Longrightarrow> revisions db' = revisions db \<Longrightarrow>
     evaluation_source_of wc repo db' = evaluation_source_of wc repo db"
  by (simp add: evaluation_source_of_def stored_revision_def)

lemma evaluate_watches_Inr:
  assumes "evaluate_watches_tx wc repo now db = Inr (e, db')"
  obtains (unchanged) src where "evaluation_source_of wc repo db = Inr src"
      "stale_watches repo (es_hash src) db = []" "e = WatchesUnchanged" "db' = db"
  | (queued) src start nx q db1 where "evaluation_source_of wc repo db = Inr src"
      "stale_watches repo (es_hash src) db \<noteq> []" "e = WatchesQueued q"
      "start = (case dispatch_cursor db of None \<Rightarrow> now | Some t \<Rightarrow> t)"
      "queue_watches wc repo src now (stale_watches repo (es_hash src) db) (start, 0)
        (db\<lparr>dispatch_cursor := Some start\<rparr>) = Inr ((nx, q), db1)"
      "db' = (if 0 < q then db1\<lparr>dispatch_cursor := Some nx\<rparr> else db1)"
proof -
  obtain src where src: "evaluation_source_of wc repo db = Inr src"
    using assms by (auto simp: evaluate_watches_tx_def and_then_eq_Inr)
  define start where "start = (case dispatch_cursor db of None \<Rightarrow> now | Some t \<Rightarrow> t)"
  show ?thesis
  proof (cases "stale_watches repo (es_hash src) db = []")
    case True
    with assms src have "e = WatchesUnchanged" "db' = db" by (simp_all add: evaluate_watches_tx_def)
    with src True show ?thesis by (rule unchanged)
  next
    case False
    then obtain nx q db1 where "queue_watches wc repo src now (stale_watches repo (es_hash src) db) (start, 0)
        (db\<lparr>dispatch_cursor := Some start\<rparr>) = Inr ((nx, q), db1)" "e = WatchesQueued q"
      "db' = (if 0 < q then db1\<lparr>dispatch_cursor := Some nx\<rparr> else db1)"
      using assms src start_def by (auto simp: evaluate_watches_tx_def and_then_eq_Inr Let_def)
    with src False start_def show ?thesis by (intro queued)
  qed
qed

text \<open>The effect of an evaluation that found stale watches.\<close>

lemma evaluate_effect:
  assumes "queue_watches wc repo src now stale (start, 0) (db\<lparr>dispatch_cursor := Some start\<rparr>) = Inr ((nx, q), db1)"
    and "db' = (if 0 < q then db1\<lparr>dispatch_cursor := Some nx\<rparr> else db1)"
  shows "\<exists>new. requests db' = requests db @ new \<and> q = length new \<and> due_from (max start now) new \<and>
      nx = (if new = [] then start else max start now + int (length new) * dispatch_spacing) \<and>
      list_all (fresh_for repo now (wt_id ` set stale)) new"
    and "watches db' = update_where (\<lambda>x. wt_id x \<in> wt_id ` set stale)
      (at_checkpoint (es_hash src) (db_clock db)) (watches db)"
    and "metadata db' = metadata db" "revisions db' = revisions db" "links db' = links db"
    and "next_uuid db \<le> next_uuid db'" and "dispatch_cursor db' = Some nx"
    and "\<forall>w\<in>set stale. \<exists>key. watch_digest wc repo src w = Some key \<and>
      (wt_id w, key) \<in> request_key_of ` set (requests db')"
    and "requests db' = requests db1" "next_uuid db' = next_uuid db1" "links db' = links db1"
proof -
  note eff = queue_watches_effect [OF assms(1), unfolded queue_effect_def]
  have same: "requests db' = requests db1" "watches db' = watches db1" "metadata db' = metadata db1"
    "revisions db' = revisions db1" "links db' = links db1" "next_uuid db' = next_uuid db1"
    using assms(2) by simp_all
  show "\<exists>new. requests db' = requests db @ new \<and> q = length new \<and> due_from (max start now) new \<and>
      nx = (if new = [] then start else max start now + int (length new) * dispatch_spacing) \<and>
      list_all (fresh_for repo now (wt_id ` set stale)) new"
    using eff same by (simp only: same) auto
  show "dispatch_cursor db' = Some nx" using eff assms(2) by (cases "0 < q") auto
qed (use queue_watches_effect [OF assms(1), unfolded queue_effect_def] assms(2) in simp_all)

lemma evaluate_requests_ok:
  assumes "evaluate_watches_tx wc repo now db = Inr (e, db')" and "requests_ok db"
  shows "requests_ok db'"
  using assms(1)
proof (cases rule: evaluate_watches_Inr)
  case (queued src start nx q db1)
  have "requests_ok (db\<lparr>dispatch_cursor := Some start\<rparr>)"
    using assms(2) queued(4) by (auto simp: requests_ok_def linked_def)
  then have "requests_ok (db1\<lparr>dispatch_cursor := Some nx\<rparr>)"
    using queue_watches_ok [OF queued(5)] by simp
  then show ?thesis
    by (rule requests_ok_cong [rotated 4]) (simp_all add: evaluate_effect(7,9,10,11) [OF queued(5,6)])
qed (simp add: assms(2))

lemma evaluate_watches_ok:
  assumes "evaluate_watches_tx wc repo now db = Inr (e, db')" and "watches_ok db"
  shows "watches_ok db'"
  using assms(1)
proof (cases rule: evaluate_watches_Inr)
  case (queued src start nx q db1)
  show ?thesis
    using assms(2) evaluate_effect(2,6) [OF queued(5,6)]
    by (auto simp: watches_ok_def map_update_where_key set_update_where intro: order_less_le_trans)
qed (simp add: assms(2))

lemma evaluate_advances:
  assumes "evaluate_watches_tx wc repo now db = Inr (e, db')"
  shows "requests_advance db db'"
  using assms
proof (cases rule: evaluate_watches_Inr)
  case (queued src start nx q db1)
  obtain new where "requests db' = requests db @ new" using evaluate_effect(1) [OF queued(5,6)] by blast
  then show ?thesis
    unfolding requests_advance_def by (intro exI [of _ "requests db"] exI [of _ new]) (simp add: list.rel_refl)
qed (simp add: requests_advance_refl)

lemma evaluate_checkpoints:
  assumes "evaluate_watches_tx wc repo now db = Inr (e, db')"
  shows "\<exists>m. find_by md_repo repo (metadata db) = Some m \<and>
    (\<forall>w\<in>set (watches db'). wt_repo w = repo \<and> wt_enabled w \<longrightarrow> wt_checkpoint w = Some (md_hash m))"
    and "metadata db' = metadata db" and "map watch_key (watches db') = map watch_key (watches db)"
    and "map wt_enabled (watches db') = map wt_enabled (watches db)"
proof -
  have src: "find_by md_repo repo (metadata db) \<noteq> None \<and> es_hash src = md_hash (the (find_by md_repo repo (metadata db)))"
    if "evaluation_source_of wc repo db = Inr src" for src
    using that by (auto simp: evaluation_source_of_def and_then_eq_Inr ok_or_eq_Inr split: if_splits)
  from assms have "(\<exists>m. find_by md_repo repo (metadata db) = Some m \<and>
      (\<forall>w\<in>set (watches db'). wt_repo w = repo \<and> wt_enabled w \<longrightarrow> wt_checkpoint w = Some (md_hash m))) \<and>
    metadata db' = metadata db \<and> map watch_key (watches db') = map watch_key (watches db) \<and>
    map wt_enabled (watches db') = map wt_enabled (watches db)"
  proof (cases rule: evaluate_watches_Inr)
    case (unchanged src)
    have "{w \<in> set (watches db). wt_repo w = repo \<and> wt_enabled w \<and> wt_checkpoint w \<noteq> Some (es_hash src)} = {}"
      using unchanged(2) by (simp flip: stale_set)
    with unchanged src [OF unchanged(1)] show ?thesis by auto
  next
    case (queued src start nx q db1)
    note eff = evaluate_effect(2,3) [OF queued(5,6)]
    have "\<forall>w\<in>set (watches db'). wt_repo w = repo \<and> wt_enabled w \<longrightarrow> wt_checkpoint w = Some (es_hash src)"
      unfolding eff(1) by (auto simp: set_update_where stale_set)
    moreover have "map watch_key (watches db') = map watch_key (watches db)"
      "map wt_enabled (watches db') = map wt_enabled (watches db)"
      unfolding eff(1) by (simp_all add: map_update_where_key)
    ultimately show ?thesis using src [OF queued(1)] eff(2) by auto
  qed
  then show "\<exists>m. find_by md_repo repo (metadata db) = Some m \<and>
    (\<forall>w\<in>set (watches db'). wt_repo w = repo \<and> wt_enabled w \<longrightarrow> wt_checkpoint w = Some (md_hash m))"
    and "metadata db' = metadata db" and "map watch_key (watches db') = map watch_key (watches db)"
    and "map wt_enabled (watches db') = map wt_enabled (watches db)"
    by simp_all
qed

text \<open>
  C15. A successful evaluation brings every enabled watch of the repository to the stored revision:
  its checkpoint is the revision's hash, each watch that was behind has a request for this source
  under its idempotency digest, exactly as many requests are new as are reported, they are queued and due
  one second apart from the dispatch cursor (or the time of the evaluation when that is later), the cursor
  moves one second past the last of them, and evaluating again changes nothing.
\<close>

theorem evaluation_converges:
  assumes "watches_ok db" and "evaluate_watches_tx wc repo now db = Inr (e, db')"
  shows "\<exists>src new. evaluation_source_of wc repo db = Inr src \<and>
    (\<forall>w\<in>set (watches db'). wt_repo w = repo \<and> wt_enabled w \<longrightarrow> wt_checkpoint w = Some (es_hash src)) \<and>
    (\<forall>w\<in>set (watches db). wt_repo w = repo \<and> wt_enabled w \<and> wt_checkpoint w \<noteq> Some (es_hash src) \<longrightarrow>
       (\<exists>key. watch_digest wc repo src w = Some key \<and> (wt_id w, key) \<in> request_key_of ` set (requests db'))) \<and>
    requests db' = requests db @ new \<and>
    (\<forall>r\<in>set new. rq_status r = ReqQueued \<and> rq_repo r = repo) \<and>
    (let first = (case dispatch_cursor db of None \<Rightarrow> now | Some t \<Rightarrow> max t now) in
       (\<forall>k<length new. rq_not_before (new ! k) = first + int k * 1000000) \<and>
       (new \<noteq> [] \<longrightarrow> dispatch_cursor db' = Some (first + int (length new) * 1000000))) \<and>
    e = (if \<exists>w\<in>set (watches db). wt_repo w = repo \<and> wt_enabled w \<and> wt_checkpoint w \<noteq> Some (es_hash src)
         then WatchesQueued (length new) else WatchesUnchanged) \<and>
    evaluate_watches_tx wc repo later db' = Inr (WatchesUnchanged, db')"
  using assms(2)
proof (cases rule: evaluate_watches_Inr)
  case (unchanged src)
  then have "evaluate_watches_tx wc repo later db' = Inr (WatchesUnchanged, db')"
    by (simp add: evaluate_watches_tx_def Let_def)
  moreover have "\<not> (\<exists>w\<in>set (watches db). wt_repo w = repo \<and> wt_enabled w \<and> wt_checkpoint w \<noteq> Some (es_hash src))"
    using stale_set [of repo "es_hash src" db] unchanged(2) by auto
  ultimately show ?thesis using unchanged by (intro exI [of _ src] exI [of _ "[]"]) auto
next
  case (queued src start nx q db1)
  let ?h = "es_hash src" let ?stale = "stale_watches repo (es_hash src) db"
  note eff = evaluate_effect [OF queued(5,6)]
  obtain new where new: "requests db' = requests db @ new" "q = length new" "due_from (max start now) new"
    "nx = (if new = [] then start else max start now + int (length new) * dispatch_spacing)"
    "list_all (fresh_for repo now (wt_id ` set ?stale)) new"
    using eff(1) by blast
  have first: "(case dispatch_cursor db of None \<Rightarrow> now | Some t \<Rightarrow> max t now) = max start now"
    using queued(4) by (simp split: option.split)
  have pace: "let first = (case dispatch_cursor db of None \<Rightarrow> now | Some t \<Rightarrow> max t now) in
       (\<forall>k<length new. rq_not_before (new ! k) = first + int k * 1000000) \<and>
       (new \<noteq> [] \<longrightarrow> dispatch_cursor db' = Some (first + int (length new) * 1000000))"
    using new(3,4) eff(7) unfolding first Let_def by (simp add: due_from_def dispatch_spacing_def)
  have all: "\<forall>w\<in>set (watches db'). wt_repo w = repo \<and> wt_enabled w \<longrightarrow> wt_checkpoint w = Some ?h"
    unfolding eff(2) by (auto simp: set_update_where stale_set)
  have "set (stale_watches repo ?h db') = {}" using all by (auto simp: stale_set)
  then have "evaluate_watches_tx wc repo later db' = Inr (WatchesUnchanged, db')"
    using queued(1) eff(3,4) by (simp add: evaluate_watches_tx_def evaluation_source_cong [of db' db])
  moreover have "\<exists>w\<in>set (watches db). wt_repo w = repo \<and> wt_enabled w \<and> wt_checkpoint w \<noteq> Some ?h"
  proof -
    have "set ?stale \<noteq> {}" using queued(2) by simp
    then show ?thesis unfolding stale_set by blast
  qed
  moreover have "\<forall>w\<in>set (watches db). wt_repo w = repo \<and> wt_enabled w \<and> wt_checkpoint w \<noteq> Some ?h \<longrightarrow>
       (\<exists>key. watch_digest wc repo src w = Some key \<and> (wt_id w, key) \<in> request_key_of ` set (requests db'))"
    using eff(8) stale_set [of repo ?h db] by auto
  ultimately show ?thesis
    using queued(1,3) new(1,2,5) all pace
    by (intro exI [of _ src] exI [of _ new]) (simp add: list_all_iff fresh_for_def)
qed

section \<open>Dispatch\<close>

lemma dispatch_due_Inr:
  assumes "dispatch_due_tx wc now db = Inr (sent, db')"
  obtains (idle) "due_request now db = None" "sent = None" "db' = db"
  | (sent) r envelope requested where "due_request now db = Some r" "sent = Some (rq_id r)"
      "wc_requested_of_json wc (rq_payload r) = Some requested"
      "analysis_requested_envelope wc (next_uuid db) requested = Inr envelope"
      "db' = db\<lparr>next_uuid := Suc (next_uuid db),
         outbox := outbox db @ [outbox_entry (next_uuid db) analysis_requested_subject envelope (db_clock db)],
         requests := set_pending (rq_id r) (next_uuid db) (requests db)\<rparr>"
proof (cases "due_request now db")
  case None
  with assms have "sent = None" "db' = db" by (simp_all add: dispatch_due_tx_def)
  with None show ?thesis by (rule idle)
next
  case (Some r)
  then obtain requested where req: "wc_requested_of_json wc (rq_payload r) = Some requested"
    using assms by (auto simp: dispatch_due_tx_def fresh_uuid_def and_then_eq_Inr ok_or_eq_Inr)
  show ?thesis
  proof (cases "analysis_requested_envelope wc (next_uuid db) requested")
    case (Inl e)
    with assms Some req show ?thesis by (simp add: dispatch_due_tx_def fresh_uuid_def)
  next
    case (Inr envelope)
    with assms Some req have "sent = Some (rq_id r)" "db' = db\<lparr>next_uuid := Suc (next_uuid db),
         outbox := outbox db @ [outbox_entry (next_uuid db) analysis_requested_subject envelope (db_clock db)],
         requests := set_pending (rq_id r) (next_uuid db) (requests db)\<rparr>"
      by (auto simp: dispatch_due_tx_def fresh_uuid_def split: if_splits)
    with Some req Inr show ?thesis by (intro sent)
  qed
qed

lemma due_requestD:
  assumes "due_request now db = Some r"
  shows "r \<in> set (requests db)" "rq_status r = ReqQueued" "rq_not_before r \<le> now"
    and "\<And>x. x \<in> set (requests db) \<Longrightarrow> rq_status x = ReqQueued \<Longrightarrow> rq_not_before x \<le> now \<Longrightarrow>
      (rq_not_before r, rq_id r) \<le> (rq_not_before x, rq_id x)"
  using assms min_by_in [of "\<lambda>r. (rq_not_before r, rq_id r)"] min_by_le [of "\<lambda>r. (rq_not_before r, rq_id r)"]
  unfolding due_request_def by fastforce+

text \<open>Rows updated by a condition that only holds of rows of a given status.\<close>

lemma advance_update:
  assumes "\<And>r. r \<in> set (requests db) \<Longrightarrow> p r \<Longrightarrow> advances r (f r)"
    and "requests db' = update_where p f (requests db)"
  shows "requests_advance db db'"
proof -
  have "list_all2 advances (requests db) (update_where p f (requests db))"
    using assms(1) by (auto simp: update_where_def list_all2_conv_all_nth)
  then show ?thesis unfolding requests_advance_def using assms(2) by (metis append_Nil2)
qed

lemma frozen_columns:
  assumes "\<And>r. r \<in> set rs \<Longrightarrow> p r \<Longrightarrow> frozen (f r) = frozen r"
  shows "map rq_id (update_where p f rs) = map rq_id rs"
    and "map request_key_of (update_where p f rs) = map request_key_of rs"
    and "map rq_not_before (update_where p f rs) = map rq_not_before rs"
  using assms by (auto simp: update_where_def frozen_def request_key_of_def)

lemma requests_ok_update:
  assumes "requests_ok db" and "requests db' = update_where p f (requests db)"
    and "dispatch_cursor db' = dispatch_cursor db" "next_uuid db \<le> next_uuid db'"
    and "\<And>r. r \<in> set (requests db) \<Longrightarrow> p r \<Longrightarrow> request_check (f r) \<and> frozen (f r) = frozen r"
    and "distinct (map link_key (links db'))" "list_all (linked (requests db')) (links db')"
  shows "requests_ok db'"
proof -
  have froz: "\<And>r. r \<in> set (requests db) \<Longrightarrow> p r \<Longrightarrow> frozen (f r) = frozen r" using assms(5) by blast
  note cols = frozen_columns [of "requests db" p f, OF froz, folded assms(2)]
  have "list_all request_check (requests db')"
    using assms(1,2,5) by (auto simp: requests_ok_def list_all_iff set_update_where)
  moreover have "\<forall>i\<in>set (map rq_id (requests db')). i < next_uuid db'"
    using assms(1,4) by (simp only: cols(1)) (auto simp: requests_ok_def)
  then have "\<forall>r\<in>set (requests db'). rq_id r < next_uuid db'" by simp
  moreover have "\<forall>d\<in>set (map rq_not_before (requests db')). \<exists>t. dispatch_cursor db' = Some t \<and> d + dispatch_spacing \<le> t"
    using assms(1,3) by (simp only: cols(3)) (auto simp: requests_ok_def)
  then have "\<forall>r\<in>set (requests db'). \<exists>t. dispatch_cursor db' = Some t \<and> rq_not_before r + dispatch_spacing \<le> t"
    by simp
  ultimately show ?thesis using assms(1,6,7) cols by (simp add: requests_ok_def)
qed

lemma linked_update:
  assumes "linked rs l" and "\<And>r. r \<in> set rs \<Longrightarrow> p r \<Longrightarrow> rq_status r \<noteq> ReqCompleted"
  shows "linked (update_where p f rs) l"
  using assms by (fastforce simp: linked_def set_update_where)

lemma dispatch_ok:
  assumes "dispatch_due_tx wc now db = Inr (sent, db')" and "requests_ok db"
  shows "requests_ok db'" and "requests_advance db db'"
proof -
  have "requests_ok db' \<and> requests_advance db db'"
    using assms(1)
  proof (cases rule: dispatch_due_Inr)
    case idle
    then show ?thesis using assms(2) by (simp add: requests_advance_refl)
  next
    case (sent r envelope requested)
    note due = due_requestD [OF sent(1)]
    have only: "x = r" if "x \<in> set (requests db)" "rq_id x = rq_id r" for x
      using assms(2) that due(1) by (auto simp: requests_ok_def distinct_map inj_on_def)
    have req: "requests db' = update_where (\<lambda>x. rq_id x = rq_id r)
        (\<lambda>x. x\<lparr>rq_status := ReqPending, rq_outbox := Some (next_uuid db)\<rparr>) (requests db)"
      using sent(5) by (simp add: set_pending_def)
    have check: "request_check r" using assms(2) due(1) by (simp add: requests_ok_def list_all_iff)
    have "requests_ok db'"
    proof (rule requests_ok_update [OF assms(2) req])
      have "rq_status x \<noteq> ReqCompleted" if "x \<in> set (requests db)" "rq_id x = rq_id r" for x
        using only [OF that] due(2) by simp
      then show "list_all (linked (requests db')) (links db')"
        using assms(2) sent(5) unfolding req by (auto simp: requests_ok_def list_all_iff intro!: linked_update)
    qed (use sent(5) assms(2) only check due(2) in \<open>auto simp: requests_ok_def request_check_def frozen_def\<close>)
    moreover have "requests_advance db db'"
    proof (rule advance_update [OF _ req])
      fix x
      assume "x \<in> set (requests db)" "rq_id x = rq_id r"
      then have "x = r" by (rule only)
      then show "advances x (x\<lparr>rq_status := ReqPending, rq_outbox := Some (next_uuid db)\<rparr>)"
        using due(2) check by (simp add: advances_def frozen_def request_check_def)
    qed
    ultimately show ?thesis by blast
  qed
  then show "requests_ok db'" and "requests_advance db db'" by auto
qed

section \<open>Terminal facts\<close>

text \<open>
  The two shapes in which a terminal fact is applied: a completion carries a result, a failure a code
  and whether it may be retried.
\<close>

definition fact_shape :: "request_status \<Rightarrow> string option \<Rightarrow> string option \<Rightarrow> bool option \<Rightarrow> bool" where
  "fact_shape status result_ref failure retryable \<longleftrightarrow>
     status = ReqCompleted \<and> result_ref \<noteq> None \<and> failure = None \<and> retryable = None \<or>
     status = ReqFailed \<and> result_ref = None \<and> failure \<noteq> None \<and> retryable \<noteq> None"

interpretation link_table: keyed_table link_key link_merge
  by unfold_locales (simp add: link_key_def link_merge_def)

lemma consume_terminal_Inr:
  assumes "consume_terminal_fact_tx wc m subj i payload status ref code retry db = Inr (out, db')"
  obtains (duplicate) "m \<in> ib_message ` set (inbox db)" "out = FactDuplicate" "db' = db"
  | (claimed) revision where "m \<notin> ib_message ` set (inbox db)"
      "wc_revision_json wc (ti_source_revision i) = Some revision"
      "inbox db' = inbox db @ [\<lparr>ib_message = m, ib_subject = subj, ib_payload = payload,
         ib_consumed = Some (db_clock db)\<rparr>]"
      "out = (if length (filter (matches_pending i revision) (requests db)) = 1 then FactResolved else FactIgnored)"
      "requests db' = update_where (matches_pending i revision)
         (close_request status ref code retry (db_clock db)) (requests db)"
      "links db' = (if length (filter (matches_pending i revision) (requests db)) = 1 \<and> status = ReqCompleted \<and> ref \<noteq> None
         then upsert link_key link_merge \<lparr>ln_owner = ti_owner i, ln_repo = ti_repository_id i,
           ln_request = ti_request_id i, ln_result = the ref, ln_completed = db_clock db\<rparr> (links db)
         else links db)"
      "dispatch_cursor db' = dispatch_cursor db" "next_uuid db' = next_uuid db" "watches db' = watches db"
      "outbox db' = outbox db"
proof (cases "m \<in> ib_message ` set (inbox db)")
  case True
  with assms have "out = FactDuplicate" "db' = db" by (simp_all add: consume_terminal_fact_tx_def)
  with True show ?thesis by (rule duplicate)
next
  case False
  obtain revision where rev: "wc_revision_json wc (ti_source_revision i) = Some revision" "ti_numeric_id i \<le> i64_max"
    using assms False
    by (auto simp: consume_terminal_fact_tx_def Let_def and_then_eq_Inr ok_or_eq_Inr split: if_splits)
  have mark: "update_where (\<lambda>r. ib_message r = m) g (inbox db @ [x]) = inbox db @ [g x]"
    if "ib_message x = m" for g x
    using False that by (auto simp: update_where_def image_iff intro!: map_idI)
  show ?thesis
  proof (cases "length (filter (matches_pending i revision) (requests db)) = 1 \<and> status = ReqCompleted \<and> ref \<noteq> None")
    case True
    then show ?thesis
      using assms False rev
      by (intro claimed [of revision])
        (auto simp: consume_terminal_fact_tx_def Let_def link_result_def mark split: if_splits)
  next
    case no_link: False
    then show ?thesis
      using assms False rev
      by (intro claimed [of revision])
        (auto simp: consume_terminal_fact_tx_def Let_def mark split: if_splits option.splits)
  qed
qed

lemma matches_pending_id: "matches_pending i revision r \<Longrightarrow> rq_id r = ti_request_id i"
  unfolding matches_pending_def by blast

lemma pending_unique:
  assumes "distinct (map rq_id rs)"
  shows "length (filter (matches_pending i revision) rs) = (if \<exists>r\<in>set rs. matches_pending i revision r then 1 else 0)"
proof (cases "\<exists>r\<in>set rs. matches_pending i revision r")
  case True
  then obtain r where r: "r \<in> set rs" "matches_pending i revision r" by blast
  have "x = r" if "x \<in> set rs" "matches_pending i revision x" for x
  proof (rule inj_onD [of rq_id "set rs"])
    show "inj_on rq_id (set rs)" using assms by (simp add: distinct_map)
    show "rq_id x = rq_id r" using matches_pending_id [OF r(2)] matches_pending_id [OF that(2)] by simp
  qed (use r that in simp_all)
  then have "set (filter (matches_pending i revision) rs) = {r}" using r unfolding set_filter by blast
  moreover have "distinct (filter (matches_pending i revision) rs)" using assms by (simp add: distinct_map)
  ultimately have "length (filter (matches_pending i revision) rs) = card {r}"
    by (metis distinct_card)
  with True show ?thesis by simp
qed (simp add: filter_empty_conv)

lemma close_request_simps [simp]:
  "frozen (close_request status ref code retry now r) = frozen r"
  "rq_status (close_request status ref code retry now r) = status"
  "rq_result (close_request status ref code retry now r) = ref"
  "rq_outbox (close_request status ref code retry now r) = rq_outbox r"
  "rq_id (close_request status ref code retry now r) = rq_id r"
  "rq_owner (close_request status ref code retry now r) = rq_owner r"
  "rq_repo (close_request status ref code retry now r) = rq_repo r"
  by (simp_all add: close_request_def frozen_def)

lemma close_request_check:
  "request_check r \<Longrightarrow> rq_status r = ReqPending \<Longrightarrow> fact_shape status ref code retry \<Longrightarrow>
     request_check (close_request status ref code retry now r)"
  by (auto simp: request_check_def close_request_def fact_shape_def)

lemma set_upsert_link:
  "l \<in> set (upsert link_key link_merge new t) \<Longrightarrow> l \<in> set t \<or>
     link_key l = link_key new \<and> ln_request l = ln_request new \<and> ln_result l = ln_result new"
  by (auto simp: upsert_def set_update_where link_merge_def link_key_def split: if_splits)

lemma consume_ok:
  assumes "consume_terminal_fact_tx wc m subj i payload status ref code retry db = Inr (out, db')"
    and "requests_ok db" and "fact_shape status ref code retry"
  shows "requests_ok db'" and "requests_advance db db'"
proof -
  have "requests_ok db' \<and> requests_advance db db'"
    using assms(1)
  proof (cases rule: consume_terminal_Inr)
    case duplicate
    then show ?thesis using assms(2) by (simp add: requests_advance_refl)
  next
    case (claimed revision)
    let ?match = "matches_pending i revision"
    let ?close = "close_request status ref code retry (db_clock db)"
    have open_check: "request_check r" "rq_status r = ReqPending" if "r \<in> set (requests db)" "?match r" for r
      using assms(2) that by (auto simp: requests_ok_def list_all_iff matches_pending_def)
    have "linked (requests db') l" if "l \<in> set (links db)" for l
      using assms(2) that open_check unfolding claimed(5)
      by (intro linked_update) (auto simp: requests_ok_def list_all_iff)
    moreover have "linked (requests db') l"
      if "l \<in> set (links db')" "l \<notin> set (links db)" for l
    proof -
      have fin: "length (filter ?match (requests db)) = 1" "status = ReqCompleted" "ref \<noteq> None"
        using that unfolding claimed(6) by (auto split: if_splits)
      then have "filter ?match (requests db) \<noteq> []" by fastforce
      then obtain r where r: "r \<in> set (requests db)" "?match r" by (auto simp: filter_empty_conv)
      have "link_key l = (ti_owner i, ti_repository_id i)" "ln_request l = ti_request_id i" "ln_result l = the ref"
        using that claimed(6) by (auto split: if_splits dest!: set_upsert_link simp: link_key_def)
      with r fin show ?thesis
        unfolding linked_def claimed(5) set_update_where
        by (intro bexI [of _ "?close r"]) (auto simp: matches_pending_def link_key_def)
    qed
    ultimately have "list_all (linked (requests db')) (links db')" by (auto simp: list_all_iff)
    moreover have "distinct (map link_key (links db'))"
      using assms(2) claimed(6) by (simp add: requests_ok_def link_table.distinct_upsert)
    ultimately have "requests_ok db'"
      using claimed(7,8) open_check assms(3)
      by (intro requests_ok_update [OF assms(2) claimed(5)]) (auto intro: close_request_check)
    moreover have "requests_advance db db'"
      using open_check assms(3)
      by (intro advance_update [OF _ claimed(5)]) (auto simp: advances_def fact_shape_def)
    ultimately show ?thesis by blast
  qed
  then show "requests_ok db'" and "requests_advance db db'" by auto
qed

text \<open>
  C22. A terminal fact takes effect exactly once and exactly where it belongs, on a request table that satisfies the
  invariant every history of the operations keeps (\<open>requests_ok\<close>) and for a completion with a result or a failure
  without one: a message already in the inbox changes nothing; otherwise the fact is resolved if and only if a pending request has its
  identity, owner, repository, provider id and source revision, and then that request alone is
  closed with the fact's result, and on completion becomes the linked result of its owner and
  repository; in either case the message is recorded as consumed.
\<close>

theorem terminal_fact_exact:
  assumes "requests_ok db" and "fact_shape status ref code retry"
    and "consume_terminal_fact_tx wc m subj i payload status ref code retry db = Inr (out, db')"
  shows "(m \<in> ib_message ` set (inbox db) \<longrightarrow> out = FactDuplicate \<and> db' = db) \<and>
    (m \<notin> ib_message ` set (inbox db) \<longrightarrow>
      (\<exists>revision. wc_revision_json wc (ti_source_revision i) = Some revision \<and>
        inbox db' = inbox db @ [\<lparr>ib_message = m, ib_subject = subj, ib_payload = payload,
          ib_consumed = Some (db_clock db)\<rparr>] \<and>
        (if \<exists>r\<in>set (requests db). rq_id r = ti_request_id i \<and> rq_owner r = ti_owner i \<and>
              rq_repo r = ti_repository_id i \<and> rq_provider_id r = ti_numeric_id i \<and>
              rq_revision r = revision \<and> rq_status r = ReqPending
         then out = FactResolved \<and>
           (\<forall>x. find_by rq_id x (requests db') =
              (if x = ti_request_id i
               then map_option (close_request status ref code retry (db_clock db)) (find_by rq_id x (requests db))
               else find_by rq_id x (requests db))) \<and>
           (status = ReqCompleted \<longrightarrow>
              (\<exists>l. find_by link_key (ti_owner i, ti_repository_id i) (links db') = Some l \<and>
                 ln_request l = ti_request_id i \<and> Some (ln_result l) = ref))
         else out = FactIgnored \<and> requests db' = requests db \<and> links db' = links db)))"
  using assms(3)
proof (cases rule: consume_terminal_Inr)
  case duplicate
  then show ?thesis by simp
next
  case (claimed revision)
  have ids: "distinct (map rq_id (requests db))" using assms(1) by (simp add: requests_ok_def)
  show ?thesis
  proof (cases "\<exists>r\<in>set (requests db). matches_pending i revision r")
    case True
    then obtain r where r: "r \<in> set (requests db)" "matches_pending i revision r" by blast
    have only: "matches_pending i revision x \<longleftrightarrow> rq_id x = ti_request_id i" if "x \<in> set (requests db)" for x
      using ids r that by (auto simp: matches_pending_def distinct_map inj_on_def)
    have "find_by rq_id x (requests db') =
        map_option (\<lambda>r. if matches_pending i revision r then close_request status ref code retry (db_clock db) r else r)
          (find_by rq_id x (requests db))" for x
      unfolding claimed(5) by (rule find_by_update_where) simp
    moreover have "map_option (\<lambda>r. if matches_pending i revision r then close_request status ref code retry (db_clock db) r else r)
          (find_by rq_id x (requests db)) =
        (if x = ti_request_id i then map_option (close_request status ref code retry (db_clock db)) (find_by rq_id x (requests db))
         else find_by rq_id x (requests db))" for x
      using only by (cases "find_by rq_id x (requests db)") (auto dest: find_by_SomeD)
    moreover have "\<exists>l. find_by link_key (ti_owner i, ti_repository_id i) (links db') = Some l \<and>
        ln_request l = ti_request_id i \<and> Some (ln_result l) = ref" if "status = ReqCompleted"
      using that claimed(6) pending_unique [OF ids, of i revision] True assms(2)
      by (auto simp: link_table.find_upsert link_key_def fact_shape_def link_merge_def split: option.split)
    ultimately show ?thesis
      using claimed(1-4) pending_unique [OF ids, of i revision] True by (auto simp: matches_pending_def)
  next
    case False
    then have "requests db' = requests db" unfolding claimed(5) by (intro update_where_none) auto
    with False claimed pending_unique [OF ids, of i revision] show ?thesis by (auto simp: matches_pending_def)
  qed
qed

section \<open>Registration\<close>

interpretation watch_table: keyed_table watch_key watch_merge
  by unfold_locales (simp add: watch_key_def watch_merge_def)

lemma register_watch_Inr:
  assumes "register_watch_tx owner repo baseline db = Inr (i, db')"
  obtains checkpoint where
    "db' = db\<lparr>next_uuid := Suc (next_uuid db), watches := upsert watch_key watch_merge
       (new_watch (next_uuid db) owner repo checkpoint (db_clock db)) (watches db)\<rparr>"
  using assms by (auto simp: register_watch_tx_def fresh_uuid_def Let_def and_then_eq_Inr split: if_splits)

lemma register_watches_ok:
  assumes "register_watch_tx owner repo baseline db = Inr (i, db')" and "watches_ok db"
  shows "watches_ok db'"
proof -
  obtain c where db': "db' = db\<lparr>next_uuid := Suc (next_uuid db), watches := upsert watch_key watch_merge
       (new_watch (next_uuid db) owner repo c (db_clock db)) (watches db)\<rparr>"
    using assms(1) by (rule register_watch_Inr)
  let ?new = "new_watch (next_uuid db) owner repo c (db_clock db)"
  show ?thesis
  proof (cases "watch_key ?new \<in> set (map watch_key (watches db))")
    case True
    then have "watches db' = update_where (\<lambda>r. watch_key r = watch_key ?new) (\<lambda>r. watch_merge r ?new) (watches db)"
      unfolding db' upsert_def by simp
    moreover have "watch_key (watch_merge r ?new) = watch_key r" "wt_id (watch_merge r ?new) = wt_id r" for r
      by (simp_all add: watch_merge_def watch_key_def)
    ultimately show ?thesis
      using assms(2) db' by (auto simp: watches_ok_def map_update_where_key set_update_where less_Suc_eq)
  next
    case False
    then have "watches db' = watches db @ [?new]" unfolding db' upsert_def by simp
    moreover have "next_uuid db \<notin> wt_id ` set (watches db)" using assms(2) by (auto simp: watches_ok_def)
    ultimately show ?thesis
      using assms(2) False db' by (auto simp: watches_ok_def new_watch_def less_Suc_eq)
  qed
qed

section \<open>Histories\<close>

text \<open>
  One step of the service on the watch tables: a committed transaction of the module, or anything
  else, which leaves these tables alone and draws fresh identifiers.
\<close>

inductive watch_step :: "watch_contracts \<Rightarrow> catalog \<Rightarrow> catalog \<Rightarrow> bool" for wc where
  register: "register_watch_tx owner repo baseline db = Inr (i, db') \<Longrightarrow> watch_step wc db db'"
| enable: "set_watch_enabled_tx i enabled db = Inr ((), db') \<Longrightarrow> watch_step wc db db'"
| evaluate: "evaluate_watches_tx wc repo now db = Inr (e, db') \<Longrightarrow> watch_step wc db db'"
| dispatch: "dispatch_due_tx wc now db = Inr (sent, db') \<Longrightarrow> watch_step wc db db'"
| completed: "consume_terminal_fact_tx wc m completed_subject i payload ReqCompleted (Some ref) None None db = Inr (out, db')
    \<Longrightarrow> watch_step wc db db'"
| failed: "consume_terminal_fact_tx wc m failed_subject i payload ReqFailed None (Some code) (Some retry) db = Inr (out, db')
    \<Longrightarrow> watch_step wc db db'"
| elsewhere: "requests db' = requests db \<Longrightarrow> watches db' = watches db \<Longrightarrow> links db' = links db \<Longrightarrow>
    dispatch_cursor db' = dispatch_cursor db \<Longrightarrow> next_uuid db \<le> next_uuid db' \<Longrightarrow> watch_step wc db db'"

lemma watch_step_requests:
  assumes "watch_step wc db db'" and "requests_ok db"
  shows "requests_ok db' \<and> requests_advance db db'"
  using assms
proof (induction rule: watch_step.induct)
  case (register owner repo baseline db i db')
  then show ?case
    by (auto elim!: register_watch_Inr intro!: requests_advance_refl requests_ok_cong [of _ db])
next
  case (enable i enabled db db')
  then show ?case
    by (auto simp: set_watch_enabled_tx_def intro!: requests_advance_refl requests_ok_cong [of _ db])
next
  case (evaluate repo now db e db')
  then show ?case by (blast intro: evaluate_requests_ok evaluate_advances)
next
  case (dispatch now db sent db')
  then show ?case by (blast intro: dispatch_ok)
next
  case (completed m i payload ref db out db')
  then show ?case using consume_ok [OF completed(1)] by (simp add: fact_shape_def)
next
  case (failed m i payload code retry db out db')
  then show ?case using consume_ok [OF failed(1)] by (simp add: fact_shape_def)
next
  case (elsewhere db' db)
  then show ?case by (auto intro!: requests_advance_refl requests_ok_cong [of db' db])
qed

lemma watch_steps_requests:
  assumes "(watch_step wc)\<^sup>*\<^sup>* db db'" and "requests_ok db"
  shows "requests_ok db' \<and> requests_advance db db'"
  using assms
  by (induction rule: rtranclp_induct)
    (auto dest: watch_step_requests intro: requests_advance_refl requests_advance_trans)

text \<open>
  C16. The table of requests, after any history of registrations, evaluations, dispatches, terminal
  facts and unrelated work from an empty table: due times are at least a second apart, in the order
  in which the requests were made; a watch has at most one request per source; every row has the
  shape its status demands; and a linked result is the result of a completed request of that owner
  and repository.
\<close>

theorem request_table_invariant:
  assumes "requests db0 = []" and "links db0 = []" and "(watch_step wc)\<^sup>*\<^sup>* db0 db"
  shows "(\<forall>i j. i < j \<and> j < length (requests db) \<longrightarrow>
      rq_not_before (requests db ! i) + 1000000 \<le> rq_not_before (requests db ! j)) \<and>
    distinct (map (\<lambda>r. (rq_watch r, rq_digest r)) (requests db)) \<and>
    list_all request_check (requests db) \<and>
    (\<forall>l\<in>set (links db). \<exists>r\<in>set (requests db). rq_id r = ln_request l \<and> rq_status r = ReqCompleted \<and>
       rq_owner r = ln_owner l \<and> rq_repo r = ln_repo l \<and> rq_result r = Some (ln_result l))"
proof -
  have "requests_ok db0" using assms(1,2) by (simp add: requests_ok_def paced_def)
  with assms(3) have "requests_ok db" by (blast dest: watch_steps_requests)
  then show ?thesis
    by (auto simp: requests_ok_def paced_def sorted_wrt_iff_nth_less dispatch_spacing_def list_all_iff
        linked_def request_key_of_def [abs_def])
qed

text \<open>
  The life of a request: over any history a request keeps its identity, content and due time, it
  only moves forward from queued over pending to completed or failed, the message it was sent with
  never changes, and a closed request is never touched again.
\<close>

theorem request_lifecycle:
  assumes "requests_ok db" and "(watch_step wc)\<^sup>*\<^sup>* db db'" and "r \<in> set (requests db)"
  shows "\<exists>r'\<in>set (requests db'). rq_id r' = rq_id r \<and> rq_payload r' = rq_payload r \<and>
    rq_owner r' = rq_owner r \<and> rq_repo r' = rq_repo r \<and> rq_not_before r' = rq_not_before r \<and>
    status_rank (rq_status r) \<le> status_rank (rq_status r') \<and>
    (rq_outbox r \<noteq> None \<longrightarrow> rq_outbox r' = rq_outbox r) \<and>
    (rq_status r = ReqCompleted \<or> rq_status r = ReqFailed \<longrightarrow> r' = r)"
proof -
  have "requests_advance db db'" using watch_steps_requests [OF assms(2,1)] by blast
  then obtain r' where "r' \<in> set (requests db')" "advances r r'"
    using requests_advance_rows assms(3) by blast
  moreover from this have "rq_status r = ReqCompleted \<or> rq_status r = ReqFailed \<Longrightarrow> r' = r"
    by (auto dest: advances_terminal)
  ultimately show ?thesis by (intro bexI [of _ r']) (auto simp: advances_def frozen_def)
qed

text \<open>
  A dispatch sends the earliest due request and only a due one: it was queued and its time has
  come, no queued request that is due was due before it, its envelope goes to the outbox under the
  message that marks it pending, and every other request stays as it was.
\<close>

theorem dispatch_in_order:
  assumes "requests_ok db" and "dispatch_due_tx wc now db = Inr (Some i, db')"
  shows "\<exists>r envelope. r \<in> set (requests db) \<and> rq_id r = i \<and> rq_status r = ReqQueued \<and> rq_not_before r \<le> now \<and>
    (\<forall>x\<in>set (requests db). rq_status x = ReqQueued \<longrightarrow> rq_not_before r \<le> rq_not_before x \<or> now < rq_not_before x) \<and>
    outbox db' = outbox db @ [outbox_entry (next_uuid db) analysis_requested_subject envelope (db_clock db)] \<and>
    (\<forall>x. find_by rq_id x (requests db') =
       (if x = i then Some (r\<lparr>rq_status := ReqPending, rq_outbox := Some (next_uuid db)\<rparr>)
        else find_by rq_id x (requests db)))"
  using assms(2)
proof (cases rule: dispatch_due_Inr)
  case (sent r envelope requested)
  note due = due_requestD [OF sent(1)]
  have found: "find_by rq_id (rq_id r) (requests db) = Some r"
    using assms(1) due(1) by (simp add: requests_ok_def find_by_unique)
  have "find_by rq_id x (requests db') = map_option (\<lambda>y. if rq_id y = rq_id r
      then y\<lparr>rq_status := ReqPending, rq_outbox := Some (next_uuid db)\<rparr> else y) (find_by rq_id x (requests db))" for x
    using sent(5) by (simp add: set_pending_def find_by_update_where)
  then have "find_by rq_id x (requests db') =
       (if x = rq_id r then Some (r\<lparr>rq_status := ReqPending, rq_outbox := Some (next_uuid db)\<rparr>)
        else find_by rq_id x (requests db))" for x
    using found by (cases "find_by rq_id x (requests db)") (auto dest: find_by_SomeD)
  with sent due show ?thesis by (intro exI [of _ r] exI [of _ envelope]) (force simp: less_eq_prod_def)
qed simp

section \<open>A watched repository\<close>

definition first_owner :: string where "first_owner = ''user:00000000-0000-0000-0000-00000000000a''"
definition second_owner :: string where "second_owner = ''user:00000000-0000-0000-0000-00000000000b''"
definition sample_digest :: string where "sample_digest = replicate 64 (CHR ''a'')"

definition sample_contracts :: watch_contracts where
  "sample_contracts =
     \<lparr>wc_repository_id = (\<lambda>_. True), wc_request_id = (\<lambda>_. True), wc_tenant = Some, wc_full_name = Some,
      wc_description = Some, wc_language = Some, wc_readme = Some, wc_attributes_digest = (\<lambda>_. Some sample_digest),
      wc_key_digest = (\<lambda>owner r n v a c. Some sample_digest),
      wc_revision_json = (\<lambda>v. Some (JObj [(''readme'', an_readme v)])),
      wc_attributes_json = (\<lambda>a. Some (JObj [(''full_name'', JStr (aa_full_name a))])),
      wc_requested_json = (\<lambda>r. Some (JObj [(''owner'', JStr (ar_owner r))])),
      wc_requested_of_json = (\<lambda>j. Some \<lparr>ar_owner = first_owner, ar_repository_id = 1, ar_numeric_id = 42,
        ar_request_id = 0, ar_source_revision = \<lparr>an_attributes_digest = sample_digest, an_readme = JObj []\<rparr>,
        ar_attributes = \<lparr>aa_full_name = ''o/a'', aa_description = None, aa_language = None\<rparr>,
        ar_idempotency_key = sample_digest\<rparr>),
      wc_fact_json = (\<lambda>_. Some (JObj [])), wc_producer = Some, wc_entity_ref = Some, wc_uuid_text = (\<lambda>_. ''id''),
      wc_event_payload = (\<lambda>_. Some (JObj [])), wc_event_json = (\<lambda>_ _ _ _ _ j. Some j)\<rparr>"

definition watched :: catalog where
  "watched = empty_catalog\<lparr>next_uuid := 5,
     repositories := [\<lparr>repo_id = 1, repo_provider_id = 42, repo_mode = Some Tracked, repo_updated_at = 0\<rparr>],
     metadata := [\<lparr>md_repo = 1, md_description = None, md_language = None, md_stargazers = 0, md_topics = JArr [],
       md_default_branch = None, md_pushed_at = None, md_etag = None, md_readme_etag = None, md_readme = JObj [],
       md_hash = ''h'', md_fetched = 0, md_attempted = None\<rparr>],
     revisions := [\<lparr>rv_id = 2, rv_repo = 1, rv_payload = JObj [(''provider_repository_id'', JNum 42),
       (''full_name'', JStr ''o/a'')], rv_hash = ''h'', rv_observed = 0\<rparr>],
     watches := [\<lparr>wt_id = 3, wt_owner = first_owner, wt_repo = 1, wt_enabled = True, wt_checkpoint = None, wt_updated = 0\<rparr>,
       \<lparr>wt_id = 4, wt_owner = second_owner, wt_repo = 1, wt_enabled = True, wt_checkpoint = None, wt_updated = 0\<rparr>]\<rparr>"

definition evaluated where "evaluated = evaluate_watches_tx sample_contracts 1 7 watched"

definition evaluated_db :: catalog where "evaluated_db = snd (projr evaluated)"

lemma evaluated_eq: "evaluate_watches_tx sample_contracts 1 7 watched = Inr (WatchesQueued 2, evaluated_db)"
proof -
  have "\<not> isl evaluated \<and> fst (projr evaluated) = WatchesQueued 2" by code_simp
  then show ?thesis unfolding evaluated_def evaluated_db_def by (metis prod.collapse sum.collapse(2))
qed

theorem evaluation_converges_witness:
  "map rq_not_before (requests evaluated_db) = [7, 1000007] \<and>
   evaluate_watches_tx sample_contracts 1 9 evaluated_db = Inr (WatchesUnchanged, evaluated_db)"
proof
  show "map rq_not_before (requests evaluated_db) = [7, 1000007]" by code_simp
  have "watches_ok watched" by (simp add: watches_ok_def watched_def watch_key_def first_owner_def second_owner_def)
  from evaluation_converges [OF this evaluated_eq, of 9]
  show "evaluate_watches_tx sample_contracts 1 9 evaluated_db = Inr (WatchesUnchanged, evaluated_db)" by blast
qed

lemma evaluated_reached: "(watch_step sample_contracts)\<^sup>*\<^sup>* watched evaluated_db"
  using watch_step.evaluate [OF evaluated_eq] by (rule r_into_rtranclp)

lemma watched_empty: "requests watched = []" "links watched = []" "requests_ok watched"
  by (simp_all add: watched_def empty_catalog_def requests_ok_def paced_def)

lemma evaluated_ok: "requests_ok evaluated_db"
  using watch_steps_requests [OF evaluated_reached watched_empty(3)] by blast

theorem request_table_invariant_witness:
  "length (requests evaluated_db) = 2 \<and>
   rq_not_before (requests evaluated_db ! 0) + 1000000 \<le> rq_not_before (requests evaluated_db ! 1)"
proof
  show len: "length (requests evaluated_db) = 2" by code_simp
  show "rq_not_before (requests evaluated_db ! 0) + 1000000 \<le> rq_not_before (requests evaluated_db ! 1)"
    using request_table_invariant [OF watched_empty(1,2) evaluated_reached] len by simp
qed

definition sent_db :: catalog where "sent_db = snd (projr (dispatch_due_tx sample_contracts 8 evaluated_db))"

lemma sent_eq: "dispatch_due_tx sample_contracts 8 evaluated_db = Inr (Some 5, sent_db)"
proof -
  have "\<not> isl (dispatch_due_tx sample_contracts 8 evaluated_db) \<and>
      fst (projr (dispatch_due_tx sample_contracts 8 evaluated_db)) = Some 5" by code_simp
  then show ?thesis unfolding sent_db_def by (metis prod.collapse sum.collapse(2))
qed

theorem dispatch_in_order_witness:
  "\<exists>r envelope. r \<in> set (requests evaluated_db) \<and> rq_id r = 5 \<and> rq_not_before r \<le> 8 \<and>
     outbox sent_db = outbox evaluated_db @
       [outbox_entry (next_uuid evaluated_db) analysis_requested_subject envelope (db_clock evaluated_db)]"
  using dispatch_in_order [OF evaluated_ok sent_eq] by blast

theorem request_lifecycle_witness:
  "\<exists>r'\<in>set (requests sent_db). rq_id r' = rq_id (hd (requests evaluated_db)) \<and>
     status_rank (rq_status (hd (requests evaluated_db))) \<le> status_rank (rq_status r')"
proof -
  have "requests evaluated_db \<noteq> []" by code_simp
  then have "hd (requests evaluated_db) \<in> set (requests evaluated_db)" by simp
  moreover have "(watch_step sample_contracts)\<^sup>*\<^sup>* evaluated_db sent_db"
    using watch_step.dispatch [OF sent_eq] by (rule r_into_rtranclp)
  ultimately show ?thesis using request_lifecycle [OF evaluated_ok] by blast
qed

definition sample_fact :: terminal_identity where
  "sample_fact = \<lparr>ti_owner = first_owner, ti_repository_id = 1, ti_numeric_id = 42, ti_request_id = 5,
     ti_source_revision = \<lparr>an_attributes_digest = sample_digest, an_readme = JObj []\<rparr>\<rparr>"

definition fact_result where
  "fact_result = consume_terminal_fact_tx sample_contracts 4 completed_subject sample_fact (JObj []) ReqCompleted
     (Some ''result'') None None sent_db"

theorem terminal_fact_exact_witness:
  "\<exists>l. find_by link_key (first_owner, 1) (links (snd (projr fact_result))) = Some l \<and> ln_request l = 5 \<and>
     Some (ln_result l) = Some ''result''"
proof -
  have "\<not> isl fact_result" by code_simp
  then have eq: "consume_terminal_fact_tx sample_contracts 4 completed_subject sample_fact (JObj []) ReqCompleted
     (Some ''result'') None None sent_db = Inr (fst (projr fact_result), snd (projr fact_result))"
    unfolding fact_result_def by simp
  have "requests_ok sent_db" using dispatch_ok(1) [OF sent_eq evaluated_ok] .
  moreover have "fact_shape ReqCompleted (Some ''result'') None None" by (simp add: fact_shape_def)
  moreover have "(4::nat) \<notin> ib_message ` set (inbox sent_db)"
    and "\<exists>r\<in>set (requests sent_db). rq_id r = ti_request_id sample_fact \<and> rq_owner r = ti_owner sample_fact \<and>
        rq_repo r = ti_repository_id sample_fact \<and> rq_provider_id r = ti_numeric_id sample_fact \<and>
        rq_revision r = JObj [(''readme'', JObj [])] \<and> rq_status r = ReqPending"
    and "wc_revision_json sample_contracts (ti_source_revision sample_fact) = Some (JObj [(''readme'', JObj [])])" by code_simp+
  ultimately show ?thesis
    using terminal_fact_exact [OF _ _ eq] by (simp add: sample_fact_def)
qed

end
