(* ===== verification/Observe.thy ===== *)
theory Observe
  imports Metadata_History Watch_Safety Snapshot_Frame
begin

text \<open>
  The metadata observe flow (\<open>crates/catalog/src/observe.rs\<close>) and the periodic observer over it
  (\<open>services/catalog/src/observer.rs\<close>): conditional fetch under the shared budget, identity and alias
  evidence, README evidence, application of the source revision, registration and evaluation of
  watches; selection of watched repositories by their last attempt, and one pass over a batch.
\<close>

section \<open>Data\<close>

record rename_evidence =
  re_observed_as :: owner_name

record fresh_repository =
  fr_body :: provider_repository_body
  fr_etag :: "string option"
  fr_rename_evidence :: "rename_evidence option"

datatype fetch_outcome = FetchFresh fresh_repository | FetchNotModified | FetchMoved owner_name

record gateway_reply =
  gr_outcome :: fetch_outcome
  gr_rate_limit :: rate_limit_headers

record fresh_readme =
  fm_bytes :: "8 word list"
  fm_etag :: "string option"

datatype readme_fetch_outcome = ReadmeFresh fresh_readme | ReadmeUnmodified | ReadmeMissing | ReadmeForbidden

record readme_reply =
  rr_outcome :: readme_fetch_outcome
  rr_rate_limit :: rate_limit_headers

text \<open>The two fetches of the provider seam: by credential, owner and name, and validator.\<close>

record observe_api =
  oa_fetch_repository ::
    "nat \<Rightarrow> string option \<Rightarrow> owner_name \<Rightarrow> string option \<Rightarrow> (provider_error, gateway_reply) result answer"
  oa_fetch_readme ::
    "nat \<Rightarrow> string option \<Rightarrow> owner_name \<Rightarrow> string option \<Rightarrow> (provider_error, readme_reply) result answer"

datatype observe_outcome =
    Observed uuid
  | ObservedNotModified uuid
  | ObservedMovedTo owner_name
  | ObservedRateLimited int

datatype observe_error =
    ObserveIdentity identity_error
  | ObservePersistence sql_error
  | ObserveWatch watch_error
  | ObserveProvider provider_error
  | ObserveReadmeBlob readme_blob_error
  | ObserveSource repository_source_error
  | ObserveRateLimited int
  | MissingRepositoryState
  | ObservePanicked

record watched_repository =
  wr_repository_id :: uuid
  wr_alias :: owner_name

text \<open>The provider side of an observation, with the libraries and contracts the flow uses.\<close>

record observe_runtime =
  or_gateway :: observe_api
  or_token :: string
  or_credential :: "string option"
  or_source :: source_contracts
  or_watch :: watch_contracts
  or_cast :: "string \<Rightarrow> timestamp option"

section \<open>Selection\<close>

definition stored_validators ::
    "uuid \<Rightarrow> (sql_error, string option \<times> string option \<times> json option) io" where
  "stored_validators repo =
     query (\<lambda>db. case find_by md_repo repo (metadata db) of
       None \<Rightarrow> (None, None, None)
     | Some m \<Rightarrow> (md_etag m, md_readme_etag m, Some (md_readme m)))"

definition active_owner_name :: "uuid \<Rightarrow> catalog \<Rightarrow> string option" where
  "active_owner_name repo db =
     map_option alias_value (max_by alias_created
       (filter (\<lambda>a. alias_repo a = repo \<and> alias_kind a = OwnerName \<and> alias_status a = Active) (aliases db)))"

definition has_enabled_watch :: "uuid \<Rightarrow> catalog \<Rightarrow> bool" where
  "has_enabled_watch repo db \<longleftrightarrow> (\<exists>w\<in>set (watches db). wt_repo w = repo \<and> wt_enabled w)"

definition selectable :: "catalog \<Rightarrow> metadata_row list" where
  "selectable db =
     filter (\<lambda>m. active_owner_name (md_repo m) db \<noteq> None \<and> has_enabled_watch (md_repo m) db) (metadata db)"

definition select_watched :: "nat \<Rightarrow> catalog \<Rightarrow> watched_repository list" where
  "select_watched batch db =
     List.map_filter (\<lambda>m.
       case active_owner_name (md_repo m) db of
         None \<Rightarrow> None
       | Some value \<Rightarrow>
           map_option (\<lambda>(owner, name). \<lparr>wr_repository_id = md_repo m,
               wr_alias = \<lparr>on_owner = owner, on_name = name\<rparr>\<rparr>) (split_once (CHR ''/'') value))
       (take batch (sort_key (\<lambda>m. (md_attempted m, md_fetched m, md_repo m)) (selectable db)))"

definition select_watched_repositories :: "nat \<Rightarrow> (sql_error, watched_repository list) io" where
  "select_watched_repositories batch = query (select_watched batch)"

definition record_attempt_at :: "uuid \<Rightarrow> catalog \<Rightarrow> catalog" where
  "record_attempt_at repo db =
     db\<lparr>metadata := update_where (\<lambda>m. md_repo m = repo)
       (\<lambda>m. m\<lparr>md_attempted := Some (db_clock db)\<rparr>) (metadata db)\<rparr>"

definition record_observation_attempt :: "uuid \<Rightarrow> (sql_error, unit) io" where
  "record_observation_attempt repo = transact (\<lambda>db. Inr ((), record_attempt_at repo db))"

section \<open>Recording a fresh repository\<close>

definition readme_evidence ::
    "observe_runtime \<Rightarrow> string option \<Rightarrow> json option \<Rightarrow> readme_fetch_outcome \<Rightarrow>
     (observe_error, repository_analysis_source) io" where
  "readme_evidence rt stored_etag stored_readme fetched =
     (case fetched of
        ReadmeFresh f \<Rightarrow>
          io_bind (io_map_err ObserveReadmeBlob (store_readme (or_source rt) (fm_bytes f))) (\<lambda>blob.
            io_return \<lparr>as_readme = ReadmePresent blob, as_readme_etag = fm_etag f\<rparr>)
      | ReadmeUnmodified \<Rightarrow>
          (case Option.bind stored_readme (so_readme_of_json (or_source rt)) of
             None \<Rightarrow> io_fail MissingRepositoryState
           | Some readme \<Rightarrow> io_return \<lparr>as_readme = readme, as_readme_etag = stored_etag\<rparr>)
      | ReadmeMissing \<Rightarrow> io_return \<lparr>as_readme = ReadmeAbsent ReadmeNotFound, as_readme_etag = None\<rparr>
      | ReadmeForbidden \<Rightarrow> io_return \<lparr>as_readme = ReadmeAbsent ReadmeNotAuthorized, as_readme_etag = None\<rparr>)"

text \<open>The tail of the flow: the tracking owner's watch, the source revision, the evaluation.\<close>

definition register_tracking :: "string option \<Rightarrow> uuid \<Rightarrow> (observe_error, unit) io" where
  "register_tracking track_for repo =
     (case track_for of
        None \<Rightarrow> io_return ()
      | Some owner \<Rightarrow>
          io_bind (io_map_err ObserveWatch
              (register_repository_analysis_watch owner repo BaselineUnevaluated)) (\<lambda>_. io_return ()))"

definition record_source ::
    "observe_runtime \<Rightarrow> uuid \<Rightarrow> fresh_repository \<Rightarrow> string option \<Rightarrow> timestamp \<Rightarrow>
     repository_analysis_source \<Rightarrow> (observe_error, applied_outcome) io" where
  "record_source rt repo fresh track_for now source =
     io_bind (io_map_err ObserveSource (apply_fresh_source (or_source rt) (or_cast rt) repo
         (fr_body fresh) (fr_etag fresh) source)) (\<lambda>applied.
     io_bind (register_tracking track_for repo) (\<lambda>_.
     io_bind (io_map_err ObserveWatch (evaluate_metadata_watches (or_watch rt) repo now)) (\<lambda>_.
       io_return applied)))"

definition record_fresh_repository ::
    "observe_runtime \<Rightarrow> uuid \<Rightarrow> owner_name \<Rightarrow> fresh_repository \<Rightarrow> string option \<Rightarrow> timestamp \<Rightarrow>
     (observe_error, applied_outcome) io" where
  "record_fresh_repository rt repo alias fresh track_for now =
     io_bind (io_map_err ObservePersistence (stored_validators repo)) (\<lambda>(_, stored_etag, stored_readme).
     io_bind (budget_gate (or_token rt) ObserveRateLimited) (\<lambda>_.
     io_bind (call (\<lambda>n. oa_fetch_readme (or_gateway rt) n (or_credential rt) alias stored_etag)) (\<lambda>answer.
       case answer of
         Inl e \<Rightarrow> io_fail (ObserveProvider e)
       | Inr reply \<Rightarrow>
           io_bind (budget_observe (or_token rt) (rr_rate_limit reply) ObservePanicked) (\<lambda>_.
           io_bind (readme_evidence rt stored_etag stored_readme (rr_outcome reply))
             (record_source rt repo fresh track_for now)))))"

section \<open>Observing a repository\<close>

text \<open>The handling of a fresh body: identity, alias evidence, and the source revision.\<close>

definition observe_fresh ::
    "observe_runtime \<Rightarrow> owner_name \<Rightarrow> fresh_repository \<Rightarrow> timestamp \<Rightarrow> (observe_error, observe_outcome) io" where
  "observe_fresh rt alias fresh now =
     (let requested = owner_name_text alias;
          observed = map_option owner_name_text (body_owner_name (fr_body fresh));
          superseded = (case observed of None \<Rightarrow> None | Some v \<Rightarrow> if v \<noteq> requested then Some v else None);
          provider_id = pb_provider_repository_id (fr_body fresh)
      in
      io_bind (io_map_err ObservePersistence (upsert_repository provider_id)) (\<lambda>identity.
      io_bind (io_map_err ObserveIdentity (apply_alias_observation provider_id OwnerName superseded
          (case observed of None \<Rightarrow> requested | Some v \<Rightarrow> v))) (\<lambda>_. \<lambda>w.
        case record_fresh_repository (rt\<lparr>or_credential := None\<rparr>) (ri_repository_id identity) alias fresh None now w of
          (Inr _, w') \<Rightarrow> (Inr (Observed (ri_repository_id identity)), w')
        | (Inl (ObserveRateLimited t), w') \<Rightarrow> (Inr (ObservedRateLimited t), w')
        | (Inl e, w') \<Rightarrow> (Inl e, w'))))"

definition observe_granted ::
    "observe_runtime \<Rightarrow> owner_name \<Rightarrow> timestamp \<Rightarrow> (observe_error, observe_outcome) io" where
  "observe_granted rt alias now =
     io_bind (io_map_err ObservePersistence (query (resolve_alias OwnerName (owner_name_text alias)))) (\<lambda>known.
     io_bind
       (case known of
          None \<Rightarrow> io_return None
        | Some repo \<Rightarrow>
            io_bind (io_map_err ObservePersistence (stored_validators repo)) (\<lambda>(etag, _). io_return etag))
       (\<lambda>stored_etag.
     io_bind (call (\<lambda>n. oa_fetch_repository (or_gateway rt) n None alias stored_etag)) (\<lambda>answer.
       case answer of
         Inl e \<Rightarrow> io_fail (ObserveProvider e)
       | Inr reply \<Rightarrow>
           io_bind (budget_observe (or_token rt) (gr_rate_limit reply) ObservePanicked) (\<lambda>_.
             case gr_outcome reply of
               FetchFresh fresh \<Rightarrow> observe_fresh rt alias fresh now
             | FetchNotModified \<Rightarrow>
                 (case known of
                    None \<Rightarrow> io_fail MissingRepositoryState
                  | Some repo \<Rightarrow>
                      io_bind (io_map_err ObservePersistence (apply_not_modified repo)) (\<lambda>_.
                      io_bind (io_map_err ObserveWatch (evaluate_metadata_watches (or_watch rt) repo now)) (\<lambda>_.
                        io_return (ObservedNotModified repo))))
             | FetchMoved target \<Rightarrow> io_return (ObservedMovedTo target)))))"

definition observe_repository ::
    "observe_runtime \<Rightarrow> owner_name \<Rightarrow> timestamp \<Rightarrow> (observe_error, observe_outcome) io" where
  "observe_repository rt alias now w =
     (case acquire_now (or_token rt) w of
        (Inl (RateLimited t), w1) \<Rightarrow> (Inr (ObservedRateLimited t), w1)
      | (Inr _, w1) \<Rightarrow> observe_granted rt alias now w1)"

section \<open>The periodic observer\<close>

definition observer_token_label :: string where "observer_token_label = ''watch-observer''"

record observer_pass =
  op_observed :: int
  op_unchanged :: int
  op_failed :: int
  op_rate_limited :: bool

definition no_pass :: observer_pass where
  "no_pass = \<lparr>op_observed = 0, op_unchanged = 0, op_failed = 0, op_rate_limited = False\<rparr>"

datatype observer_error = ObserverCatalog

text \<open>How one outcome is counted; a withheld budget ends the pass.\<close>

fun tally :: "(observe_error, observe_outcome) result \<Rightarrow> observer_pass \<Rightarrow> observer_pass" where
  "tally (Inr (Observed _)) p = p\<lparr>op_observed := op_observed p + 1\<rparr>"
| "tally (Inr (ObservedNotModified _)) p = p\<lparr>op_unchanged := op_unchanged p + 1\<rparr>"
| "tally (Inr (ObservedRateLimited _)) p = p\<lparr>op_rate_limited := True\<rparr>"
| "tally (Inr (ObservedMovedTo _)) p = p\<lparr>op_failed := op_failed p + 1\<rparr>"
| "tally (Inl _) p = p\<lparr>op_failed := op_failed p + 1\<rparr>"

fun withheld :: "(observe_error, observe_outcome) result \<Rightarrow> bool" where
  "withheld (Inr (ObservedRateLimited _)) = True"
| "withheld _ = False"

fun observe_each ::
    "observe_runtime \<Rightarrow> timestamp \<Rightarrow> watched_repository list \<Rightarrow> observer_pass \<Rightarrow> (observer_error, observer_pass) io" where
  "observe_each rt now [] p w = (Inr p, w)"
| "observe_each rt now (r # rs) p w =
     (case observe_repository rt (wr_alias r) now w of
        (outcome, w1) \<Rightarrow>
          if withheld outcome then (Inr (tally outcome p), w1)
          else
            (case record_observation_attempt (wr_repository_id r) w1 of
               (Inl _, w2) \<Rightarrow> (Inl ObserverCatalog, w2)
             | (Inr _, w2) \<Rightarrow> observe_each rt now rs (tally outcome p) w2))"

definition observer_pass_run ::
    "observe_runtime \<Rightarrow> nat \<Rightarrow> timestamp \<Rightarrow> (observer_error, observer_pass) io" where
  "observer_pass_run rt batch now =
     io_bind (io_map_err (\<lambda>_. ObserverCatalog) (select_watched_repositories batch))
       (\<lambda>watched. observe_each (rt\<lparr>or_token := observer_token_label\<rparr>) now watched no_pass)"

section \<open>What the evaluation of watches leaves alone\<close>

lemma queue_watches_frame:
  assumes "queue_watches wc repo src now ws s db = Inr (s', db')"
  shows "aliases db' = aliases db \<and> readme_blobs db' = readme_blobs db \<and> action_attempts db' = action_attempts db"
  using assms
proof (induction ws arbitrary: s db)
  case (Cons w ws)
  obtain s1 db1 where 1: "queue_watch wc repo src now w s db = Inr (s1, db1)"
    and 2: "queue_watches wc repo src now ws s1 db1 = Inr (s', db')"
    using Cons.prems by (auto simp: and_then_eq_Inr)
  have "aliases db1 = aliases db \<and> readme_blobs db1 = readme_blobs db \<and> action_attempts db1 = action_attempts db"
    using 1 by (cases s; cases s1; hypsubst)
      (erule queue_watch_Inr; simp add: set_checkpoint_def)
  with Cons.IH [OF 2] show ?case by simp
qed simp

lemma evaluate_watches_frame:
  assumes "evaluate_watches_tx wc repo now db = Inr (e, db')"
  shows "aliases db' = aliases db \<and> readme_blobs db' = readme_blobs db \<and> action_attempts db' = action_attempts db"
  using assms by (cases rule: evaluate_watches_Inr) (auto dest!: queue_watches_frame)

section \<open>Aliases under observation\<close>

definition active_kept :: "catalog \<Rightarrow> catalog \<Rightarrow> bool" where
  "active_kept db db' \<longleftrightarrow> (\<forall>a\<in>set (aliases db). alias_status a = Active \<longrightarrow> a \<in> set (aliases db'))"

interpretation active_aliases: durable_relation active_kept
  by unfold_locales (auto simp: active_kept_def)

lemma same_aliases_active: "aliases db' = aliases db \<Longrightarrow> active_kept db db'"
  by (simp add: active_kept_def)

lemma reactivate_active_kept:
  assumes "reactivate_alias_in_tx r k v db = Inr (a, db')"
  shows "active_kept db db'"
proof (cases "find (dormant_alias r k v) (aliases db)")
  case None
  with assms show ?thesis
    by (auto simp: reactivate_alias_in_tx_def put_aliases_def fresh_uuid_def active_kept_def split: if_splits)
next
  case (Some x)
  with assms have db': "aliases db' = update_where (dormant_alias r k v)
      (\<lambda>a. a\<lparr>alias_status := Active, alias_redirect := None\<rparr>) (aliases db)"
    by (auto simp: reactivate_alias_in_tx_def put_aliases_def split: if_splits)
  show ?thesis
    unfolding active_kept_def db' set_update_where by (simp add: dormant_alias_def is_live_def)
qed

lemma apply_alias_active_kept:
  assumes "apply_alias_observation_tx p k s v db = Inr (i, db')" and "s = None \<or> s = Some v"
  shows "active_kept db db'"
proof -
  obtain r db1 a db2 where 1: "upsert_repository_in_tx p db = Inr (r, db1)"
    and 2: "claim_observed_alias r k v db1 = Inr (a, db2)" and 3: "db' = retire_superseded k s v a db2"
    using assms(1) by (rule apply_alias_observation_parts)
  have "active_kept db db1" using upsert_repository_frame(3) [OF 1] by (rule same_aliases_active)
  moreover have "active_kept db1 db2"
    using claim_observed_alias_cases [OF 2] by (auto intro: active_aliases.R_refl reactivate_active_kept)
  moreover have "db' = db2" using 3 assms(2) by (auto simp: retire_superseded_def)
  ultimately show ?thesis by (blast intro: active_aliases.R_trans)
qed

lemma keeps_active_simple:
  "active_aliases.keeps (upsert_repository p)" "active_aliases.keeps (stored_validators repo)"
  "active_aliases.keeps (store_readme sc bytes)"
  "active_aliases.keeps (apply_fresh_source sc cast repo body etag source)"
  "active_aliases.keeps (register_repository_analysis_watch owner repo baseline)"
  "active_aliases.keeps (evaluate_metadata_watches wc repo now)"
  "active_aliases.keeps (apply_not_modified repo)" "active_aliases.keeps (record_observation_attempt repo)"
proof -
  show "active_aliases.keeps (upsert_repository p)"
    unfolding upsert_repository_def
    by (rule active_aliases.keeps_transact)
      (auto simp: and_then_eq_Inr dest!: upsert_repository_frame(3) intro: same_aliases_active)
  show "active_aliases.keeps (stored_validators repo)"
    unfolding stored_validators_def by (rule active_aliases.keeps_query)
  show "active_aliases.keeps (store_readme sc bytes)"
    unfolding store_readme_def Let_def
    by (auto split: option.split intro!: active_aliases.keeps_intros active_aliases.keeps_transact_with
        simp: store_readme_tx_def same_aliases_active)
  have source: "active_kept db db'" if "apply_source_tx sc cast repo body etag source digest db = Inr (out, db')"
    for digest db out db'
    using that by (cases rule: apply_source_Inr)
      (simp_all add: same_aliases_active touch_fetched_def prune_history_in_tx_def)
  have sourced: "active_aliases.keeps (transact_with lost (apply_source_tx sc cast repo body etag source digest))"
    for lost digest
    by (rule active_aliases.keeps_transact_with) (rule source)
  show "active_aliases.keeps (apply_fresh_source sc cast repo body etag source)"
    unfolding active_aliases.keeps_def apply_fresh_source_def
    by (auto split: sum.split intro: active_aliases.R_refl simp: sourced [unfolded active_aliases.keeps_def, rule_format])
  show "active_aliases.keeps (register_repository_analysis_watch owner repo baseline)"
    unfolding register_repository_analysis_watch_def
    by (rule active_aliases.keeps_transact_with) (auto elim!: register_watch_Inr intro: same_aliases_active)
  show "active_aliases.keeps (apply_not_modified repo)" "active_aliases.keeps (record_observation_attempt repo)"
    unfolding apply_not_modified_def record_observation_attempt_def
    by (rule active_aliases.keeps_transact, auto simp: touch_fetched_def record_attempt_at_def same_aliases_active)+
  have "active_kept db db'" if "evaluate_watches_tx wc repo now db = Inr (e, db')" for db e db'
    using evaluate_watches_frame [OF that] by (blast intro: same_aliases_active)
  then show "active_aliases.keeps (evaluate_metadata_watches wc repo now)"
    unfolding evaluate_metadata_watches_def
    by (auto intro!: active_aliases.keeps_intros active_aliases.keeps_transact_with)
qed

lemma keeps_active_record: "active_aliases.keeps (record_fresh_repository rt repo alias fresh track_for now)"
  unfolding record_fresh_repository_def readme_evidence_def record_source_def register_tracking_def
  by (auto split: sum.split option.split readme_fetch_outcome.split prod.split
      intro!: active_aliases.keeps_flow keeps_active_simple)

lemma keeps_active_observe: "active_aliases.keeps (observe_repository rt alias now)"
proof -
  have observed: "active_aliases.keeps (apply_alias_observation p k s v)" if "s = None \<or> s = Some v" for p k s v
    unfolding apply_alias_observation_def
    by (rule active_aliases.keeps_transact_with) (erule apply_alias_active_kept [OF _ that])
  have store: "active_aliases.keeps (\<lambda>w. case record_fresh_repository rt' repo alias fresh None now w of
          (Inr _, w') \<Rightarrow> (Inr (Observed repo), w')
        | (Inl (ObserveRateLimited t), w') \<Rightarrow> (Inr (ObservedRateLimited t), w')
        | (Inl e, w') \<Rightarrow> (Inl e, w'))" for rt' repo fresh
    unfolding active_aliases.keeps_def
    by (auto split: prod.split sum.split observe_error.split dest: active_aliases.keepsD [OF keeps_active_record])
  have "active_aliases.keeps (observe_fresh rt alias fresh now)" for fresh
    unfolding observe_fresh_def Let_def
    by (auto split: option.split intro!: active_aliases.keeps_intros keeps_active_simple observed store)
  then have granted: "active_aliases.keeps (observe_granted rt alias now)"
    unfolding observe_granted_def
    by (auto split: sum.split option.split fetch_outcome.split prod.split
        intro!: active_aliases.keeps_flow keeps_active_simple)
  show ?thesis
    unfolding active_aliases.keeps_def
  proof
    fix w
    obtain q w1 where q: "acquire_now (or_token rt) w = (q, w1)" by fastforce
    note same = acquire_now_other [OF q]
    show "active_kept (w_db w) (w_db (snd (observe_repository rt alias now w)))"
    proof (cases q)
      case (Inl e)
      with q same show ?thesis
        by (cases e) (simp add: observe_repository_def active_aliases.R_refl)
    next
      case (Inr u)
      with q same granted show ?thesis
        by (simp add: observe_repository_def active_aliases.keeps_def)
          (metis same)
    qed
  qed
qed

section \<open>What a recorded repository shows\<close>

text \<open>
  The README evidence of a reply, and what the catalog holds of it: bytes the reply sent are stored under their
  digest, as sent unless the catalog already had bytes of that digest.
\<close>

definition evidence_of ::
    "source_contracts \<Rightarrow> json option \<Rightarrow> readme_fetch_outcome \<Rightarrow> readme_revision \<Rightarrow> catalog \<Rightarrow> catalog \<Rightarrow> bool" where
  "evidence_of sc stored fetched readme before db \<longleftrightarrow>
     (case fetched of
        ReadmeFresh f \<Rightarrow>
          let hex = sha256_hex (so_sha256 sc (fm_bytes f)) in
          (\<exists>blob. readme = ReadmePresent blob \<and> br_length_bytes blob = int (length (fm_bytes f)) \<and>
             so_digest_hex sc hex = Some (br_digest blob)) \<and>
          (\<exists>b\<in>set (readme_blobs db). rb_digest b = hex \<and>
             (hex \<in> rb_digest ` set (readme_blobs before) \<or> rb_bytes b = bytes_text (fm_bytes f)))
      | ReadmeUnmodified \<Rightarrow> \<exists>v. stored = Some v \<and> so_readme_of_json sc v = Some readme
      | ReadmeMissing \<Rightarrow> readme = ReadmeAbsent ReadmeNotFound
      | ReadmeForbidden \<Rightarrow> readme = ReadmeAbsent ReadmeNotAuthorized)"

definition readme_etag_of :: "string option \<Rightarrow> readme_fetch_outcome \<Rightarrow> string option" where
  "readme_etag_of stored fetched =
     (case fetched of ReadmeFresh f \<Rightarrow> fm_etag f | ReadmeUnmodified \<Rightarrow> stored | _ \<Rightarrow> None)"

lemma store_readme_InrD:
  assumes "store_readme sc bytes w = (Inr blob, w')"
  shows "br_length_bytes blob = int (length bytes)"
    and "so_digest_hex sc (sha256_hex (so_sha256 sc bytes)) = Some (br_digest blob)"
    and "\<exists>b\<in>set (readme_blobs (w_db w')). rb_digest b = sha256_hex (so_sha256 sc bytes) \<and>
      (sha256_hex (so_sha256 sc bytes) \<in> rb_digest ` set (readme_blobs (w_db w)) \<or> rb_bytes b = bytes_text bytes)"
    and "metadata (w_db w') = metadata (w_db w)"
proof -
  let ?hex = "sha256_hex (so_sha256 sc bytes)"
  obtain u where 1: "transact_with BlobPersistence (store_readme_tx ?hex bytes) w = (Inr u, w')"
    and len: "br_length_bytes blob = int (length bytes)" and dig: "so_digest_hex sc ?hex = Some (br_digest blob)"
    using assms unfolding store_readme_def Let_def
    by (auto simp: io_fail_def io_return_def split: if_splits option.splits elim!: io_bind_InrE)
  show "br_length_bytes blob = int (length bytes)" "so_digest_hex sc ?hex = Some (br_digest blob)" by (fact len dig)+
  have db: "w_db w' = (w_db w)\<lparr>readme_blobs := insert_ignore rb_digest
      \<lparr>rb_digest = ?hex, rb_bytes = bytes_text bytes, rb_length = int (length bytes)\<rparr> (readme_blobs (w_db w))\<rparr>"
    using transact_with_InrD [OF 1] by (simp add: store_readme_tx_def)
  then show "metadata (w_db w') = metadata (w_db w)" by simp
  show "\<exists>b\<in>set (readme_blobs (w_db w')). rb_digest b = ?hex \<and>
      (?hex \<in> rb_digest ` set (readme_blobs (w_db w)) \<or> rb_bytes b = bytes_text bytes)"
    using db by (cases "?hex \<in> rb_digest ` set (readme_blobs (w_db w))") (auto simp: insert_ignore_def)
qed

lemma readme_evidence_InrD:
  assumes "readme_evidence rt etag stored fetched w = (Inr source, w')"
  shows "evidence_of (or_source rt) stored fetched (as_readme source) (w_db w) (w_db w') \<and>
    as_readme_etag source = readme_etag_of etag fetched \<and> metadata (w_db w') = metadata (w_db w)"
proof (cases fetched)
  case (ReadmeFresh f)
  then obtain blob where "store_readme (or_source rt) (fm_bytes f) w = (Inr blob, w')"
    and "source = \<lparr>as_readme = ReadmePresent blob, as_readme_etag = fm_etag f\<rparr>"
    using assms by (auto simp: readme_evidence_def io_return_def elim!: io_bind_InrE dest!: io_map_err_InrD)
  with store_readme_InrD [OF this(1)] ReadmeFresh show ?thesis
    by (auto simp: evidence_of_def Let_def readme_etag_of_def)
qed (use assms in \<open>auto simp: readme_evidence_def evidence_of_def readme_etag_of_def io_return_def io_fail_def
    bind_eq_Some_conv split: option.splits\<close>)

text \<open>
  How the projection changes: a source with the digest that is already stored only moves the fetch time,
  any other one replaces the row by what the reply said.
\<close>

definition projected ::
    "source_contracts \<Rightarrow> (string \<Rightarrow> timestamp option) \<Rightarrow> provider_repository_body \<Rightarrow> string option \<Rightarrow>
     repository_analysis_source \<Rightarrow> string \<Rightarrow> metadata_row option \<Rightarrow> applied_outcome \<Rightarrow> metadata_row \<Rightarrow> bool" where
  "projected sc cast body etag source digest old out m \<longleftrightarrow> md_hash m = digest \<and>
     (case old of
        None \<Rightarrow> out = AppliedCreated \<and> shows_reply sc cast body etag source m
      | Some m0 \<Rightarrow>
          if md_hash m0 = digest then out = AppliedUnchanged \<and> m = m0\<lparr>md_fetched := md_fetched m\<rparr>
          else out = AppliedUpdated \<and> shows_reply sc cast body etag source m)"

lemma apply_fresh_source_InrD:
  assumes "apply_fresh_source sc cast repo body etag source w = (Inr out, w')"
  shows "readme_blobs (w_db w') = readme_blobs (w_db w)"
    and "\<exists>digest m. source_digest_of sc body (as_readme source) = Inr digest \<and>
      find_by md_repo repo (metadata (w_db w')) = Some m \<and>
      projected sc cast body etag source digest (find_by md_repo repo (metadata (w_db w))) out m"
proof -
  obtain digest where digest: "source_digest_of sc body (as_readme source) = Inr digest"
    and tx: "apply_source_tx sc cast repo body etag source digest (w_db w) = Inr (out, w_db w')"
    using assms by (auto simp: apply_fresh_source_def split: sum.splits dest: transact_with_InrD)
  have "readme_blobs (w_db w') = readme_blobs (w_db w) \<and>
      (\<exists>m. find_by md_repo repo (metadata (w_db w')) = Some m \<and>
         projected sc cast body etag source digest (find_by md_repo repo (metadata (w_db w))) out m)"
    using tx
  proof (cases rule: apply_source_Inr)
    case (unchanged m)
    then show ?thesis
      by (auto simp: touch_fetched_def find_by_update_where projected_def dest: find_by_SomeD)
  next
    case (applied readme row)
    then show ?thesis
      by (auto simp: prune_history_in_tx_def metadata_table.find_upsert metadata_merge_def projected_def
          shows_reply_def split: option.splits)
  qed
  with digest show "readme_blobs (w_db w') = readme_blobs (w_db w)"
    and "\<exists>digest m. source_digest_of sc body (as_readme source) = Inr digest \<and>
      find_by md_repo repo (metadata (w_db w')) = Some m \<and>
      projected sc cast body etag source digest (find_by md_repo repo (metadata (w_db w))) out m" by auto
qed

text \<open>Registration of the tracking owner's watch.\<close>

definition tracked_for :: "string option \<Rightarrow> uuid \<Rightarrow> catalog \<Rightarrow> bool" where
  "tracked_for track_for repo db \<longleftrightarrow>
     (\<forall>owner. track_for = Some owner \<longrightarrow> (\<exists>x\<in>set (watches db). watch_key x = (owner, repo) \<and> wt_enabled x))"

lemma track_InrD:
  assumes "register_tracking track_for repo w = (Inr u, w')"
  shows "metadata (w_db w') = metadata (w_db w) \<and> readme_blobs (w_db w') = readme_blobs (w_db w) \<and>
    tracked_for track_for repo (w_db w')"
proof (cases track_for)
  case None
  with assms show ?thesis by (simp add: register_tracking_def io_return_def tracked_for_def)
next
  case (Some owner)
  then obtain i where "register_watch_tx owner repo BaselineUnevaluated (w_db w) = Inr (i, w_db w')"
    using assms unfolding register_repository_analysis_watch_def register_tracking_def
    by (auto simp: io_return_def elim!: io_bind_InrE dest!: io_map_err_InrD transact_with_InrD)
  then obtain c where db': "w_db w' = (w_db w)\<lparr>next_uuid := Suc (next_uuid (w_db w)), watches := upsert watch_key watch_merge
       (new_watch (next_uuid (w_db w)) owner repo c (db_clock (w_db w))) (watches (w_db w))\<rparr>"
    by (rule register_watch_Inr)
  let ?new = "new_watch (next_uuid (w_db w)) owner repo c (db_clock (w_db w))"
  have "find_by watch_key (owner, repo) (watches (w_db w')) = Some
      (case find_by watch_key (owner, repo) (watches (w_db w)) of None \<Rightarrow> ?new | Some r \<Rightarrow> watch_merge r ?new)"
    using watch_table.find_upsert [of "(owner, repo)" ?new "watches (w_db w)"]
    by (simp add: db' watch_key_def new_watch_def cong: option.case_cong)
  moreover have "wt_enabled (case find_by watch_key (owner, repo) (watches (w_db w)) of None \<Rightarrow> ?new | Some r \<Rightarrow> watch_merge r ?new)"
    by (simp add: new_watch_def watch_merge_def split: option.split)
  ultimately have "\<exists>x\<in>set (watches (w_db w')). watch_key x = (owner, repo) \<and> wt_enabled x"
    by (metis find_by_SomeD)
  with Some db' show ?thesis by (simp add: tracked_for_def)
qed

lemma tracked_for_cong:
  assumes "map watch_key (watches db') = map watch_key (watches db)"
    and "map wt_enabled (watches db') = map wt_enabled (watches db)" and "tracked_for t repo db"
  shows "tracked_for t repo db'"
proof -
  have "map (\<lambda>x. (watch_key x, wt_enabled x)) (watches db') = map (\<lambda>x. (watch_key x, wt_enabled x)) (watches db)"
    using assms(1,2) by (simp add: list_eq_iff_nth_eq)
  then have "(\<lambda>x. (watch_key x, wt_enabled x)) ` set (watches db') = (\<lambda>x. (watch_key x, wt_enabled x)) ` set (watches db)"
    by (metis list.set_map)
  with assms(3) show ?thesis unfolding tracked_for_def by (simp add: set_eq_iff image_iff Bex_def) metis
qed

lemma evidence_of_cong:
  "readme_blobs db' = readme_blobs db \<Longrightarrow> readme_blobs before' = readme_blobs before \<Longrightarrow>
     evidence_of sc stored fetched readme before' db' = evidence_of sc stored fetched readme before db"
  by (simp add: evidence_of_def split: readme_fetch_outcome.split)

lemma evaluate_metadata_watches_InrD:
  "evaluate_metadata_watches wc repo now w = (Inr e, w') \<Longrightarrow> evaluate_watches_tx wc repo now (w_db w) = Inr (e, w_db w')"
  by (auto simp: evaluate_metadata_watches_def io_fail_def split: if_splits dest: transact_with_InrD)

lemma call_answer: "call gw w = (Inr x, w') \<Longrightarrow> \<exists>n. ans_result (gw n) = x"
  by (auto simp: call_def provider_call_def Let_def)

text \<open>The tail of the flow from the evidence on.\<close>

lemma record_source_InrD:
  assumes "record_source rt repo fresh track_for now source w = (Inr out, w')"
  shows "readme_blobs (w_db w') = readme_blobs (w_db w)"
    and "\<exists>digest m. source_digest_of (or_source rt) (fr_body fresh) (as_readme source) = Inr digest \<and>
      find_by md_repo repo (metadata (w_db w')) = Some m \<and>
      projected (or_source rt) (or_cast rt) (fr_body fresh) (fr_etag fresh) source digest
        (find_by md_repo repo (metadata (w_db w))) out m \<and>
      (\<forall>x\<in>set (watches (w_db w')). wt_repo x = repo \<and> wt_enabled x \<longrightarrow> wt_checkpoint x = Some digest)"
    and "tracked_for track_for repo (w_db w')"
proof -
  obtain w1 w2 u e where
    1: "apply_fresh_source (or_source rt) (or_cast rt) repo (fr_body fresh) (fr_etag fresh) source w = (Inr out, w1)"
    and 2: "register_tracking track_for repo w1 = (Inr u, w2)"
    and 3: "evaluate_watches_tx (or_watch rt) repo now (w_db w2) = Inr (e, w_db w')"
    using assms unfolding record_source_def
    by (auto simp: io_return_def elim!: io_bind_InrE dest!: io_map_err_InrD evaluate_metadata_watches_InrD)
  note applied = apply_fresh_source_InrD [OF 1] and tracked = track_InrD [OF 2]
    and marked = evaluate_checkpoints [OF 3]
  show "readme_blobs (w_db w') = readme_blobs (w_db w)"
    using applied(1) tracked evaluate_watches_frame [OF 3] by simp
  show "tracked_for track_for repo (w_db w')"
    using tracked_for_cong [OF marked(3,4)] tracked by blast
  obtain digest m where d: "source_digest_of (or_source rt) (fr_body fresh) (as_readme source) = Inr digest"
      "find_by md_repo repo (metadata (w_db w1)) = Some m"
      "projected (or_source rt) (or_cast rt) (fr_body fresh) (fr_etag fresh) source digest
        (find_by md_repo repo (metadata (w_db w))) out m"
    using applied(2) by blast
  have "find_by md_repo repo (metadata (w_db w')) = Some m" "md_hash m = digest"
    using d(2,3) tracked marked(2) by (simp_all add: projected_def)
  with d marked(1) tracked
  show "\<exists>digest m. source_digest_of (or_source rt) (fr_body fresh) (as_readme source) = Inr digest \<and>
      find_by md_repo repo (metadata (w_db w')) = Some m \<and>
      projected (or_source rt) (or_cast rt) (fr_body fresh) (fr_etag fresh) source digest
        (find_by md_repo repo (metadata (w_db w))) out m \<and>
      (\<forall>x\<in>set (watches (w_db w')). wt_repo x = repo \<and> wt_enabled x \<longrightarrow> wt_checkpoint x = Some digest)"
    by auto
qed

text \<open>Nothing before the README evidence touches projections or README bytes.\<close>

definition same_projections :: "catalog \<Rightarrow> catalog \<Rightarrow> bool" where
  "same_projections db db' \<longleftrightarrow> metadata db' = metadata db \<and> readme_blobs db' = readme_blobs db"

interpretation projections_frame: durable_relation same_projections
  by unfold_locales (auto simp: same_projections_def)

lemma record_fresh_InrE:
  assumes "record_fresh_repository rt repo alias fresh track_for now w = (Inr out, w')"
  obtains et etag stored n reply source w1 w2 where
    "(et, etag, stored) = (case find_by md_repo repo (metadata (w_db w)) of
       None \<Rightarrow> (None, None, None) | Some m \<Rightarrow> (md_etag m, md_readme_etag m, Some (md_readme m)))"
    "ans_result (oa_fetch_readme (or_gateway rt) n (or_credential rt) alias etag) = Inr reply"
    "same_projections (w_db w) (w_db w1)"
    "readme_evidence rt etag stored (rr_outcome reply) w1 = (Inr source, w2)"
    "record_source rt repo fresh track_for now source w2 = (Inr out, w')"
proof -
  obtain et etag stored wa u wb reply wc v wd source we where
    1: "stored_validators repo w = (Inr (et, etag, stored), wa)"
    and 2: "budget_gate (or_token rt) ObserveRateLimited wa = (Inr u, wb)"
    and 3: "call (\<lambda>n. oa_fetch_readme (or_gateway rt) n (or_credential rt) alias etag) wb =
      (Inr (Inr reply) :: (observe_error, _) result, wc)"
    and 4: "budget_observe (or_token rt) (rr_rate_limit reply) ObservePanicked wc = (Inr v, wd)"
    and 5: "readme_evidence rt etag stored (rr_outcome reply) wd = (Inr source, we)"
    and 6: "record_source rt repo fresh track_for now source we = (Inr out, w')"
    using assms unfolding record_fresh_repository_def
    by (auto simp: io_fail_def split: sum.splits elim!: io_bind_InrE dest!: io_map_err_InrD)
  have "w_db wa = w_db w" "(et, etag, stored) = (case find_by md_repo repo (metadata (w_db w)) of
       None \<Rightarrow> (None, None, None) | Some m \<Rightarrow> (md_etag m, md_readme_etag m, Some (md_readme m)))"
    using 1 by (auto simp: stored_validators_def dest!: query_InrD split: option.split)
  moreover have "same_projections (w_db wa) (w_db wb)"
    by (rule projections_frame.keepsD [OF projections_frame.keeps_budget_gate 2])
  moreover have "same_projections (w_db wb) (w_db wc)"
    by (rule projections_frame.keepsD [OF projections_frame.keeps_call 3])
  moreover have "same_projections (w_db wc) (w_db wd)"
    by (rule projections_frame.keepsD [OF projections_frame.keeps_budget_observe 4])
  ultimately show ?thesis
    using that [OF _ _ _ 5 6] call_answer [OF 3] by (metis same_projections_def)
qed

text \<open>
  C14. When recording a fresh repository returns, the catalog holds what the provider said. The README
  bytes the reply sent are stored under their digest (as sent, unless bytes of that digest were stored before);
  the projection carries the digest of the body's attributes and of exactly the README evidence of this reply. If
  the projection already had that digest, only its fetch time has moved - its other columns are those of the
  reply that first had the digest; otherwise every column is this reply's: description, language,
  star count, topics, default branch, push time, both validators and the README evidence. Every enabled
  watch of the repository has been evaluated at that digest, and the tracking owner, if any, has an enabled watch.
\<close>

theorem fresh_repository_recorded:
  assumes "record_fresh_repository rt repo alias fresh track_for now w = (Inr out, w')"
  shows "\<exists>n etag stored reply readme digest m.
    (etag, stored) = (case find_by md_repo repo (metadata (w_db w)) of
       None \<Rightarrow> (None, None) | Some m0 \<Rightarrow> (md_readme_etag m0, Some (md_readme m0))) \<and>
    ans_result (oa_fetch_readme (or_gateway rt) n (or_credential rt) alias etag) = Inr reply \<and>
    evidence_of (or_source rt) stored (rr_outcome reply) readme (w_db w) (w_db w') \<and>
    source_digest_of (or_source rt) (fr_body fresh) readme = Inr digest \<and>
    find_by md_repo repo (metadata (w_db w')) = Some m \<and>
    projected (or_source rt) (or_cast rt) (fr_body fresh) (fr_etag fresh)
      \<lparr>as_readme = readme, as_readme_etag = readme_etag_of etag (rr_outcome reply)\<rparr> digest
      (find_by md_repo repo (metadata (w_db w))) out m \<and>
    (\<forall>x\<in>set (watches (w_db w')). wt_repo x = repo \<and> wt_enabled x \<longrightarrow> wt_checkpoint x = Some digest) \<and>
    (\<forall>owner. track_for = Some owner \<longrightarrow>
       (\<exists>x\<in>set (watches (w_db w')). watch_key x = (owner, repo) \<and> wt_enabled x))"
  using assms
proof (rule record_fresh_InrE)
  fix et etag stored n reply source w1 w2
  assume validators: "(et, etag, stored) = (case find_by md_repo repo (metadata (w_db w)) of
       None \<Rightarrow> (None, None, None) | Some m \<Rightarrow> (md_etag m, md_readme_etag m, Some (md_readme m)))"
    and reply: "ans_result (oa_fetch_readme (or_gateway rt) n (or_credential rt) alias etag) = Inr reply"
    and same: "same_projections (w_db w) (w_db w1)"
    and readme: "readme_evidence rt etag stored (rr_outcome reply) w1 = (Inr source, w2)"
    and source: "record_source rt repo fresh track_for now source w2 = (Inr out, w')"
  note evidence = readme_evidence_InrD [OF readme] and recorded = record_source_InrD [OF source]
  have src: "source = \<lparr>as_readme = as_readme source, as_readme_etag = readme_etag_of etag (rr_outcome reply)\<rparr>"
    using evidence by (simp add: repository_analysis_source.equality)
  have "(etag, stored) = (case find_by md_repo repo (metadata (w_db w)) of
       None \<Rightarrow> (None, None) | Some m \<Rightarrow> (md_readme_etag m, Some (md_readme m)))"
    using validators by (simp split: option.splits)
  moreover have "evidence_of (or_source rt) stored (rr_outcome reply) (as_readme source) (w_db w) (w_db w')"
    using evidence evidence_of_cong [OF recorded(1), of "w_db w" "w_db w1"] same by (simp add: same_projections_def)
  moreover obtain digest m where "source_digest_of (or_source rt) (fr_body fresh) (as_readme source) = Inr digest"
      "find_by md_repo repo (metadata (w_db w')) = Some m"
      "projected (or_source rt) (or_cast rt) (fr_body fresh) (fr_etag fresh)
        \<lparr>as_readme = as_readme source, as_readme_etag = readme_etag_of etag (rr_outcome reply)\<rparr> digest
        (find_by md_repo repo (metadata (w_db w))) out m"
      "\<forall>x\<in>set (watches (w_db w')). wt_repo x = repo \<and> wt_enabled x \<longrightarrow> wt_checkpoint x = Some digest"
    using recorded(2) evidence same by (auto simp: same_projections_def simp flip: src)
  ultimately show ?thesis
    using reply recorded(3) [unfolded tracked_for_def]
    by (intro exI [of _ n] exI [of _ etag] exI [of _ stored] exI [of _ reply] exI [of _ "as_readme source"]
        exI [of _ digest] exI [of _ m] conjI) assumption+
qed

text \<open>
  Observing a repository never takes an alias out of use: whatever the provider answers, every alias
  that was active stays active, also the one whose repository the answer shows under another name.
\<close>

theorem observe_keeps_active_aliases:
  assumes "observe_repository rt alias now w = (r, w')" and "a \<in> set (aliases (w_db w))" and "alias_status a = Active"
  shows "a \<in> set (aliases (w_db w'))"
  using active_aliases.keepsD [OF keeps_active_observe assms(1)] assms(2,3) by (simp add: active_kept_def)

section \<open>A renamed repository\<close>

definition renamed :: fresh_repository where
  "renamed = \<lparr>fr_body = \<lparr>pb_provider_repository_id = 42, pb_full_name = ''o/b'', pb_description = None,
     pb_language = None, pb_stargazers = 0, pb_topics = [], pb_default_branch = None, pb_pushed_at = None\<rparr>,
     fr_etag = None, fr_rename_evidence = None\<rparr>"

definition sample_runtime :: observe_runtime where
  "sample_runtime =
     \<lparr>or_gateway = \<lparr>
        oa_fetch_repository = (\<lambda>_ _ _ _. Answer 1 (Inr \<lparr>gr_outcome = FetchFresh renamed, gr_rate_limit = no_headers\<rparr>)),
        oa_fetch_readme = (\<lambda>_ _ _ _. Answer 1 (Inr \<lparr>rr_outcome =
          ReadmeFresh \<lparr>fm_bytes = [7], fm_etag = None\<rparr>, rr_rate_limit = no_headers\<rparr>))\<rparr>,
      or_token = ''t'', or_credential = None, or_source = sample_source, or_watch = sample_contracts,
      or_cast = (\<lambda>_. None)\<rparr>"

definition old_name :: owner_name where "old_name = \<lparr>on_owner = ''o'', on_name = ''a''\<rparr>"

definition old_alias :: alias_row where
  "old_alias = \<lparr>alias_id = 4, alias_repo = 1, alias_kind = OwnerName, alias_value = ''o/a'',
     alias_status = Active, alias_redirect = None, alias_created = 0\<rparr>"

definition named_world :: world where
  "named_world = \<lparr>w_db = watched\<lparr>aliases := [old_alias]\<rparr>, w_ledger = (\<lambda>_. None), w_clock = 0,
     w_faults = [], w_calls = 0\<rparr>"

definition sample_owner :: string where "sample_owner = ''user:00000000-0000-0000-0000-00000000000a''"

definition recorded where "recorded = record_fresh_repository sample_runtime 1 old_name renamed (Some sample_owner) 7 named_world"

theorem fresh_repository_recorded_witness:
  "(\<exists>x\<in>set (watches (w_db (snd recorded))). watch_key x = (sample_owner, 1) \<and> wt_enabled x) \<and>
   ''07'' \<in> rb_digest ` set (readme_blobs (w_db (snd recorded)))"
proof
  have "\<not> isl (fst recorded)" by code_simp
  then obtain out where "recorded = (Inr out, snd recorded)" by (metis prod.collapse sum.collapse(2))
  from fresh_repository_recorded [OF this [unfolded recorded_def], folded recorded_def]
  show "\<exists>x\<in>set (watches (w_db (snd recorded))). watch_key x = (sample_owner, 1) \<and> wt_enabled x" by blast
  show "''07'' \<in> rb_digest ` set (readme_blobs (w_db (snd recorded)))" by code_simp
qed

definition rename_seen where "rename_seen = observe_repository sample_runtime old_name 7 named_world"

theorem observe_keeps_active_aliases_witness:
  "fst rename_seen = Inr (Observed 1) \<and> old_alias \<in> set (aliases (w_db (snd rename_seen))) \<and>
   (\<exists>a\<in>set (aliases (w_db (snd rename_seen))). alias_value a = ''o/b'' \<and> alias_repo a = 1 \<and> alias_status a = Active)"
proof (intro conjI)
  show "fst rename_seen = Inr (Observed 1)" by code_simp
  show "old_alias \<in> set (aliases (w_db (snd rename_seen)))"
    by (rule observe_keeps_active_aliases [of sample_runtime old_name 7 named_world "fst rename_seen"])
      (simp_all add: rename_seen_def named_world_def old_alias_def)
  show "\<exists>a\<in>set (aliases (w_db (snd rename_seen))). alias_value a = ''o/b'' \<and> alias_repo a = 1 \<and> alias_status a = Active"
    by code_simp
qed

end
