(* ===== verification/Credentials.thy ===== *)
theory Credentials
  imports Metadata_History
begin

unbundle bit_operations_syntax

text \<open>
  Replacement credentials (\<open>crates/catalog/src/credentials.rs\<close>): parsing of the configured key,
  registration of a verified token under authenticated encryption, and loading of the active
  credential of a connected account. The cipher of the \<open>aes-gcm\<close> crate is a record of functions over
  the key's bytes, the nonce, the associated account and the message; the random nonce is an argument.
\<close>

section \<open>Data\<close>

record verified_github_account =
  va_provider_user_id :: int
  va_login :: string
  va_granted_scopes :: "string list"

record credential_key =
  ck_bytes :: "8 word list"
  ck_version :: string

datatype credential_error =
    InvalidKey
  | AccountNotAwaitingReauthorization
  | EncryptionFailed
  | CredentialUnavailable
  | DecryptionFailed
  | CredentialPersistence sql_error

datatype credential_provenance = ProvenancePat | ProvenanceOAuth string

record oauth_app_credentials =
  app_client_id :: string
  app_client_secret :: string

record cipher =
  ci_encrypt :: "8 word list \<Rightarrow> string \<Rightarrow> uuid \<Rightarrow> string \<Rightarrow> string option"
  ci_decrypt :: "8 word list \<Rightarrow> string \<Rightarrow> uuid \<Rightarrow> string \<Rightarrow> string option"

section \<open>The configured key\<close>

definition byte_of :: "char \<Rightarrow> 8 word" where
  "byte_of c = word_of_nat (of_char c)"

definition hex_nibble :: "8 word \<Rightarrow> 8 word option" where
  "hex_nibble byte =
     (if 48 \<le> byte \<and> byte \<le> 57 then Some (byte - 48)
      else if 97 \<le> byte \<and> byte \<le> 102 then Some (byte - 97 + 10)
      else if 65 \<le> byte \<and> byte \<le> 70 then Some (byte - 65 + 10)
      else None)"

fun hex_pairs :: "8 word list \<Rightarrow> 8 word list option" where
  "hex_pairs (high # low # rest) =
     Option.bind (hex_nibble high) (\<lambda>h.
     Option.bind (hex_nibble low) (\<lambda>l.
     Option.bind (hex_pairs rest) (\<lambda>bytes. Some ((push_bit 4 h OR l) # bytes))))"
| "hex_pairs _ = Some []"

definition is_ascii_alphanumeric :: "char \<Rightarrow> bool" where
  "is_ascii_alphanumeric c \<longleftrightarrow>
     CHR ''0'' \<le> c \<and> c \<le> CHR ''9'' \<or> CHR ''A'' \<le> c \<and> c \<le> CHR ''Z'' \<or> CHR ''a'' \<le> c \<and> c \<le> CHR ''z''"

definition version_label :: "string \<Rightarrow> bool" where
  "version_label version \<longleftrightarrow>
     version \<noteq> [] \<and> length version \<le> 64 \<and>
     list_all (\<lambda>c. is_ascii_alphanumeric c \<or> c \<in> set ''._-'') version"

definition credential_key_from_hex :: "string \<Rightarrow> string \<Rightarrow> (credential_error, credential_key) result" where
  "credential_key_from_hex value version =
     (if length value \<noteq> 64 \<or> \<not> version_label version then Inl InvalidKey
      else
        and_then (ok_or InvalidKey (hex_pairs (map byte_of value))) (\<lambda>bytes.
          Inr \<lparr>ck_bytes = bytes, ck_version = version\<rparr>))"

section \<open>Text decoding\<close>

text \<open>\<open>String::from_utf8\<close>: well-formed sequences only, no overlong forms, no surrogates.\<close>

definition continuation :: "char \<Rightarrow> bool" where
  "continuation c \<longleftrightarrow> 128 \<le> (of_char c :: nat) \<and> (of_char c :: nat) < 192"

fun valid_utf8 :: "string \<Rightarrow> bool" where
  "valid_utf8 [] = True"
| "valid_utf8 (a # s) =
     (let n = (of_char a :: nat) in
      if n < 128 then valid_utf8 s
      else if 194 \<le> n \<and> n < 224 then
        (case s of b # t \<Rightarrow> continuation b \<and> valid_utf8 t | _ \<Rightarrow> False)
      else if 224 \<le> n \<and> n < 240 then
        (case s of
           b # c # t \<Rightarrow> continuation b \<and> continuation c \<and>
             (n = 224 \<longrightarrow> 160 \<le> (of_char b :: nat)) \<and> (n = 237 \<longrightarrow> (of_char b :: nat) < 160) \<and> valid_utf8 t
         | _ \<Rightarrow> False)
      else if 240 \<le> n \<and> n < 245 then
        (case s of
           b # c # d # t \<Rightarrow> continuation b \<and> continuation c \<and> continuation d \<and>
             (n = 240 \<longrightarrow> 144 \<le> (of_char b :: nat)) \<and> (n = 244 \<longrightarrow> (of_char b :: nat) < 144) \<and> valid_utf8 t
         | _ \<Rightarrow> False)
      else False)"

section \<open>Loading\<close>

definition stored_credential ::
    "uuid \<Rightarrow> credential_kind \<Rightarrow> string option \<Rightarrow> catalog \<Rightarrow> (string \<times> string) option" where
  "stored_credential account kind client db =
     map_option (\<lambda>r. (cr_token r, cr_nonce r))
       (find (\<lambda>r. cr_account r = account \<and> cr_kind r = kind \<and> cr_client r = client \<and>
           (\<exists>a\<in>set (accounts db). acct_id a = account \<and> acct_status a = Connected)) (credentials db))"

definition load_active_credential ::
    "cipher \<Rightarrow> uuid \<Rightarrow> credential_key \<Rightarrow> credential_kind \<Rightarrow> string option \<Rightarrow> (credential_error, string) io" where
  "load_active_credential ci account key kind client =
     io_bind (io_map_err CredentialPersistence (query (stored_credential account kind client))) (\<lambda>stored.
       case stored of
         None \<Rightarrow> io_fail CredentialUnavailable
       | Some (ciphertext, nonce) \<Rightarrow>
           if length nonce \<noteq> 12 then io_fail DecryptionFailed
           else
             (case ci_decrypt ci (ck_bytes key) nonce account ciphertext of
                None \<Rightarrow> io_fail DecryptionFailed
              | Some plaintext \<Rightarrow>
                  if valid_utf8 plaintext then io_return plaintext else io_fail DecryptionFailed))"

definition load_active_pat :: "cipher \<Rightarrow> uuid \<Rightarrow> credential_key \<Rightarrow> (credential_error, string) io" where
  "load_active_pat ci account key = load_active_credential ci account key KindPat None"

definition load_active_oauth :: "cipher \<Rightarrow> uuid \<Rightarrow> credential_key \<Rightarrow> string \<Rightarrow> (credential_error, string) io" where
  "load_active_oauth ci account key client = load_active_credential ci account key KindOauth (Some client)"

section \<open>Registration\<close>

fun provenance_kind :: "credential_provenance \<Rightarrow> credential_kind" where
  "provenance_kind ProvenancePat = KindPat"
| "provenance_kind (ProvenanceOAuth _) = KindOauth"

fun provenance_client :: "credential_provenance \<Rightarrow> string option" where
  "provenance_client ProvenancePat = None"
| "provenance_client (ProvenanceOAuth c) = Some c"

definition alphanumerics :: "char list" where
  "alphanumerics = digits @ char_range 65 90 @ lowercase"

definition key_version_pattern :: pattern where
  "key_version_pattern = Seq (OneOf alphanumerics) (Rep 0 63 (OneOf (alphanumerics @ ''._-'')))"

text \<open>The checks of the credentials table; a kind and its client agree by construction.\<close>

definition credential_check :: "credential_row \<Rightarrow> bool" where
  "credential_check r \<longleftrightarrow>
     matches key_version_pattern (cr_key_version r) \<and>
     (cr_client r = None \<longleftrightarrow> cr_kind r = KindPat) \<and>
     16 < length (cr_token r) \<and> length (cr_nonce r) = 12"

definition connect_account :: "verified_github_account \<Rightarrow> account_row \<Rightarrow> account_row" where
  "connect_account verified a =
     a\<lparr>acct_status := Connected, acct_provider := Some (va_provider_user_id verified),
       acct_login := Some (va_login verified), acct_scopes := va_granted_scopes verified\<rparr>"

definition provider_identity :: "account_row \<Rightarrow> (string \<times> int) option" where
  "provider_identity a = map_option (\<lambda>p. (acct_owner a, p)) (acct_provider a)"

definition credential_merge :: "credential_row \<Rightarrow> credential_row \<Rightarrow> credential_row" where
  "credential_merge old new = new\<lparr>cr_account := cr_account old\<rparr>"

definition register_credential_tx ::
    "credential_row \<Rightarrow> verified_github_account \<Rightarrow> catalog \<Rightarrow> (credential_error, unit \<times> catalog) result" where
  "register_credential_tx row verified db =
     (let awaiting = (\<lambda>a. acct_id a = cr_account row \<and> acct_status a = ReauthorizationRequired);
          t = update_where awaiting (connect_account verified) (accounts db)
      in
      if \<not> (\<exists>a\<in>set (accounts db). awaiting a) then Inl AccountNotAwaitingReauthorization
      else if \<not> distinct (List.map_filter provider_identity t) then Inl (CredentialPersistence UniqueViolation)
      else if \<not> credential_check row then Inl (CredentialPersistence CheckViolation)
      else Inr ((), db\<lparr>accounts := t,
        credentials := upsert cr_account credential_merge (row\<lparr>cr_updated := db_clock db\<rparr>) (credentials db)\<rparr>))"

definition register_credential ::
    "cipher \<Rightarrow> string \<Rightarrow> uuid \<Rightarrow> string \<Rightarrow> credential_key \<Rightarrow> verified_github_account \<Rightarrow> credential_provenance \<Rightarrow>
     (credential_error, unit) io" where
  "register_credential ci nonce account token key verified provenance =
     (if va_provider_user_id verified \<le> 0 \<or> va_login verified = [] then io_fail AccountNotAwaitingReauthorization
      else
        (case ci_encrypt ci (ck_bytes key) nonce account token of
           None \<Rightarrow> io_fail EncryptionFailed
         | Some encrypted \<Rightarrow>
             transact_with CredentialPersistence (register_credential_tx
               \<lparr>cr_account = account, cr_key_version = ck_version key, cr_kind = provenance_kind provenance,
                cr_client = provenance_client provenance, cr_token = encrypted, cr_nonce = nonce,
                cr_updated = 0\<rparr> verified)))"

definition register_pat where
  "register_pat ci nonce account pat key verified =
     register_credential ci nonce account pat key verified ProvenancePat"

definition register_oauth where
  "register_oauth ci nonce account access_token key verified app =
     register_credential ci nonce account access_token key verified (ProvenanceOAuth (app_client_id app))"

section \<open>The key and its label\<close>

lemma hex_nibble_char:
  assumes "unat n < 16"
  shows "hex_nibble (byte_of (nibble_char n)) = Some n"
proof -
  have n: "n = word_of_nat (unat n)" by simp
  have byte: "byte_of (nibble_char n) = word_of_nat (if unat n < 10 then 48 + unat n else 87 + unat n)"
    unfolding byte_of_def nibble_char_of(1) [OF assms] ..
  show ?thesis
    unfolding byte hex_nibble_def using assms
    by (subst (6 12 18) n) (auto simp: word_le_nat_alt unsigned_of_nat take_bit_nat_eq_self)
qed

lemma join_nibbles: "push_bit 4 (drop_bit 4 b) OR (b AND 0x0f) = (b :: 8 word)"
proof -
  have "b AND 0x0f = take_bit 4 b" by (simp add: take_bit_eq_mask mask_eq_decr_exp)
  then show ?thesis by (simp only:) (rule bit_word_eqI, auto simp: bit_simps)
qed

lemma hex_pairs_sha256_hex: "hex_pairs (map byte_of (sha256_hex bs)) = Some bs"
proof (induction bs)
  case (Cons b bs)
  have "unat b < 2 ^ 8" by (rule order_less_le_trans [OF unsigned_less]) simp
  then have "unat (drop_bit 4 b) < 16" "unat (b AND 0x0f) < 16" by (auto simp: nibble_bounds)
  moreover have "sha256_hex (b # bs) = nibble_char (drop_bit 4 b) # nibble_char (b AND 0x0f) # sha256_hex bs"
    by (simp add: sha256_hex_def)
  ultimately show ?case using Cons by (simp add: hex_nibble_char join_nibbles)
qed (simp add: sha256_hex_def)

lemma credential_key_of_hex:
  assumes "length bytes = 32" and "version_label version"
  shows "credential_key_from_hex (sha256_hex bytes) version = Inr \<lparr>ck_bytes = bytes, ck_version = version\<rparr>"
proof -
  have "length (sha256_hex bytes) = 2 * length bytes"
    by (induction bytes) (simp_all add: sha256_hex_def)
  with assms show ?thesis by (simp add: credential_key_from_hex_def hex_pairs_sha256_hex ok_or_def)
qed

lemma set_alphanumerics: "c \<in> set alphanumerics \<longleftrightarrow> is_ascii_alphanumeric c"
  unfolding alphanumerics_def set_append Un_iff set_digits set_lowercase is_ascii_alphanumeric_def
  by (auto simp: set_char_range less_eq_char_def)

lemma key_version_iff:
  "v \<in> language key_version_pattern \<longleftrightarrow>
     (\<exists>c u. v = c # u \<and> is_ascii_alphanumeric c \<and> length u \<le> 63 \<and>
        (\<forall>d\<in>set u. is_ascii_alphanumeric d \<or> d \<in> set ''._-''))"
  unfolding key_version_pattern_def language.simps(2,3) language_Rep_OneOf one_append
  by (auto simp: set_alphanumerics subset_iff)

lemma label_in_grammar:
  assumes "version_label v"
  shows "v \<in> language key_version_pattern \<longleftrightarrow> is_ascii_alphanumeric (hd v)"
  using assms by (cases v) (auto simp: version_label_def key_version_iff list_all_iff)

section \<open>Registration and loading\<close>

interpretation credential_table: keyed_table cr_account credential_merge
  by unfold_locales (simp add: credential_merge_def)

lemma register_credential_InrE:
  assumes "register_credential ci nonce account token key verified provenance w = (Inr (), w')"
  obtains encrypted row where "ci_encrypt ci (ck_bytes key) nonce account token = Some encrypted"
    "row = \<lparr>cr_account = account, cr_key_version = ck_version key, cr_kind = provenance_kind provenance,
       cr_client = provenance_client provenance, cr_token = encrypted, cr_nonce = nonce, cr_updated = 0\<rparr>"
    "register_credential_tx row verified (w_db w) = Inr ((), w_db w')"
  using assms unfolding register_credential_def
  by (auto simp: io_fail_def split: if_splits option.splits dest!: transact_with_InrD)

lemma register_credential_tx_Inr:
  assumes "register_credential_tx row verified db = Inr ((), db')"
  shows "credential_check row"
    and "\<exists>a\<in>set (accounts db'). acct_id a = cr_account row \<and> acct_status a = Connected \<and>
      acct_scopes a = va_granted_scopes verified"
    and "credentials db' = upsert cr_account credential_merge (row\<lparr>cr_updated := db_clock db\<rparr>) (credentials db)"
proof -
  let ?awaiting = "\<lambda>a. acct_id a = cr_account row \<and> acct_status a = ReauthorizationRequired"
  have checked: "credential_check row" and some: "\<exists>a\<in>set (accounts db). ?awaiting a"
    and db': "db' = db\<lparr>accounts := update_where ?awaiting (connect_account verified) (accounts db),
      credentials := upsert cr_account credential_merge (row\<lparr>cr_updated := db_clock db\<rparr>) (credentials db)\<rparr>"
    using assms by (auto simp: register_credential_tx_def Let_def split: if_splits)
  show "credential_check row" by (fact checked)
  from some obtain a where "a \<in> set (accounts db)" "?awaiting a" by blast
  then have "connect_account verified a \<in> set (accounts db')" unfolding db' by (simp add: set_update_where)
  with \<open>?awaiting a\<close> show "\<exists>a\<in>set (accounts db'). acct_id a = cr_account row \<and> acct_status a = Connected \<and>
      acct_scopes a = va_granted_scopes verified"
    by (intro bexI [of _ "connect_account verified a"]) (simp_all add: connect_account_def)
  show "credentials db' = upsert cr_account credential_merge (row\<lparr>cr_updated := db_clock db\<rparr>) (credentials db)"
    by (simp add: db')
qed

lemma find_upserted_credential:
  assumes "Q row"
  shows "find (\<lambda>r. cr_account r = cr_account row \<and> Q r) (upsert cr_account credential_merge row t) = Some row"
proof (cases "cr_account row \<in> set (map cr_account t)")
  case True
  have merged: "credential_merge r row = row" if "cr_account r = cr_account row" for r
    using that by (simp add: credential_merge_def)
  have "find (\<lambda>r. cr_account r = cr_account row \<and> Q r)
      (update_where (\<lambda>r. cr_account r = cr_account row) (\<lambda>r. credential_merge r row) t) = Some row"
    using True assms merged by (induction t) (auto simp: update_where_def)
  with True show ?thesis by (simp add: upsert_def)
next
  case False
  then have "find (\<lambda>r. cr_account r = cr_account row \<and> Q r) t = None"
    by (auto simp: find_None_iff) (metis imageI)
  with False assms show ?thesis by (simp add: upsert_def find_append)
qed

text \<open>
  C30. A registered credential can be loaded again: with a cipher whose decryption undoes its encryption,
  after a registration that returned, loading with the same key and provenance yields the token that
  was registered, and the account is connected with the scopes the provider granted.
\<close>

theorem registered_credential_loads:
  assumes "\<And>k n a m c. ci_encrypt ci k n a m = Some c \<Longrightarrow> ci_decrypt ci k n a c = Some m"
    and "register_credential ci nonce account token key verified provenance w = (Inr (), w')"
    and "valid_utf8 token" and "w_faults w' = []"
  shows "fst (load_active_credential ci account key (provenance_kind provenance) (provenance_client provenance) w') = Inr token \<and>
    (\<exists>a\<in>set (accounts (w_db w')). acct_id a = account \<and> acct_status a = Connected \<and>
       acct_scopes a = va_granted_scopes verified)"
proof -
  obtain encrypted row where enc: "ci_encrypt ci (ck_bytes key) nonce account token = Some encrypted"
    and row: "row = \<lparr>cr_account = account, cr_key_version = ck_version key, cr_kind = provenance_kind provenance,
       cr_client = provenance_client provenance, cr_token = encrypted, cr_nonce = nonce, cr_updated = 0\<rparr>"
    and tx: "register_credential_tx row verified (w_db w) = Inr ((), w_db w')"
    using assms(2) by (rule register_credential_InrE)
  note done_tx = register_credential_tx_Inr [OF tx]
  have account: "\<exists>a\<in>set (accounts (w_db w')). acct_id a = account \<and> acct_status a = Connected \<and>
       acct_scopes a = va_granted_scopes verified"
    using done_tx(2) by (simp add: row)
  have connected: "(\<exists>a\<in>set (accounts (w_db w')). acct_id a = account \<and> acct_status a = Connected) = True"
    using account by blast
  have "stored_credential account (provenance_kind provenance) (provenance_client provenance) (w_db w') = Some (encrypted, nonce)"
    using find_upserted_credential [of "\<lambda>r. cr_kind r = provenance_kind provenance \<and> cr_client r = provenance_client provenance"
        "row\<lparr>cr_updated := db_clock (w_db w)\<rparr>" "credentials (w_db w)"]
    unfolding stored_credential_def connected done_tx(3) by (simp add: row)
  moreover have "length nonce = 12" using done_tx(1) by (simp add: row credential_check_def)
  ultimately have "fst (load_active_credential ci account key (provenance_kind provenance) (provenance_client provenance) w') = Inr token"
    using assms(1) [OF enc] assms(3,4)
    by (simp add: load_active_credential_def io_bind_def io_map_err_def query_no_fault io_return_def)
  with account show ?thesis by blast
qed

text \<open>
  A key label that is accepted at configuration need not be one the credentials table admits: exactly
  the accepted labels that begin with a letter or digit are, and with any other one no registration
  ever succeeds, so no account can be connected until the key is relabelled.
\<close>

theorem unusable_key_label:
  assumes "credential_key_from_hex value version = Inr key"
  shows "(version \<in> language key_version_pattern \<longleftrightarrow> is_ascii_alphanumeric (hd version)) \<and>
    (\<not> is_ascii_alphanumeric (hd version) \<longrightarrow>
       (\<forall>ci nonce account token verified provenance w w'.
          register_credential ci nonce account token key verified provenance w \<noteq> (Inr (), w')))"
proof -
  have label: "version_label version" and key: "ck_version key = version"
    using assms by (auto simp: credential_key_from_hex_def and_then_eq_Inr split: if_splits)
  have "matches key_version_pattern version"
    if "register_credential ci nonce account token key verified provenance w = (Inr (), w')"
    for ci nonce account token verified provenance w w'
    using that key by (auto elim!: register_credential_InrE dest!: register_credential_tx_Inr(1) simp: credential_check_def)
  with label_in_grammar [OF label] show ?thesis by (auto simp: matches_iff)
qed

section \<open>A connected account\<close>

definition sample_cipher :: cipher where
  "sample_cipher = \<lparr>ci_encrypt = (\<lambda>k n a m. Some (replicate 16 (CHR ''t'') @ m)),
     ci_decrypt = (\<lambda>k n a c. Some (drop 16 c))\<rparr>"

definition awaiting_world :: world where
  "awaiting_world = \<lparr>w_db = empty_catalog\<lparr>accounts := [\<lparr>acct_id = 7, acct_owner = ''owner'',
     acct_status = ReauthorizationRequired, acct_scopes = [], acct_provider = None, acct_login = None\<rparr>]\<rparr>,
     w_ledger = (\<lambda>_. None), w_clock = 0, w_faults = [], w_calls = 0\<rparr>"

definition sample_key :: credential_key where "sample_key = \<lparr>ck_bytes = replicate 32 0, ck_version = ''k1''\<rparr>"

definition sample_verified :: verified_github_account where
  "sample_verified = \<lparr>va_provider_user_id = 9, va_login = ''u'', va_granted_scopes = [''repo'']\<rparr>"

definition registered where
  "registered = register_credential sample_cipher ''123456789012'' 7 ''ghp'' sample_key sample_verified ProvenancePat awaiting_world"

theorem registered_credential_loads_witness:
  "fst (load_active_credential sample_cipher 7 sample_key KindPat None (snd registered)) = Inr ''ghp''"
proof -
  have "fst registered = Inr ()" "w_faults (snd registered) = []" "valid_utf8 ''ghp''" by code_simp+
  moreover have "registered = (fst registered, snd registered)" by simp
  ultimately show ?thesis
    using registered_credential_loads [of sample_cipher "''123456789012''" 7 "''ghp''" sample_key sample_verified
        ProvenancePat awaiting_world "snd registered"]
    by (simp add: registered_def sample_cipher_def)
qed

theorem unusable_key_label_witness:
  "\<exists>key. credential_key_from_hex (replicate 64 (CHR ''0'')) ''-v1'' = Inr key \<and>
     ''-v1'' \<notin> language key_version_pattern"
proof -
  have "\<not> isl (credential_key_from_hex (replicate 64 (CHR ''0'')) ''-v1'')" by code_simp
  then obtain key where key: "credential_key_from_hex (replicate 64 (CHR ''0'')) ''-v1'' = Inr key"
    by (metis sum.collapse(2))
  have "\<not> is_ascii_alphanumeric (hd ''-v1'')" by code_simp
  with unusable_key_label [OF key] key show ?thesis by blast
qed

end
