(* ===== verification/Erasure.thy ===== *)
theory Erasure
  imports Credentials Backup_Policy
begin

text \<open>
  Account erasure (\<open>crates/catalog/src/account_erasure.rs\<close> and \<open>account_erasure_state.rs\<close>): replay of
  answered operations, best-effort revocation of OAuth grants, and one transaction that deletes the
  owner's rows in foreign-key order, collects the repositories and README bytes only that owner
  reached, and records the answer. Every deletion of referenced rows checks the references that are
  left, as the database does at the end of each statement.
\<close>

section \<open>Statements\<close>

text \<open>A statement of the transaction, and a deletion that a remaining reference refuses.\<close>

type_synonym statement = "catalog \<Rightarrow> (sql_error, catalog) result"

definition unreferenced :: "uuid list \<Rightarrow> uuid list \<Rightarrow> bool" where
  "unreferenced keys references \<longleftrightarrow> list_all (\<lambda>k. k \<notin> set references) keys"

definition guarded :: "bool \<Rightarrow> catalog \<Rightarrow> (sql_error, catalog) result" where
  "guarded allowed db = (if allowed then Inr db else Inl ForeignKeyViolation)"

fun run_statements :: "statement list \<Rightarrow> statement" where
  "run_statements [] db = Inr db"
| "run_statements (s # ss) db = and_then (s db) (run_statements ss)"

section \<open>What belongs to an owner\<close>

text \<open>
  The text at a path of a JSON value. Tenant references and digests are never the text of a number, a
  truth value or a compound value, so only strings are read.
\<close>

fun json_at :: "string list \<Rightarrow> json \<Rightarrow> string option" where
  "json_at [] (JStr s) = Some s"
| "json_at (k # ks) (JObj ms) = Option.bind (map_of ms k) (json_at ks)"
| "json_at _ _ = None"

definition owner_keyed_payload :: "string \<Rightarrow> json \<Rightarrow> bool" where
  "owner_keyed_payload owner payload \<longleftrightarrow>
     json_at [''owner''] payload = Some owner \<or> json_at [''tenant_id''] payload = Some owner \<or>
     json_at [''payload'', ''account''] payload = Some owner"

definition account_ids :: "string \<Rightarrow> account_row list \<Rightarrow> uuid list" where
  "account_ids owner t = map acct_id (filter (\<lambda>a. acct_owner a = owner) t)"

definition run_ids :: "uuid list \<Rightarrow> run_row list \<Rightarrow> uuid list" where
  "run_ids accts t = map run_id (filter (\<lambda>r. run_account r \<in> set accts) t)"

definition list_ids :: "uuid list \<Rightarrow> list_row list \<Rightarrow> uuid list" where
  "list_ids accts t = map sl_id (filter (\<lambda>l. sl_account l \<in> set accts) t)"

abbreviation owner_accounts :: "string \<Rightarrow> catalog \<Rightarrow> uuid list" where
  "owner_accounts owner db \<equiv> account_ids owner (accounts db)"

abbreviation owner_sync_runs :: "string \<Rightarrow> catalog \<Rightarrow> uuid list" where
  "owner_sync_runs owner db \<equiv> run_ids (owner_accounts owner db) (sync_runs db)"

abbreviation owner_lists :: "string \<Rightarrow> catalog \<Rightarrow> uuid list" where
  "owner_lists owner db \<equiv> list_ids (owner_accounts owner db) (star_lists db)"

definition readme_in_metadata :: "metadata_row \<Rightarrow> string option" where
  "readme_in_metadata m = json_at [''content_ref'', ''digest'', ''hex''] (md_readme m)"

definition readme_in_request :: "request_row \<Rightarrow> string option" where
  "readme_in_request r = json_at [''readme'', ''content_ref'', ''digest'', ''hex''] (rq_revision r)"

section \<open>Candidates\<close>

definition erasure_candidates :: "string \<Rightarrow> catalog \<Rightarrow> uuid list" where
  "erasure_candidates owner db =
     (let accts = set (owner_accounts owner db);
          runs = set (owner_sync_runs owner db);
          lists = set (owner_lists owner db)
      in remdups (
        map ss_repo (filter (\<lambda>r. ss_account r \<in> accts) (star_state db)) @
        map so_repo (filter (\<lambda>r. so_account r \<in> accts) (star_observations db)) @
        map lc_repo (filter (\<lambda>r. lc_account r \<in> accts) (legacy_claims db)) @
        map le_repo (filter (\<lambda>r. le_account r \<in> accts) (legacy_records db)) @
        map lm_repo (filter (\<lambda>r. lm_list r \<in> lists) (memberships db)) @
        map mo_repo (filter (\<lambda>r. mo_list r \<in> lists) (member_observations db)) @
        map au_repo (filter (\<lambda>r. au_account r \<in> accts) (audit db)) @
        map rp_repo (filter (\<lambda>r. rp_run r \<in> runs) (repairs db)) @
        map wt_repo (filter (\<lambda>r. wt_owner r = owner) (watches db)) @
        map rq_repo (filter (\<lambda>r. rq_owner r = owner) (requests db)) @
        map ln_repo (filter (\<lambda>r. ln_owner r = owner) (links db)) @
        map repo_id (filter (\<lambda>r. \<exists>a\<in>set (action_attempts db).
          ac_owner a = owner \<and> ac_provider_id a = repo_provider_id r) (repositories db))))"

definition erasure_readme_digests :: "string \<Rightarrow> catalog \<Rightarrow> string list" where
  "erasure_readme_digests owner db =
     List.map_filter readme_in_metadata
       (filter (\<lambda>m. md_repo m \<in> set (erasure_candidates owner db)) (metadata db)) @
     List.map_filter readme_in_request (filter (\<lambda>r. rq_owner r = owner) (requests db))"

section \<open>References\<close>

text \<open>The foreign keys of the schema: what references accounts, runs, lists and repositories.\<close>

definition account_refs :: "catalog \<Rightarrow> uuid list" where
  "account_refs db =
     map cr_account (credentials db) @ map la_account (legacy_accounts db) @ map le_account (legacy_records db) @
     map run_account (sync_runs db) @ map so_account (star_observations db) @ map ss_account (star_state db) @
     map lc_account (legacy_claims db) @ map wm_account (watermarks db) @ map sl_account (star_lists db)"

definition run_refs :: "catalog \<Rightarrow> uuid list" where
  "run_refs db =
     map cp_run (checkpoints db) @ map si_run (snapshot_items db) @ map li_run (list_snapshot_items db) @
     map rp_run (repairs db) @ List.map_filter ss_evidence (star_state db) @
     List.map_filter sl_evidence (star_lists db) @ List.map_filter lm_evidence (memberships db) @
     List.map_filter mo_evidence (member_observations db)"

definition list_refs :: "catalog \<Rightarrow> uuid list" where
  "list_refs db = map lm_list (memberships db) @ map mo_list (member_observations db) @
     List.map_filter au_list (audit db)"

text \<open>The repositories some owner's row names.\<close>

definition repository_references :: "catalog \<Rightarrow> uuid list" where
  "repository_references db =
     map ss_repo (star_state db) @ map so_repo (star_observations db) @ map lc_repo (legacy_claims db) @
     map le_repo (legacy_records db) @ map lm_repo (memberships db) @ map mo_repo (member_observations db) @
     map au_repo (audit db) @ map rp_repo (repairs db) @ map wt_repo (watches db) @
     map rq_repo (requests db) @ map ln_repo (links db)"

definition catalog_children :: "catalog \<Rightarrow> uuid list" where
  "catalog_children db =
     map alias_repo (aliases db) @ map md_repo (metadata db) @ map rv_repo (revisions db) @
     map bp_repo (backup_policies db)"

section \<open>Deletion of the owner's rows\<close>

definition delete_owner_statements :: "string \<Rightarrow> statement list" where
  "delete_owner_statements owner =
     [(\<lambda>db. Inr (db\<lparr>outbox := delete_where (\<lambda>r. owner_keyed_payload owner (ob_payload r)) (outbox db)\<rparr>)),
      (\<lambda>db. Inr (db\<lparr>inbox := delete_where (\<lambda>r. owner_keyed_payload owner (ib_payload r)) (inbox db)\<rparr>)),
      (\<lambda>db. Inr (db\<lparr>action_attempts := delete_where (\<lambda>r. ac_owner r = owner) (action_attempts db)\<rparr>)),
      (\<lambda>db. Inr (db\<lparr>links := delete_where (\<lambda>r. ln_owner r = owner) (links db)\<rparr>)),
      (\<lambda>db. guarded
        (unreferenced (map rq_id (filter (\<lambda>r. rq_owner r = owner) (requests db))) (map ln_request (links db)))
        (db\<lparr>requests := delete_where (\<lambda>r. rq_owner r = owner) (requests db)\<rparr>)),
      (\<lambda>db. guarded
        (unreferenced (map wt_id (filter (\<lambda>r. wt_owner r = owner) (watches db))) (map rq_watch (requests db)))
        (db\<lparr>watches := delete_where (\<lambda>r. wt_owner r = owner) (watches db)\<rparr>)),
      (\<lambda>db. Inr (db\<lparr>audit := delete_where (\<lambda>r. au_account r \<in> set (owner_accounts owner db)) (audit db)\<rparr>)),
      (\<lambda>db. Inr (db\<lparr>member_observations :=
        delete_where (\<lambda>r. mo_list r \<in> set (owner_lists owner db)) (member_observations db)\<rparr>)),
      (\<lambda>db. Inr (db\<lparr>memberships := delete_where (\<lambda>r. lm_list r \<in> set (owner_lists owner db)) (memberships db)\<rparr>)),
      (\<lambda>db. guarded
        (unreferenced (owner_lists owner db) (list_refs db))
        (db\<lparr>star_lists := delete_where (\<lambda>r. sl_account r \<in> set (owner_accounts owner db)) (star_lists db)\<rparr>)),
      (\<lambda>db. Inr (db\<lparr>star_state := delete_where (\<lambda>r. ss_account r \<in> set (owner_accounts owner db)) (star_state db)\<rparr>)),
      (\<lambda>db. Inr (db\<lparr>star_observations :=
        delete_where (\<lambda>r. so_account r \<in> set (owner_accounts owner db)) (star_observations db)\<rparr>)),
      (\<lambda>db. Inr (db\<lparr>legacy_claims :=
        delete_where (\<lambda>r. lc_account r \<in> set (owner_accounts owner db)) (legacy_claims db)\<rparr>)),
      (\<lambda>db. Inr (db\<lparr>watermarks := delete_where (\<lambda>r. wm_account r \<in> set (owner_accounts owner db)) (watermarks db)\<rparr>)),
      (\<lambda>db. Inr (db\<lparr>repairs := delete_where (\<lambda>r. rp_run r \<in> set (owner_sync_runs owner db)) (repairs db)\<rparr>)),
      (\<lambda>db. Inr (db\<lparr>snapshot_items :=
        delete_where (\<lambda>r. si_run r \<in> set (owner_sync_runs owner db)) (snapshot_items db)\<rparr>)),
      (\<lambda>db. Inr (db\<lparr>list_snapshot_items :=
        delete_where (\<lambda>r. li_run r \<in> set (owner_sync_runs owner db)) (list_snapshot_items db)\<rparr>)),
      (\<lambda>db. Inr (db\<lparr>checkpoints := delete_where (\<lambda>r. cp_run r \<in> set (owner_sync_runs owner db)) (checkpoints db)\<rparr>)),
      (\<lambda>db. guarded
        (unreferenced (owner_sync_runs owner db) (run_refs db))
        (db\<lparr>sync_runs := delete_where (\<lambda>r. run_account r \<in> set (owner_accounts owner db)) (sync_runs db)\<rparr>)),
      (\<lambda>db. Inr (db\<lparr>legacy_records :=
        delete_where (\<lambda>r. le_account r \<in> set (owner_accounts owner db)) (legacy_records db)\<rparr>)),
      (\<lambda>db. Inr (db\<lparr>legacy_accounts :=
        delete_where (\<lambda>r. la_account r \<in> set (owner_accounts owner db)) (legacy_accounts db)\<rparr>)),
      (\<lambda>db. Inr (db\<lparr>credentials := delete_where (\<lambda>r. cr_account r \<in> set (owner_accounts owner db)) (credentials db)\<rparr>)),
      (\<lambda>db. guarded
        (unreferenced (owner_accounts owner db) (account_refs db))
        (db\<lparr>accounts := delete_where (\<lambda>a. acct_owner a = owner) (accounts db)\<rparr>))]"

definition delete_owner_rows :: "string \<Rightarrow> statement" where
  "delete_owner_rows owner = run_statements (delete_owner_statements owner)"

section \<open>Collection\<close>

text \<open>The repositories an owner's action attempt names by their provider identity.\<close>

definition attempt_references :: "catalog \<Rightarrow> uuid list" where
  "attempt_references db =
     map repo_id (filter (\<lambda>r. repo_provider_id r \<in> set (map ac_provider_id (action_attempts db))) (repositories db))"

definition erasure_doomed :: "uuid list \<Rightarrow> catalog \<Rightarrow> uuid list" where
  "erasure_doomed candidates db =
     filter (\<lambda>c. c \<notin> set (repository_references db) \<and> c \<notin> set (attempt_references db)) candidates"

definition doomed_aliases :: "uuid list \<Rightarrow> catalog \<Rightarrow> uuid list" where
  "doomed_aliases doomed db = map alias_id (filter (\<lambda>a. alias_repo a \<in> set doomed) (aliases db))"

definition clear_redirects :: "uuid list \<Rightarrow> catalog \<Rightarrow> catalog" where
  "clear_redirects doomed db =
     db\<lparr>aliases := update_where
       (\<lambda>a. alias_repo a \<notin> set doomed \<and>
          (case alias_redirect a of None \<Rightarrow> False | Some t \<Rightarrow> t \<in> set (doomed_aliases doomed db)))
       (\<lambda>a. a\<lparr>alias_redirect := None\<rparr>) (aliases db)\<rparr>"

definition collect_statements :: "uuid list \<Rightarrow> statement list" where
  "collect_statements doomed =
     [(\<lambda>db. Inr (clear_redirects doomed db)),
      (\<lambda>db. let rest = delete_where (\<lambda>a. alias_repo a \<in> set doomed) (aliases db) in
        guarded (unreferenced (doomed_aliases doomed db) (List.map_filter alias_redirect rest)) (db\<lparr>aliases := rest\<rparr>)),
      (\<lambda>db. Inr (db\<lparr>metadata := delete_where (\<lambda>m. md_repo m \<in> set doomed) (metadata db)\<rparr>)),
      (\<lambda>db. Inr (db\<lparr>revisions := delete_where (\<lambda>r. rv_repo r \<in> set doomed) (revisions db)\<rparr>)),
      (\<lambda>db. Inr (db\<lparr>backup_policies := delete_where (\<lambda>p. bp_repo p \<in> set doomed) (backup_policies db)\<rparr>)),
      (\<lambda>db. guarded
        (unreferenced doomed (repository_references db @ catalog_children db))
        (db\<lparr>repositories := delete_where (\<lambda>r. repo_id r \<in> set doomed) (repositories db)\<rparr>))]"

definition collect_unreferenced_repositories :: "uuid list \<Rightarrow> catalog \<Rightarrow> (sql_error, nat \<times> catalog) result" where
  "collect_unreferenced_repositories candidates db =
     (let doomed = erasure_doomed candidates db;
          gone = length (filter (\<lambda>r. repo_id r \<in> set doomed) (repositories db))
      in and_then (run_statements (collect_statements doomed) db) (\<lambda>db'. Inr (gone, db')))"

definition collect_unreferenced_readme_bytes :: "string list \<Rightarrow> catalog \<Rightarrow> catalog" where
  "collect_unreferenced_readme_bytes digests db =
     db\<lparr>readme_blobs := delete_where
       (\<lambda>b. rb_digest b \<in> set digests \<and>
          Some (rb_digest b) \<notin> readme_in_metadata ` set (metadata db) \<and>
          Some (rb_digest b) \<notin> readme_in_request ` set (requests db)) (readme_blobs db)\<rparr>"

definition erase_owner_state :: "string \<Rightarrow> statement" where
  "erase_owner_state owner db =
     (let candidates = erasure_candidates owner db; digests = erasure_readme_digests owner db in
      and_then (delete_owner_rows owner db) (\<lambda>db1.
      and_then (collect_unreferenced_repositories candidates db1) (\<lambda>(collected, db2).
        let db3 = collect_unreferenced_readme_bytes digests db2 in
        if 0 < collected then mark_backup_policy_dirty_in_tx db3 else Inr db3)))"

section \<open>The erasure operation\<close>

datatype account_erasure_outcome = ErasureVerified | IncompleteExternalGrantRevocation

datatype account_erasure_error =
    ErasurePersistence sql_error
  | OperationOwnerMismatch
  | UnknownRecordedOutcome

record erasure_runtime =
  ea_cipher :: cipher
  ea_key :: "credential_key option"
  ea_app :: "oauth_app_credentials option"
  ea_revoke :: "nat \<Rightarrow> oauth_app_credentials \<Rightarrow> string \<Rightarrow> (provider_error, unit) result answer"
  ea_sha256 :: "8 word list \<Rightarrow> 8 word list"

definition owner_digest :: "erasure_runtime \<Rightarrow> string \<Rightarrow> string" where
  "owner_digest rt owner_ref = sha256_hex (ea_sha256 rt (map byte_of owner_ref))"

fun outcome_label :: "account_erasure_outcome \<Rightarrow> string" where
  "outcome_label ErasureVerified = ''verified''"
| "outcome_label IncompleteExternalGrantRevocation = ''incomplete_external_grant_revocation''"

definition recorded_operation :: "uuid \<Rightarrow> catalog \<Rightarrow> erasure_row option" where
  "recorded_operation operation db = find_by er_operation operation (erasures db)"

definition erasure_replay ::
    "string \<Rightarrow> erasure_row \<Rightarrow> (account_erasure_error, account_erasure_outcome) result" where
  "erasure_replay digest recorded =
     (if er_owner_digest recorded \<noteq> digest then Inl OperationOwnerMismatch
      else if er_outcome recorded = ''verified'' then Inr ErasureVerified
      else if er_outcome recorded = ''incomplete_external_grant_revocation''
      then Inr IncompleteExternalGrantRevocation
      else Inl UnknownRecordedOutcome)"

definition owner_credentials :: "string \<Rightarrow> catalog \<Rightarrow> (uuid \<times> credential_kind \<times> string option) list" where
  "owner_credentials owner db =
     map (\<lambda>r. (cr_account r, cr_kind r, cr_client r))
       (filter (\<lambda>r. cr_account r \<in> set (owner_accounts owner db)) (credentials db))"

text \<open>One round of the revocation loop: \<open>True\<close> when the grant is confirmed gone.\<close>

definition revoke_grant ::
    "erasure_runtime \<Rightarrow> uuid \<times> credential_kind \<times> string option \<Rightarrow> world \<Rightarrow> bool \<times> world" where
  "revoke_grant rt = (\<lambda>(account, kind, client) w.
     case ea_app rt of
       None \<Rightarrow> (False, w)
     | Some app \<Rightarrow>
         if kind \<noteq> KindOauth \<or> client \<noteq> Some (app_client_id app) then (False, w)
         else
           (case ea_key rt of
              None \<Rightarrow> (False, w)
            | Some key \<Rightarrow>
                (case load_active_oauth (ea_cipher rt) account key (app_client_id app) w of
                   (Inl _, w1) \<Rightarrow> (False, w1)
                 | (Inr token, w1) \<Rightarrow>
                     (case provider_call (\<lambda>n. ea_revoke rt n app token) w1 of
                        (Inl _, w2) \<Rightarrow> (False, w2)
                      | (Inr _, w2) \<Rightarrow> (True, w2)))))"

fun revoke_each ::
    "erasure_runtime \<Rightarrow> (uuid \<times> credential_kind \<times> string option) list \<Rightarrow> account_erasure_outcome \<Rightarrow> world \<Rightarrow>
     account_erasure_outcome \<times> world" where
  "revoke_each rt [] outcome w = (outcome, w)"
| "revoke_each rt (c # cs) outcome w =
     (case revoke_grant rt c w of
        (confirmed, w1) \<Rightarrow>
          revoke_each rt cs (if confirmed then outcome else IncompleteExternalGrantRevocation) w1)"

definition revoke_grants :: "erasure_runtime \<Rightarrow> string \<Rightarrow> (sql_error, account_erasure_outcome) io" where
  "revoke_grants rt owner_ref w =
     (case query (owner_credentials owner_ref) w of
        (Inl e, w1) \<Rightarrow> (Inl e, w1)
      | (Inr cs, w1) \<Rightarrow> (case revoke_each rt cs ErasureVerified w1 of (outcome, w2) \<Rightarrow> (Inr outcome, w2)))"

text \<open>
  The deleting transaction; \<open>False\<close> when the operation was recorded meanwhile and it rolls back.
\<close>

definition erase_tx :: "uuid \<Rightarrow> string \<Rightarrow> string \<Rightarrow> account_erasure_outcome \<Rightarrow> bool tx" where
  "erase_tx operation digest owner_ref outcome db =
     and_then (erase_owner_state owner_ref db) (\<lambda>db1.
       if operation \<in> er_operation ` set (erasures db1) then Inr (False, db)
       else Inr (True, db1\<lparr>erasures := erasures db1 @
         [\<lparr>er_operation = operation, er_owner_digest = digest, er_outcome = outcome_label outcome\<rparr>]\<rparr>))"

definition erase_account ::
    "erasure_runtime \<Rightarrow> string \<Rightarrow> uuid \<Rightarrow> (account_erasure_error, account_erasure_outcome) io" where
  "erase_account rt owner_ref operation =
     (let digest = owner_digest rt owner_ref in
      io_bind (io_map_err ErasurePersistence (query (recorded_operation operation))) (\<lambda>recorded.
        case recorded of
          Some r \<Rightarrow> (\<lambda>w. (erasure_replay digest r, w))
        | None \<Rightarrow>
            io_bind (io_map_err ErasurePersistence (revoke_grants rt owner_ref)) (\<lambda>outcome.
            io_bind (io_map_err ErasurePersistence (transact (erase_tx operation digest owner_ref outcome))) (\<lambda>inserted.
              if inserted then io_return outcome
              else
                io_bind (io_map_err ErasurePersistence (query (recorded_operation operation))) (\<lambda>again.
                  case again of
                    None \<Rightarrow> io_fail (ErasurePersistence RowNotFound)
                  | Some r \<Rightarrow> (\<lambda>w. (erasure_replay digest r, w)))))))"

end
