(* ===== verification/Erasure_Safety.thy ===== *)
theory Erasure_Safety
  imports Erasure Star_Lists_Authority
begin

text \<open>
  What erasure guarantees: it succeeds exactly when no row of another owner references a row of the erased
  one, and then the erased owner's rows are gone from every table, those of every other owner are what they
  were (but for messages that also name the erased owner), every foreign key still resolves, and a repository
  goes precisely when only the erased owner reached it.
\<close>

section \<open>Ownership\<close>

text \<open>The primary keys the accounts of ownership rest on.\<close>

definition unique_keys :: "catalog \<Rightarrow> bool" where
  "unique_keys db \<longleftrightarrow>
     distinct (map acct_id (accounts db)) \<and> distinct (map run_id (sync_runs db)) \<and>
     distinct (map sl_id (star_lists db)) \<and> distinct (map repo_id (repositories db))"

text \<open>
  A row of another owner references a row of this one: a result link a request, a request a watch, an audit
  row a list, or a star, list, membership or membership observation the run that is its evidence.
\<close>

definition entangled :: "string \<Rightarrow> catalog \<Rightarrow> bool" where
  "entangled owner db \<longleftrightarrow>
     (let accts = set (owner_accounts owner db); lists = set (owner_lists owner db);
          evidence = Some ` set (owner_sync_runs owner db)
      in (\<exists>l\<in>set (links db). ln_owner l \<noteq> owner \<and> (\<exists>r\<in>set (requests db). rq_id r = ln_request l \<and> rq_owner r = owner)) \<or>
         (\<exists>r\<in>set (requests db). rq_owner r \<noteq> owner \<and> (\<exists>x\<in>set (watches db). wt_id x = rq_watch r \<and> wt_owner x = owner)) \<or>
         (\<exists>a\<in>set (audit db). au_account a \<notin> accts \<and> au_list a \<in> Some ` lists) \<or>
         (\<exists>s\<in>set (star_state db). ss_account s \<notin> accts \<and> ss_evidence s \<in> evidence) \<or>
         (\<exists>l\<in>set (star_lists db). sl_account l \<notin> accts \<and> sl_evidence l \<in> evidence) \<or>
         (\<exists>m\<in>set (memberships db). lm_list m \<notin> lists \<and> lm_evidence m \<in> evidence) \<or>
         (\<exists>m\<in>set (member_observations db). mo_list m \<notin> lists \<and> mo_evidence m \<in> evidence))"

section \<open>The owner's rows\<close>

record owned_rows =
  ow_accounts :: "account_row list"
  ow_credentials :: "credential_row list"
  ow_runs :: "run_row list"
  ow_checkpoints :: "checkpoint_row list"
  ow_items :: "item_row list"
  ow_list_items :: "list_item_row list"
  ow_star_observations :: "star_obs_row list"
  ow_stars :: "star_row list"
  ow_watermarks :: "watermark_row list"
  ow_repairs :: "repair_row list"
  ow_lists :: "list_row list"
  ow_members :: "member_row list"
  ow_member_observations :: "member_obs_row list"
  ow_watches :: "watch_row list"
  ow_requests :: "request_row list"
  ow_links :: "link_row list"
  ow_audit :: "audit_row list"
  ow_attempts :: "attempt_row list"
  ow_legacy_accounts :: "legacy_account_row list"
  ow_legacy_records :: "legacy_record_row list"
  ow_legacy_claims :: "legacy_claim_row list"
  ow_outbox :: "outbox_row list"
  ow_inbox :: "inbox_row list"

definition rows_of :: "uuid list \<Rightarrow> uuid list \<Rightarrow> uuid list \<Rightarrow> string \<Rightarrow> catalog \<Rightarrow> owned_rows" where
  "rows_of A R L owner db =
     \<lparr>ow_accounts = filter (\<lambda>r. acct_id r \<in> set A) (accounts db),
      ow_credentials = filter (\<lambda>r. cr_account r \<in> set A) (credentials db),
      ow_runs = filter (\<lambda>r. run_account r \<in> set A) (sync_runs db),
      ow_checkpoints = filter (\<lambda>r. cp_run r \<in> set R) (checkpoints db),
      ow_items = filter (\<lambda>r. si_run r \<in> set R) (snapshot_items db),
      ow_list_items = filter (\<lambda>r. li_run r \<in> set R) (list_snapshot_items db),
      ow_star_observations = filter (\<lambda>r. so_account r \<in> set A) (star_observations db),
      ow_stars = filter (\<lambda>r. ss_account r \<in> set A) (star_state db),
      ow_watermarks = filter (\<lambda>r. wm_account r \<in> set A) (watermarks db),
      ow_repairs = filter (\<lambda>r. rp_run r \<in> set R) (repairs db),
      ow_lists = filter (\<lambda>r. sl_account r \<in> set A) (star_lists db),
      ow_members = filter (\<lambda>r. lm_list r \<in> set L) (memberships db),
      ow_member_observations = filter (\<lambda>r. mo_list r \<in> set L) (member_observations db),
      ow_watches = filter (\<lambda>r. wt_owner r = owner) (watches db),
      ow_requests = filter (\<lambda>r. rq_owner r = owner) (requests db),
      ow_links = filter (\<lambda>r. ln_owner r = owner) (links db),
      ow_audit = filter (\<lambda>r. au_account r \<in> set A) (audit db),
      ow_attempts = filter (\<lambda>r. ac_owner r = owner) (action_attempts db),
      ow_legacy_accounts = filter (\<lambda>r. la_account r \<in> set A) (legacy_accounts db),
      ow_legacy_records = filter (\<lambda>r. le_account r \<in> set A) (legacy_records db),
      ow_legacy_claims = filter (\<lambda>r. lc_account r \<in> set A) (legacy_claims db),
      ow_outbox = filter (\<lambda>r. owner_keyed_payload owner (ob_payload r)) (outbox db),
      ow_inbox = filter (\<lambda>r. owner_keyed_payload owner (ib_payload r)) (inbox db)\<rparr>"

text \<open>The rows of an owner in one catalog, with the accounts, runs and lists the owner has in another.\<close>

definition owner_rows :: "string \<Rightarrow> catalog \<Rightarrow> catalog \<Rightarrow> owned_rows" where
  "owner_rows owner before db =
     rows_of (owner_accounts owner before) (owner_sync_runs owner before) (owner_lists owner before) owner db"

definition no_rows :: owned_rows where
  "no_rows = rows_of [] [] [] [] empty_catalog"

section \<open>Deletion\<close>

definition without_owner :: "string \<Rightarrow> catalog \<Rightarrow> catalog" where
  "without_owner owner db =
     db\<lparr>outbox := delete_where (\<lambda>r. owner_keyed_payload owner (ob_payload r)) (outbox db),
       inbox := delete_where (\<lambda>r. owner_keyed_payload owner (ib_payload r)) (inbox db),
       action_attempts := delete_where (\<lambda>r. ac_owner r = owner) (action_attempts db),
       links := delete_where (\<lambda>r. ln_owner r = owner) (links db),
       requests := delete_where (\<lambda>r. rq_owner r = owner) (requests db),
       watches := delete_where (\<lambda>r. wt_owner r = owner) (watches db),
       audit := delete_where (\<lambda>r. au_account r \<in> set (owner_accounts owner db)) (audit db),
       member_observations := delete_where (\<lambda>r. mo_list r \<in> set (owner_lists owner db)) (member_observations db),
       memberships := delete_where (\<lambda>r. lm_list r \<in> set (owner_lists owner db)) (memberships db),
       star_lists := delete_where (\<lambda>r. sl_account r \<in> set (owner_accounts owner db)) (star_lists db),
       star_state := delete_where (\<lambda>r. ss_account r \<in> set (owner_accounts owner db)) (star_state db),
       star_observations := delete_where (\<lambda>r. so_account r \<in> set (owner_accounts owner db)) (star_observations db),
       legacy_claims := delete_where (\<lambda>r. lc_account r \<in> set (owner_accounts owner db)) (legacy_claims db),
       watermarks := delete_where (\<lambda>r. wm_account r \<in> set (owner_accounts owner db)) (watermarks db),
       repairs := delete_where (\<lambda>r. rp_run r \<in> set (owner_sync_runs owner db)) (repairs db),
       snapshot_items := delete_where (\<lambda>r. si_run r \<in> set (owner_sync_runs owner db)) (snapshot_items db),
       list_snapshot_items := delete_where (\<lambda>r. li_run r \<in> set (owner_sync_runs owner db)) (list_snapshot_items db),
       checkpoints := delete_where (\<lambda>r. cp_run r \<in> set (owner_sync_runs owner db)) (checkpoints db),
       sync_runs := delete_where (\<lambda>r. run_account r \<in> set (owner_accounts owner db)) (sync_runs db),
       legacy_records := delete_where (\<lambda>r. le_account r \<in> set (owner_accounts owner db)) (legacy_records db),
       legacy_accounts := delete_where (\<lambda>r. la_account r \<in> set (owner_accounts owner db)) (legacy_accounts db),
       credentials := delete_where (\<lambda>r. cr_account r \<in> set (owner_accounts owner db)) (credentials db),
       accounts := delete_where (\<lambda>a. acct_owner a = owner) (accounts db)\<rparr>"

lemma unreferenced_iff: "unreferenced ks rs \<longleftrightarrow> set ks \<inter> set rs = {}"
  by (auto simp: unreferenced_def list_all_iff)

lemma set_map_filter: "set (List.map_filter f xs) = {y. \<exists>x\<in>set xs. f x = Some y}"
  by (force simp: map_filter_def image_iff)

lemma account_references: "unreferenced (owner_accounts owner db) (account_refs (without_owner owner db))"
  by (auto simp: unreferenced_iff account_refs_def without_owner_def)

text \<open>The guards of the deletion, in the state each statement finds.\<close>

definition deletable :: "string \<Rightarrow> catalog \<Rightarrow> bool" where
  "deletable owner db \<longleftrightarrow>
     unreferenced (map rq_id (filter (\<lambda>r. rq_owner r = owner) (requests db)))
       (map ln_request (links (without_owner owner db))) \<and>
     unreferenced (map wt_id (filter (\<lambda>r. wt_owner r = owner) (watches db)))
       (map rq_watch (requests (without_owner owner db))) \<and>
     unreferenced (owner_lists owner db) (list_refs (without_owner owner db)) \<and>
     unreferenced (owner_sync_runs owner db) (run_refs (without_owner owner db))"

lemma deletable_requests:
  "unreferenced (map rq_id (filter (\<lambda>r. rq_owner r = owner) (requests db))) (map ln_request (links (without_owner owner db))) \<longleftrightarrow>
     \<not> (\<exists>l\<in>set (links db). ln_owner l \<noteq> owner \<and> (\<exists>r\<in>set (requests db). rq_id r = ln_request l \<and> rq_owner r = owner))"
  "unreferenced (map wt_id (filter (\<lambda>r. wt_owner r = owner) (watches db))) (map rq_watch (requests (without_owner owner db))) \<longleftrightarrow>
     \<not> (\<exists>r\<in>set (requests db). rq_owner r \<noteq> owner \<and> (\<exists>x\<in>set (watches db). wt_id x = rq_watch r \<and> wt_owner x = owner))"
  by (auto simp: unreferenced_iff without_owner_def disjoint_iff)

lemma deletable_lists:
  "unreferenced (owner_lists owner db) (list_refs (without_owner owner db)) \<longleftrightarrow>
     \<not> (\<exists>a\<in>set (audit db). au_account a \<notin> set (owner_accounts owner db) \<and> au_list a \<in> Some ` set (owner_lists owner db))"
  by (auto simp: unreferenced_iff list_refs_def without_owner_def set_map_filter disjoint_iff)

lemma deletable_runs:
  "unreferenced (owner_sync_runs owner db) (run_refs (without_owner owner db)) \<longleftrightarrow>
     \<not> ((\<exists>s\<in>set (star_state db). ss_account s \<notin> set (owner_accounts owner db) \<and> ss_evidence s \<in> Some ` set (owner_sync_runs owner db)) \<or>
        (\<exists>l\<in>set (star_lists db). sl_account l \<notin> set (owner_accounts owner db) \<and> sl_evidence l \<in> Some ` set (owner_sync_runs owner db)) \<or>
        (\<exists>m\<in>set (memberships db). lm_list m \<notin> set (owner_lists owner db) \<and> lm_evidence m \<in> Some ` set (owner_sync_runs owner db)) \<or>
        (\<exists>m\<in>set (member_observations db). mo_list m \<notin> set (owner_lists owner db) \<and> mo_evidence m \<in> Some ` set (owner_sync_runs owner db)))"
  by (auto simp: unreferenced_iff run_refs_def without_owner_def set_map_filter disjoint_iff)

lemma deletable_iff: "deletable owner db \<longleftrightarrow> \<not> entangled owner db"
  unfolding deletable_def entangled_def Let_def deletable_requests deletable_lists deletable_runs by blast

lemma delete_owner_rows_eq:
  "delete_owner_rows owner db = (if entangled owner db then Inl ForeignKeyViolation else Inr (without_owner owner db))"
proof -
  have "delete_owner_rows owner db = (if deletable owner db then Inr (without_owner owner db) else Inl ForeignKeyViolation)"
    using account_references [of owner db]
    by (simp add: delete_owner_rows_def delete_owner_statements_def without_owner_def guarded_def deletable_def
        list_refs_def run_refs_def account_refs_def)
  then show ?thesis by (simp add: deletable_iff)
qed

section \<open>Collection\<close>

definition without_repositories :: "uuid list \<Rightarrow> catalog \<Rightarrow> catalog" where
  "without_repositories doomed db =
     db\<lparr>aliases := delete_where (\<lambda>a. alias_repo a \<in> set doomed) (aliases (clear_redirects doomed db)),
       metadata := delete_where (\<lambda>m. md_repo m \<in> set doomed) (metadata db),
       revisions := delete_where (\<lambda>r. rv_repo r \<in> set doomed) (revisions db),
       backup_policies := delete_where (\<lambda>p. bp_repo p \<in> set doomed) (backup_policies db),
       repositories := delete_where (\<lambda>r. repo_id r \<in> set doomed) (repositories db)\<rparr>"

lemma set_cleared_aliases:
  "set (aliases (clear_redirects doomed db)) =
     (\<lambda>a. if alias_repo a \<notin> set doomed \<and> alias_redirect a \<in> Some ` set (doomed_aliases doomed db)
        then a\<lparr>alias_redirect := None\<rparr> else a) ` set (aliases db)"
  by (auto simp: clear_redirects_def update_where_def image_iff split: option.splits)

lemma cleared_alias:
  assumes "b \<in> set (aliases db)"
  shows "\<exists>a\<in>set (aliases (clear_redirects doomed db)). alias_id a = alias_id b \<and> alias_repo a = alias_repo b"
  unfolding set_cleared_aliases using assms by (intro bexI [OF _ imageI]) auto

lemma doomed_aliases_cleared:
  "set (doomed_aliases doomed (clear_redirects doomed db)) = set (doomed_aliases doomed db)"
  unfolding doomed_aliases_def by (auto simp: set_cleared_aliases image_iff)

lemma alias_references:
  "unreferenced (doomed_aliases doomed (clear_redirects doomed db))
     (List.map_filter alias_redirect (delete_where (\<lambda>a. alias_repo a \<in> set doomed) (aliases (clear_redirects doomed db))))"
  unfolding unreferenced_iff doomed_aliases_cleared
  by (auto simp: set_map_filter set_cleared_aliases split: if_splits)

lemma repository_guard:
  "unreferenced (erasure_doomed candidates db)
     (repository_references db @ catalog_children (without_repositories (erasure_doomed candidates db) db))"
  by (auto simp: unreferenced_iff erasure_doomed_def catalog_children_def without_repositories_def)

lemma collect_eq:
  "collect_unreferenced_repositories candidates db =
     Inr (length (filter (\<lambda>r. repo_id r \<in> set (erasure_doomed candidates db)) (repositories db)),
       without_repositories (erasure_doomed candidates db) db)"
proof -
  let ?d = "erasure_doomed candidates db"
  define c where "c = aliases (clear_redirects ?d db)"
  have cleared: "clear_redirects ?d db = db\<lparr>aliases := c\<rparr>" by (simp add: c_def clear_redirects_def)
  have "run_statements (collect_statements ?d) db = Inr (without_repositories ?d db)"
    using alias_references [of ?d db, unfolded cleared] repository_guard [of candidates db]
    by (simp add: collect_statements_def guarded_def cleared without_repositories_def catalog_children_def
        repository_references_def)
  then show ?thesis by (simp add: collect_unreferenced_repositories_def Let_def)
qed

section \<open>Erasure\<close>

definition erased :: "string \<Rightarrow> catalog \<Rightarrow> catalog" where
  "erased owner db =
     (let db1 = without_owner owner db in
      collect_unreferenced_readme_bytes (erasure_readme_digests owner db)
        (without_repositories (erasure_doomed (erasure_candidates owner db) db1) db1))"

lemma erase_owner_state_eq:
  assumes "\<not> entangled owner db" and "\<And>c. policy_cursor db = Some c \<Longrightarrow> cu_dirty c < i64_max"
  shows "\<exists>cursor. erase_owner_state owner db = Inr ((erased owner db)\<lparr>policy_cursor := cursor\<rparr>)"
proof -
  have cursor: "policy_cursor (erased owner db) = policy_cursor db"
    by (simp add: erased_def Let_def collect_unreferenced_readme_bytes_def without_repositories_def without_owner_def)
  have "\<exists>cursor. mark_backup_policy_dirty_in_tx (erased owner db) = Inr ((erased owner db)\<lparr>policy_cursor := cursor\<rparr>)"
    using assms(2) by (auto simp: mark_backup_policy_dirty_in_tx_def mark_dirty_at_def cursor split: option.split)
  moreover have "\<exists>cursor. Inr (erased owner db) = Inr ((erased owner db)\<lparr>policy_cursor := cursor\<rparr>)"
    by (rule exI [of _ "policy_cursor (erased owner db)"]) simp
  ultimately show ?thesis
    unfolding erase_owner_state_def Let_def delete_owner_rows_eq if_not_P [OF assms(1)] collect_eq and_then_simps
      prod.case erased_def [unfolded Let_def, symmetric]
    by (split if_split) blast
qed

lemma rows_of_erased: "rows_of A R L o' ((erased owner db)\<lparr>policy_cursor := c\<rparr>) = rows_of A R L o' (without_owner owner db)"
  by (simp add: rows_of_def erased_def Let_def collect_unreferenced_readme_bytes_def without_repositories_def)

lemma filter_delete_other: "(\<And>r. r \<in> set t \<Longrightarrow> q r \<Longrightarrow> \<not> p r) \<Longrightarrow> filter q (delete_where p t) = filter q t"
  by (auto simp: delete_where_def intro!: filter_cong)

lemma filter_delete_same: "(\<And>r. r \<in> set t \<Longrightarrow> q r \<Longrightarrow> p r) \<Longrightarrow> filter q (delete_where p t) = []"
  by (auto simp: delete_where_def filter_empty_conv)

lemma owner_rows_gone:
  assumes "unique_keys db"
  shows "owner_rows owner db (without_owner owner db) = no_rows"
proof -
  have "acct_owner a = owner" if "a \<in> set (accounts db)" "acct_id a \<in> set (owner_accounts owner db)" for a
    using that assms by (auto simp: account_ids_def unique_keys_def distinct_map inj_on_def)
  then show ?thesis
    by (simp add: owner_rows_def rows_of_def without_owner_def no_rows_def empty_catalog_def filter_delete_same)
qed

lemma owners_apart:
  assumes "unique_keys db" and "other \<noteq> owner"
  shows "set (owner_accounts other db) \<inter> set (owner_accounts owner db) = {}"
    and "set (owner_sync_runs other db) \<inter> set (owner_sync_runs owner db) = {}"
    and "set (owner_lists other db) \<inter> set (owner_lists owner db) = {}"
proof -
  show 1: "set (owner_accounts other db) \<inter> set (owner_accounts owner db) = {}"
    using assms by (auto simp: account_ids_def unique_keys_def distinct_map inj_on_def)
  have key: "f x \<in> set (owner_accounts other db) \<Longrightarrow> f y \<in> set (owner_accounts owner db) \<Longrightarrow>
      distinct (map k t) \<Longrightarrow> x \<in> set t \<Longrightarrow> y \<in> set t \<Longrightarrow> k x \<noteq> (k y :: nat)" for f and k :: "'r \<Rightarrow> nat" and x y t
    using 1 by (metis IntI distinct_map empty_iff inj_on_def)
  show "set (owner_sync_runs other db) \<inter> set (owner_sync_runs owner db) = {}"
    using assms(1) by (auto simp: run_ids_def unique_keys_def dest: key [of run_account _ _ run_id])
  show "set (owner_lists other db) \<inter> set (owner_lists owner db) = {}"
    using assms(1) by (auto simp: list_ids_def unique_keys_def dest: key [of sl_account _ _ sl_id])
qed

text \<open>The rows of another owner, less the messages that name the erased owner as well.\<close>

definition spared :: "string \<Rightarrow> owned_rows \<Rightarrow> owned_rows" where
  "spared owner rows =
     rows\<lparr>ow_outbox := delete_where (\<lambda>r. owner_keyed_payload owner (ob_payload r)) (ow_outbox rows),
          ow_inbox := delete_where (\<lambda>r. owner_keyed_payload owner (ib_payload r)) (ow_inbox rows)\<rparr>"

lemma filter_delete_comm: "filter q (delete_where p t) = delete_where p (filter q t)"
  by (simp add: delete_where_def conj_commute)

lemma other_rows_kept:
  assumes "unique_keys db" and "other \<noteq> owner"
  shows "owner_rows other db (without_owner owner db) = spared owner (owner_rows other db db)"
proof -
  note apart = owners_apart [OF assms]
  have "acct_owner a \<noteq> owner" if "a \<in> set (accounts db)" "acct_id a \<in> set (owner_accounts other db)" for a
    using that apart(1) by (auto simp: account_ids_def)
  moreover have "\<And>x. x \<in> set (owner_accounts other db) \<Longrightarrow> x \<notin> set (owner_accounts owner db)"
    "\<And>x. x \<in> set (owner_sync_runs other db) \<Longrightarrow> x \<notin> set (owner_sync_runs owner db)"
    "\<And>x. x \<in> set (owner_lists other db) \<Longrightarrow> x \<notin> set (owner_lists owner db)"
    using apart by blast+
  ultimately show ?thesis
    using assms(2)
    by (simp add: owner_rows_def rows_of_def without_owner_def filter_delete_other spared_def
        filter_delete_comm [of "\<lambda>r. owner_keyed_payload other (ob_payload r)"]
        filter_delete_comm [of "\<lambda>r. owner_keyed_payload other (ib_payload r)"])
qed

lemma erased_repository:
  assumes "unique_keys db" and "r \<in> set (repositories db)"
  shows "r \<in> set (repositories (erased owner db)) \<longleftrightarrow>
    repo_id r \<notin> set (erasure_candidates owner db) \<or> repo_id r \<in> set (repository_references (erased owner db)) \<or>
    repo_provider_id r \<in> ac_provider_id ` set (action_attempts (erased owner db))"
proof -
  let ?db1 = "without_owner owner db"
  have "repo_id r \<in> set (attempt_references ?db1) \<longleftrightarrow> repo_provider_id r \<in> ac_provider_id ` set (action_attempts ?db1)"
    using assms by (auto simp: attempt_references_def without_owner_def unique_keys_def distinct_map inj_on_def)
  moreover have "repository_references (erased owner db) = repository_references ?db1"
    "action_attempts (erased owner db) = action_attempts ?db1"
    by (simp_all add: erased_def Let_def collect_unreferenced_readme_bytes_def without_repositories_def repository_references_def)
  moreover have "r \<in> set (repositories (erased owner db)) \<longleftrightarrow> repo_id r \<notin> set (erasure_doomed (erasure_candidates owner db) ?db1)"
    using assms(2) by (simp add: erased_def Let_def collect_unreferenced_readme_bytes_def without_repositories_def without_owner_def)
  ultimately show ?thesis by (auto simp: erasure_doomed_def)
qed

lemma erased_readme:
  assumes "b \<in> set (readme_blobs db)"
  shows "b \<in> set (readme_blobs (erased owner db)) \<longleftrightarrow>
    rb_digest b \<notin> set (erasure_readme_digests owner db) \<or>
    Some (rb_digest b) \<in> readme_in_metadata ` set (metadata (erased owner db)) \<or>
    Some (rb_digest b) \<in> readme_in_request ` set (requests (erased owner db))"
  using assms
  by (auto simp: erased_def Let_def collect_unreferenced_readme_bytes_def without_repositories_def without_owner_def)


section \<open>Integrity\<close>

text \<open>Every reference of the catalog resolves.\<close>

definition references_hold :: "catalog \<Rightarrow> bool" where
  "references_hold db \<longleftrightarrow>
     set (repository_references db @ catalog_children db) \<subseteq> repo_id ` set (repositories db) \<and>
     set (account_refs db) \<subseteq> acct_id ` set (accounts db) \<and>
     set (run_refs db) \<subseteq> run_id ` set (sync_runs db) \<and>
     set (list_refs db) \<subseteq> sl_id ` set (star_lists db) \<and>
     rq_watch ` set (requests db) \<subseteq> wt_id ` set (watches db) \<and>
     ln_request ` set (links db) \<subseteq> rq_id ` set (requests db) \<and>
     set (List.map_filter alias_redirect (aliases db)) \<subseteq> alias_id ` set (aliases db)"

text \<open>Deleting rows no remaining row references keeps references resolved.\<close>

lemma delete_keeps_references:
  assumes "set rs \<subseteq> key ` set t" and "set rs' \<subseteq> set rs" and "unreferenced (map key (filter p t)) rs'"
  shows "set rs' \<subseteq> key ` set (delete_where p t)"
proof
  fix k
  assume k: "k \<in> set rs'"
  with assms(1,2) obtain r where r: "r \<in> set t" "k = key r" by blast
  with assms(3) k have "\<not> p r" by (auto simp: unreferenced_iff)
  with r show "k \<in> key ` set (delete_where p t)" by simp
qed

lemma deleted_references_hold:
  assumes "references_hold db" and "\<not> entangled owner db"
  shows "references_hold (without_owner owner db)"
proof -
  let ?db1 = "without_owner owner db"
  note hold = assms(1) [unfolded references_hold_def]
    and own = assms(2) [folded deletable_iff, unfolded deletable_def]
  have shrink: "set (account_refs ?db1) \<subseteq> set (account_refs db)" "set (run_refs ?db1) \<subseteq> set (run_refs db)"
    "set (list_refs ?db1) \<subseteq> set (list_refs db)" "set (repository_references ?db1) \<subseteq> set (repository_references db)"
    by (auto simp: account_refs_def run_refs_def list_refs_def repository_references_def without_owner_def set_map_filter)
  have "set (account_refs ?db1) \<subseteq> acct_id ` set (accounts ?db1)"
    using delete_keeps_references [OF _ shrink(1), of acct_id "accounts db" "\<lambda>a. acct_owner a = owner"]
      hold account_references [of owner db] by (simp add: without_owner_def account_ids_def)
  moreover have "set (run_refs ?db1) \<subseteq> run_id ` set (sync_runs ?db1)"
    using delete_keeps_references [OF _ shrink(2), of run_id "sync_runs db" "\<lambda>r. run_account r \<in> set (owner_accounts owner db)"]
      hold own by (simp add: without_owner_def run_ids_def)
  moreover have "set (list_refs ?db1) \<subseteq> sl_id ` set (star_lists ?db1)"
    using delete_keeps_references [OF _ shrink(3), of sl_id "star_lists db" "\<lambda>l. sl_account l \<in> set (owner_accounts owner db)"]
      hold own by (simp add: without_owner_def list_ids_def)
  moreover have "rq_watch ` set (requests ?db1) \<subseteq> wt_id ` set (watches ?db1)"
    using delete_keeps_references [of "map rq_watch (requests db)" wt_id "watches db" "map rq_watch (requests ?db1)" "\<lambda>x. wt_owner x = owner"]
      hold own by (auto simp: without_owner_def)
  moreover have "ln_request ` set (links ?db1) \<subseteq> rq_id ` set (requests ?db1)"
    using delete_keeps_references [of "map ln_request (links db)" rq_id "requests db" "map ln_request (links ?db1)" "\<lambda>r. rq_owner r = owner"]
      hold own by (auto simp: without_owner_def)
  moreover have "aliases ?db1 = aliases db" "repositories ?db1 = repositories db" "catalog_children ?db1 = catalog_children db"
    by (simp_all add: without_owner_def catalog_children_def)
  ultimately show ?thesis using hold shrink(4) unfolding references_hold_def by auto
qed

lemma collected_references_hold:
  assumes "references_hold db"
  shows "references_hold (without_repositories (erasure_doomed candidates db) db)"
proof -
  let ?d = "erasure_doomed candidates db"
  let ?db' = "without_repositories ?d db"
  note hold = assms [unfolded references_hold_def]
  have same: "repository_references ?db' = repository_references db" "account_refs ?db' = account_refs db"
    "run_refs ?db' = run_refs db" "list_refs ?db' = list_refs db"
    by (simp_all add: without_repositories_def repository_references_def account_refs_def run_refs_def list_refs_def)
  have children: "set (catalog_children ?db') \<subseteq> set (catalog_children db)"
    by (auto simp: catalog_children_def without_repositories_def set_cleared_aliases)
  have "set (repository_references db @ catalog_children ?db') \<subseteq> repo_id ` set (repositories ?db')"
  proof -
    have "set (map repo_id (filter (\<lambda>r. repo_id r \<in> set ?d) (repositories db))) \<subseteq> set ?d" by auto
    then have "unreferenced (map repo_id (filter (\<lambda>r. repo_id r \<in> set ?d) (repositories db)))
        (repository_references db @ catalog_children ?db')"
      using repository_guard [of candidates db] unfolding unreferenced_iff by blast
    moreover have "set (repository_references db @ catalog_children ?db') \<subseteq> set (repository_references db @ catalog_children db)"
      using children by auto
    moreover have "repositories ?db' = delete_where (\<lambda>r. repo_id r \<in> set ?d) (repositories db)"
      by (simp add: without_repositories_def)
    ultimately show ?thesis using hold by (metis delete_keeps_references)
  qed
  moreover have "set (List.map_filter alias_redirect (aliases ?db')) \<subseteq> alias_id ` set (aliases ?db')"
  proof
    fix k
    assume "k \<in> set (List.map_filter alias_redirect (aliases ?db'))"
    then obtain a where a: "a \<in> set (aliases db)" "alias_repo a \<notin> set ?d" "alias_redirect a = Some k" "k \<notin> set (doomed_aliases ?d db)"
      by (auto simp: without_repositories_def set_map_filter set_cleared_aliases split: if_splits)
    with hold obtain b where b: "b \<in> set (aliases db)" "alias_id b = k" by (force simp: set_map_filter)
    with a(4) have "alias_repo b \<notin> set ?d" by (auto simp: doomed_aliases_def)
    moreover obtain c where "c \<in> set (aliases (clear_redirects ?d db))" "alias_id c = alias_id b" "alias_repo c = alias_repo b"
      using cleared_alias [OF b(1)] by blast
    ultimately have "c \<in> set (aliases ?db')" "k = alias_id c" using b(2) by (simp_all add: without_repositories_def)
    then show "k \<in> alias_id ` set (aliases ?db')" by blast
  qed
  ultimately show ?thesis
    using hold unfolding references_hold_def same by (simp add: without_repositories_def)
qed

lemma references_hold_cong:
  "references_hold (x\<lparr>policy_cursor := c\<rparr>) = references_hold x" "references_hold (x\<lparr>readme_blobs := t\<rparr>) = references_hold x"
  by (simp_all add: references_hold_def repository_references_def catalog_children_def account_refs_def run_refs_def list_refs_def)

text \<open>
  C12. When erasure succeeds, and that it never leaves a dangling reference: on a catalog whose foreign keys all
  resolve and whose publication counter has room, the erasing transaction fails with a foreign-key violation
  exactly if a row of another owner references a row of the erased one (\<open>entangled\<close>); otherwise the order of its
  statements meets no reference, it commits, and every foreign key resolves in what is left.
\<close>

theorem erasure_keeps_integrity:
  assumes "references_hold db" and "\<And>c. policy_cursor db = Some c \<Longrightarrow> cu_dirty c < i64_max"
  shows "if entangled owner db then erase_owner_state owner db = Inl ForeignKeyViolation
    else \<exists>db'. erase_owner_state owner db = Inr db' \<and> references_hold db'"
proof (cases "entangled owner db")
  case True
  then show ?thesis by (simp add: erase_owner_state_def Let_def delete_owner_rows_eq)
next
  case False
  let ?db1 = "without_owner owner db"
  have "references_hold (without_repositories (erasure_doomed (erasure_candidates owner db) ?db1) ?db1)"
    using deleted_references_hold [OF assms(1) False] by (rule collected_references_hold)
  then have "references_hold (erased owner db)"
    by (simp add: erased_def Let_def collect_unreferenced_readme_bytes_def references_hold_cong)
  with erase_owner_state_eq [OF False assms(2)] False show ?thesis by (auto simp: references_hold_cong)
qed

section \<open>Replay\<close>

lemma erase_tx_InrD:
  assumes "erase_tx operation digest owner outcome db = Inr (True, db')"
  shows "\<lparr>er_operation = operation, er_owner_digest = digest, er_outcome = outcome_label outcome\<rparr> \<in> set (erasures db')"
  using assms by (auto simp: erase_tx_def and_then_eq_Inr split: if_splits)

lemma erasure_replay_InrD:
  "erasure_replay digest r = Inr outcome \<Longrightarrow> er_owner_digest r = digest \<and> er_outcome r = outcome_label outcome"
  by (auto simp: erasure_replay_def split: if_splits)

lemma erasure_replay_label:
  "erasure_replay digest \<lparr>er_operation = operation, er_owner_digest = d, er_outcome = outcome_label outcome\<rparr> =
     (if d = digest then Inr outcome else Inl OperationOwnerMismatch)"
  by (cases outcome) (simp_all add: erasure_replay_def)

lemma erase_account_recorded:
  assumes "erase_account rt owner operation w = (Inr outcome, w')"
  shows "\<lparr>er_operation = operation, er_owner_digest = owner_digest rt owner, er_outcome = outcome_label outcome\<rparr>
    \<in> set (erasures (w_db w'))"
proof -
  let ?row = "\<lparr>er_operation = operation, er_owner_digest = owner_digest rt owner, er_outcome = outcome_label outcome\<rparr>"
  have seen: "?row \<in> set (erasures db)"
    if "recorded_operation operation db = Some r" "erasure_replay (owner_digest rt owner) r = Inr outcome" for db and r :: erasure_row
    using that by (cases r) (auto simp: recorded_operation_def dest!: find_by_SomeD erasure_replay_InrD)
  from assms show ?thesis
    unfolding erase_account_def Let_def
    by (auto simp: io_return_def io_fail_def split: option.splits if_splits
        elim!: io_bind_InrE dest!: io_map_err_InrD query_InrD transact_InrD erase_tx_InrD) (erule seen, assumption)+
qed

text \<open>
  C13. An erasure is answered once: after it returned an outcome, any later delivery of the same operation
  that finds the record returns the same outcome, changing nothing and contacting nobody, and a
  delivery for an owner with another digest is refused.
\<close>

theorem erasure_answered_once:
  assumes "erase_account rt owner operation w = (Inr outcome, w')"
    and "set (erasures (w_db w')) \<subseteq> set (erasures (w_db v))" and "distinct (map er_operation (erasures (w_db v)))"
    and "w_faults v = []"
  shows "erase_account rt other operation v =
    (if owner_digest rt other = owner_digest rt owner then Inr outcome else Inl OperationOwnerMismatch, v)"
proof -
  let ?row = "\<lparr>er_operation = operation, er_owner_digest = owner_digest rt owner, er_outcome = outcome_label outcome\<rparr>"
  have "?row \<in> set (erasures (w_db v))" using erase_account_recorded [OF assms(1)] assms(2) by blast
  then have "recorded_operation operation (w_db v) = Some ?row"
    using find_by_unique [OF assms(3), of operation ?row] by (simp add: recorded_operation_def)
  then show ?thesis
    using assms(4) by (simp add: erase_account_def Let_def io_bind_def io_map_err_def query_no_fault erasure_replay_label)
qed

section \<open>Evidence across owners\<close>

text \<open>
  An observation of another owner's list whose evidence is a run of the erased owner makes erasure
  impossible: the run cannot be deleted while that row names it, so every attempt fails and nothing
  of the owner is erased.
\<close>

theorem foreign_evidence_blocks_erasure:
  assumes "m \<in> set (member_observations db)" and "mo_list m \<notin> set (owner_lists owner db)"
    and "r \<in> set (sync_runs db)" and "run_account r \<in> set (owner_accounts owner db)"
    and "mo_evidence m = Some (run_id r)"
  shows "erase_owner_state owner db = Inl ForeignKeyViolation"
proof -
  have "run_id r \<in> set (owner_sync_runs owner db)" using assms(3,4) by (auto simp: run_ids_def)
  with assms(1,2,5) have "entangled owner db" unfolding entangled_def Let_def by auto
  then show ?thesis by (simp add: erase_owner_state_def Let_def delete_owner_rows_eq)
qed

section \<open>Two owners\<close>

definition alpha :: string where "alpha = ''user:00000000-0000-0000-0000-00000000000a''"
definition beta :: string where "beta = ''user:00000000-0000-0000-0000-00000000000b''"

definition account_of :: "uuid \<Rightarrow> string \<Rightarrow> account_row" where
  "account_of i owner = \<lparr>acct_id = i, acct_owner = owner, acct_status = Connected, acct_scopes = [],
     acct_provider = Some 9, acct_login = None\<rparr>"

definition repository_of :: "uuid \<Rightarrow> int \<Rightarrow> repo_row" where
  "repository_of i p = \<lparr>repo_id = i, repo_provider_id = p, repo_mode = None, repo_updated_at = 0\<rparr>"

definition starred_by :: "uuid \<Rightarrow> uuid \<Rightarrow> star_row" where
  "starred_by a r = \<lparr>ss_account = a, ss_repo = r, ss_starred = True, ss_starred_at = Some 0, ss_unknown = False,
     ss_last = 0, ss_unstarred = None, ss_evidence = None\<rparr>"

text \<open>Both owners star repository 2, only the first one repository 1.\<close>

definition two_owners :: catalog where
  "two_owners = empty_catalog\<lparr>next_uuid := 10, accounts := [account_of 7 alpha, account_of 8 beta],
     repositories := [repository_of 1 41, repository_of 2 42],
     star_state := [starred_by 7 1, starred_by 7 2, starred_by 8 2]\<rparr>"

lemma two_owners_facts:
  "unique_keys two_owners" "references_hold two_owners" "policy_cursor two_owners = None" "\<not> entangled alpha two_owners"
proof -
  show "unique_keys two_owners"
    by (simp add: unique_keys_def two_owners_def empty_catalog_def account_of_def repository_of_def)
  show "\<not> entangled alpha two_owners" by code_simp
  show "references_hold two_owners" by code_simp
  show "policy_cursor two_owners = None" by (simp add: two_owners_def empty_catalog_def)
qed


theorem erasure_keeps_integrity_witness:
  "\<exists>db'. erase_owner_state alpha two_owners = Inr db' \<and> references_hold db'"
  using erasure_keeps_integrity [OF two_owners_facts(2), of alpha] two_owners_facts(3,4) by simp

definition sample_erasure :: erasure_runtime where
  "sample_erasure = \<lparr>ea_cipher = sample_cipher, ea_key = None, ea_app = None,
     ea_revoke = (\<lambda>_ _ _. Answer 1 (Inr ())), ea_sha256 = (\<lambda>bs. bs)\<rparr>"

definition erased_once where "erased_once = erase_account sample_erasure alpha 99 (idle_world two_owners)"

theorem erasure_answered_once_witness:
  "erase_account sample_erasure alpha 99 (snd erased_once) = (Inr ErasureVerified, snd erased_once) \<and>
   fst (erase_account sample_erasure beta 99 (snd erased_once)) = Inl OperationOwnerMismatch"
proof -
  have "fst erased_once = Inr ErasureVerified" "w_faults (snd erased_once) = []"
    "distinct (map er_operation (erasures (w_db (snd erased_once))))"
    "owner_digest sample_erasure beta \<noteq> owner_digest sample_erasure alpha" by code_simp+
  moreover from this have "erase_account sample_erasure alpha 99 (idle_world two_owners) = (Inr ErasureVerified, snd erased_once)"
    unfolding erased_once_def by (metis prod.collapse)
  ultimately show ?thesis using erasure_answered_once [of sample_erasure alpha 99] by simp
qed

text \<open>
  Two owners connected to the same GitHub user: the enumeration of the first one records its
  observations on the lists of both.
\<close>

definition same_user :: catalog where
  "same_user = lists_account\<lparr>accounts := [account_of 7 alpha, account_of 8 beta],
     star_lists := map (\<lambda>(l, a). \<lparr>sl_id = l, sl_account = a, sl_provider = ''a'', sl_name = ''A'',
       sl_status = ListActive, sl_removed = None, sl_evidence = None\<rparr>) [(3, 7), (4, 8)]\<rparr>"

definition enumerated :: catalog where
  "enumerated = w_db (snd (run_star_list_snapshot
     (one_list_api [\<lparr>lp_provider_repository_id = 42, lp_full_name = ''o/r''\<rparr>]) ''t'' 7 5 (idle_world same_user)))"

theorem foreign_evidence_blocks_erasure_witness:
  "erase_owner_state alpha enumerated = Inl ForeignKeyViolation"
proof -
  have "\<exists>m\<in>set (member_observations enumerated). mo_list m \<notin> set (owner_lists alpha enumerated) \<and>
      (\<exists>r\<in>set (sync_runs enumerated). run_account r \<in> set (owner_accounts alpha enumerated) \<and>
         mo_evidence m = Some (run_id r))"
    by code_simp
  then show ?thesis using foreign_evidence_blocks_erasure by blast
qed

end
