(* ===== verification/Legacy.thy ===== *)
theory Legacy
  imports Credentials Identity
begin

text \<open>
  The import from the retired catalog and its shadow comparison (\<open>crates/catalog/src/legacy.rs\<close>,
  \<open>legacy/shadow.rs\<close>, \<open>legacy/source.rs\<close>): the owner map, the idempotent import of a read snapshot in
  one transaction with its audited run, and the report that says whether the imported evidence agrees
  with what the scans have found. The rows of the retired database are an argument; \<open>serde_json\<close>,
  SHA-256 and the tenant parser are functions.
\<close>

section \<open>Data\<close>

record legacy_repository =
  lg_legacy_repository_id :: int
  lg_provider_repository_id :: int
  lg_owner :: string
  lg_name :: string
  lg_legacy_user_id :: int
  lg_starred :: bool
  lg_observed_at :: "timestamp option"
  lg_list_names :: "string list"

record legacy_integration =
  ig_legacy_user_id :: int
  ig_granted_scopes :: "string option"
  ig_login :: "string option"
  ig_provider_user_id :: "int option"
  ig_status :: string

record legacy_snapshot =
  ls_repositories :: "legacy_repository list"
  ls_integrations :: "legacy_integration list"

datatype legacy_owner_map_error = InvalidDocument | DuplicateLegacyUser | UnmappedLegacyUser

datatype legacy_import_error =
    ImportInvalidSourceId
  | ImportOwnerMap legacy_owner_map_error
  | ConflictingSourceData
  | ImportAliasConflict
  | ImportPersistence sql_error

text \<open>A map is the list of its entries in key order.\<close>

type_synonym legacy_owner_map = "(int \<times> string) list"

record legacy_import_request =
  lq_source_id :: string
  lq_owner_map :: legacy_owner_map
  lq_snapshot :: legacy_snapshot

record import_counts =
  ic_repositories :: int
  ic_star_claims :: int
  ic_list_claims :: int

record legacy_import_outcome =
  lo_import_run_id :: uuid
  lo_accounts_imported :: int
  lo_counts :: import_counts

section \<open>Reading the retired rows\<close>

datatype legacy_source_error = SourceConnect | SourceSchema | SourceQuery | SourceInvalidData

record legacy_repository_row =
  lw_legacy_repository_id :: int
  lw_provider_repository_id :: int
  lw_owner :: string
  lw_name :: string
  lw_legacy_user_id :: int
  lw_starred :: bool
  lw_last_synced_at :: "timestamp option"
  lw_list_names :: json

text \<open>
  The retired database: what its schema catalog and the two fixed queries answer, \<open>None\<close> when a query
  fails.
\<close>

record legacy_source =
  lx_columns :: "string \<Rightarrow> (string \<times> string) list option"
  lx_repositories :: "legacy_repository_row list option"
  lx_integrations :: "legacy_integration list option"

fun json_texts :: "json list \<Rightarrow> string list option" where
  "json_texts [] = Some []"
| "json_texts (JStr s # vs) = map_option (\<lambda>ts. s # ts) (json_texts vs)"
| "json_texts _ = None"

fun list_names_of :: "json \<Rightarrow> (legacy_source_error, string list) result" where
  "list_names_of (JArr vs) = ok_or SourceInvalidData (json_texts vs)"
| "list_names_of _ = Inl SourceInvalidData"

definition repository_of_row :: "legacy_repository_row \<Rightarrow> (legacy_source_error, legacy_repository) result" where
  "repository_of_row row =
     and_then (list_names_of (lw_list_names row)) (\<lambda>names.
       Inr \<lparr>lg_legacy_repository_id = lw_legacy_repository_id row, lg_provider_repository_id = lw_provider_repository_id row,
            lg_owner = lw_owner row, lg_name = lw_name row, lg_legacy_user_id = lw_legacy_user_id row,
            lg_starred = lw_starred row, lg_observed_at = lw_last_synced_at row, lg_list_names = names\<rparr>)"

fun repositories_of_rows :: "legacy_repository_row list \<Rightarrow> (legacy_source_error, legacy_repository list) result" where
  "repositories_of_rows [] = Inr []"
| "repositories_of_rows (row # rows) =
     and_then (repository_of_row row) (\<lambda>r. and_then (repositories_of_rows rows) (\<lambda>rs. Inr (r # rs)))"

text \<open>The columns a fixed query needs, with the types it accepts, against those of the source.\<close>

definition columns_present :: "(string \<times> string list) list \<Rightarrow> (string \<times> string) list \<Rightarrow> bool" where
  "columns_present required actual \<longleftrightarrow>
     list_all (\<lambda>(name, types). list_ex (\<lambda>(n, t). n = name \<and> t \<in> set types) actual) required"

definition ensure_columns :: "legacy_source \<Rightarrow> string \<Rightarrow> (string \<times> string list) list \<Rightarrow> (legacy_source_error, unit) result" where
  "ensure_columns src table required =
     and_then (ok_or SourceQuery (lx_columns src table)) (\<lambda>actual.
       if columns_present required actual then Inr () else Inl SourceSchema)"

definition preflight :: "legacy_source \<Rightarrow> (legacy_source_error, unit) result" where
  "preflight src =
     and_then (ensure_columns src ''repositories''
       [(''id'', [''integer'', ''bigint'']), (''github_id'', [''bigint'']),
        (''owner'', [''character varying'', ''text'']), (''name'', [''character varying'', ''text'']),
        (''user_id'', [''integer'', ''bigint'']), (''is_starred'', [''boolean'']),
        (''last_synced_at'', [''timestamp with time zone'']), (''list_names'', [''jsonb''])]) (\<lambda>_.
     ensure_columns src ''user_github_integrations''
       [(''id'', [''integer'', ''bigint'']), (''user_id'', [''integer'', ''bigint'']),
        (''token_scopes'', [''character varying'', ''text'']), (''github_login'', [''character varying'', ''text'']),
        (''github_user_id'', [''integer'', ''bigint'']),
        (''status'', [''USER-DEFINED'', ''character varying'', ''text''])])"

definition read_snapshot :: "legacy_source \<Rightarrow> (legacy_source_error, legacy_snapshot) result" where
  "read_snapshot src =
     and_then (preflight src) (\<lambda>_.
     and_then (ok_or SourceQuery (lx_repositories src)) (\<lambda>rows.
     and_then (ok_or SourceQuery (lx_integrations src)) (\<lambda>integrations.
     and_then (repositories_of_rows rows) (\<lambda>repos.
       Inr \<lparr>ls_repositories = repos, ls_integrations = integrations\<rparr>))))"

section \<open>The owner map\<close>

fun owner_map_insert :: "(string \<Rightarrow> bool) \<Rightarrow> (int \<times> string) list \<Rightarrow> legacy_owner_map \<Rightarrow>
    (legacy_owner_map_error, legacy_owner_map) result" where
  "owner_map_insert tenant [] owners = Inr owners"
| "owner_map_insert tenant ((user, owner) # entries) owners =
     (if user \<le> 0 \<or> \<not> tenant owner then Inl InvalidDocument
      else if user \<in> fst ` set owners then Inl DuplicateLegacyUser
      else owner_map_insert tenant entries (insort_key fst (user, owner) owners))"

definition owner_map_from_json ::
    "(string \<Rightarrow> (int \<times> string) list option) \<Rightarrow> (string \<Rightarrow> bool) \<Rightarrow> string \<Rightarrow> (legacy_owner_map_error, legacy_owner_map) result" where
  "owner_map_from_json parse tenant document =
     and_then (ok_or InvalidDocument (parse document)) (\<lambda>entries. owner_map_insert tenant entries [])"

definition owner_for :: "legacy_owner_map \<Rightarrow> int \<Rightarrow> (legacy_owner_map_error, string) result" where
  "owner_for owners user = ok_or UnmappedLegacyUser (map_of owners user)"

section \<open>Validation of the snapshot\<close>

definition source_id_char :: "char \<Rightarrow> bool" where
  "source_id_char c \<longleftrightarrow>
     CHR ''a'' \<le> c \<and> c \<le> CHR ''z'' \<or> CHR ''0'' \<le> c \<and> c \<le> CHR ''9''"

definition valid_source_id :: "string \<Rightarrow> bool" where
  "valid_source_id value \<longleftrightarrow>
     (case value of
        [] \<Rightarrow> False
      | first # bytes \<Rightarrow>
          source_id_char first \<and> length value \<le> 64 \<and>
          list_all (\<lambda>c. source_id_char c \<or> c \<in> set ''._-'') bytes)"

definition source_id_pattern :: pattern where
  "source_id_pattern = Seq (OneOf (lowercase @ digits)) (Rep 0 63 (OneOf (lowercase @ digits @ ''._-'')))"

fun integrations_by_user :: "legacy_integration list \<Rightarrow> (int \<times> legacy_integration) list \<Rightarrow>
    (legacy_import_error, (int \<times> legacy_integration) list) result" where
  "integrations_by_user [] seen = Inr seen"
| "integrations_by_user (i # is) seen =
     (if ig_legacy_user_id i \<le> 0 \<or> (case ig_provider_user_id i of None \<Rightarrow> False | Some p \<Rightarrow> p \<le> 0) \<or>
         ig_legacy_user_id i \<in> fst ` set seen
      then Inl ConflictingSourceData
      else integrations_by_user is (insort_key fst (ig_legacy_user_id i, i) seen))"

definition snapshot_users :: "legacy_snapshot \<Rightarrow> (int \<times> legacy_integration) list \<Rightarrow> int list" where
  "snapshot_users s integrations =
     sort (remdups (map lg_legacy_user_id (ls_repositories s) @ map fst integrations))"

fun owner_refs_of :: "legacy_owner_map \<Rightarrow> int list \<Rightarrow> (legacy_import_error, (int \<times> string) list) result" where
  "owner_refs_of owners [] = Inr []"
| "owner_refs_of owners (u # us) =
     (case owner_for owners u of
        Inl e \<Rightarrow> Inl (ImportOwnerMap e)
      | Inr owner \<Rightarrow> and_then (owner_refs_of owners us) (\<lambda>rest. Inr ((u, owner) # rest)))"

section \<open>Accounts\<close>

fun split_on :: "char \<Rightarrow> string \<Rightarrow> string list" where
  "split_on c [] = [[]]"
| "split_on c (x # xs) =
     (case split_on c xs of
        [] \<Rightarrow> [[x]]
      | part # parts \<Rightarrow> if x = c then [] # part # parts else (x # part) # parts)"

definition split_scopes :: "string option \<Rightarrow> string list" where
  "split_scopes scopes =
     (case scopes of None \<Rightarrow> [] | Some s \<Rightarrow> filter (\<lambda>t. t \<noteq> []) (map trim_text (split_on (CHR '','') s)))"

definition legacy_account_key :: "legacy_account_row \<Rightarrow> string \<times> int" where
  "legacy_account_key r = (la_source r, la_user r)"

definition imported_account_id ::
    "string \<Rightarrow> int \<Rightarrow> string \<Rightarrow> legacy_integration option \<Rightarrow> catalog \<Rightarrow>
     (legacy_import_error, (uuid \<times> bool) \<times> catalog) result" where
  "imported_account_id source user owner integration db =
     (case find_by legacy_account_key (source, user) (legacy_accounts db) of
        Some r \<Rightarrow> Inr ((la_account r, False), db)
      | None \<Rightarrow>
          let provider = Option.bind integration ig_provider_user_id;
              existing = Option.bind provider (\<lambda>p. map_option acct_id
                (find (\<lambda>a. acct_owner a = owner \<and> acct_provider a = Some p) (accounts db)))
          in
          and_then
            (case existing of
               Some i \<Rightarrow> Inr (i, db)
             | None \<Rightarrow>
                 if \<not> matches account_owner_pattern owner then Inl (ImportPersistence CheckViolation)
                 else
                   let (i, db1) = fresh_uuid db in
                   Inr (i, db1\<lparr>accounts := accounts db1 @
                     [\<lparr>acct_id = i, acct_owner = owner, acct_status = ReauthorizationRequired,
                       acct_scopes = split_scopes (Option.bind integration ig_granted_scopes),
                       acct_provider = provider, acct_login = Option.bind integration ig_login\<rparr>]\<rparr>))
            (\<lambda>(i, db2).
               if user \<le> 0 then Inl (ImportPersistence CheckViolation)
               else Inr ((i, True), db2\<lparr>legacy_accounts := legacy_accounts db2 @
                 [\<lparr>la_source = source, la_user = user, la_account = i\<rparr>]\<rparr>)))"

fun import_legacy_accounts ::
    "string \<Rightarrow> (int \<times> legacy_integration) list \<Rightarrow> (int \<times> string) list \<Rightarrow> (int \<times> uuid) list \<Rightarrow> int \<Rightarrow> catalog \<Rightarrow>
     (legacy_import_error, ((int \<times> uuid) list \<times> int) \<times> catalog) result" where
  "import_legacy_accounts source integrations [] accts imported db = Inr ((accts, imported), db)"
| "import_legacy_accounts source integrations ((user, owner) # refs) accts imported db =
     and_then (imported_account_id source user owner (map_of integrations user) db) (\<lambda>((i, was_imported), db1).
       import_legacy_accounts source integrations refs (accts @ [(user, i)])
         (sat_u32 (imported + (if was_imported then 1 else 0))) db1)"

section \<open>Repositories\<close>

definition record_legacy_alias ::
    "uuid \<Rightarrow> string \<Rightarrow> string \<Rightarrow> catalog \<Rightarrow> (legacy_import_error, catalog) result" where
  "record_legacy_alias repo owner name db =
     (if owner = [] \<or> name = [] then Inl ConflictingSourceData
      else
        let value = owner @ ''/'' @ name in
        case find (\<lambda>a. alias_kind a = OwnerName \<and> alias_value a = value \<and> alias_status a = Active) (aliases db) of
          Some a \<Rightarrow> if alias_repo a \<noteq> repo then Inl ImportAliasConflict else Inr db
        | None \<Rightarrow>
            let (i, db1) = fresh_uuid db in
            Inr (db1\<lparr>aliases := aliases db1 @
              [\<lparr>alias_id = i, alias_repo = repo, alias_kind = OwnerName, alias_value = value,
                alias_status = Active, alias_redirect = None, alias_created = db_clock db1\<rparr>]\<rparr>))"

definition legacy_star_merge :: "star_row \<Rightarrow> star_row \<Rightarrow> star_row" where
  "legacy_star_merge old new =
     old\<lparr>ss_starred := True, ss_starred_at := None, ss_unknown := True, ss_last := ss_last new,
         ss_unstarred := None, ss_evidence := None\<rparr>"

definition import_legacy_star :: "uuid \<Rightarrow> uuid \<Rightarrow> timestamp \<Rightarrow> catalog \<Rightarrow> catalog" where
  "import_legacy_star acct repo observed db =
     db\<lparr>star_observations := star_observations db @
         [\<lparr>so_account = acct, so_repo = repo, so_starred = True, so_provider_at = None, so_unknown = True,
           so_observed = observed\<rparr>],
       star_state := upsert star_key legacy_star_merge
         \<lparr>ss_account = acct, ss_repo = repo, ss_starred = True, ss_starred_at = None, ss_unknown = True,
          ss_last = observed, ss_unstarred = None, ss_evidence = None\<rparr> (star_state db)\<rparr>"

definition legacy_claim_key :: "legacy_claim_row \<Rightarrow> string \<times> int \<times> string" where
  "legacy_claim_key r = (lc_source r, lc_id r, lc_list r)"

fun import_legacy_list_claims ::
    "string \<Rightarrow> int \<Rightarrow> uuid \<Rightarrow> uuid \<Rightarrow> timestamp \<Rightarrow> string list \<Rightarrow> int \<Rightarrow> catalog \<Rightarrow>
     (legacy_import_error, int \<times> catalog) result" where
  "import_legacy_list_claims source legacy_id acct repo observed [] count db = Inr (count, db)"
| "import_legacy_list_claims source legacy_id acct repo observed (raw # names) count db =
     (let name = trim_text raw in
      if name = [] \<or> 256 < length name then Inl ConflictingSourceData
      else
        let row = \<lparr>lc_source = source, lc_id = legacy_id, lc_account = acct, lc_repo = repo,
                   lc_list = name, lc_observed = observed\<rparr>;
            inserted = (legacy_claim_key row \<notin> legacy_claim_key ` set (legacy_claims db))
        in import_legacy_list_claims source legacy_id acct repo observed names
             (sat_u32 (count + (if inserted then 1 else 0)))
             (db\<lparr>legacy_claims := insert_ignore legacy_claim_key row (legacy_claims db)\<rparr>))"

definition legacy_record_key :: "legacy_record_row \<Rightarrow> string \<times> int" where
  "legacy_record_key r = (le_source r, le_id r)"

definition no_counts :: import_counts where
  "no_counts = \<lparr>ic_repositories = 0, ic_star_claims = 0, ic_list_claims = 0\<rparr>"

definition add_counts :: "import_counts \<Rightarrow> import_counts \<Rightarrow> import_counts" where
  "add_counts a b =
     \<lparr>ic_repositories = sat_u32 (ic_repositories a + ic_repositories b),
      ic_star_claims = sat_u32 (ic_star_claims a + ic_star_claims b),
      ic_list_claims = sat_u32 (ic_list_claims a + ic_list_claims b)\<rparr>"

text \<open>\<open>now\<close> is the process clock, read when the retired row has no observation time.\<close>

definition import_legacy_repository ::
    "timestamp \<Rightarrow> string \<Rightarrow> (int \<times> uuid) list \<Rightarrow> legacy_repository \<Rightarrow> catalog \<Rightarrow>
     (legacy_import_error, import_counts \<times> catalog) result" where
  "import_legacy_repository now source accts r db =
     (if (source, lg_legacy_repository_id r) \<in> legacy_record_key ` set (legacy_records db)
      then Inr (no_counts, db)
      else
        and_then (ok_or ConflictingSourceData (map_of accts (lg_legacy_user_id r))) (\<lambda>acct.
        case upsert_repository_in_tx (lg_provider_repository_id r) db of
          Inl e \<Rightarrow> Inl (ImportPersistence e)
        | Inr (repo, db1) \<Rightarrow>
            and_then (record_legacy_alias repo (lg_owner r) (lg_name r) db1) (\<lambda>db2.
              let observed = (case lg_observed_at r of None \<Rightarrow> now | Some t \<Rightarrow> t);
                  db3 = (if lg_starred r then import_legacy_star acct repo observed db2 else db2)
              in
              and_then (import_legacy_list_claims source (lg_legacy_repository_id r) acct repo observed
                  (lg_list_names r) 0 db3) (\<lambda>(list_claims, db4).
                Inr (\<lparr>ic_repositories = 1, ic_star_claims = (if lg_starred r then 1 else 0),
                      ic_list_claims = list_claims\<rparr>,
                  db4\<lparr>legacy_records := legacy_records db4 @
                    [\<lparr>le_source = source, le_id = lg_legacy_repository_id r, le_account = acct,
                      le_repo = repo, le_starred = lg_starred r\<rparr>]\<rparr>)))))"

fun import_legacy_repositories ::
    "timestamp \<Rightarrow> string \<Rightarrow> (int \<times> uuid) list \<Rightarrow> legacy_repository list \<Rightarrow> import_counts \<Rightarrow> catalog \<Rightarrow>
     (legacy_import_error, import_counts \<times> catalog) result" where
  "import_legacy_repositories now source accts [] counts db = Inr (counts, db)"
| "import_legacy_repositories now source accts (r # rs) counts db =
     and_then (import_legacy_repository now source accts r db) (\<lambda>(c, db1).
       import_legacy_repositories now source accts rs (add_counts counts c) db1)"

section \<open>The import\<close>

definition i32_or_max :: "int \<Rightarrow> int" where
  "i32_or_max n = (if n \<le> i32_max then n else i32_max)"

definition complete_import_run :: "uuid \<Rightarrow> int \<Rightarrow> import_counts \<Rightarrow> catalog \<Rightarrow> catalog" where
  "complete_import_run run accts counts db =
     db\<lparr>legacy_imports := update_where (\<lambda>r. im_id r = run)
       (\<lambda>r. r\<lparr>im_status := ImportCompleted, im_accounts := i32_or_max accts,
              im_repositories := i32_or_max (ic_repositories counts),
              im_stars := i32_or_max (ic_star_claims counts), im_lists := i32_or_max (ic_list_claims counts),
              im_finished := Some (db_clock db)\<rparr>) (legacy_imports db)\<rparr>"

definition import_legacy_transaction ::
    "timestamp \<Rightarrow> legacy_import_request \<Rightarrow> (int \<times> legacy_integration) list \<Rightarrow> uuid \<Rightarrow> (int \<times> string) list \<Rightarrow> catalog \<Rightarrow>
     (legacy_import_error, legacy_import_outcome \<times> catalog) result" where
  "import_legacy_transaction now request integrations run refs db =
     and_then (import_legacy_accounts (lq_source_id request) integrations refs [] 0 db) (\<lambda>((accts, imported), db1).
     and_then (import_legacy_repositories now (lq_source_id request) accts
         (ls_repositories (lq_snapshot request)) no_counts db1) (\<lambda>(counts, db2).
       Inr (\<lparr>lo_import_run_id = run, lo_accounts_imported = imported, lo_counts = counts\<rparr>,
         complete_import_run run imported counts db2)))"

fun failure_code :: "legacy_import_error \<Rightarrow> string" where
  "failure_code ConflictingSourceData = ''conflicting_source_data''"
| "failure_code ImportAliasConflict = ''alias_conflict''"
| "failure_code _ = ''persistence''"

definition open_import_tx :: "string \<Rightarrow> catalog \<Rightarrow> (legacy_import_error, uuid \<times> catalog) result" where
  "open_import_tx source db =
     (if \<not> matches source_id_pattern source then Inl (ImportPersistence CheckViolation)
      else
        let (run, db1) = fresh_uuid db in
        Inr (run, db1\<lparr>legacy_imports := legacy_imports db1 @
          [\<lparr>im_id = run, im_source = source, im_status = ImportRunning, im_accounts = 0, im_repositories = 0,
            im_stars = 0, im_lists = 0, im_failure = None, im_finished = None\<rparr>]\<rparr>))"

definition record_import_failure :: "uuid \<Rightarrow> string \<Rightarrow> catalog \<Rightarrow> catalog" where
  "record_import_failure run code db =
     db\<lparr>legacy_imports := update_where (\<lambda>r. im_id r = run \<and> im_status r = ImportRunning)
       (\<lambda>r. r\<lparr>im_status := ImportFailed, im_failure := Some code, im_finished := Some (db_clock db)\<rparr>)
       (legacy_imports db)\<rparr>"

text \<open>What is settled before anything is written: the integrations by user and the owner of each user.\<close>

definition plan_import ::
    "legacy_import_request \<Rightarrow> (legacy_import_error, (int \<times> legacy_integration) list \<times> (int \<times> string) list) result" where
  "plan_import request =
     and_then (integrations_by_user (ls_integrations (lq_snapshot request)) []) (\<lambda>integrations.
     and_then (owner_refs_of (lq_owner_map request) (snapshot_users (lq_snapshot request) integrations)) (\<lambda>refs.
       Inr (integrations, refs)))"

definition run_import ::
    "timestamp \<Rightarrow> legacy_import_request \<Rightarrow> (int \<times> legacy_integration) list \<Rightarrow> (int \<times> string) list \<Rightarrow> uuid \<Rightarrow>
     (legacy_import_error, legacy_import_outcome) io" where
  "run_import now request integrations refs run w =
     (case transact_with ImportPersistence (import_legacy_transaction now request integrations run refs) w of
        (Inr out, w') \<Rightarrow> (Inr out, w')
      | (Inl e, w') \<Rightarrow>
          (Inl e, snd (transact (\<lambda>db. Inr ((), record_import_failure run (failure_code e) db)) w')))"

definition import_legacy_snapshot ::
    "timestamp \<Rightarrow> legacy_import_request \<Rightarrow> (legacy_import_error, legacy_import_outcome) io" where
  "import_legacy_snapshot now request =
     (if \<not> valid_source_id (lq_source_id request) then io_fail ImportInvalidSourceId
      else
        case plan_import request of
          Inl e \<Rightarrow> io_fail e
        | Inr (integrations, refs) \<Rightarrow>
            io_bind (transact_with ImportPersistence (open_import_tx (lq_source_id request)))
              (run_import now request integrations refs))"

section \<open>The shadow report\<close>

datatype legacy_shadow_error = ShadowInvalidSourceId | ShadowQuery sql_error | ShadowEncoding | ShadowPersistence sql_error | NotReviewable

record shadow_counts =
  sc_accounts_reauthorization_required :: int
  sc_full_snapshots_missing :: int
  sc_list_snapshots_missing :: int
  sc_star_claims_mismatched :: int
  sc_provider_star_times_unknown :: int
  sc_list_claims_missing_from_provider :: int

definition is_clean :: "shadow_counts \<Rightarrow> bool" where
  "is_clean c \<longleftrightarrow>
     sc_accounts_reauthorization_required c = 0 \<and> sc_full_snapshots_missing c = 0 \<and>
     sc_list_snapshots_missing c = 0 \<and> sc_star_claims_mismatched c = 0 \<and>
     sc_provider_star_times_unknown c = 0 \<and> sc_list_claims_missing_from_provider c = 0"

definition shadow_count :: "'a list \<Rightarrow> int" where
  "shadow_count rows = u32_or u32_max (int (length rows))"

text \<open>Joins produce a row for each pair of matching rows; a left join one more for an unmatched row.\<close>

definition imported_accounts :: "string \<Rightarrow> catalog \<Rightarrow> account_row list" where
  "imported_accounts source db =
     concat (map (\<lambda>ia. filter (\<lambda>a. acct_id a = la_account ia) (accounts db))
       (filter (\<lambda>ia. la_source ia = source) (legacy_accounts db)))"

definition snapshot_missing :: "sync_mode \<Rightarrow> catalog \<Rightarrow> account_row \<Rightarrow> bool" where
  "snapshot_missing m db a \<longleftrightarrow>
     (case find_by cr_account (acct_id a) (credentials db) of
        None \<Rightarrow> True
      | Some c \<Rightarrow>
          \<not> list_ex (\<lambda>r. run_account r = acct_id a \<and> run_mode r = m \<and> run_status r = RunCompleted \<and>
             (case run_finished r of None \<Rightarrow> False | Some t \<Rightarrow> cr_updated c \<le> t)) (sync_runs db))"

text \<open>
  The unmatched rows of the two left joins: a claim appears once for each list of its name without
  the membership, and once if there is no such list at all.
\<close>

definition unbacked_rows :: "catalog \<Rightarrow> legacy_claim_row \<Rightarrow> legacy_claim_row list" where
  "unbacked_rows db c =
     (let named = filter (\<lambda>l. sl_account l = lc_account c \<and> sl_name l = lc_list c \<and> sl_status l = ListActive) (star_lists db)
      in if named = [] then [c]
         else map (\<lambda>_. c) (filter (\<lambda>l. \<not> list_ex (\<lambda>m. lm_list m = sl_id l \<and> lm_repo m = lc_repo c \<and> lm_member m)
           (memberships db)) named))"

definition collect_shadow_counts :: "string \<Rightarrow> catalog \<Rightarrow> shadow_counts" where
  "collect_shadow_counts source db =
     (let records = filter (\<lambda>r. le_source r = source) (legacy_records db);
          connected = filter (\<lambda>a. acct_status a = Connected) (imported_accounts source db)
      in
      \<lparr>sc_accounts_reauthorization_required =
         shadow_count (filter (\<lambda>a. acct_status a \<noteq> Connected) (imported_accounts source db)),
       sc_full_snapshots_missing = shadow_count (filter (snapshot_missing ModeFull db) connected),
       sc_list_snapshots_missing = shadow_count (filter (snapshot_missing ModeStarLists db) connected),
       sc_star_claims_mismatched =
         shadow_count (filter (\<lambda>r. le_starred r \<noteq> is_starred db (le_account r) (le_repo r)) records),
       sc_provider_star_times_unknown =
         shadow_count (filter (\<lambda>r. le_starred r \<and>
           (case star_of db (le_account r) (le_repo r) of None \<Rightarrow> False | Some s \<Rightarrow> ss_starred s \<and> ss_unknown s)) records),
       sc_list_claims_missing_from_provider =
         shadow_count (concat (map (unbacked_rows db) (filter (\<lambda>c. lc_source c = source) (legacy_claims db))))\<rparr>)"

record legacy_shadow_report =
  sr_report_id :: uuid
  sr_report_digest :: string
  sr_source_id :: string
  sr_counts :: shadow_counts
  sr_cutover_reviewable :: bool

text \<open>
  The two encoders of a report and the hash are functions; a report is a struct, so its value is a JSON
  object, and a digest of 32 bytes has the 64 hexadecimal digits that the table asks for. Each count
  is its own query; they read one catalog here, since no other writer is interleaved with an operation.
\<close>

definition persist_shadow_report ::
    "(legacy_shadow_report \<Rightarrow> string option) \<Rightarrow> (legacy_shadow_report \<Rightarrow> (string \<times> json) list option) \<Rightarrow>
     (8 word list \<Rightarrow> 8 word list) \<Rightarrow> string \<Rightarrow> shadow_counts \<Rightarrow> catalog \<Rightarrow> (legacy_shadow_error, legacy_shadow_report \<times> catalog) result" where
  "persist_shadow_report to_string to_value sha256 source counts db =
     (let (i, db1) = fresh_uuid db;
          body = \<lparr>sr_report_id = i, sr_report_digest = [], sr_source_id = source, sr_counts = counts,
                  sr_cutover_reviewable = is_clean counts\<rparr>
      in
      and_then (ok_or ShadowEncoding (to_string body)) (\<lambda>canonical.
        let report = body\<lparr>sr_report_digest := sha256_hex (sha256 (map byte_of canonical))\<rparr> in
        and_then (ok_or ShadowEncoding (to_value report)) (\<lambda>j.
          Inr (report, db1\<lparr>shadow_reports := shadow_reports db1 @
            [\<lparr>sh_id = i, sh_source = source, sh_digest = sr_report_digest report, sh_report = JObj j,
              sh_reviewable = is_clean counts, sh_created = db_clock db1\<rparr>]\<rparr>))))"

definition generate_legacy_shadow_report ::
    "(legacy_shadow_report \<Rightarrow> string option) \<Rightarrow> (legacy_shadow_report \<Rightarrow> (string \<times> json) list option) \<Rightarrow>
     (8 word list \<Rightarrow> 8 word list) \<Rightarrow> string \<Rightarrow> (legacy_shadow_error, legacy_shadow_report) io" where
  "generate_legacy_shadow_report to_string to_value sha256 source =
     (if \<not> valid_source_id source then io_fail ShadowInvalidSourceId
      else
        io_bind (io_map_err ShadowQuery (query (collect_shadow_counts source))) (\<lambda>counts.
          transact_with ShadowPersistence (persist_shadow_report to_string to_value sha256 source counts)))"

definition legacy_shadow_account_ids :: "string \<Rightarrow> (legacy_shadow_error, uuid list) io" where
  "legacy_shadow_account_ids source =
     (if \<not> valid_source_id source then io_fail ShadowInvalidSourceId
      else io_map_err ShadowQuery (query (\<lambda>db.
        sort (map acct_id (filter (\<lambda>a. acct_status a = Connected) (imported_accounts source db))))))"

definition latest_clean_report :: "string \<Rightarrow> catalog \<Rightarrow> shadow_row option" where
  "latest_clean_report source db =
     max_by (\<lambda>r. (sh_created r, sh_id r)) (filter (\<lambda>r. sh_source r = source \<and> sh_reviewable r) (shadow_reports db))"

definition legacy_cutover_readiness :: "string \<Rightarrow> (legacy_shadow_error, uuid \<times> string) io" where
  "legacy_cutover_readiness source =
     (if \<not> valid_source_id source then io_fail ShadowInvalidSourceId
      else
        io_bind (io_map_err ShadowQuery (query (latest_clean_report source))) (\<lambda>report.
          case report of
            None \<Rightarrow> io_fail NotReviewable
          | Some r \<Rightarrow> io_return (sh_id r, sh_digest r)))"

end
