(* ===== verification/Legacy_Safety.thy ===== *)
theory Legacy_Safety
  imports Legacy
begin

text \<open>
  What the import and its report guarantee: a completed import can be repeated and adds nothing, a
  failed one leaves only its audited run, and a reviewable report means that every imported account, star
  and list claim agrees with the scans; the converse needs unambiguous list names.
\<close>

section \<open>The source label\<close>

text \<open>
  The importer's check of a source label is exactly the regular expression with which the tables
  guard their source columns, so a label it accepts is never refused by the database.
\<close>

theorem source_id_grammar: "valid_source_id v \<longleftrightarrow> v \<in> language source_id_pattern"
proof -
  have char: "c \<in> set (lowercase @ digits) \<longleftrightarrow> source_id_char c" for c
    by (auto simp: set_lowercase set_digits source_id_char_def)
  have "v \<in> language source_id_pattern \<longleftrightarrow>
      (\<exists>c u. v = c # u \<and> c \<in> set (lowercase @ digits) \<and> length u \<le> 63 \<and> set u \<subseteq> set (lowercase @ digits @ ''._-''))"
    unfolding source_id_pattern_def language.simps(2,3) language_Rep_OneOf one_append by auto
  also have "\<dots> \<longleftrightarrow> valid_source_id v"
    unfolding valid_source_id_def char
    by (cases v) (auto simp: list_all_iff subset_iff char [simplified])
  finally show ?thesis by simp
qed

section \<open>Repeating an import\<close>

lemma imported_account_effect:
  assumes "imported_account_id source user owner ig db = Inr (x, db')"
  shows "(source, user) \<in> legacy_account_key ` set (legacy_accounts db')"
    and "set (legacy_accounts db) \<subseteq> set (legacy_accounts db')" and "legacy_records db' = legacy_records db"
  using assms
  by (auto simp: imported_account_id_def Let_def fresh_uuid_def and_then_eq_Inr legacy_account_key_def
      split: option.splits if_splits dest!: find_by_SomeD)

lemma import_accounts_effect:
  assumes "import_legacy_accounts source ig refs accts n db = Inr (x, db')"
  shows "(\<forall>u\<in>fst ` set refs. (source, u) \<in> legacy_account_key ` set (legacy_accounts db')) \<and>
    set (legacy_accounts db) \<subseteq> set (legacy_accounts db') \<and> legacy_records db' = legacy_records db"
  using assms
proof (induction refs arbitrary: accts n db)
  case (Cons ref refs)
  obtain u o' where ref: "ref = (u, o')" by (cases ref)
  obtain y db1 where 1: "imported_account_id source u o' (map_of ig u) db = Inr (y, db1)"
    and 2: "import_legacy_accounts source ig refs (accts @ [(u, fst y)]) (sat_u32 (n + (if snd y then 1 else 0))) db1 = Inr (x, db')"
    using Cons.prems by (auto simp: ref and_then_eq_Inr)
  show ?case using imported_account_effect [OF 1] Cons.IH [OF 2] unfolding ref by auto
qed simp

lemma claims_effect:
  assumes "import_legacy_list_claims source i acct repo t names n db = Inr (m, db')"
  shows "legacy_records db' = legacy_records db \<and> legacy_accounts db' = legacy_accounts db"
  using assms by (induction names arbitrary: n db) (fastforce simp: Let_def split: if_splits)+

lemma upsert_repository_legacy:
  "upsert_repository_in_tx p db = Inr (i, db') \<Longrightarrow> legacy_records db' = legacy_records db \<and> legacy_accounts db' = legacy_accounts db"
  by (auto simp: upsert_repository_in_tx_def Let_def fresh_uuid_def split: option.splits)

lemma record_alias_legacy:
  "record_legacy_alias repo owner name db = Inr db' \<Longrightarrow> legacy_records db' = legacy_records db \<and> legacy_accounts db' = legacy_accounts db"
  by (auto simp: record_legacy_alias_def Let_def fresh_uuid_def split: if_splits option.splits)

lemma import_repository_effect:
  assumes "import_legacy_repository now source accts r db = Inr (c, db')"
  shows "(source, lg_legacy_repository_id r) \<in> legacy_record_key ` set (legacy_records db') \<and>
    set (legacy_records db) \<subseteq> set (legacy_records db') \<and> legacy_accounts db' = legacy_accounts db"
proof (cases "(source, lg_legacy_repository_id r) \<in> legacy_record_key ` set (legacy_records db)")
  case True
  with assms show ?thesis by (auto simp: import_legacy_repository_def)
next
  case False
  note new = assms [unfolded import_legacy_repository_def if_not_P [OF False]]
  show ?thesis
  proof (cases "upsert_repository_in_tx (lg_provider_repository_id r) db")
    case (Inl e)
    with new show ?thesis by (auto simp: and_then_eq_Inr)
  next
    case (Inr p)
    obtain repo db1 where p: "p = (repo, db1)" by (cases p)
    with new Inr upsert_repository_legacy [of "lg_provider_repository_id r" db repo db1] show ?thesis
      by (cases "lg_starred r") (auto simp: and_then_eq_Inr Let_def legacy_record_key_def import_legacy_star_def
          dest!: record_alias_legacy claims_effect)
  qed
qed

lemma import_repositories_effect:
  assumes "import_legacy_repositories now source accts rs c db = Inr (c', db')"
  shows "(\<forall>r\<in>set rs. (source, lg_legacy_repository_id r) \<in> legacy_record_key ` set (legacy_records db')) \<and>
    set (legacy_records db) \<subseteq> set (legacy_records db') \<and> legacy_accounts db' = legacy_accounts db"
  using assms
proof (induction rs arbitrary: c db)
  case (Cons r rs)
  obtain c1 db1 where 1: "import_legacy_repository now source accts r db = Inr (c1, db1)"
    and 2: "import_legacy_repositories now source accts rs (add_counts c c1) db1 = Inr (c', db')"
    using Cons.prems by (auto simp: and_then_eq_Inr)
  show ?case using import_repository_effect [OF 1] Cons.IH [OF 2] by auto
qed simp

text \<open>A second pass over what is already there.\<close>

lemma accounts_again:
  assumes "\<forall>u\<in>fst ` set refs. (source, u) \<in> legacy_account_key ` set (legacy_accounts db)"
  shows "\<exists>accts'. import_legacy_accounts source ig refs accts 0 db = Inr ((accts', 0), db)"
  using assms
proof (induction refs arbitrary: accts)
  case (Cons ref refs)
  obtain u o' where ref: "ref = (u, o')" by (cases ref)
  then obtain r where "find_by legacy_account_key (source, u) (legacy_accounts db) = Some r"
    using Cons.prems find_by_None [of legacy_account_key "(source, u)" "legacy_accounts db"] by force
  then show ?case using Cons by (simp add: ref imported_account_id_def sat_u32_def u32_max_def)
qed simp

lemma repositories_again:
  assumes "\<forall>r\<in>set rs. (source, lg_legacy_repository_id r) \<in> legacy_record_key ` set (legacy_records db)"
  shows "import_legacy_repositories now source accts rs no_counts db = Inr (no_counts, db)"
  using assms
  by (induction rs) (simp_all add: import_legacy_repository_def add_counts_def no_counts_def sat_u32_def u32_max_def)

lemma import_transaction_effect:
  assumes "import_legacy_transaction now request ig run refs db = Inr (out, db')"
  shows "\<forall>u\<in>fst ` set refs. (lq_source_id request, u) \<in> legacy_account_key ` set (legacy_accounts db')"
    and "\<forall>r\<in>set (ls_repositories (lq_snapshot request)).
      (lq_source_id request, lg_legacy_repository_id r) \<in> legacy_record_key ` set (legacy_records db')"
proof -
  obtain accts n db1 counts db2 where 1: "import_legacy_accounts (lq_source_id request) ig refs [] 0 db = Inr ((accts, n), db1)"
    and 2: "import_legacy_repositories now (lq_source_id request) accts (ls_repositories (lq_snapshot request)) no_counts db1 = Inr (counts, db2)"
    and db': "db' = complete_import_run run n counts db2"
    using assms by (auto simp: import_legacy_transaction_def and_then_eq_Inr)
  note eff = import_accounts_effect [OF 1] import_repositories_effect [OF 2]
  show "\<forall>u\<in>fst ` set refs. (lq_source_id request, u) \<in> legacy_account_key ` set (legacy_accounts db')"
    and "\<forall>r\<in>set (ls_repositories (lq_snapshot request)).
      (lq_source_id request, lg_legacy_repository_id r) \<in> legacy_record_key ` set (legacy_records db')"
    using eff by (simp_all add: db' complete_import_run_def)
qed

lemma import_snapshot_InrE:
  assumes "import_legacy_snapshot now request w = (Inr out, w')"
  obtains ig refs run db where "valid_source_id (lq_source_id request)" "plan_import request = Inr (ig, refs)"
    "import_legacy_transaction now request ig run refs db = Inr (out, w_db w')"
proof -
  have tx: "import_legacy_transaction now request ig run refs (w_db w1) = Inr (out, w_db w')"
    if "run_import now request ig refs run w1 = (Inr out, w')" for ig refs run w1
    using that by (auto simp: run_import_def split: prod.splits sum.splits dest: transact_with_InrD)
  have valid: "valid_source_id (lq_source_id request)"
    using assms by (auto simp: import_legacy_snapshot_def io_fail_def split: if_splits)
  obtain ig refs where plan: "plan_import request = Inr (ig, refs)"
    using assms valid by (auto simp: import_legacy_snapshot_def io_fail_def split: sum.splits)
  obtain run w1 where "run_import now request ig refs run w1 = (Inr out, w')"
    using assms valid plan by (auto simp: import_legacy_snapshot_def elim!: io_bind_InrE)
  from that [OF valid plan tx [OF this]] show ?thesis .
qed

definition besides_imports :: "catalog \<Rightarrow> catalog" where
  "besides_imports db = db\<lparr>next_uuid := 0, legacy_imports := []\<rparr>"

text \<open>
  C31. An import can be repeated: after a completed one, importing the same request again completes with all
  counts zero and changes nothing but the audit of import runs - whatever happened to the catalog meanwhile, as
  long as the account and repository records the import wrote are still there (erasing an imported owner
  removes them, and the import then starts over) and no connection is lost.
\<close>

theorem reimport_adds_nothing:
  assumes "import_legacy_snapshot now request w = (Inr out, w')" and "w_faults v = []"
    and "set (legacy_accounts (w_db w')) \<subseteq> set (legacy_accounts (w_db v))"
    and "set (legacy_records (w_db w')) \<subseteq> set (legacy_records (w_db v))"
  shows "\<exists>run v'. import_legacy_snapshot now' request v =
      (Inr \<lparr>lo_import_run_id = run, lo_accounts_imported = 0, lo_counts = no_counts\<rparr>, v') \<and>
    besides_imports (w_db v') = besides_imports (w_db v)"
proof -
  obtain ig refs run0 db where valid: "valid_source_id (lq_source_id request)" and plan: "plan_import request = Inr (ig, refs)"
    and tx: "import_legacy_transaction now request ig run0 refs db = Inr (out, w_db w')"
    using assms(1) by (rule import_snapshot_InrE)
  let ?run = "next_uuid (w_db v)"
  obtain t where opened: "open_import_tx (lq_source_id request) (w_db v) =
      Inr (?run, (w_db v)\<lparr>next_uuid := Suc ?run, legacy_imports := t\<rparr>)"
    using valid by (simp add: open_import_tx_def fresh_uuid_def matches_iff flip: source_id_grammar)
  let ?db = "(w_db v)\<lparr>next_uuid := Suc ?run, legacy_imports := t\<rparr>"
  have "\<forall>u\<in>fst ` set refs. (lq_source_id request, u) \<in> legacy_account_key ` set (legacy_accounts ?db)"
    and "\<forall>r\<in>set (ls_repositories (lq_snapshot request)).
      (lq_source_id request, lg_legacy_repository_id r) \<in> legacy_record_key ` set (legacy_records ?db)"
    using import_transaction_effect [OF tx] assms(3,4) by (auto dest!: bspec)
  from accounts_again [OF this(1), of ig "[]"] repositories_again [OF this(2), of now']
  have again: "import_legacy_transaction now' request ig ?run refs ?db =
      Inr (\<lparr>lo_import_run_id = ?run, lo_accounts_imported = 0, lo_counts = no_counts\<rparr>, complete_import_run ?run 0 no_counts ?db)"
    by (auto simp: import_legacy_transaction_def)
  show ?thesis
    using valid assms(2)
    by (simp add: import_legacy_snapshot_def plan run_import_def io_bind_def transact_with_no_fault opened again)
      (simp add: complete_import_run_def besides_imports_def)
qed

text \<open>
  An import is atomic: one that fails, for whatever reason and wherever the connection is lost,
  leaves every table but the audit of import runs as it was.
\<close>

theorem failed_import_leaves_audit_only:
  assumes "import_legacy_snapshot now request w = (Inl e, w')"
  shows "besides_imports (w_db w') = besides_imports (w_db w)"
proof -
  let ?open = "transact_with ImportPersistence (open_import_tx (lq_source_id request)) w"
  have opened: "besides_imports (w_db w1) = besides_imports (w_db w)" if "?open = (Inr run, w1)" for run w1
    using transact_with_InrD [OF that, symmetric]
    by (auto simp: open_import_tx_def fresh_uuid_def besides_imports_def split: if_splits)
  have failed: "besides_imports (w_db (snd (transact (\<lambda>db. Inr ((), record_import_failure run code db)) w2))) = besides_imports (w_db w2)"
    for run code w2
    by (simp add: transact_def transact_with_def besides_imports_def record_import_failure_def split: list.split bool.split)
  have run: "besides_imports (w_db w') = besides_imports (w_db w1)"
    if "run_import now request ig refs run w1 = (Inl e, w')" for ig refs run w1
    using that failed by (auto simp: run_import_def split: prod.splits sum.splits dest!: transact_with_InlD)
  show ?thesis
  proof (cases "valid_source_id (lq_source_id request)")
    case True
    show ?thesis
    proof (cases "plan_import request")
      case (Inl e')
      with assms True show ?thesis by (simp add: import_legacy_snapshot_def io_fail_def)
    next
      case (Inr p)
      obtain ig refs where p: "p = (ig, refs)" by (cases p)
      obtain r w1 where open_result: "?open = (r, w1)" by (cases ?open)
      show ?thesis
      proof (cases r)
        case (Inl e')
        with assms True Inr p open_result have "w1 = w'" by (simp add: import_legacy_snapshot_def io_bind_def)
        with Inl open_result show ?thesis by (simp add: transact_with_InlD)
      next
        case (Inr id)
        with assms True \<open>plan_import request = Inr p\<close> p open_result
        have "run_import now request ig refs id w1 = (Inl e, w')"
          by (simp add: import_legacy_snapshot_def io_bind_def)
        from trans [OF run [OF this] opened] open_result Inr show ?thesis by simp
      qed
    qed
  next
    case False
    with assms show ?thesis by (simp add: import_legacy_snapshot_def io_fail_def)
  qed
qed

section \<open>The shadow report\<close>

text \<open>
  What the runbook asks of a clean report, item by item: an imported account is connected, holds a
  credential and has completed both scans since that credential was stored; an imported star agrees
  with the catalog and its provider time is known; and an imported list claim is not absent from the
  provider's membership: some active list of the account under the claimed name contains the repository.
\<close>

definition scanned_since_reconnect :: "catalog \<Rightarrow> uuid \<Rightarrow> sync_mode \<Rightarrow> bool" where
  "scanned_since_reconnect db acct m \<longleftrightarrow>
     (\<exists>c run t. find_by cr_account acct (credentials db) = Some c \<and> run \<in> set (sync_runs db) \<and> run_account run = acct \<and>
        run_mode run = m \<and> run_status run = RunCompleted \<and> run_finished run = Some t \<and> cr_updated c \<le> t)"

definition account_agrees :: "catalog \<Rightarrow> account_row \<Rightarrow> bool" where
  "account_agrees db a \<longleftrightarrow> acct_status a = Connected \<and>
     scanned_since_reconnect db (acct_id a) ModeFull \<and> scanned_since_reconnect db (acct_id a) ModeStarLists"

definition star_agrees :: "catalog \<Rightarrow> legacy_record_row \<Rightarrow> bool" where
  "star_agrees db r \<longleftrightarrow> (le_starred r \<longleftrightarrow> is_starred db (le_account r) (le_repo r)) \<and>
     (le_starred r \<longrightarrow> (\<exists>s. star_of db (le_account r) (le_repo r) = Some s \<and> \<not> ss_unknown s))"

definition named_lists :: "catalog \<Rightarrow> legacy_claim_row \<Rightarrow> list_row set" where
  "named_lists db c = {l \<in> set (star_lists db). sl_account l = lc_account c \<and> sl_name l = lc_list c \<and> sl_status l = ListActive}"

definition list_backs :: "catalog \<Rightarrow> legacy_claim_row \<Rightarrow> list_row \<Rightarrow> bool" where
  "list_backs db c l \<longleftrightarrow> (\<exists>m\<in>set (memberships db). lm_list m = sl_id l \<and> lm_repo m = lc_repo c \<and> lm_member m)"

definition claim_agrees :: "catalog \<Rightarrow> legacy_claim_row \<Rightarrow> bool" where
  "claim_agrees db c \<longleftrightarrow> (\<exists>l\<in>named_lists db c. list_backs db c l)"

definition import_agrees :: "string \<Rightarrow> catalog \<Rightarrow> bool" where
  "import_agrees source db \<longleftrightarrow>
     (\<forall>a\<in>set (imported_accounts source db). account_agrees db a) \<and>
     (\<forall>r\<in>set (legacy_records db). le_source r = source \<longrightarrow> star_agrees db r) \<and>
     (\<forall>c\<in>set (legacy_claims db). lc_source c = source \<longrightarrow> claim_agrees db c)"

text \<open>
  What the left joins of the report add: no second active list of the claimed name, one that does not contain the
  repository. With unique names of active lists that is no condition.
\<close>

definition no_namesake :: "string \<Rightarrow> catalog \<Rightarrow> bool" where
  "no_namesake source db \<longleftrightarrow>
     (\<forall>c\<in>set (legacy_claims db). lc_source c = source \<longrightarrow> (\<forall>l\<in>named_lists db c. list_backs db c l))"

definition names_unambiguous :: "catalog \<Rightarrow> bool" where
  "names_unambiguous db \<longleftrightarrow>
     distinct (map (\<lambda>l. (sl_account l, sl_name l)) (filter (\<lambda>l. sl_status l = ListActive) (star_lists db)))"

lemma named_lists_single:
  "names_unambiguous db \<Longrightarrow> l \<in> named_lists db c \<Longrightarrow> l' \<in> named_lists db c \<Longrightarrow> l' = l"
  unfolding names_unambiguous_def named_lists_def distinct_map by (auto intro: inj_onD)

lemma no_namesake_unambiguous: "names_unambiguous db \<Longrightarrow> import_agrees source db \<Longrightarrow> no_namesake source db"
  unfolding no_namesake_def import_agrees_def claim_agrees_def by (metis named_lists_single)

lemma shadow_count_zero [simp]: "shadow_count rows = 0 \<longleftrightarrow> rows = []"
  by (cases rows) (auto simp: shadow_count_def u32_or_def u32_max_def)

lemma snapshot_missing_iff: "snapshot_missing m db a \<longleftrightarrow> \<not> scanned_since_reconnect db (acct_id a) m"
  by (auto simp: snapshot_missing_def scanned_since_reconnect_def list_ex_iff split: option.splits)

lemma unbacked_rows_empty:
  "unbacked_rows db c = [] \<longleftrightarrow> claim_agrees db c \<and> (\<forall>l\<in>named_lists db c. list_backs db c l)"
  by (simp add: unbacked_rows_def claim_agrees_def list_backs_def named_lists_def Let_def list_ex_iff filter_empty_conv) blast

lemma is_clean_iff:
  "is_clean (collect_shadow_counts source db) \<longleftrightarrow> import_agrees source db \<and> no_namesake source db"
proof -
  have star: "star_agrees db r \<longleftrightarrow> (le_starred r \<longleftrightarrow> is_starred db (le_account r) (le_repo r)) \<and>
      \<not> (le_starred r \<and> (case star_of db (le_account r) (le_repo r) of None \<Rightarrow> False | Some s \<Rightarrow> ss_starred s \<and> ss_unknown s))" for r
    by (auto simp: star_agrees_def is_starred_def split: option.splits)
  show ?thesis
    unfolding is_clean_def collect_shadow_counts_def import_agrees_def no_namesake_def Let_def star account_agrees_def
    by (simp add: filter_empty_conv snapshot_missing_iff unbacked_rows_empty) blast
qed

lemma report_effect:
  assumes "generate_legacy_shadow_report to_string to_value sha256 source w = (Inr r, w')"
  shows "(sr_cutover_reviewable r \<longleftrightarrow> import_agrees source (w_db w) \<and> no_namesake source (w_db w)) \<and>
    (\<exists>row. w_db w' = (w_db w)\<lparr>next_uuid := Suc (next_uuid (w_db w)), shadow_reports := shadow_reports (w_db w) @ [row]\<rparr> \<and>
      sh_source row = source \<and> sh_reviewable row = sr_cutover_reviewable r \<and> sh_digest row = sr_report_digest r)"
proof -
  obtain counts w1 where 1: "io_map_err ShadowQuery (query (collect_shadow_counts source)) w = (Inr counts, w1)"
    and 2: "transact_with ShadowPersistence (persist_shadow_report to_string to_value sha256 source counts) w1 = (Inr r, w')"
    using assms by (auto simp: generate_legacy_shadow_report_def io_fail_def split: if_splits elim!: io_bind_InrE)
  have "counts = collect_shadow_counts source (w_db w)" "w_db w1 = w_db w"
    using 1 by (auto simp: io_map_err_def split: prod.splits sum.splits dest!: query_InrD)
  with transact_with_InrD [OF 2] is_clean_iff [of source "w_db w"] show ?thesis
    by (auto simp: persist_shadow_report_def fresh_uuid_def and_then_eq_Inr Let_def eq_commute [of "w_db w'"])
qed

text \<open>
  C32. A report that says the cutover can be reviewed is true: every imported account, star and list claim
  agrees with the catalog it was made from, no count, however large, wraps to zero. The converse has one exception: a
  claim that one list backs keeps the report unreviewable if the account has another active list of the
  same name without the repository; so where names of active lists are unique per account, a
  report is reviewable exactly when the import agrees. Making it changes no table but that of the reports, where
  it is stored with its verdict and digest.
\<close>

theorem reviewable_iff_agrees:
  assumes "generate_legacy_shadow_report to_string to_value sha256 source w = (Inr r, w')"
  shows "(sr_cutover_reviewable r \<longleftrightarrow> import_agrees source (w_db w) \<and>
      (\<forall>c\<in>set (legacy_claims (w_db w)). lc_source c = source \<longrightarrow> (\<forall>l\<in>named_lists (w_db w) c. list_backs (w_db w) c l))) \<and>
    (names_unambiguous (w_db w) \<longrightarrow> (sr_cutover_reviewable r \<longleftrightarrow> import_agrees source (w_db w))) \<and>
    (\<exists>row. w_db w' = (w_db w)\<lparr>next_uuid := Suc (next_uuid (w_db w)), shadow_reports := shadow_reports (w_db w) @ [row]\<rparr> \<and>
      sh_source row = source \<and> sh_reviewable row = sr_cutover_reviewable r \<and> sh_digest row = sr_report_digest r)"
  using report_effect [OF assms] no_namesake_unambiguous [of "w_db w" source] unfolding no_namesake_def by blast

text \<open>
  A source label that was never imported is reviewable as well: with no imported row to compare,
  every count is zero, so the report of a mistyped label is clean and readiness accepts it.
\<close>

theorem unimported_label_is_ready:
  assumes "valid_source_id source" and "source \<notin> la_source ` set (legacy_accounts (w_db w))"
    and "source \<notin> le_source ` set (legacy_records (w_db w))" and "source \<notin> lc_source ` set (legacy_claims (w_db w))"
    and "generate_legacy_shadow_report to_string to_value sha256 source w = (Inr r, w')" and "w_faults w' = []"
  shows "sr_cutover_reviewable r \<and> (\<exists>ready w''. legacy_cutover_readiness source w' = (Inr ready, w''))"
proof -
  have agrees: "import_agrees source (w_db w)" "no_namesake source (w_db w)"
    using assms(2-4) by (auto simp: import_agrees_def imported_accounts_def no_namesake_def image_iff)
  from report_effect [OF assms(5)] agrees obtain row where clean: "sr_cutover_reviewable r"
    and "w_db w' = (w_db w)\<lparr>next_uuid := Suc (next_uuid (w_db w)), shadow_reports := shadow_reports (w_db w) @ [row]\<rparr>"
    and row: "sh_source row = source" "sh_reviewable row" by blast
  then have "row \<in> set (shadow_reports (w_db w'))" by simp
  with row obtain best where "latest_clean_report source (w_db w') = Some best"
    by (cases "latest_clean_report source (w_db w')") (auto simp: latest_clean_report_def filter_empty_conv)
  with assms(1,6) clean show ?thesis
    by (simp add: legacy_cutover_readiness_def io_bind_def io_map_err_def query_no_fault io_return_def)
qed

section \<open>Witnesses\<close>

definition sample_legacy :: legacy_import_request where
  "sample_legacy = \<lparr>lq_source_id = ''a'', lq_owner_map = [(4, ''me'')],
     lq_snapshot = \<lparr>ls_repositories = [\<lparr>lg_legacy_repository_id = 1, lg_provider_repository_id = 70, lg_owner = ''o'',
        lg_name = ''r'', lg_legacy_user_id = 4, lg_starred = True, lg_observed_at = None, lg_list_names = ['' rust '']\<rparr>],
      ls_integrations = [\<lparr>ig_legacy_user_id = 4, ig_granted_scopes = Some ''repo, user'', ig_login = Some ''a'',
        ig_provider_user_id = Some 9, ig_status = ''ok''\<rparr>]\<rparr>\<rparr>"

definition imported_once where "imported_once = import_legacy_snapshot 50 sample_legacy (idle_world empty_catalog)"

definition unmapped_legacy :: legacy_import_request where
  "unmapped_legacy = sample_legacy\<lparr>lq_owner_map := [(5, ''me'')]\<rparr>"

definition report_of where
  "report_of = generate_legacy_shadow_report (\<lambda>_. Some ''{}'') (\<lambda>_. Some []) (\<lambda>_. replicate 32 0)"

text \<open>An import of one starred and listed repository, repeated.\<close>

theorem reimport_adds_nothing_witness:
  "lo_counts (projr (fst imported_once)) = \<lparr>ic_repositories = 1, ic_star_claims = 1, ic_list_claims = 1\<rparr> \<and>
   (\<exists>run v'. import_legacy_snapshot 80 sample_legacy (snd imported_once) =
      (Inr \<lparr>lo_import_run_id = run, lo_accounts_imported = 0, lo_counts = no_counts\<rparr>, v'))"
proof -
  have "isl (fst imported_once) = False" "w_faults (snd imported_once) = []"
    "lo_counts (projr (fst imported_once)) = \<lparr>ic_repositories = 1, ic_star_claims = 1, ic_list_claims = 1\<rparr>" by code_simp+
  moreover from this have "import_legacy_snapshot 50 sample_legacy (idle_world empty_catalog) =
      (Inr (projr (fst imported_once)), snd imported_once)"
    unfolding imported_once_def [symmetric] by (cases "fst imported_once") (auto simp: prod_eq_iff)
  ultimately show ?thesis using reimport_adds_nothing by blast
qed

text \<open>A user without an owner, found before anything is written; and a lost connection.\<close>

theorem failed_import_leaves_audit_only_witness:
  "besides_imports (w_db (snd (import_legacy_snapshot 50 unmapped_legacy (idle_world empty_catalog)))) = besides_imports empty_catalog"
proof -
  have "fst (import_legacy_snapshot 50 unmapped_legacy (idle_world empty_catalog)) = Inl (ImportOwnerMap UnmappedLegacyUser)" by code_simp
  moreover have "w_db (idle_world empty_catalog) = empty_catalog" by (simp add: idle_world_def)
  ultimately show ?thesis using failed_import_leaves_audit_only [of 50 unmapped_legacy "idle_world empty_catalog"]
    by (metis prod.collapse)
qed

text \<open>The import is not yet reviewable, since its account has not reconnected.\<close>

theorem reviewable_iff_agrees_witness:
  "\<not> sr_cutover_reviewable (projr (fst (report_of ''a'' (snd imported_once)))) \<and> \<not> import_agrees ''a'' (w_db (snd imported_once))"
proof -
  have "isl (fst (report_of ''a'' (snd imported_once))) = False"
    "\<not> sr_cutover_reviewable (projr (fst (report_of ''a'' (snd imported_once))))" by code_simp+
  moreover from this have "report_of ''a'' (snd imported_once) = (Inr (projr (fst (report_of ''a'' (snd imported_once)))), snd (report_of ''a'' (snd imported_once)))"
    by (cases "fst (report_of ''a'' (snd imported_once))") (auto simp: prod_eq_iff)
  moreover have "names_unambiguous (w_db (snd imported_once))" by code_simp
  ultimately show ?thesis using reviewable_iff_agrees [of "\<lambda>_. Some ''{}''" "\<lambda>_. Some []" "\<lambda>_. replicate 32 0" "''a''" "snd imported_once"]
    unfolding report_of_def by blast
qed

text \<open>A catalog that was never imported into.\<close>

theorem unimported_label_is_ready_witness: "sr_cutover_reviewable (projr (fst (report_of ''b'' (idle_world empty_catalog))))"
proof -
  let ?w = "idle_world empty_catalog"
  let ?r = "report_of ''b'' ?w"
  have "isl (fst ?r) = False" "w_faults (snd ?r) = []" "valid_source_id ''b''"  by code_simp+
  moreover have "legacy_accounts (w_db ?w) = []" "legacy_records (w_db ?w) = []" "legacy_claims (w_db ?w) = []"
    by (simp_all add: idle_world_def empty_catalog_def)
  moreover from this have "?r = (Inr (projr (fst ?r)), snd ?r)"
    using \<open>isl (fst ?r) = False\<close> by (cases "fst ?r") (auto simp: prod_eq_iff)
  ultimately show ?thesis using unimported_label_is_ready [of "''b''" ?w "\<lambda>_. Some ''{}''" "\<lambda>_. Some []" "\<lambda>_. replicate 32 0"]
    unfolding report_of_def by (metis empty_iff image_is_empty list.set(1))
qed

end
