(* ===== verification/Relay.thy ===== *)
theory Relay
  imports Watches Backup_Policy
begin

text \<open>
  The outbox relay and the readiness of the process (\<open>services/catalog/src/relay.rs\<close> and the
  \<open>Lifecycle\<close> of \<open>services/catalog/src/lib.rs\<close>): due catalog work is moved into the outbox, every due row
  is published, and \<open>published_at\<close> is set only after the broker's acknowledgment; a refused row backs
  off, one larger than the broker accepts is set aside. The broker is any function of the call number.
\<close>

section \<open>Lifecycle\<close>

datatype process_state = Starting | Ready | Draining | Failed

record lifecycle =
  lf_state :: process_state
  lf_healthy :: bool
  lf_published :: int
  lf_failed :: int
  lf_undeliverable :: int

definition lifecycle_starting :: lifecycle where
  "lifecycle_starting = \<lparr>lf_state = Starting, lf_healthy = True, lf_published = 0, lf_failed = 0, lf_undeliverable = 0\<rparr>"

text \<open>\<open>fetch_add\<close> of a 64-bit counter wraps.\<close>

definition fetch_add :: "int \<Rightarrow> int" where
  "fetch_add n = (n + 1) mod 2 ^ 64"

definition set_publisher_healthy :: "bool \<Rightarrow> lifecycle \<Rightarrow> lifecycle" where
  "set_publisher_healthy healthy l = l\<lparr>lf_healthy := healthy\<rparr>"

definition record_publication :: "bool \<Rightarrow> lifecycle \<Rightarrow> lifecycle" where
  "record_publication published l =
     (if published then l\<lparr>lf_published := fetch_add (lf_published l)\<rparr>
      else l\<lparr>lf_failed := fetch_add (lf_failed l)\<rparr>)"

definition record_undeliverable_payload_too_large :: "lifecycle \<Rightarrow> lifecycle" where
  "record_undeliverable_payload_too_large l = l\<lparr>lf_undeliverable := fetch_add (lf_undeliverable l)\<rparr>"

definition mark_ready :: "lifecycle \<Rightarrow> lifecycle" where
  "mark_ready l = l\<lparr>lf_state := Ready\<rparr>"

definition begin_drain :: "lifecycle \<Rightarrow> lifecycle" where
  "begin_drain l = l\<lparr>lf_state := Draining\<rparr>"

definition mark_failed :: "lifecycle \<Rightarrow> lifecycle" where
  "mark_failed l = l\<lparr>lf_state := Failed\<rparr>"

definition is_ready :: "lifecycle \<Rightarrow> bool" where
  "is_ready l \<longleftrightarrow> lf_state l = Ready \<and> lf_healthy l"

text \<open>The readiness answer: the status code, and the body's two members.\<close>

definition readiness_answer :: "lifecycle \<Rightarrow> nat \<times> bool \<times> string list" where
  "readiness_answer l =
     (let failing = (if lf_healthy l then [] else [''bus_publish'']);
          status = (if is_ready l then 200 else 503)
      in (status, status = 200, failing))"

section \<open>The relay\<close>

datatype bus_error =
    BusSeed
  | BusConnect
  | BusDurable string
  | BusConsume
  | BusAck
  | ConnectionLostToBus
  | BusCatalog
  | UnknownSubject
  | TaskStopped

definition relayed_subjects :: "string list" where
  "relayed_subjects = [analysis_requested_subject, backup_policy_apply_subject]"

definition relay_batch :: nat where "relay_batch = 32"
definition dispatch_batch :: nat where "dispatch_batch = 64"
definition payload_headroom :: nat where "payload_headroom = 1024"
definition stuck_attempts :: int where "stuck_attempts = 3"
definition stuck_age :: int where "stuck_age = 300 * 1000000"

text \<open>
  The relay's surroundings: the world, the lifecycle it reports to, and the messages the broker has
  acknowledged, in order.
\<close>

record relay_state =
  rs_world :: world
  rs_lifecycle :: lifecycle
  rs_acked :: "uuid list"

type_synonym 'a relay = "relay_state \<Rightarrow> (bus_error, 'a) result \<times> relay_state"

text \<open>
  The broker: its payload limit and its answer to a publish, \<open>None\<close> for an acknowledgment. An answer
  that is an error says nothing about whether the broker stored the message. The serializer is a
  function.
\<close>

record relay_runtime =
  rl_max_payload :: nat
  rl_publish :: "nat \<Rightarrow> string \<Rightarrow> uuid \<Rightarrow> string \<Rightarrow> relay_error option answer"
  rl_to_vec :: "json \<Rightarrow> string option"
  rl_watch :: watch_contracts
  rl_policy :: policy_contracts

definition on_world :: "(bus_error, 'a) io \<Rightarrow> 'a relay" where
  "on_world m s = (let (r, w) = m (rs_world s) in (r, s\<lparr>rs_world := w\<rparr>))"

definition relay_bind :: "'a relay \<Rightarrow> ('a \<Rightarrow> 'b relay) \<Rightarrow> 'b relay" where
  "relay_bind m f s = (case m s of (Inl e, s') \<Rightarrow> (Inl e, s') | (Inr x, s') \<Rightarrow> f x s')"

definition relay_return :: "'a \<Rightarrow> 'a relay" where
  "relay_return x s = (Inr x, s)"

definition tell :: "(lifecycle \<Rightarrow> lifecycle) \<Rightarrow> unit relay" where
  "tell f s = (Inr (), s\<lparr>rs_lifecycle := f (rs_lifecycle s)\<rparr>)"

text \<open>\<open>OffsetDateTime::now_utc\<close> in microseconds.\<close>

definition utc_now :: "world \<Rightarrow> timestamp" where
  "utc_now w = w_clock w div 1000"

section \<open>Moving due work into the outbox\<close>

fun dispatch_analyses :: "watch_contracts \<Rightarrow> nat \<Rightarrow> (bus_error, unit) io" where
  "dispatch_analyses wc 0 w = (Inr (), w)"
| "dispatch_analyses wc (Suc n) w =
     (case dispatch_due_repository_analysis wc (utc_now w) w of
        (Inl e, w') \<Rightarrow> (Inl BusCatalog, w')
      | (Inr NotDue, w') \<Rightarrow> (Inr (), w')
      | (Inr (DispatchPending _), w') \<Rightarrow> dispatch_analyses wc n w')"

definition dispatch_due :: "relay_runtime \<Rightarrow> (bus_error, unit) io" where
  "dispatch_due rt =
     io_bind (dispatch_analyses (rl_watch rt) dispatch_batch) (\<lambda>_ w.
       io_bind (io_map_err (\<lambda>_. BusCatalog)
           (publish_due_backup_policy (rl_policy rt) (utc_now w) (utc_now w) (utc_now w)))
         (\<lambda>_. io_return ()) w)"

section \<open>One pass over the outbox\<close>

definition unsent :: "outbox_row \<Rightarrow> bool" where
  "unsent r \<longleftrightarrow> ob_published r = None \<and> ob_undeliverable r = None"

definition due_rows :: "catalog \<Rightarrow> outbox_row list" where
  "due_rows db =
     take relay_batch (sort_key (\<lambda>r. (ob_created r, ob_message r))
       (filter (\<lambda>r. unsent r \<and> ob_next_attempt r \<le> db_clock db) (outbox db)))"

definition set_published :: "timestamp \<Rightarrow> outbox_row \<Rightarrow> outbox_row" where
  "set_published now r = r\<lparr>ob_published := Some now, ob_error := None\<rparr>"

text \<open>
  \<open>power\<close> is evaluated in double precision, where \<open>2\<^sup>1\<^sup>0\<^sup>2\<^sup>4\<close> is out of range and fails the statement,
  before \<open>least\<close> is applied.
\<close>

definition backoff :: "int \<Rightarrow> (sql_error, int) result" where
  "backoff attempts =
     (if 1024 \<le> attempts + 1 then Inl NumericOutOfRange
      else Inr (min 300 (2 ^ nat (attempts + 1)) * 1000000))"

definition back_off_row :: "timestamp \<Rightarrow> relay_error \<Rightarrow> outbox_row \<Rightarrow> (sql_error, outbox_row) result" where
  "back_off_row now error r =
     and_then (backoff (ob_attempts r)) (\<lambda>d.
       Inr (r\<lparr>ob_attempts := ob_attempts r + 1, ob_error := Some error, ob_next_attempt := now + d\<rparr>))"

text \<open>An update whose new row may fail to compute fails as a whole.\<close>

fun try_update_where :: "('r \<Rightarrow> bool) \<Rightarrow> ('r \<Rightarrow> (sql_error, 'r) result) \<Rightarrow> 'r list \<Rightarrow> (sql_error, 'r list) result" where
  "try_update_where p f [] = Inr []"
| "try_update_where p f (r # t) =
     and_then (if p r then f r else Inr r) (\<lambda>r'. and_then (try_update_where p f t) (\<lambda>t'. Inr (r' # t')))"

definition mark_published :: "uuid \<Rightarrow> (bus_error, unit) io" where
  "mark_published message = io_map_err (\<lambda>_. BusCatalog) (transact (\<lambda>db.
     Inr ((), db\<lparr>outbox := update_where (\<lambda>r. ob_message r = message \<and> ob_published r = None)
       (set_published (db_clock db)) (outbox db)\<rparr>)))"

definition mark_refused :: "uuid \<Rightarrow> relay_error \<Rightarrow> (bus_error, unit) io" where
  "mark_refused message error = io_map_err (\<lambda>_. BusCatalog) (transact (\<lambda>db.
     and_then (try_update_where (\<lambda>r. ob_message r = message \<and> ob_published r = None)
         (back_off_row (db_clock db) error) (outbox db)) (\<lambda>t.
       Inr ((), db\<lparr>outbox := t\<rparr>))))"

definition set_undeliverable :: "timestamp \<Rightarrow> outbox_row \<Rightarrow> outbox_row" where
  "set_undeliverable now r = r\<lparr>ob_undeliverable := Some now, ob_error := Some PayloadTooLarge\<rparr>"

definition mark_undeliverable :: "uuid \<Rightarrow> unit relay" where
  "mark_undeliverable message =
     relay_bind (on_world (io_map_err (\<lambda>_. BusCatalog) (transact (\<lambda>db.
         Inr ((), db\<lparr>outbox := update_where (\<lambda>r. ob_message r = message \<and> unsent r)
           (set_undeliverable (db_clock db)) (outbox db)\<rparr>)))))
       (\<lambda>_. tell record_undeliverable_payload_too_large)"

record flush_tally =
  ft_attempted :: nat
  ft_failed :: nat

definition too_large :: "relay_runtime \<Rightarrow> string \<Rightarrow> bool" where
  "too_large rt bytes \<longleftrightarrow> 0 < rl_max_payload rt \<and> rl_max_payload rt - payload_headroom < length bytes"

definition publish :: "relay_runtime \<Rightarrow> string \<Rightarrow> uuid \<Rightarrow> string \<Rightarrow> relay_error option relay" where
  "publish rt subject message bytes s =
     (let (refusal, w) = provider_call (\<lambda>n. rl_publish rt n subject message bytes) (rs_world s) in
      (Inr refusal, s\<lparr>rs_world := w,
         rs_acked := rs_acked s @ (case refusal of None \<Rightarrow> [message] | Some _ \<Rightarrow> [])\<rparr>))"

definition flush_row :: "relay_runtime \<Rightarrow> outbox_row \<Rightarrow> flush_tally \<Rightarrow> flush_tally relay" where
  "flush_row rt r tally =
     (if ob_subject r \<notin> set relayed_subjects then Pair (Inl UnknownSubject)
      else
        case rl_to_vec rt (ob_payload r) of
          None \<Rightarrow> Pair (Inl BusCatalog)
        | Some bytes \<Rightarrow>
            if too_large rt bytes
            then relay_bind (mark_undeliverable (ob_message r)) (\<lambda>_. relay_return tally)
            else
              let tally = tally\<lparr>ft_attempted := ft_attempted tally + 1\<rparr> in
              relay_bind (publish rt (ob_subject r) (ob_message r) bytes) (\<lambda>refusal.
                case refusal of
                  None \<Rightarrow>
                    relay_bind (tell (record_publication True)) (\<lambda>_.
                    relay_bind (on_world (mark_published (ob_message r))) (\<lambda>_. relay_return tally))
                | Some error \<Rightarrow>
                    relay_bind (tell (record_publication False)) (\<lambda>_.
                    relay_bind (on_world (mark_refused (ob_message r) error)) (\<lambda>_.
                      relay_return (tally\<lparr>ft_failed := ft_failed tally + 1\<rparr>)))))"

fun flush_rows :: "relay_runtime \<Rightarrow> outbox_row list \<Rightarrow> flush_tally \<Rightarrow> flush_tally relay" where
  "flush_rows rt [] tally = relay_return tally"
| "flush_rows rt (r # rs) tally = relay_bind (flush_row rt r tally) (flush_rows rt rs)"

definition oldest_stuck :: "catalog \<Rightarrow> bool option" where
  "oldest_stuck db =
     (case sort_key (\<lambda>r. (ob_created r, ob_message r)) (filter unsent (outbox db)) of
        [] \<Rightarrow> None
      | r # _ \<Rightarrow> Some (stuck_attempts \<le> ob_attempts r \<or> stuck_age < db_clock db - ob_created r))"

definition health_verdict :: "flush_tally \<Rightarrow> bool option \<Rightarrow> lifecycle \<Rightarrow> lifecycle" where
  "health_verdict tally stuck =
     (case stuck of
        None \<Rightarrow> set_publisher_healthy True
      | Some b \<Rightarrow>
          if ft_failed tally = 0 \<and> \<not> b then set_publisher_healthy True
          else if 0 < ft_failed tally then set_publisher_healthy (\<not> b)
          else (\<lambda>l. l))"

definition report_health :: "flush_tally \<Rightarrow> unit relay" where
  "report_health tally =
     relay_bind (on_world (io_map_err (\<lambda>_. BusCatalog) (query oldest_stuck))) (\<lambda>stuck.
       tell (health_verdict tally stuck))"

definition flush_outbox :: "relay_runtime \<Rightarrow> unit relay" where
  "flush_outbox rt =
     relay_bind (on_world (io_map_err (\<lambda>_. BusCatalog) (query due_rows))) (\<lambda>rows.
     relay_bind (flush_rows rt rows \<lparr>ft_attempted = 0, ft_failed = 0\<rparr>) report_health)"

text \<open>
  The loop until shutdown: before each tick the given number of microseconds passes, and shutdown comes
  after the last. An error of a tick ends it.
\<close>

definition pass_time :: "nat \<Rightarrow> unit relay" where
  "pass_time d s =
     (Inr (), s\<lparr>rs_world := (rs_world s)\<lparr>w_clock := w_clock (rs_world s) + 1000 * int d,
        w_db := (w_db (rs_world s))\<lparr>db_clock := db_clock (w_db (rs_world s)) + int d\<rparr>\<rparr>\<rparr>)"

fun relay_loop :: "relay_runtime \<Rightarrow> nat list \<Rightarrow> unit relay" where
  "relay_loop rt [] = relay_return ()"
| "relay_loop rt (d # ds) =
     relay_bind (pass_time d) (\<lambda>_.
     relay_bind (on_world (dispatch_due rt)) (\<lambda>_.
     relay_bind (flush_outbox rt) (\<lambda>_. relay_loop rt ds)))"

end
