(* ===== verification/Relay_Safety.thy ===== *)
theory Relay_Safety
  imports Relay Watch_Safety
begin

text \<open>
  What the relay guarantees: it refines an abstract queue with delivery at least once, a pass drains
  its batch in order whatever single rows meet, and enough passes empty the outbox.
\<close>

section \<open>The abstract queue\<close>

text \<open>
  A message waits until the broker has acknowledged it and this was noted, or until it is dropped
  because no broker would take it; an acknowledgment that is not noted leaves it waiting, to be sent
  again.
\<close>

datatype delivery = Waiting | Delivered | Dropped

record queue =
  q_messages :: "uuid \<Rightarrow> (string \<times> json \<times> delivery) option"
  q_acked :: "uuid set"

inductive queue_step :: "(string \<Rightarrow> json \<Rightarrow> bool) \<Rightarrow> queue \<Rightarrow> queue \<Rightarrow> bool" for fits where
  enqueue: "q_messages q m = None \<Longrightarrow>
    queue_step fits q (q\<lparr>q_messages := (q_messages q)(m \<mapsto> (subject, payload, Waiting))\<rparr>)"
| acknowledge: "q_messages q m = Some (subject, payload, Waiting) \<Longrightarrow> fits subject payload \<Longrightarrow>
    queue_step fits q (q\<lparr>q_acked := insert m (q_acked q)\<rparr>)"
| settle: "q_messages q m = Some (subject, payload, Waiting) \<Longrightarrow> m \<in> q_acked q \<Longrightarrow>
    queue_step fits q (q\<lparr>q_messages := (q_messages q)(m \<mapsto> (subject, payload, Delivered))\<rparr>)"
| drop: "q_messages q m = Some (subject, payload, Waiting) \<Longrightarrow> \<not> fits subject payload \<Longrightarrow>
    queue_step fits q (q\<lparr>q_messages := (q_messages q)(m \<mapsto> (subject, payload, Dropped))\<rparr>)"

abbreviation queue_path :: "(string \<Rightarrow> json \<Rightarrow> bool) \<Rightarrow> queue \<Rightarrow> queue \<Rightarrow> bool" where
  "queue_path fits \<equiv> (queue_step fits)\<^sup>*\<^sup>*"

text \<open>What every history of the queue keeps.\<close>

definition queue_keeps :: "(string \<Rightarrow> json \<Rightarrow> bool) \<Rightarrow> queue \<Rightarrow> queue \<Rightarrow> bool" where
  "queue_keeps fits q q' \<longleftrightarrow>
     q_acked q \<subseteq> q_acked q' \<and>
     (\<forall>m subject payload d. q_messages q m = Some (subject, payload, d) \<longrightarrow>
       (\<exists>d'. q_messages q' m = Some (subject, payload, d') \<and> (d \<noteq> Waiting \<longrightarrow> d' = d) \<and>
          (d = Waiting \<and> d' = Delivered \<longrightarrow> m \<in> q_acked q') \<and> (d = Waiting \<and> d' = Dropped \<longrightarrow> \<not> fits subject payload)))"

lemma queue_path_keeps: "queue_path fits q q' \<Longrightarrow> queue_keeps fits q q'"
proof (induction rule: rtranclp_induct)
  case base
  show ?case by (auto simp: queue_keeps_def)
next
  case (step q1 q2)
  from step.hyps(2) step.IH show ?case
    by cases (fastforce simp: queue_keeps_def)+
qed

section \<open>The outbox as a queue\<close>

definition delivery_of :: "outbox_row \<Rightarrow> delivery" where
  "delivery_of r =
     (if ob_published r \<noteq> None then Delivered else if ob_undeliverable r \<noteq> None then Dropped else Waiting)"

definition messages_of :: "outbox_row list \<Rightarrow> uuid \<Rightarrow> (string \<times> json \<times> delivery) option" where
  "messages_of t m = map_option (\<lambda>r. (ob_subject r, ob_payload r, delivery_of r)) (find_by ob_message m t)"

definition queue_of :: "relay_state \<Rightarrow> queue" where
  "queue_of s = \<lparr>q_messages = messages_of (outbox (w_db (rs_world s))), q_acked = set (rs_acked s)\<rparr>"

text \<open>A payload fits when it serializes to what the broker takes.\<close>

definition payload_fits :: "relay_runtime \<Rightarrow> string \<Rightarrow> json \<Rightarrow> bool" where
  "payload_fits rt subject payload \<longleftrightarrow>
     (\<exists>bytes. rl_to_vec rt payload = Some bytes \<and> \<not> too_large rt bytes)"

definition outbox_ok :: "catalog \<Rightarrow> bool" where
  "outbox_ok db \<longleftrightarrow> distinct (map ob_message (outbox db)) \<and> (\<forall>r\<in>set (outbox db). ob_message r < next_uuid db)"

lemma find_row: "distinct (map ob_message t) \<Longrightarrow> r \<in> set t \<Longrightarrow> find_by ob_message (ob_message r) t = Some r"
  by (simp add: find_by_unique)

lemma waiting_iff: "delivery_of r = Waiting \<longleftrightarrow> unsent r"
  by (simp add: delivery_of_def unsent_def)

lemma messages_waiting:
  "distinct (map ob_message t) \<Longrightarrow> r \<in> set t \<Longrightarrow> unsent r \<Longrightarrow>
     messages_of t (ob_message r) = Some (ob_subject r, ob_payload r, Waiting)"
  by (simp add: messages_of_def find_row waiting_iff)

text \<open>An update of one waiting row shows in the queue as an update of its message.\<close>

lemma messages_update:
  assumes "distinct (map ob_message t)" and "r \<in> set t" and "p r"
    and "\<And>r'. ob_message (f r') = ob_message r'" and "\<And>r'. p r' \<Longrightarrow> ob_message r' = ob_message r"
  shows "messages_of (update_where p f t) =
    (messages_of t)(ob_message r \<mapsto> (ob_subject (f r), ob_payload (f r), delivery_of (f r)))"
proof
  fix m
  have find: "find_by ob_message m (update_where p f t) = map_option (\<lambda>r. if p r then f r else r) (find_by ob_message m t)"
    using assms(4) by (intro find_by_update_where) simp
  show "messages_of (update_where p f t) m =
      ((messages_of t)(ob_message r \<mapsto> (ob_subject (f r), ob_payload (f r), delivery_of (f r)))) m"
  proof (cases "m = ob_message r")
    case True
    with find assms(1-3) show ?thesis by (simp add: messages_of_def find_row)
  next
    case False
    have "\<not> p r'" if "find_by ob_message m t = Some r'" for r'
      using find_by_SomeD [OF that] assms(5) False by blast
    with find False show ?thesis by (cases "find_by ob_message m t") (auto simp: messages_of_def)
  qed
qed

section \<open>Moving work in\<close>

definition outbox_grows :: "catalog \<Rightarrow> catalog \<Rightarrow> bool" where
  "outbox_grows db db' \<longleftrightarrow> next_uuid db \<le> next_uuid db' \<and>
     (\<exists>new. outbox db' = outbox db @ new \<and> distinct (map ob_message new) \<and>
        (\<forall>r\<in>set new. unsent r \<and> next_uuid db \<le> ob_message r \<and> ob_message r < next_uuid db'))"

interpretation outbox_frame: durable_relation outbox_grows
proof unfold_locales
  fix a b c
  assume "outbox_grows a b" "outbox_grows b c"
  then obtain x y where x: "outbox b = outbox a @ x" "distinct (map ob_message x)" "next_uuid a \<le> next_uuid b"
      "\<forall>r\<in>set x. unsent r \<and> next_uuid a \<le> ob_message r \<and> ob_message r < next_uuid b"
    and y: "outbox c = outbox b @ y" "distinct (map ob_message y)" "next_uuid b \<le> next_uuid c"
      "\<forall>r\<in>set y. unsent r \<and> next_uuid b \<le> ob_message r \<and> ob_message r < next_uuid c"
    unfolding outbox_grows_def by blast
  then show "outbox_grows a c"
    unfolding outbox_grows_def by (intro conjI exI [of _ "x @ y"]) fastforce+
qed (simp_all add: outbox_grows_def)

lemma dispatch_due_tx_grows: "dispatch_due_tx wc now db = Inr (x, db') \<Longrightarrow> outbox_grows db db'"
  by (erule dispatch_due_Inr) (auto simp: outbox_grows_def outbox_entry_def unsent_def)

lemma publish_due_tx_grows: "publish_due_tx pc t t' now db = Inr (x, db') \<Longrightarrow> outbox_grows db db'"
  by (erule publish_due_cases)
    (auto simp: outbox_grows_def settle_def outbox_entry_def unsent_def elim!: publish_version_Inr)

lemma dispatch_due_grows: "outbox_frame.keeps (dispatch_due rt)"
proof -
  have one: "outbox_frame.keeps (dispatch_due_repository_analysis wc now)" for wc now
    unfolding dispatch_due_repository_analysis_def
    by (intro outbox_frame.keeps_intros outbox_frame.keeps_transact_with dispatch_due_tx_grows)
  have many: "outbox_grows (w_db w) (w_db (snd (dispatch_analyses wc n w)))" for wc n w
  proof (induction n arbitrary: w)
    case (Suc n)
    obtain r w1 where r: "dispatch_due_repository_analysis wc (utc_now w) w = (r, w1)" by fastforce
    then have "outbox_grows (w_db w) (w_db w1)" using outbox_frame.keepsD [OF one] by blast
    with r Suc.IH [of w1] show ?case
      by (auto split: sum.split analysis_dispatch.split intro: outbox_frame.R_trans)
  qed (simp add: outbox_frame.R_refl)
  have policy: "outbox_frame.keeps (\<lambda>w. io_bind (io_map_err (\<lambda>_. BusCatalog)
      (publish_due_backup_policy pc (utc_now w) (utc_now w) (utc_now w))) (\<lambda>_. io_return ()) w)" for pc
  proof -
    have "outbox_frame.keeps (io_bind (io_map_err (\<lambda>_. BusCatalog) (publish_due_backup_policy pc t t t)) (\<lambda>_. io_return ()))" for t
      unfolding publish_due_backup_policy_def
      by (intro outbox_frame.keeps_intros outbox_frame.keeps_transact_with publish_due_tx_grows)
    then show ?thesis by (simp add: outbox_frame.keeps_def)
  qed
  show ?thesis
    unfolding dispatch_due_def
    by (intro outbox_frame.keeps_bind policy) (simp add: outbox_frame.keeps_def many)
qed

lemma grown_ok: "outbox_ok db \<Longrightarrow> outbox_grows db db' \<Longrightarrow> outbox_ok db'"
  unfolding outbox_ok_def outbox_grows_def by fastforce

lemma appended_path:
  assumes "distinct (map ob_message (t @ new))" and "\<forall>r\<in>set new. unsent r"
  shows "queue_path fits (q\<lparr>q_messages := messages_of t\<rparr>) (q\<lparr>q_messages := messages_of (t @ new)\<rparr>)"
  using assms
proof (induction new rule: rev_induct)
  case (snoc r new)
  have absent: "find_by ob_message (ob_message r) (t @ new) = None"
    using snoc.prems(1) by (auto simp: find_by_None)
  have upd: "messages_of (t @ new @ [r]) = (messages_of (t @ new))(ob_message r \<mapsto> (ob_subject r, ob_payload r, Waiting))"
  proof
    fix m
    have "find_by ob_message m (t @ new @ [r]) =
        (case find_by ob_message m (t @ new) of None \<Rightarrow> if ob_message r = m then Some r else None | Some x \<Rightarrow> Some x)"
      using find_by_append [of ob_message m "t @ new" "[r]"] by (simp split: option.split)
    then show "messages_of (t @ new @ [r]) m =
        ((messages_of (t @ new))(ob_message r \<mapsto> (ob_subject r, ob_payload r, Waiting))) m"
      using absent snoc.prems(2) by (auto simp: messages_of_def waiting_iff split: option.split)
  qed
  have "q_messages (q\<lparr>q_messages := messages_of (t @ new)\<rparr>) (ob_message r) = None"
    using absent by (simp add: messages_of_def)
  from queue_step.enqueue [OF this] have step: "queue_step fits (q\<lparr>q_messages := messages_of (t @ new)\<rparr>)
      (q\<lparr>q_messages := (messages_of (t @ new))(ob_message r \<mapsto> (ob_subject r, ob_payload r, Waiting))\<rparr>)" by simp
  have "queue_path fits (q\<lparr>q_messages := messages_of t\<rparr>) (q\<lparr>q_messages := messages_of (t @ new)\<rparr>)"
    using snoc by simp
  from rtranclp.rtrancl_into_rtrancl [OF this step] show ?case unfolding upd .
qed simp

section \<open>Refinement\<close>

text \<open>What an operation of the relay is to the queue: from a well-formed outbox, a history of it.\<close>

definition refines :: "relay_runtime \<Rightarrow> relay_state \<Rightarrow> relay_state \<Rightarrow> bool" where
  "refines rt s s' \<longleftrightarrow> (outbox_ok (w_db (rs_world s)) \<longrightarrow>
     outbox_ok (w_db (rs_world s')) \<and> queue_path (payload_fits rt) (queue_of s) (queue_of s'))"

locale relay_relation =
  fixes R :: "relay_state \<Rightarrow> relay_state \<Rightarrow> bool"
  assumes rel_refl: "R s s" and rel_trans: "R a b \<Longrightarrow> R b c \<Longrightarrow> R a c"
begin

definition maintains :: "'a relay \<Rightarrow> bool" where
  "maintains m \<longleftrightarrow> (\<forall>s. R s (snd (m s)))"

lemma maintainsD: "maintains m \<Longrightarrow> m s = (r, s') \<Longrightarrow> R s s'"
  by (metis maintains_def snd_conv)

lemma maintains_return: "maintains (relay_return x)"
  by (simp add: maintains_def relay_return_def rel_refl)

lemma maintains_bind:
  assumes "maintains m" and "\<And>x. maintains (f x)"
  shows "maintains (relay_bind m f)"
  unfolding maintains_def
proof
  fix s
  obtain r s1 where m: "m s = (r, s1)" by (cases "m s")
  with assms(1) have "R s s1" by (rule maintainsD)
  moreover have "R s1 (snd (f x s1))" for x using assms(2) by (simp add: maintains_def)
  ultimately show "R s (snd (relay_bind m f s))"
    using m by (cases r) (auto simp: relay_bind_def intro: rel_trans)
qed

end

interpretation queue_refinement: relay_relation "refines rt" for rt
  by unfold_locales (auto simp: refines_def intro: rtranclp_trans)

lemma refines_same_queue:
  "outbox (w_db (rs_world s')) = outbox (w_db (rs_world s)) \<Longrightarrow> next_uuid (w_db (rs_world s')) = next_uuid (w_db (rs_world s)) \<Longrightarrow>
     rs_acked s' = rs_acked s \<Longrightarrow> refines rt s s'"
  by (simp add: refines_def queue_of_def outbox_ok_def)

lemma dispatch_due_refines: "queue_refinement.maintains rt (on_world (dispatch_due rt))"
  unfolding queue_refinement.maintains_def
proof
  fix s :: relay_state
  obtain r w where d: "dispatch_due rt (rs_world s) = (r, w)" by fastforce
  then have grows: "outbox_grows (w_db (rs_world s)) (w_db w)" using outbox_frame.keepsD [OF dispatch_due_grows] by blast
  have "queue_path fits (queue_of s) (queue_of (s\<lparr>rs_world := w\<rparr>))" if "outbox_ok (w_db (rs_world s))" for fits
  proof -
    from grows obtain new where new: "outbox (w_db w) = outbox (w_db (rs_world s)) @ new" "\<forall>r\<in>set new. unsent r"
      unfolding outbox_grows_def by blast
    moreover have "distinct (map ob_message (outbox (w_db w)))" using grown_ok [OF that grows] by (simp add: outbox_ok_def)
    ultimately show ?thesis
      using appended_path [of "outbox (w_db (rs_world s))" new fits "queue_of s"] by (simp add: queue_of_def)
  qed
  with grown_ok grows d show "refines rt s (snd (on_world (dispatch_due rt) s))"
    by (auto simp: refines_def on_world_def)
qed

text \<open>A statement on one message keeps all identities and every other row.\<close>

definition touches :: "uuid \<Rightarrow> outbox_row list \<Rightarrow> outbox_row list \<Rightarrow> bool" where
  "touches m t t' \<longleftrightarrow> map ob_message t' = map ob_message t \<and> (\<forall>r\<in>set t. ob_message r \<noteq> m \<longrightarrow> r \<in> set t')"

lemma touches_refl: "touches m t t"
  by (simp add: touches_def)

lemma touches_update:
  "(\<And>r. p r \<Longrightarrow> ob_message r = m) \<Longrightarrow> (\<And>r. ob_message (f r) = ob_message r) \<Longrightarrow> touches m t (update_where p f t)"
  by (auto simp: touches_def set_update_where) (simp add: update_where_def)

lemma try_update_Inr:
  "try_update_where p f t = Inr t' \<longleftrightarrow> list_all2 (\<lambda>r r'. if p r then f r = Inr r' else r' = r) t t'"
  by (induction t arbitrary: t') (auto simp: and_then_eq_Inr list_all2_Cons1)

lemma try_update_row: "try_update_where p f t = Inr t' \<Longrightarrow> r \<in> set t \<Longrightarrow> p r \<Longrightarrow> \<exists>r'\<in>set t'. f r = Inr r'"
  by (induction t arbitrary: t') (auto simp: and_then_eq_Inr)

lemma back_off_row_eq:
  "back_off_row now e r = Inr r' \<Longrightarrow> ob_message r' = ob_message r \<and> ob_subject r' = ob_subject r \<and>
     ob_payload r' = ob_payload r \<and> delivery_of r' = delivery_of r"
  by (auto simp: back_off_row_def and_then_eq_Inr delivery_of_def)

lemma backed_off:
  assumes "try_update_where (\<lambda>r. ob_message r = m \<and> ob_published r = None) (back_off_row now e) t = Inr t'"
  shows "touches m t t'" and "messages_of t' = messages_of t"
proof -
  have rows: "list_all2 (\<lambda>r r'. ob_message r' = ob_message r \<and> ob_subject r' = ob_subject r \<and>
      ob_payload r' = ob_payload r \<and> delivery_of r' = delivery_of r \<and> (ob_message r \<noteq> m \<longrightarrow> r' = r)) t t'"
    using assms unfolding try_update_Inr by (rule list_all2_mono) (auto split: if_splits dest: back_off_row_eq)
  then show "touches m t t'"
    by (induction rule: list_all2_induct) (auto simp: touches_def)
  from rows have "map_option (\<lambda>r. (ob_subject r, ob_payload r, delivery_of r)) (find_by ob_message k t') =
      map_option (\<lambda>r. (ob_subject r, ob_payload r, delivery_of r)) (find_by ob_message k t)" for k
    by (induction rule: list_all2_induct) auto
  then show "messages_of t' = messages_of t" by (intro ext) (simp add: messages_of_def)
qed

lemma transact_outbox:
  assumes "io_map_err g (transact (\<lambda>db. and_then (f db) (\<lambda>t. Inr ((), db\<lparr>outbox := t\<rparr>)))) w = (res, w')"
  obtains (failed) e where "res = Inl e" "w_db w' = w_db w"
  | (changed) t where "res = Inr ()" "f (w_db w) = Inr t" "w_db w' = (w_db w)\<lparr>outbox := t\<rparr>"
proof -
  obtain res1 where tr: "transact (\<lambda>db. and_then (f db) (\<lambda>t. Inr ((), db\<lparr>outbox := t\<rparr>))) w = (res1, w')"
    and res: "res = (case res1 of Inl e \<Rightarrow> Inl (g e) | Inr x \<Rightarrow> Inr x)"
    using assms by (auto simp: io_map_err_def split: prod.splits sum.splits)
  show ?thesis
  proof (cases res1)
    case (Inl e)
    with tr res show ?thesis by (intro failed) (auto dest: transact_InlD)
  next
    case (Inr x)
    obtain t where "f (w_db w) = Inr t" "w_db w' = (w_db w)\<lparr>outbox := t\<rparr>"
      using transact_InrD [OF tr [unfolded Inr]] by (auto simp: and_then_eq_Inr)
    with Inr res show ?thesis by (intro changed) simp_all
  qed
qed

lemma transact_update:
  assumes "io_map_err g (transact (\<lambda>db. Inr ((), db\<lparr>outbox := f db\<rparr>))) w = (res, w')"
  obtains (failed) e where "res = Inl e" "w_db w' = w_db w"
  | (changed) "res = Inr ()" "w_db w' = (w_db w)\<lparr>outbox := f (w_db w)\<rparr>"
  using assms transact_outbox [of g "\<lambda>db. Inr (f db)" w res w'] that by auto

lemma mark_undeliverable_cases:
  assumes "mark_undeliverable m s = (res, s')"
  obtains (failed) e where "res = Inl e" "w_db (rs_world s') = w_db (rs_world s)" "rs_acked s' = rs_acked s"
  | (marked) "res = Inr ()" "rs_acked s' = rs_acked s"
      "w_db (rs_world s') = (w_db (rs_world s))\<lparr>outbox := update_where (\<lambda>r. ob_message r = m \<and> unsent r)
         (set_undeliverable (db_clock (w_db (rs_world s)))) (outbox (w_db (rs_world s)))\<rparr>"
proof -
  let ?m = "io_map_err (\<lambda>_. BusCatalog) (transact (\<lambda>db. Inr ((), db\<lparr>outbox := update_where
    (\<lambda>r. ob_message r = m \<and> unsent r) (set_undeliverable (db_clock db)) (outbox db)\<rparr>)))"
  obtain res1 w where mark: "?m (rs_world s) = (res1, w)" by fastforce
  then show ?thesis
  proof (cases rule: transact_update)
    case (failed e)
    with assms mark that(1) show ?thesis by (auto simp: mark_undeliverable_def relay_bind_def on_world_def)
  next
    case changed
    with assms mark that(2) show ?thesis by (auto simp: mark_undeliverable_def relay_bind_def on_world_def tell_def)
  qed
qed

text \<open>What one row's turn is to the queue, from a state in which the row waits.\<close>

definition turn :: "relay_runtime \<Rightarrow> outbox_row \<Rightarrow> relay_state \<Rightarrow> relay_state \<Rightarrow> bool" where
  "turn rt r s s' \<longleftrightarrow> next_uuid (w_db (rs_world s')) = next_uuid (w_db (rs_world s)) \<and>
     db_clock (w_db (rs_world s)) \<le> db_clock (w_db (rs_world s')) \<and>
     touches (ob_message r) (outbox (w_db (rs_world s))) (outbox (w_db (rs_world s'))) \<and>
     queue_path (payload_fits rt) (queue_of s) (queue_of s')"

lemma turn_same_queue:
  "next_uuid (w_db (rs_world s')) = next_uuid (w_db (rs_world s)) \<Longrightarrow>
   db_clock (w_db (rs_world s)) \<le> db_clock (w_db (rs_world s')) \<Longrightarrow>
   touches (ob_message r) (outbox (w_db (rs_world s))) (outbox (w_db (rs_world s'))) \<Longrightarrow>
   messages_of (outbox (w_db (rs_world s'))) = messages_of (outbox (w_db (rs_world s))) \<Longrightarrow>
   rs_acked s' = rs_acked s \<Longrightarrow> turn rt r s s'"
  by (simp add: turn_def queue_of_def)

lemma turn_undeliverable:
  assumes "outbox_ok (w_db (rs_world s))" and "r \<in> set (outbox (w_db (rs_world s)))" and "unsent r"
    and "\<not> payload_fits rt (ob_subject r) (ob_payload r)" and "mark_undeliverable (ob_message r) s = (res, s')"
  shows "turn rt r s s'"
  using assms(5)
proof (cases rule: mark_undeliverable_cases)
  case (failed e)
  then show ?thesis by (intro turn_same_queue) (simp_all add: touches_refl)
next
  case marked
  let ?t = "outbox (w_db (rs_world s))"
  have dist: "distinct (map ob_message ?t)" using assms(1) by (simp add: outbox_ok_def)
  have "messages_of (outbox (w_db (rs_world s'))) = (messages_of ?t)(ob_message r \<mapsto> (ob_subject r, ob_payload r, Dropped))"
    unfolding marked using messages_update [OF dist assms(2), of "\<lambda>r'. ob_message r' = ob_message r \<and> unsent r'"] assms(3)
    by (simp add: set_undeliverable_def unsent_def delivery_of_def)
  moreover have "q_messages (queue_of s) (ob_message r) = Some (ob_subject r, ob_payload r, Waiting)"
    using messages_waiting [OF dist assms(2,3)] by (simp add: queue_of_def)
  from queue_step.drop [where fits = "payload_fits rt", OF this assms(4)]
  have "queue_step (payload_fits rt) (queue_of s)
      (queue_of s\<lparr>q_messages := (messages_of ?t)(ob_message r \<mapsto> (ob_subject r, ob_payload r, Dropped))\<rparr>)"
    by (simp add: queue_of_def)
  ultimately have "queue_step (payload_fits rt) (queue_of s) (queue_of s')"
    using marked(2) by (simp add: queue_of_def)
  moreover have "touches (ob_message r) ?t (outbox (w_db (rs_world s')))"
    unfolding marked by simp (rule touches_update; simp add: set_undeliverable_def)
  ultimately show ?thesis using marked(3) by (simp add: turn_def r_into_rtranclp)
qed

lemma turn_published:
  assumes "outbox_ok (w_db (rs_world s))" and "r \<in> set (outbox (w_db (rs_world s)))" and "unsent r"
    and "ob_message r \<in> set (rs_acked s)" and "on_world (mark_published (ob_message r)) s = (res, s')"
  shows "turn rt r s s'"
proof -
  let ?t = "outbox (w_db (rs_world s))"
  obtain w where mark: "mark_published (ob_message r) (rs_world s) = (res, w)" and s': "s' = s\<lparr>rs_world := w\<rparr>"
    using assms(5) by (auto simp: on_world_def split: prod.splits)
  from mark [unfolded mark_published_def] show ?thesis
  proof (cases rule: transact_update)
    case (failed e)
    then show ?thesis unfolding s' by (intro turn_same_queue) (simp_all add: touches_refl)
  next
    case changed
    have dist: "distinct (map ob_message ?t)" using assms(1) by (simp add: outbox_ok_def)
    have "messages_of (outbox (w_db w)) = (messages_of ?t)(ob_message r \<mapsto> (ob_subject r, ob_payload r, Delivered))"
      unfolding changed using messages_update [OF dist assms(2), of "\<lambda>r'. ob_message r' = ob_message r \<and> ob_published r' = None"] assms(3)
      by (simp add: set_published_def unsent_def delivery_of_def)
    moreover have "q_messages (queue_of s) (ob_message r) = Some (ob_subject r, ob_payload r, Waiting)"
      using messages_waiting [OF dist assms(2,3)] by (simp add: queue_of_def)
    from queue_step.settle [OF this] assms(4)
    have "queue_step (payload_fits rt) (queue_of s)
        (queue_of s\<lparr>q_messages := (messages_of ?t)(ob_message r \<mapsto> (ob_subject r, ob_payload r, Delivered))\<rparr>)"
      by (simp add: queue_of_def)
    ultimately have "queue_step (payload_fits rt) (queue_of s) (queue_of s')" by (simp add: queue_of_def s')
    moreover have "touches (ob_message r) ?t (outbox (w_db w))"
      unfolding changed by simp (rule touches_update; simp add: set_published_def)
    ultimately show ?thesis using changed by (simp add: turn_def s' r_into_rtranclp)
  qed
qed

lemma turn_refused:
  assumes "on_world (mark_refused (ob_message r) e) s = (res, s')"
  shows "turn rt r s s'"
proof -
  obtain w where mark: "mark_refused (ob_message r) e (rs_world s) = (res, w)" and s': "s' = s\<lparr>rs_world := w\<rparr>"
    using assms by (auto simp: on_world_def split: prod.splits)
  from mark [unfolded mark_refused_def] show ?thesis
  proof (cases rule: transact_outbox)
    case (failed e')
    then show ?thesis unfolding s' by (intro turn_same_queue) (simp_all add: touches_refl)
  next
    case (changed t)
    with backed_off [OF changed(2)] show ?thesis unfolding s' by (intro turn_same_queue) simp_all
  qed
qed

lemma turn_trans: "turn rt r a b \<Longrightarrow> turn rt r b c \<Longrightarrow> turn rt r a c"
  unfolding turn_def touches_def by (auto intro: rtranclp_trans)

lemma turn_acknowledged:
  assumes "outbox_ok (w_db (rs_world s))" and "r \<in> set (outbox (w_db (rs_world s)))" and "unsent r"
    and "payload_fits rt (ob_subject r) (ob_payload r)" and "db_clock (w_db (rs_world s)) \<le> d"
  shows "turn rt r s (s\<lparr>rs_world := (rs_world s)\<lparr>w_calls := n, w_clock := c, w_db := (w_db (rs_world s))\<lparr>db_clock := d\<rparr>\<rparr>,
    rs_acked := rs_acked s @ [ob_message r], rs_lifecycle := l\<rparr>)"
proof -
  have "q_messages (queue_of s) (ob_message r) = Some (ob_subject r, ob_payload r, Waiting)"
    using messages_waiting [OF _ assms(2,3)] assms(1) by (simp add: queue_of_def outbox_ok_def)
  from queue_step.acknowledge [where fits = "payload_fits rt", OF this assms(4)] show ?thesis
    using assms(5) by (auto simp: turn_def touches_refl queue_of_def intro: r_into_rtranclp)
qed

lemma relay_bind_tell: "relay_bind (tell f) g s = g () (s\<lparr>rs_lifecycle := f (rs_lifecycle s)\<rparr>)"
  by (simp add: relay_bind_def tell_def)

lemma bind_return_state: "relay_bind m (\<lambda>_. relay_return x) s = (res, s') \<Longrightarrow> \<exists>res1. m s = (res1, s')"
  by (auto simp: relay_bind_def relay_return_def split: prod.splits sum.splits)

text \<open>The state in which the broker's answer is noted: time has passed, and an acknowledgment is logged.\<close>

definition answered :: "relay_runtime \<Rightarrow> outbox_row \<Rightarrow> string \<Rightarrow> relay_state \<Rightarrow> relay_state" where
  "answered rt r bytes s =
     (let a = rl_publish rt (w_calls (rs_world s)) (ob_subject r) (ob_message r) bytes; w = rs_world s; d = int (ans_elapsed a) in
      s\<lparr>rs_world := w\<lparr>w_calls := Suc (w_calls w), w_clock := w_clock w + 1000 * d, w_db := (w_db w)\<lparr>db_clock := db_clock (w_db w) + d\<rparr>\<rparr>,
        rs_acked := rs_acked s @ (if ans_result a = None then [ob_message r] else []),
        rs_lifecycle := record_publication (ans_result a = None) (rs_lifecycle s)\<rparr>)"

lemma flush_row_published:
  assumes "ob_subject r \<in> set relayed_subjects" "rl_to_vec rt (ob_payload r) = Some bytes" "\<not> too_large rt bytes"
  shows "flush_row rt r tally s =
    (case ans_result (rl_publish rt (w_calls (rs_world s)) (ob_subject r) (ob_message r) bytes) of
       None \<Rightarrow> relay_bind (on_world (mark_published (ob_message r)))
         (\<lambda>_. relay_return (tally\<lparr>ft_attempted := ft_attempted tally + 1\<rparr>)) (answered rt r bytes s)
     | Some e \<Rightarrow> relay_bind (on_world (mark_refused (ob_message r) e))
         (\<lambda>_. relay_return (tally\<lparr>ft_attempted := ft_attempted tally + 1, ft_failed := ft_failed tally + 1\<rparr>)) (answered rt r bytes s))"
  using assms
  by (auto simp: flush_row_def Let_def relay_bind_def [of "publish _ _ _ _"] publish_def provider_call_def answered_def
      relay_bind_tell split: option.split)

lemma answered_turn:
  assumes "outbox_ok (w_db (rs_world s))" and "r \<in> set (outbox (w_db (rs_world s)))" and "unsent r"
    and "rl_to_vec rt (ob_payload r) = Some bytes" "\<not> too_large rt bytes"
  shows "turn rt r s (answered rt r bytes s)"
proof (cases "ans_result (rl_publish rt (w_calls (rs_world s)) (ob_subject r) (ob_message r) bytes)")
  case None
  have "payload_fits rt (ob_subject r) (ob_payload r)" using assms(4,5) by (auto simp: payload_fits_def)
  with turn_acknowledged [OF assms(1-3)] None show ?thesis by (simp add: answered_def Let_def)
next
  case (Some e)
  then show ?thesis by (intro turn_same_queue) (simp_all add: answered_def Let_def touches_refl)
qed

lemma flush_row_turn:
  assumes "outbox_ok (w_db (rs_world s))" and "r \<in> set (outbox (w_db (rs_world s)))" and "unsent r"
    and "flush_row rt r tally s = (res, s')"
  shows "turn rt r s s'"
proof -
  have idle: "turn rt r s s" by (rule turn_same_queue) (simp_all add: touches_refl)
  consider (unknown) "ob_subject r \<notin> set relayed_subjects" | (unencodable) "rl_to_vec rt (ob_payload r) = None"
    | (large) bytes where "ob_subject r \<in> set relayed_subjects" "rl_to_vec rt (ob_payload r) = Some bytes" "too_large rt bytes"
    | (sent) bytes where "ob_subject r \<in> set relayed_subjects" "rl_to_vec rt (ob_payload r) = Some bytes" "\<not> too_large rt bytes"
    by fastforce
  then show ?thesis
  proof cases
    case unknown
    with assms(4) idle show ?thesis by (simp add: flush_row_def)
  next
    case unencodable
    with assms(4) idle show ?thesis by (auto simp: flush_row_def split: if_splits)
  next
    case large
    then have "\<not> payload_fits rt (ob_subject r) (ob_payload r)" by (simp add: payload_fits_def)
    moreover obtain res1 where "mark_undeliverable (ob_message r) s = (res1, s')"
      using assms(4) large bind_return_state by (fastforce simp: flush_row_def)
    ultimately show ?thesis using turn_undeliverable [OF assms(1-3)] by blast
  next
    case sent
    let ?s = "answered rt r bytes s"
    note a = answered_turn [OF assms(1-3) sent(2,3)]
    have same: "outbox_ok (w_db (rs_world ?s))" "r \<in> set (outbox (w_db (rs_world ?s)))"
      using assms(1,2) by (simp_all add: answered_def Let_def outbox_ok_def)
    show ?thesis
    proof (cases "ans_result (rl_publish rt (w_calls (rs_world s)) (ob_subject r) (ob_message r) bytes)")
      case None
      then obtain res1 where "on_world (mark_published (ob_message r)) ?s = (res1, s')"
        using assms(4) bind_return_state by (fastforce simp: flush_row_published [OF sent])
      moreover have "ob_message r \<in> set (rs_acked ?s)" using None by (simp add: answered_def Let_def)
      ultimately show ?thesis using turn_trans [OF a turn_published [OF same assms(3)]] by blast
    next
      case (Some e)
      then obtain res1 where "on_world (mark_refused (ob_message r) e) ?s = (res1, s')"
        using assms(4) bind_return_state by (fastforce simp: flush_row_published [OF sent])
      with turn_trans [OF a turn_refused] show ?thesis by blast
    qed
  qed
qed

lemma turn_refines: "turn rt r s s' \<Longrightarrow> refines rt s s'"
  unfolding turn_def refines_def outbox_ok_def touches_def by (metis imageE image_eqI list.set_map)

lemma flush_rows_refines:
  assumes "outbox_ok (w_db (rs_world s))" and "set rows \<subseteq> set (outbox (w_db (rs_world s)))"
    and "\<forall>r\<in>set rows. unsent r" and "distinct (map ob_message rows)"
  shows "refines rt s (snd (flush_rows rt rows tally s))"
  using assms
proof (induction rows arbitrary: tally s)
  case Nil
  show ?case by (simp add: relay_return_def queue_refinement.rel_refl)
next
  case (Cons r rows)
  obtain res s1 where 1: "flush_row rt r tally s = (res, s1)" by fastforce
  have turn: "turn rt r s s1" using flush_row_turn [OF Cons.prems(1) _ _ 1] Cons.prems(2,3) by simp
  note 2 = turn_refines [OF turn]
  have ok: "outbox_ok (w_db (rs_world s1))" using 2 Cons.prems(1) by (simp add: refines_def)
  have rest: "set rows \<subseteq> set (outbox (w_db (rs_world s1)))"
  proof
    fix x assume "x \<in> set rows"
    then have "x \<in> set (outbox (w_db (rs_world s)))" "ob_message x \<noteq> ob_message r"
      using Cons.prems(2,4) by (auto simp: image_iff)
    with turn show "x \<in> set (outbox (w_db (rs_world s1)))" by (simp add: turn_def touches_def)
  qed
  show ?case
  proof (cases res)
    case (Inl e)
    with 1 2 show ?thesis by (simp add: relay_bind_def)
  next
    case (Inr x)
    with 1 queue_refinement.rel_trans [OF 2 Cons.IH [OF ok rest, of x]] Cons.prems(3,4) show ?thesis
      by (simp add: relay_bind_def)
  qed
qed

lemma due_rows_waiting:
  assumes "outbox_ok db"
  shows "set (due_rows db) \<subseteq> set (outbox db)" and "\<forall>r\<in>set (due_rows db). unsent r" and "distinct (map ob_message (due_rows db))"
proof -
  let ?f = "filter (\<lambda>r. unsent r \<and> ob_next_attempt r \<le> db_clock db) (outbox db)"
  show "set (due_rows db) \<subseteq> set (outbox db)" and "\<forall>r\<in>set (due_rows db). unsent r"
    by (auto simp: due_rows_def dest: in_set_takeD)
  have "distinct (map ob_message ?f)" using assms by (simp add: outbox_ok_def distinct_map_filter)
  then have "distinct (map ob_message (sort_key (\<lambda>r. (ob_created r, ob_message r)) ?f))"
    by (simp add: distinct_map)
  then show "distinct (map ob_message (due_rows db))"
    unfolding due_rows_def take_map [symmetric] by (rule distinct_take)
qed

lemma query_state:
  "on_world (io_map_err g (query f)) s = (res, s') \<Longrightarrow> outbox (w_db (rs_world s')) = outbox (w_db (rs_world s)) \<and>
     next_uuid (w_db (rs_world s')) = next_uuid (w_db (rs_world s)) \<and> rs_acked s' = rs_acked s"
  by (auto simp: on_world_def io_map_err_def split: prod.splits sum.splits dest!: query_InrD query_InlD)

lemma query_refines: "queue_refinement.maintains rt (on_world (io_map_err g (query f)))"
  unfolding queue_refinement.maintains_def
  using query_state [OF prod.collapse [symmetric]] by (blast intro: refines_same_queue)

lemma flush_outbox_refines: "queue_refinement.maintains rt (flush_outbox rt)"
  unfolding queue_refinement.maintains_def
proof
  fix s :: relay_state
  have report: "queue_refinement.maintains rt (report_health tally)" for tally
    unfolding report_health_def
    by (intro queue_refinement.maintains_bind query_refines)
      (simp add: queue_refinement.maintains_def tell_def refines_same_queue)
  obtain res s1 where 1: "on_world (io_map_err (\<lambda>_. BusCatalog) (query due_rows)) s = (res, s1)" by fastforce
  have 2: "refines rt s s1" using query_state [OF 1] by (intro refines_same_queue) simp_all
  show "refines rt s (snd (flush_outbox rt s))"
  proof (cases res)
    case (Inl e)
    with 1 2 show ?thesis by (simp add: flush_outbox_def relay_bind_def)
  next
    case (Inr rows)
    have rows: "rows = due_rows (w_db (rs_world s))" "w_db (rs_world s1) = w_db (rs_world s)"
      using 1 Inr by (auto simp: on_world_def io_map_err_def split: prod.splits sum.splits dest!: query_InrD)
    obtain res' s2 where 3: "flush_rows rt rows \<lparr>ft_attempted = 0, ft_failed = 0\<rparr> s1 = (res', s2)" by fastforce
    have "refines rt s1 s2"
    proof (cases "outbox_ok (w_db (rs_world s1))")
      case True
      from flush_rows_refines [OF True, of rows rt "\<lparr>ft_attempted = 0, ft_failed = 0\<rparr>"] due_rows_waiting [OF True] rows 3
      show ?thesis by simp
    qed (simp add: refines_def)
    with 2 have "refines rt s s2" by (rule queue_refinement.rel_trans)
    moreover have "refines rt s2 (snd (report_health tally s2))" for tally
      using report by (simp add: queue_refinement.maintains_def)
    ultimately show ?thesis
      using 1 Inr 3 by (cases res') (auto simp: flush_outbox_def relay_bind_def intro: queue_refinement.rel_trans)
  qed
qed

lemma relay_loop_refines: "queue_refinement.maintains rt (relay_loop rt ds)"
proof (induction ds)
  case (Cons d ds)
  have "queue_refinement.maintains rt (pass_time d)"
    by (auto simp: queue_refinement.maintains_def pass_time_def intro: refines_same_queue)
  with Cons show ?case
    by (simp add: queue_refinement.maintains_bind dispatch_due_refines flush_outbox_refines)
qed (simp add: queue_refinement.maintains_return)

text \<open>
  C6. The relay refines a queue with delivery at least once: whatever the broker answers, wherever the
  connection is lost and whenever the relay stops, what has happened to the outbox is a history of
  the abstract queue, in which messages are added, acknowledged while they wait, settled only after
  an acknowledgment, and dropped only if they do not fit the broker's limit.
\<close>

theorem relay_refines_queue:
  assumes "outbox_ok (w_db (rs_world s))" and "relay_loop rt ds s = (res, s')"
  shows "outbox_ok (w_db (rs_world s')) \<and> queue_path (payload_fits rt) (queue_of s) (queue_of s')"
  using queue_refinement.maintainsD [OF relay_loop_refines assms(2)] assms(1) by (simp add: refines_def)

text \<open>
  No message is lost and none is changed: after any run of the relay every message of the outbox is
  still there with its subject and payload; it is marked published only if it already was or the
  broker has acknowledged it, set aside only if it cannot be sent, and a settled one stays as it is.
\<close>

theorem no_message_lost:
  assumes "outbox_ok (w_db (rs_world s))" and "relay_loop rt ds s = (res, s')" and "r \<in> set (outbox (w_db (rs_world s)))"
  shows "\<exists>r'\<in>set (outbox (w_db (rs_world s'))). ob_message r' = ob_message r \<and> ob_subject r' = ob_subject r \<and> ob_payload r' = ob_payload r \<and>
    (\<not> unsent r \<longrightarrow> delivery_of r' = delivery_of r) \<and>
    (unsent r \<and> ob_published r' \<noteq> None \<longrightarrow> ob_message r \<in> set (rs_acked s')) \<and>
    (unsent r \<and> ob_published r' = None \<and> ob_undeliverable r' \<noteq> None \<longrightarrow> \<not> payload_fits rt (ob_subject r) (ob_payload r))"
proof -
  have path: "queue_keeps (payload_fits rt) (queue_of s) (queue_of s')"
    using queue_refinement.maintainsD [OF relay_loop_refines assms(2)] assms(1) by (simp add: refines_def queue_path_keeps)
  have "q_messages (queue_of s) (ob_message r) = Some (ob_subject r, ob_payload r, delivery_of r)"
    using assms(1,3) by (simp add: queue_of_def messages_of_def find_row outbox_ok_def)
  with path obtain d' where d': "q_messages (queue_of s') (ob_message r) = Some (ob_subject r, ob_payload r, d')"
    "delivery_of r \<noteq> Waiting \<longrightarrow> d' = delivery_of r" "delivery_of r = Waiting \<and> d' = Delivered \<longrightarrow> ob_message r \<in> set (rs_acked s')"
    "delivery_of r = Waiting \<and> d' = Dropped \<longrightarrow> \<not> payload_fits rt (ob_subject r) (ob_payload r)"
    unfolding queue_keeps_def by (fastforce simp: queue_of_def)
  from d'(1) obtain r' where "find_by ob_message (ob_message r) (outbox (w_db (rs_world s'))) = Some r'"
    and r': "ob_subject r' = ob_subject r" "ob_payload r' = ob_payload r" "delivery_of r' = d'"
    by (auto simp: queue_of_def messages_of_def)
  from find_by_SomeD [OF this(1)] r' d'(2-4) show ?thesis
    by (intro bexI [of _ r']) (auto simp: unsent_def delivery_of_def split: if_splits)
qed

section \<open>Progress\<close>

text \<open>
  A broker that acknowledges, a database that answers, an outbox whose waiting rows are due, of a subject the
  relay knows and within the broker's limit, and nothing left to move into it: no queued analysis request and no
  backup policy change that is not published.
\<close>

definition nothing_to_dispatch :: "catalog \<Rightarrow> bool" where
  "nothing_to_dispatch db \<longleftrightarrow> (\<forall>q\<in>set (requests db). rq_status q \<noteq> ReqQueued) \<and>
     (case policy_cursor db of None \<Rightarrow> True | Some c \<Rightarrow> cu_dirty c = cu_published c)"

definition serving :: "relay_runtime \<Rightarrow> relay_state \<Rightarrow> bool" where
  "serving rt s \<longleftrightarrow> w_faults (rs_world s) = [] \<and> outbox_ok (w_db (rs_world s)) \<and> nothing_to_dispatch (w_db (rs_world s)) \<and>
     (\<forall>n subject m bytes. ans_result (rl_publish rt n subject m bytes) = None) \<and>
     (\<forall>r\<in>set (outbox (w_db (rs_world s))). unsent r \<longrightarrow> ob_subject r \<in> set relayed_subjects \<and>
        payload_fits rt (ob_subject r) (ob_payload r) \<and> ob_next_attempt r \<le> db_clock (w_db (rs_world s)))"

definition backlog :: "relay_state \<Rightarrow> outbox_row list" where
  "backlog s = filter unsent (outbox (w_db (rs_world s)))"

lemma filter_published:
  "filter unsent (update_where (\<lambda>r. ob_message r = m \<and> ob_published r = None) (set_published now) t) =
     filter (\<lambda>r. ob_message r \<noteq> m) (filter unsent t)"
  by (induction t) (auto simp: update_where_def unsent_def set_published_def)

lemma serve_row:
  assumes "serving rt s" and "r \<in> set (backlog s)"
  shows "\<exists>tally' s'. flush_row rt r tally s = (Inr tally', s') \<and> serving rt s' \<and>
    backlog s' = filter (\<lambda>x. ob_message x \<noteq> ob_message r) (backlog s)"
proof -
  have r: "r \<in> set (outbox (w_db (rs_world s)))" "unsent r" using assms(2) by (simp_all add: backlog_def)
  with assms(1) obtain bytes where sent: "ob_subject r \<in> set relayed_subjects"
    "rl_to_vec rt (ob_payload r) = Some bytes" "\<not> too_large rt bytes"
    by (auto simp: serving_def payload_fits_def)
  let ?s = "answered rt r bytes s"
  let ?db = "w_db (rs_world ?s)"
  let ?t = "update_where (\<lambda>x. ob_message x = ob_message r \<and> ob_published x = None) (set_published (db_clock ?db)) (outbox ?db)"
  let ?s' = "?s\<lparr>rs_world := (rs_world ?s)\<lparr>w_db := ?db\<lparr>outbox := ?t\<rparr>\<rparr>\<rparr>"
  have idle: "w_faults (rs_world ?s) = []" and same: "outbox ?db = outbox (w_db (rs_world s))"
    "next_uuid ?db = next_uuid (w_db (rs_world s))" "db_clock (w_db (rs_world s)) \<le> db_clock ?db"
    using assms(1) by (simp_all add: serving_def answered_def Let_def)
  have "flush_row rt r tally s = (Inr (tally\<lparr>ft_attempted := ft_attempted tally + 1\<rparr>), ?s')"
    using assms(1) idle by (simp add: flush_row_published [OF sent] serving_def relay_bind_def on_world_def mark_published_def
        io_map_err_def transact_no_fault relay_return_def)
  moreover have "backlog ?s' = filter (\<lambda>x. ob_message x \<noteq> ob_message r) (backlog s)"
    by (simp add: backlog_def filter_published same)
  moreover have "serving rt ?s'"
  proof -
    have ids: "map ob_message ?t = map ob_message (outbox (w_db (rs_world s)))"
      by (simp add: update_where_def set_published_def same)
    have "x \<in> set (outbox (w_db (rs_world s)))" if "x \<in> set ?t" "unsent x" for x
      using that by (auto simp: same set_update_where set_published_def unsent_def)
    moreover have "outbox_ok (?db\<lparr>outbox := ?t\<rparr>)"
    proof -
      have "ob_message ` set ?t = ob_message ` set (outbox (w_db (rs_world s)))" using arg_cong [OF ids, of set] by simp
      then have "\<forall>x\<in>set ?t. ob_message x \<in> ob_message ` set (outbox (w_db (rs_world s)))" by blast
      with assms(1) ids same(2) show ?thesis by (auto simp: serving_def outbox_ok_def)
    qed
    moreover have "nothing_to_dispatch (?db\<lparr>outbox := ?t\<rparr>)"
      using assms(1) by (simp add: serving_def nothing_to_dispatch_def answered_def Let_def)
    ultimately show ?thesis using assms(1) idle same(3) by (auto simp: serving_def intro: order_trans)
  qed
  ultimately show ?thesis by blast
qed

lemma serve_rows:
  assumes "serving rt s" and "set rows \<subseteq> set (backlog s)" and "distinct (map ob_message rows)"
  shows "\<exists>tally' s'. flush_rows rt rows tally s = (Inr tally', s') \<and> serving rt s' \<and>
    backlog s' = filter (\<lambda>x. ob_message x \<notin> ob_message ` set rows) (backlog s)"
  using assms
proof (induction rows arbitrary: tally s)
  case Nil
  then show ?case by (simp add: relay_return_def)
next
  case (Cons r rows)
  obtain tally1 s1 where 1: "flush_row rt r tally s = (Inr tally1, s1)" "serving rt s1"
    "backlog s1 = filter (\<lambda>x. ob_message x \<noteq> ob_message r) (backlog s)"
    using serve_row [OF Cons.prems(1)] Cons.prems(2) by (metis list.set_intros(1) subsetD)
  have "set rows \<subseteq> set (backlog s1)" using Cons.prems(2,3) by (auto simp: 1(3) image_iff)
  from Cons.IH [OF 1(2) this, of tally1] Cons.prems(3) 1 show ?case
    by (auto simp: relay_bind_def conj_commute)
qed

lemma report_health_no_fault:
  "w_faults (rs_world s) = [] \<Longrightarrow> report_health tally s =
     (Inr (), s\<lparr>rs_lifecycle := health_verdict tally (oldest_stuck (w_db (rs_world s))) (rs_lifecycle s)\<rparr>)"
  by (simp add: report_health_def relay_bind_def on_world_def io_map_err_def query_no_fault tell_def)

lemma serving_lifecycle: "serving rt (s\<lparr>rs_lifecycle := l\<rparr>) = serving rt s" "backlog (s\<lparr>rs_lifecycle := l\<rparr>) = backlog s"
  by (simp_all add: serving_def backlog_def)

lemma serve_pass:
  assumes "serving rt s"
  shows "\<exists>s'. flush_outbox rt s = (Inr (), s') \<and> serving rt s' \<and> length (backlog s') = length (backlog s) - relay_batch \<and>
    (backlog s' = [] \<longrightarrow> lf_healthy (rs_lifecycle s'))"
proof -
  let ?db = "w_db (rs_world s)" and ?key = "\<lambda>r. (ob_created r, ob_message r)"
  have due: "due_rows ?db = take relay_batch (sort_key ?key (backlog s))"
  proof -
    have "filter (\<lambda>r. unsent r \<and> ob_next_attempt r \<le> db_clock ?db) (outbox ?db) = filter unsent (outbox ?db)"
      using assms by (intro filter_cong) (auto simp: serving_def)
    then show ?thesis by (simp add: due_rows_def backlog_def)
  qed
  let ?rows = "due_rows ?db"
  have ok: "outbox_ok ?db" using assms by (simp add: serving_def)
  have rows: "set ?rows \<subseteq> set (backlog s)" using due_rows_waiting(1,2) [OF ok] by (auto simp: backlog_def)
  obtain tally' s1 where 1: "flush_rows rt ?rows \<lparr>ft_attempted = 0, ft_failed = 0\<rparr> s = (Inr tally', s1)" "serving rt s1"
    "backlog s1 = filter (\<lambda>x. ob_message x \<notin> ob_message ` set ?rows) (backlog s)"
    using serve_rows [OF assms rows due_rows_waiting(3) [OF ok]] by blast
  have faults: "w_faults (rs_world s) = []" "w_faults (rs_world s1) = []" using assms 1(2) by (simp_all add: serving_def)
  have dist: "distinct (map ob_message (backlog s))" using ok by (simp add: outbox_ok_def backlog_def distinct_map_filter)
  have "ob_message x \<in> ob_message ` set ?rows \<longleftrightarrow> x \<in> set ?rows" if "x \<in> set (backlog s)" for x
    using inj_onD [OF dist [unfolded distinct_map, THEN conjunct2]] that rows by blast
  then have "backlog s1 = filter (\<lambda>x. x \<notin> set ?rows) (backlog s)" unfolding 1(3) by (intro filter_cong) simp_all
  moreover have "distinct ?rows" using due_rows_waiting(3) [OF ok] by (simp add: distinct_map)
  moreover have "length (filter (\<lambda>x. x \<in> set ?rows) (backlog s)) = length ?rows"
  proof -
    have "set (filter (\<lambda>x. x \<in> set ?rows) (backlog s)) = set ?rows" using rows by auto
    moreover have "distinct (filter (\<lambda>x. x \<in> set ?rows) (backlog s))" using dist by (simp add: distinct_map)
    ultimately show ?thesis using \<open>distinct ?rows\<close> by (metis distinct_card)
  qed
  ultimately have "length (backlog s1) = length (backlog s) - length ?rows"
    using sum_length_filter_compl [of "\<lambda>x. x \<in> set ?rows" "backlog s"] by simp
  moreover have "length ?rows = min relay_batch (length (backlog s))" by (simp add: due min.commute)
  ultimately have len: "length (backlog s1) = length (backlog s) - relay_batch" by simp
  let ?s' = "s1\<lparr>rs_lifecycle := health_verdict tally' (oldest_stuck (w_db (rs_world s1))) (rs_lifecycle s1)\<rparr>"
  have "flush_outbox rt s = (Inr (), ?s')"
    using 1(1) faults by (simp add: flush_outbox_def relay_bind_def on_world_def io_map_err_def query_no_fault
        report_health_no_fault)
  moreover have "lf_healthy (rs_lifecycle ?s')" if "backlog s1 = []"
    using that by (simp add: health_verdict_def oldest_stuck_def backlog_def set_publisher_healthy_def)
  ultimately show ?thesis using 1(2) len by (auto simp: serving_lifecycle)
qed

lemma dispatch_nothing:
  assumes "w_faults w = []" and "nothing_to_dispatch (w_db w)"
  shows "\<exists>c. dispatch_due rt w = (Inr (), w\<lparr>w_db := (w_db w)\<lparr>policy_cursor := Some c\<rparr>\<rparr>) \<and> cu_dirty c = cu_published c"
proof -
  let ?c = "case policy_cursor (w_db w) of None \<Rightarrow> fresh_cursor | Some c \<Rightarrow> c"
  have c: "cu_dirty ?c = cu_published ?c"
    using assms(2) by (simp add: nothing_to_dispatch_def fresh_cursor_def split: option.splits)
  have "due_request now (w_db w) = None" for now
    using assms(2) by (auto simp: due_request_def nothing_to_dispatch_def filter_empty_conv)
  then have "dispatch_analyses wc dispatch_batch w = (Inr (), w)" for wc
    using assms(1)
    by (simp add: dispatch_batch_def numeral_eq_Suc dispatch_due_repository_analysis_def transact_with_def
        dispatch_due_tx_def io_bind_def io_return_def)
  moreover have "publish_due_tx pc t t' now (w_db w) = Inr (Pending, (w_db w)\<lparr>policy_cursor := Some ?c\<rparr>)" for pc t t' now
    using c by (simp add: publish_due_tx_def Let_def)
  ultimately have "dispatch_due rt w = (Inr (), w\<lparr>w_db := (w_db w)\<lparr>policy_cursor := Some ?c\<rparr>\<rparr>)"
    using assms(1) by (simp add: dispatch_due_def io_bind_def io_map_err_def io_return_def publish_due_backup_policy_def transact_with_def)
  with c show ?thesis by blast
qed

lemma serve_dispatch:
  assumes "serving rt s" and "pass_time d s = (Inr (), s1)"
  shows "\<exists>s2. on_world (dispatch_due rt) s1 = (Inr (), s2) \<and> serving rt s2 \<and> backlog s2 = backlog s"
proof -
  have s1: "serving rt s1" "backlog s1 = backlog s"
    using assms by (fastforce simp: pass_time_def serving_def outbox_ok_def nothing_to_dispatch_def backlog_def)+
  then obtain c where "dispatch_due rt (rs_world s1) =
      (Inr (), (rs_world s1)\<lparr>w_db := (w_db (rs_world s1))\<lparr>policy_cursor := Some c\<rparr>\<rparr>)" "cu_dirty c = cu_published c"
    using dispatch_nothing [of "rs_world s1" rt] by (auto simp: serving_def)
  with s1 show ?thesis
    by (simp add: on_world_def serving_def outbox_ok_def nothing_to_dispatch_def backlog_def)
qed

lemma serve_loop:
  assumes "serving rt s" and "length (backlog s) \<le> length ds * 32" and "ds \<noteq> []"
  shows "\<exists>s'. relay_loop rt ds s = (Inr (), s') \<and> backlog s' = [] \<and> lf_healthy (rs_lifecycle s')"
  using assms
proof (induction ds arbitrary: s)
  case (Cons d ds)
  obtain s1 where 1: "pass_time d s = (Inr (), s1)" by (simp add: pass_time_def)
  obtain s2 where 2: "on_world (dispatch_due rt) s1 = (Inr (), s2)" "serving rt s2" "backlog s2 = backlog s"
    using serve_dispatch [OF Cons.prems(1) 1] by blast
  obtain s3 where 3: "flush_outbox rt s2 = (Inr (), s3)" "serving rt s3"
    "length (backlog s3) = length (backlog s2) - relay_batch" "backlog s3 = [] \<longrightarrow> lf_healthy (rs_lifecycle s3)"
    using serve_pass [OF 2(2)] by blast
  have short: "length (backlog s3) \<le> length ds * 32" using 2(3) 3(3) Cons.prems(2) by (simp add: relay_batch_def)
  show ?case
  proof (cases "ds = []")
    case True
    with 1 2(1) 3 short show ?thesis by (simp add: relay_bind_def relay_return_def)
  next
    case False
    with Cons.IH [OF 3(2) short] 1 2(1) 3(1) show ?thesis by (auto simp: relay_bind_def)
  qed
qed simp

text \<open>
  C10. The outbox drains. Let every waiting row be due, of a subject the relay knows and within the
  broker's limit, let there be nothing left to dispatch, let the broker acknowledge every publish and no
  database connection be lost (\<open>serving\<close>). Then a run of the relay loop with at least one tick, and as many ticks as the
  backlog has batches of 32, ends without error at its shutdown, nothing waits any more, every row that
  waited is still there and marked published under a message the broker has acknowledged, and the publisher
  reports healthy.
\<close>

theorem outbox_drains:
  assumes "serving rt s" and "length (backlog s) \<le> length ds * 32" and "ds \<noteq> []"
  shows "\<exists>s'. relay_loop rt ds s = (Inr (), s') \<and> backlog s' = [] \<and> lf_healthy (rs_lifecycle s') \<and>
    (\<forall>r\<in>set (backlog s). \<exists>r'\<in>set (outbox (w_db (rs_world s'))). ob_message r' = ob_message r \<and>
       ob_subject r' = ob_subject r \<and> ob_payload r' = ob_payload r \<and> ob_published r' \<noteq> None \<and>
       ob_message r \<in> set (rs_acked s'))"
proof -
  obtain s' where run: "relay_loop rt ds s = (Inr (), s')" and rest: "backlog s' = []" "lf_healthy (rs_lifecycle s')"
    using serve_loop [OF assms] by blast
  have "\<exists>r'\<in>set (outbox (w_db (rs_world s'))). ob_message r' = ob_message r \<and>
       ob_subject r' = ob_subject r \<and> ob_payload r' = ob_payload r \<and> ob_published r' \<noteq> None \<and> ob_message r \<in> set (rs_acked s')"
    if "r \<in> set (backlog s)" for r
  proof -
    have r: "r \<in> set (outbox (w_db (rs_world s)))" "unsent r" "payload_fits rt (ob_subject r) (ob_payload r)"
      using that assms(1) by (auto simp: backlog_def serving_def)
    have ok: "outbox_ok (w_db (rs_world s))" using assms(1) by (simp add: serving_def)
    have "\<forall>r'\<in>set (outbox (w_db (rs_world s'))). ob_published r' = None \<longrightarrow> ob_undeliverable r' \<noteq> None"
      using rest(1) by (auto simp: backlog_def filter_empty_conv unsent_def)
    with no_message_lost [OF ok run r(1)] r(2,3) show ?thesis by metis
  qed
  with run rest show ?thesis by blast
qed

section \<open>What a pass does to its rows\<close>

text \<open>The outcome of a row's turn: published with an acknowledgment, set aside, or backed off from \<open>now\<close>.\<close>

definition row_served :: "relay_runtime \<Rightarrow> timestamp \<Rightarrow> outbox_row \<Rightarrow> relay_state \<Rightarrow> bool" where
  "row_served rt now r s \<longleftrightarrow> (\<exists>r'\<in>set (outbox (w_db (rs_world s))). ob_message r' = ob_message r \<and>
     (delivery_of r' = Delivered \<and> ob_message r \<in> set (rs_acked s) \<or>
      delivery_of r' = Dropped \<and> \<not> payload_fits rt (ob_subject r) (ob_payload r) \<or>
      delivery_of r' = Waiting \<and> ob_attempts r' = ob_attempts r + 1 \<and> now < ob_next_attempt r'))"

lemma backoff_positive: "backoff n = Inr d \<Longrightarrow> 0 < d"
  by (auto simp: backoff_def min_def split: if_splits)

lemma flush_row_served:
  assumes "outbox_ok (w_db (rs_world s))" and "r \<in> set (outbox (w_db (rs_world s)))" and "unsent r"
    and "flush_row rt r tally s = (Inr tally', s')"
  shows "row_served rt (db_clock (w_db (rs_world s))) r s'"
proof -
  obtain bytes where sent: "ob_subject r \<in> set relayed_subjects" "rl_to_vec rt (ob_payload r) = Some bytes"
    using assms(4) by (auto simp: flush_row_def split: if_splits option.splits)
  show ?thesis
  proof (cases "too_large rt bytes")
    case True
    then obtain res1 where "mark_undeliverable (ob_message r) s = (res1, s')" "\<not> isl res1"
      using assms(4) sent by (auto simp: flush_row_def relay_bind_def split: prod.splits sum.splits simp: relay_return_def)
    from this(1) show ?thesis
    proof (cases rule: mark_undeliverable_cases)
      case marked
      have "set_undeliverable (db_clock (w_db (rs_world s))) r \<in> set (outbox (w_db (rs_world s')))"
        unfolding marked(3) using assms(2,3) by (auto simp: set_update_where)
      moreover have "\<not> payload_fits rt (ob_subject r) (ob_payload r)" using True sent(2) by (simp add: payload_fits_def)
      ultimately show ?thesis unfolding row_served_def using assms(3)
        by (intro bexI [of _ "set_undeliverable (db_clock (w_db (rs_world s))) r"])
          (auto simp: set_undeliverable_def delivery_of_def unsent_def)
    qed (use \<open>\<not> isl res1\<close> in simp)
  next
    case False
    let ?s = "answered rt r bytes s"
    let ?db = "w_db (rs_world ?s)"
    note flush = assms(4) [unfolded flush_row_published [OF sent False]]
    have same: "outbox ?db = outbox (w_db (rs_world s))" "db_clock (w_db (rs_world s)) \<le> db_clock ?db"
      by (simp_all add: answered_def Let_def)
    show ?thesis
    proof (cases "ans_result (rl_publish rt (w_calls (rs_world s)) (ob_subject r) (ob_message r) bytes)")
      case None
      then obtain w where "mark_published (ob_message r) (rs_world ?s) = (Inr (), w)" "s' = ?s\<lparr>rs_world := w\<rparr>"
        using flush by (auto simp: relay_bind_def on_world_def relay_return_def split: prod.splits sum.splits)
      then have "w_db (rs_world s') = ?db\<lparr>outbox := update_where (\<lambda>x. ob_message x = ob_message r \<and> ob_published x = None)
          (set_published (db_clock ?db)) (outbox ?db)\<rparr>" "rs_acked s' = rs_acked s @ [ob_message r]"
        using None by (auto simp: mark_published_def answered_def Let_def elim!: transact_update)
      then show ?thesis unfolding row_served_def
        using assms(2,3) same by (intro bexI [of _ "set_published (db_clock ?db) r"])
          (auto simp: set_published_def delivery_of_def set_update_where unsent_def)
    next
      case (Some e)
      then obtain w where mark: "mark_refused (ob_message r) e (rs_world ?s) = (Inr (), w)" "s' = ?s\<lparr>rs_world := w\<rparr>"
        using flush by (auto simp: relay_bind_def on_world_def relay_return_def split: prod.splits sum.splits)
      from mark(1) [unfolded mark_refused_def] show ?thesis
      proof (cases rule: transact_outbox)
        case (changed t)
        from try_update_row [OF changed(2)] obtain r' where r': "r' \<in> set t" "back_off_row (db_clock ?db) e r = Inr r'"
          using assms(2,3) same(1) by (auto simp: unsent_def)
        then have "ob_attempts r' = ob_attempts r + 1" "db_clock ?db < ob_next_attempt r'"
          using backoff_positive by (auto simp: back_off_row_def and_then_eq_Inr)
        with back_off_row_eq [OF r'(2)] r'(1) changed(3) mark(2) same(2) assms(3) show ?thesis
          unfolding row_served_def by (intro bexI [of _ r']) (auto simp: waiting_iff)
      qed simp
    qed
  qed
qed

lemma row_served_later:
  assumes "row_served rt now r s" and "turn rt x s s'" and "ob_message x \<noteq> ob_message r" and "set (rs_acked s) \<subseteq> set (rs_acked s')"
  shows "row_served rt now r s'"
  using assms unfolding row_served_def turn_def touches_def by (metis subsetD)

lemma turn_acked: "turn rt r s s' \<Longrightarrow> set (rs_acked s) \<subseteq> set (rs_acked s')"
  by (auto simp: turn_def queue_of_def dest!: queue_path_keeps simp: queue_keeps_def)

lemma row_served_earlier: "row_served rt now' r s \<Longrightarrow> now \<le> now' \<Longrightarrow> row_served rt now r s"
  unfolding row_served_def by force

lemma flush_rows_served:
  assumes "outbox_ok (w_db (rs_world s))" and "set rows \<subseteq> set (outbox (w_db (rs_world s)))"
    and "\<forall>r\<in>set rows. unsent r" and "distinct (map ob_message rows)"
    and "flush_rows rt rows tally s = (Inr tally', s')"
  shows "(\<forall>r\<in>set rows. row_served rt (db_clock (w_db (rs_world s))) r s') \<and>
    (\<forall>r. ob_message r \<notin> ob_message ` set rows \<longrightarrow> (r \<in> set (outbox (w_db (rs_world s))) \<longrightarrow> r \<in> set (outbox (w_db (rs_world s')))) \<and>
       (\<forall>now. row_served rt now r s \<longrightarrow> row_served rt now r s'))"
  using assms
proof (induction rows arbitrary: tally s)
  case (Cons r rows)
  obtain tally1 s1 where 1: "flush_row rt r tally s = (Inr tally1, s1)" and 2: "flush_rows rt rows tally1 s1 = (Inr tally', s')"
    using Cons.prems(5) by (auto simp: relay_bind_def split: prod.splits sum.splits)
  have waits: "r \<in> set (outbox (w_db (rs_world s)))" "unsent r" using Cons.prems(2,3) by simp_all
  have turn: "turn rt r s s1" using flush_row_turn [OF Cons.prems(1) waits 1] .
  have ok: "outbox_ok (w_db (rs_world s1))" using turn_refines [OF turn] Cons.prems(1) by (simp add: refines_def)
  have other: "ob_message x \<noteq> ob_message r" if "x \<in> set rows" for x using Cons.prems(4) that by (auto simp: image_iff)
  have rest: "set rows \<subseteq> set (outbox (w_db (rs_world s1)))"
    using turn other Cons.prems(2) by (auto simp: turn_def touches_def)
  note IH = Cons.IH [OF ok rest _ _ 2]
  have later: "row_served rt now x s1" if "row_served rt now x s" "ob_message x \<noteq> ob_message r" for now x
    using row_served_later [OF that(1) turn _ turn_acked [OF turn]] that(2) by simp
  have head: "row_served rt (db_clock (w_db (rs_world s))) r s'"
    using IH flush_row_served [OF Cons.prems(1) waits 1] Cons.prems(3,4) by simp
  have clock: "db_clock (w_db (rs_world s)) \<le> db_clock (w_db (rs_world s1))" using turn by (simp add: turn_def)
  have "row_served rt (db_clock (w_db (rs_world s))) x s'" if "x \<in> set rows" for x
    using IH that Cons.prems(3,4) row_served_earlier [OF _ clock] by simp
  moreover have "x \<in> set (outbox (w_db (rs_world s1)))"
    if "x \<in> set (outbox (w_db (rs_world s)))" "ob_message x \<noteq> ob_message r" for x
    using turn that by (simp add: turn_def touches_def)
  ultimately show ?case using head IH later Cons.prems(3,4) by auto
qed (simp add: relay_return_def)

text \<open>
  A completed pass serves its whole batch: each of the 32 oldest due rows has been published with an
  acknowledgment, or set aside because it does not fit, or has one attempt more and a later deadline,
  whatever happened to the rows before it; no other row is touched. So a row the broker refuses never
  keeps a later one waiting.
\<close>

theorem pass_serves_batch:
  assumes "outbox_ok (w_db (rs_world s))" and "flush_outbox rt s = (Inr (), s')"
  shows "(\<forall>r\<in>set (due_rows (w_db (rs_world s))). row_served rt (db_clock (w_db (rs_world s))) r s') \<and>
    (\<forall>r\<in>set (outbox (w_db (rs_world s))). r \<notin> set (due_rows (w_db (rs_world s))) \<longrightarrow> r \<in> set (outbox (w_db (rs_world s'))))"
proof -
  let ?db = "w_db (rs_world s)" and ?zero = "\<lparr>ft_attempted = 0, ft_failed = 0\<rparr>"
  obtain s1 s2 tally where 1: "on_world (io_map_err (\<lambda>_. BusCatalog) (query due_rows)) s = (Inr (due_rows ?db), s1)"
      "w_db (rs_world s1) = ?db" and 2: "flush_rows rt (due_rows ?db) ?zero s1 = (Inr tally, s2)" and 3: "report_health tally s2 = (Inr (), s')"
    using assms(2) by (auto simp: flush_outbox_def relay_bind_def on_world_def io_map_err_def
        split: prod.splits sum.splits dest!: query_InrD)
  have "outbox (w_db (rs_world s')) = outbox (w_db (rs_world s2)) \<and> rs_acked s' = rs_acked s2"
    using 3 by (auto simp: report_health_def relay_bind_def tell_def split: prod.splits sum.splits dest!: query_state)
  then have same: "row_served rt now r s' = row_served rt now r s2" "outbox (w_db (rs_world s')) = outbox (w_db (rs_world s2))" for now r
    by (simp_all add: row_served_def)
  note waiting = due_rows_waiting [OF assms(1)]
  have "ob_message r \<notin> ob_message ` set (due_rows ?db)" if "r \<in> set (outbox ?db)" "r \<notin> set (due_rows ?db)" for r
    using that waiting(1) assms(1) by (auto simp: outbox_ok_def distinct_map dest: inj_onD)
  with flush_rows_served [OF _ _ waiting(2,3) 2] waiting(1) assms(1) 1(2) show ?thesis unfolding same by auto
qed

section \<open>A row that can no longer back off\<close>

text \<open>
  C38. After 1023 refusals the next one stops the relay: the power of two that computes the backoff is
  out of range, so the statement fails, the pass ends with an error although the database is sound, and
  the row is left as it was, the first of the batch at the next start.
\<close>

theorem exhausted_backoff_stops_relay:
  assumes "w_faults (rs_world s) = []" and "due_rows (w_db (rs_world s)) = r # rows" and "1023 \<le> ob_attempts r"
    and "ob_subject r \<in> set relayed_subjects" and "rl_to_vec rt (ob_payload r) = Some bytes" and "\<not> too_large rt bytes"
    and "\<And>n. ans_result (rl_publish rt n (ob_subject r) (ob_message r) bytes) \<noteq> None"
  shows "\<exists>s'. flush_outbox rt s = (Inl BusCatalog, s') \<and> outbox (w_db (rs_world s')) = outbox (w_db (rs_world s))"
proof -
  let ?s = "answered rt r bytes s"
  obtain e where e: "ans_result (rl_publish rt (w_calls (rs_world s)) (ob_subject r) (ob_message r) bytes) = Some e"
    using assms(7) by blast
  have in_db: "r \<in> set (outbox (w_db (rs_world ?s)))" "ob_published r = None"
  proof -
    have "r \<in> set (due_rows (w_db (rs_world s)))" using assms(2) by simp
    then show "r \<in> set (outbox (w_db (rs_world ?s)))" "ob_published r = None"
      by (auto simp: due_rows_def answered_def Let_def unsent_def dest!: in_set_takeD)
  qed
  have "try_update_where (\<lambda>x. ob_message x = ob_message r \<and> ob_published x = None)
      (back_off_row (db_clock (w_db (rs_world ?s))) e) (outbox (w_db (rs_world ?s))) \<noteq> Inr t" for t
    using try_update_row [OF _ in_db(1)] in_db(2) assms(3) by (force simp: back_off_row_def backoff_def)
  then obtain e' where "try_update_where (\<lambda>x. ob_message x = ob_message r \<and> ob_published x = None)
      (back_off_row (db_clock (w_db (rs_world ?s))) e) (outbox (w_db (rs_world ?s))) = Inl e'"
    by (metis sum.exhaust)
  moreover have "w_faults (rs_world ?s) = []" using assms(1) by (simp add: answered_def Let_def)
  ultimately have "mark_refused (ob_message r) e (rs_world ?s) = (Inl BusCatalog, rs_world ?s)"
    by (simp add: mark_refused_def io_map_err_def transact_no_fault)
  then have "flush_outbox rt s = (Inl BusCatalog, ?s)"
    using assms(1,2) e by (simp add: flush_outbox_def relay_bind_def on_world_def io_map_err_def query_no_fault
        flush_row_published [OF assms(4-6)])
  then show ?thesis by (simp add: answered_def Let_def)
qed

section \<open>Witnesses\<close>

text \<open>Two waiting messages, and a broker that refuses the messages of a list.\<close>

definition two_messages :: catalog where
  "two_messages = empty_catalog\<lparr>next_uuid := 3,
     outbox := [outbox_entry 1 analysis_requested_subject JNull 0, outbox_entry 2 backup_policy_apply_subject JNull 0]\<rparr>"

definition relay_start :: "catalog \<Rightarrow> relay_state" where
  "relay_start db = \<lparr>rs_world = idle_world db, rs_lifecycle = lifecycle_starting, rs_acked = []\<rparr>"

definition sample_relay :: "uuid list \<Rightarrow> relay_runtime" where
  "sample_relay refused = \<lparr>rl_max_payload = 0,
     rl_publish = (\<lambda>n subject m bytes. Answer 1 (if m \<in> set refused then Some AckTimeout else None)),
     rl_to_vec = (\<lambda>_. Some []), rl_watch = sample_contracts, rl_policy = plain_contracts\<rparr>"

lemma two_messages_ok: "outbox_ok (w_db (rs_world (relay_start two_messages)))"
  by (simp add: outbox_ok_def relay_start_def two_messages_def outbox_entry_def)

lemma publishable: "payload_fits (sample_relay refused) subject payload"
  by (simp add: payload_fits_def sample_relay_def too_large_def)

theorem relay_refines_queue_witness:
  "\<exists>res s'. relay_loop (sample_relay [1]) [7] (relay_start two_messages) = (res, s') \<and> rs_acked s' = [2] \<and>
     queue_path (payload_fits (sample_relay [1])) (queue_of (relay_start two_messages)) (queue_of s')"
proof -
  obtain res s' where run: "relay_loop (sample_relay [1]) [7] (relay_start two_messages) = (res, s')" by fastforce
  moreover have "rs_acked (snd (relay_loop (sample_relay [1]) [7] (relay_start two_messages))) = [2]" by code_simp
  ultimately show ?thesis using relay_refines_queue [OF two_messages_ok run] by auto
qed

text \<open>The refused head does not keep the second message waiting.\<close>

theorem pass_serves_batch_witness:
  "\<exists>s'. flush_outbox (sample_relay [1]) (relay_start two_messages) = (Inr (), s') \<and>
     row_served (sample_relay [1]) 0 (outbox_entry 2 backup_policy_apply_subject JNull 0) s'"
proof -
  have "fst (flush_outbox (sample_relay [1]) (relay_start two_messages)) = Inr ()" by code_simp
  then obtain s' where run: "flush_outbox (sample_relay [1]) (relay_start two_messages) = (Inr (), s')" by (metis prod.collapse)
  have "outbox_entry 2 backup_policy_apply_subject JNull 0 \<in> set (due_rows (w_db (rs_world (relay_start two_messages))))"
    "db_clock (w_db (rs_world (relay_start two_messages))) = 0" by code_simp+
  with pass_serves_batch [OF two_messages_ok run] run show ?thesis by auto
qed

theorem outbox_drains_witness:
  "\<exists>s'. relay_loop (sample_relay []) [7] (relay_start two_messages) = (Inr (), s') \<and> backlog s' = [] \<and> {1, 2} \<subseteq> set (rs_acked s')"
proof -
  have broker: "ans_result (rl_publish (sample_relay []) n subject m bytes) = None" for n subject m bytes
    by (simp add: sample_relay_def)
  have rows: "\<forall>r\<in>set (outbox two_messages). ob_subject r \<in> set relayed_subjects \<and> ob_next_attempt r \<le> db_clock two_messages"
    by (simp add: two_messages_def outbox_entry_def relayed_subjects_def empty_catalog_def)
  have "nothing_to_dispatch two_messages"
    by (simp add: nothing_to_dispatch_def two_messages_def empty_catalog_def)
  then have "serving (sample_relay []) (relay_start two_messages)"
    using two_messages_ok broker rows publishable by (simp add: serving_def relay_start_def)
  moreover have "length (backlog (relay_start two_messages)) \<le> length [7::nat] * 32" by code_simp
  moreover have "map ob_message (backlog (relay_start two_messages)) = [1, 2]" by code_simp
  then obtain a b where "backlog (relay_start two_messages) = [a, b]" "ob_message a = 1" "ob_message b = 2" by auto
  ultimately show ?thesis using outbox_drains [of "sample_relay []" "relay_start two_messages" "[7]"] by auto
qed

definition exhausted_row :: outbox_row where
  "exhausted_row = (outbox_entry 1 analysis_requested_subject JNull 0)\<lparr>ob_attempts := 1023\<rparr>"

theorem exhausted_backoff_stops_relay_witness:
  "fst (flush_outbox (sample_relay [1]) (relay_start (two_messages\<lparr>outbox := [exhausted_row]\<rparr>))) = Inl BusCatalog"
proof -
  let ?s = "relay_start (two_messages\<lparr>outbox := [exhausted_row]\<rparr>)"
  have "w_faults (rs_world ?s) = []" "due_rows (w_db (rs_world ?s)) = [exhausted_row]" by code_simp+
  moreover have "1023 \<le> ob_attempts exhausted_row" "ob_subject exhausted_row \<in> set relayed_subjects" "\<not> too_large (sample_relay [1]) []"
    "rl_to_vec (sample_relay [1]) (ob_payload exhausted_row) = Some []"
    "ans_result (rl_publish (sample_relay [1]) n (ob_subject exhausted_row) (ob_message exhausted_row) []) \<noteq> None" for n
    by (simp_all add: exhausted_row_def outbox_entry_def relayed_subjects_def sample_relay_def too_large_def)
  ultimately show ?thesis using exhausted_backoff_stops_relay [of ?s exhausted_row "[]" "sample_relay [1]" "[]"] by fastforce
qed

end
