(* ===== verification/Bus.thy ===== *)
theory Bus
  imports Relay Watch_Safety
begin

text \<open>
  The bus consumers (\<open>services/catalog/src/bus.rs\<close>): connecting, verification of the provisioned durables, the
  decoding and checking of an envelope, the settlement of the three result subjects over the catalog's
  operations, the consume loop and the supervisor's verdict. The envelope and contract crates are a
  record of functions; the locale \<open>inbox_consumer\<close> is what a settlement promises to a broker that
  redelivers.
\<close>

section \<open>Durables\<close>

record durable_spec =
  ds_stream :: string
  ds_durable :: string
  ds_filter :: string
  ds_ack_wait :: int

definition events_stream :: string where "events_stream = ''ratatoskr_events''"
definition knowledge_producer :: string where "knowledge_producer = ''ratatoskr-knowledge''"
definition vault_producer :: string where "vault_producer = ''ratatoskr-vault''"

definition analysis_completed_durable :: durable_spec where
  "analysis_completed_durable = \<lparr>ds_stream = events_stream, ds_durable = ''ratatoskr_github_analysis_completed'',
     ds_filter = completed_subject, ds_ack_wait = 30\<rparr>"

definition analysis_failed_durable :: durable_spec where
  "analysis_failed_durable = \<lparr>ds_stream = events_stream, ds_durable = ''ratatoskr_github_analysis_failed'',
     ds_filter = failed_subject, ds_ack_wait = 30\<rparr>"

definition policy_acknowledged_durable :: durable_spec where
  "policy_acknowledged_durable = \<lparr>ds_stream = events_stream, ds_durable = ''ratatoskr_github_policy_acknowledged'',
     ds_filter = acknowledged_subject, ds_ack_wait = 30\<rparr>"

text \<open>What the broker reports of a consumer, as far as it is compared.\<close>

record consumer_config =
  cc_durable_name :: "string option"
  cc_filter_subject :: string
  cc_ack_explicit :: bool
  cc_ack_wait :: int
  cc_deliver_all :: bool
  cc_deliver_subject :: "string option"
  cc_max_deliver :: int

definition open_durable :: "(string \<Rightarrow> string \<Rightarrow> consumer_config option) \<Rightarrow> durable_spec \<Rightarrow> (bus_error, consumer_config) result" where
  "open_durable broker spec =
     (case broker (ds_durable spec) (ds_stream spec) of
        None \<Rightarrow> Inl (BusDurable (ds_durable spec))
      | Some actual \<Rightarrow>
          if cc_durable_name actual \<noteq> Some (ds_durable spec) \<or> cc_filter_subject actual \<noteq> ds_filter spec \<or>
             \<not> cc_ack_explicit actual \<or> cc_ack_wait actual \<noteq> ds_ack_wait spec \<or> \<not> cc_deliver_all actual \<or>
             cc_deliver_subject actual \<noteq> None \<or> cc_max_deliver actual \<noteq> -1
          then Inl (BusDurable (ds_durable spec))
          else Inr actual)"

section \<open>Connecting\<close>

record bus_settings =
  bt_url :: string
  bt_nkey_seed_path :: "string option"

text \<open>The broker: whether it accepts a connection with a seed, and what it reports of a consumer.\<close>

record broker =
  bk_accepts :: "string option \<Rightarrow> string \<Rightarrow> bool"
  bk_consumer :: "string \<Rightarrow> string \<Rightarrow> consumer_config option"

record bus =
  bn_completed :: consumer_config
  bn_failed :: consumer_config
  bn_acknowledged :: consumer_config

definition read_seed :: "(string \<Rightarrow> string option) \<Rightarrow> string \<Rightarrow> (bus_error, string) result" where
  "read_seed file path = and_then (ok_or BusSeed (file path)) (\<lambda>seed. Inr (trim_text seed))"

definition bus_connect :: "(string \<Rightarrow> string option) \<Rightarrow> broker \<Rightarrow> bus_settings \<Rightarrow> (bus_error, bus) result" where
  "bus_connect file broker settings =
     and_then (case bt_nkey_seed_path settings of
         Some path \<Rightarrow> and_then (read_seed file path) (\<lambda>seed. Inr (Some seed))
       | None \<Rightarrow> Inr None) (\<lambda>seed.
     and_then (if bk_accepts broker seed (bt_url settings) then Inr () else Inl BusConnect) (\<lambda>_.
     and_then (open_durable (bk_consumer broker) analysis_completed_durable) (\<lambda>completed.
     and_then (open_durable (bk_consumer broker) analysis_failed_durable) (\<lambda>failed.
     and_then (open_durable (bk_consumer broker) policy_acknowledged_durable) (\<lambda>acknowledged.
       Inr \<lparr>bn_completed = completed, bn_failed = failed, bn_acknowledged = acknowledged\<rparr>)))))"

section \<open>Settlement\<close>

datatype disposition = Ack | Term | Nak

record event_envelope =
  ee_event_type :: string
  ee_producer :: string
  ee_tenant_id :: "string option"
  ee_event_id :: uuid

record bus_contracts =
  bu_envelope :: "string \<Rightarrow> event_envelope option"
  bu_completed :: "string \<Rightarrow> (terminal_identity \<times> string) option"
  bu_failed :: "string \<Rightarrow> (terminal_identity \<times> analysis_failure_code \<times> bool) option"
  bu_acknowledged :: "string \<Rightarrow> policy_acknowledged option"
  bu_watch :: watch_contracts
  bu_policy :: policy_contracts

definition accept_envelope ::
    "bus_contracts \<Rightarrow> string \<Rightarrow> string \<Rightarrow> string \<Rightarrow> bool \<Rightarrow> (event_envelope \<times> uuid) option" where
  "accept_envelope bc bytes producer event_type tenant_required =
     Option.bind (bu_envelope bc bytes) (\<lambda>e.
       if ee_event_type e \<noteq> event_type \<or> ee_producer e \<noteq> producer \<or> tenant_required \<and> ee_tenant_id e = None
       then None else Some (e, ee_event_id e))"

fun watch_disposition :: "watch_error \<Rightarrow> disposition" where
  "watch_disposition (WatchPersistence _) = Nak"
| "watch_disposition _ = Term"

fun policy_disposition :: "backup_policy_error \<Rightarrow> disposition" where
  "policy_disposition (PolicyPersistence _) = Nak"
| "policy_disposition _ = Term"

definition settle_with :: "('e \<Rightarrow> disposition) \<Rightarrow> ('e, 'a) io \<Rightarrow> world \<Rightarrow> disposition \<times> world" where
  "settle_with d m w = (case m w of (Inl e, w') \<Rightarrow> (d e, w') | (Inr _, w') \<Rightarrow> (Ack, w'))"

definition settle_completed :: "bus_contracts \<Rightarrow> string \<Rightarrow> world \<Rightarrow> disposition \<times> world" where
  "settle_completed bc bytes =
     (case accept_envelope bc bytes knowledge_producer ''knowledge.repository_analysis.completed.v1'' True of
        None \<Rightarrow> Pair Term
      | Some (e, event_id) \<Rightarrow>
          case bu_completed bc bytes of
            None \<Rightarrow> Pair Term
          | Some (i, result_ref) \<Rightarrow>
              if ee_tenant_id e \<noteq> Some (ti_owner i) then Pair Term
              else settle_with watch_disposition (consume_repository_analysis_completed (bu_watch bc) event_id i result_ref))"

definition settle_failed :: "bus_contracts \<Rightarrow> string \<Rightarrow> world \<Rightarrow> disposition \<times> world" where
  "settle_failed bc bytes =
     (case accept_envelope bc bytes knowledge_producer ''knowledge.repository_analysis.failed.v1'' True of
        None \<Rightarrow> Pair Term
      | Some (e, event_id) \<Rightarrow>
          case bu_failed bc bytes of
            None \<Rightarrow> Pair Term
          | Some (i, code, retryable) \<Rightarrow>
              if ee_tenant_id e \<noteq> Some (ti_owner i) then Pair Term
              else settle_with watch_disposition (consume_repository_analysis_failed (bu_watch bc) event_id i code retryable))"

definition settle_acknowledged :: "bus_contracts \<Rightarrow> string \<Rightarrow> world \<Rightarrow> disposition \<times> world" where
  "settle_acknowledged bc bytes =
     (case accept_envelope bc bytes vault_producer ''vault.backup_policy.acknowledged.v1'' False of
        None \<Rightarrow> Pair Term
      | Some (e, event_id) \<Rightarrow>
          case bu_acknowledged bc bytes of
            None \<Rightarrow> Pair Term
          | Some ack \<Rightarrow> settle_with policy_disposition (record_backup_policy_acknowledgment (bu_policy bc) event_id ack))"

section \<open>The consume loop and the supervisor\<close>

text \<open>
  What the stream yields until shutdown: a message, or a failure or end of the stream (\<open>None\<close>), each
  with whether the broker takes the answer.
\<close>

fun consume ::
    "(string \<Rightarrow> world \<Rightarrow> disposition \<times> world) \<Rightarrow> (string option \<times> bool) list \<Rightarrow> world \<Rightarrow>
     (bus_error, unit) result \<times> world" where
  "consume handle [] w = (Inr (), w)"
| "consume handle ((None, _) # items) w = (Inl BusConsume, w)"
| "consume handle ((Some bytes, acked) # items) w =
     (let (kind, w') = handle bytes w in
      if acked then consume handle items w' else (Inl BusAck, w'))"

text \<open>How a supervised task ended: with its own result, or by a panic.\<close>

datatype task_end = TaskReturned "(bus_error, unit) result" | TaskPanicked

fun stopped_by :: "task_end \<Rightarrow> bus_error" where
  "stopped_by (TaskReturned (Inl e)) = e"
| "stopped_by _ = TaskStopped"

text \<open>
  The biased selection: shutdown first, then a lost connection, then the first task that ended; one of
  them has happened.
\<close>

definition supervise :: "bool \<Rightarrow> bool \<Rightarrow> task_end \<Rightarrow> lifecycle \<Rightarrow> (bus_error, unit) result \<times> lifecycle" where
  "supervise shutdown connection_lost joined l =
     (let outcome = (if shutdown then Inr () else if connection_lost then Inl ConnectionLostToBus else Inl (stopped_by joined))
      in (outcome, if isl outcome then mark_failed l else l))"

section \<open>A connected bus\<close>

text \<open>The consumer every durable must be: explicit acknowledgement, all messages, pulled, redelivered for ever.\<close>

definition provisioned :: "durable_spec \<Rightarrow> consumer_config \<Rightarrow> bool" where
  "provisioned spec actual \<longleftrightarrow>
     actual = \<lparr>cc_durable_name = Some (ds_durable spec), cc_filter_subject = ds_filter spec, cc_ack_explicit = True,
       cc_ack_wait = ds_ack_wait spec, cc_deliver_all = True, cc_deliver_subject = None, cc_max_deliver = -1\<rparr>"

lemma open_durable_iff:
  "open_durable broker spec = Inr actual \<longleftrightarrow> broker (ds_durable spec) (ds_stream spec) = Some actual \<and> provisioned spec actual"
  by (cases actual) (auto simp: open_durable_def provisioned_def split: option.splits)

lemma bus_connect_iff:
  "bus_connect file broker settings = Inr b \<longleftrightarrow>
     (\<exists>seed. (case bt_nkey_seed_path settings of
          None \<Rightarrow> seed = None
        | Some path \<Rightarrow> seed = map_option trim_text (file path) \<and> seed \<noteq> None) \<and> bk_accepts broker seed (bt_url settings)) \<and>
     open_durable (bk_consumer broker) analysis_completed_durable = Inr (bn_completed b) \<and>
     open_durable (bk_consumer broker) analysis_failed_durable = Inr (bn_failed b) \<and>
     open_durable (bk_consumer broker) policy_acknowledged_durable = Inr (bn_acknowledged b)"
  by (cases b) (auto simp: bus_connect_def read_seed_def and_then_eq_Inr ok_or_eq_Inr split: option.splits)

lemma connected_bus_is_verified:
  assumes "bus_connect file broker settings = Inr b"
  shows "provisioned analysis_completed_durable (bn_completed b) \<and> provisioned analysis_failed_durable (bn_failed b) \<and>
    provisioned policy_acknowledged_durable (bn_acknowledged b)"
  using assms by (simp add: bus_connect_iff open_durable_iff)

section \<open>What a settlement promises\<close>

definition received :: "uuid \<Rightarrow> catalog \<Rightarrow> bool" where
  "received m db \<longleftrightarrow> m \<in> ib_message ` set (inbox db)"

text \<open>The deliveries in a stream that carry an event and change the catalog.\<close>

fun changes :: "(string \<Rightarrow> world \<Rightarrow> disposition \<times> world) \<Rightarrow> (string \<Rightarrow> uuid) \<Rightarrow> uuid \<Rightarrow> string list \<Rightarrow> world \<Rightarrow> nat" where
  "changes handle event m [] w = 0"
| "changes handle event m (b # bs) w =
     (let (d, w') = handle b w in
      (if event b = m \<and> w_db w' \<noteq> w_db w then 1 else 0) + changes handle event m bs w')"

text \<open>
  The contract with a broker that delivers at least once: only an acknowledged delivery changes the
  catalog, it is then recorded under the event's identity for good, and a delivery of a recorded event
  changes nothing.
\<close>

locale inbox_consumer =
  fixes handle :: "string \<Rightarrow> world \<Rightarrow> disposition \<times> world" and event :: "string \<Rightarrow> uuid"
  assumes unsettled: "handle b w = (d, w') \<Longrightarrow> d \<noteq> Ack \<Longrightarrow> w_db w' = w_db w"
    and settled: "handle b w = (Ack, w') \<Longrightarrow> received (event b) (w_db w')"
    and recorded: "received (event b) (w_db w) \<Longrightarrow> handle b w = (d, w') \<Longrightarrow> w_db w' = w_db w"
    and kept: "received m (w_db w) \<Longrightarrow> handle b w = (d, w') \<Longrightarrow> received m (w_db w')"
begin

lemma no_change_when_received: "received m (w_db w) \<Longrightarrow> changes handle event m bs w = 0"
proof (induction bs arbitrary: w)
  case (Cons b bs)
  obtain d w' where h: "handle b w = (d, w')" by fastforce
  have "received m (w_db w')" using kept [OF Cons.prems h] .
  moreover have "event b = m \<Longrightarrow> w_db w' = w_db w" using recorded [OF _ h] Cons.prems by blast
  ultimately show ?case using h Cons.IH by auto
qed simp

lemma at_most_one_change: "changes handle event m bs w \<le> 1"
proof (induction bs arbitrary: w)
  case (Cons b bs)
  obtain d w' where h: "handle b w = (d, w')" by fastforce
  show ?case
  proof (cases "event b = m \<and> w_db w' \<noteq> w_db w")
    case True
    then have "d = Ack" using unsettled [OF h] by blast
    with settled h True have "received m (w_db w')" by blast
    with no_change_when_received h True show ?thesis by simp
  next
    case False
    with h Cons.IH show ?thesis by auto
  qed
qed simp

end

text \<open>A settlement by one transaction that claims the event in the inbox.\<close>

definition claims_event :: "uuid \<Rightarrow> (catalog \<Rightarrow> ('e, 'a \<times> catalog) result) \<Rightarrow> bool" where
  "claims_event m t \<longleftrightarrow> (\<forall>db x db'. t db = Inr (x, db') \<longrightarrow>
     (received m db \<longrightarrow> db' = db) \<and> received m db' \<and> (\<forall>k. received k db \<longrightarrow> received k db'))"

definition settles :: "uuid \<Rightarrow> (world \<Rightarrow> disposition \<times> world) \<Rightarrow> bool" where
  "settles m h \<longleftrightarrow> (\<forall>w d w'. h w = (d, w') \<longrightarrow>
     (d \<noteq> Ack \<longrightarrow> w_db w' = w_db w) \<and> (d = Ack \<longrightarrow> received m (w_db w')) \<and>
     (received m (w_db w) \<longrightarrow> w_db w' = w_db w) \<and> (\<forall>k. received k (w_db w) \<longrightarrow> received k (w_db w')))"

lemma settles_term: "settles m (Pair Term)"
  by (simp add: settles_def)

lemma settles_transaction:
  assumes "claims_event m t" and "\<And>e. d e \<noteq> Ack"
  shows "settles m (settle_with d (transact_with lost t))"
  unfolding settles_def
proof (intro allI impI)
  fix w d' w' assume h: "settle_with d (transact_with lost t) w = (d', w')"
  obtain r where tr: "transact_with lost t w = (r, w')" and d': "d' = (case r of Inl e \<Rightarrow> d e | Inr _ \<Rightarrow> Ack)"
    using h by (auto simp: settle_with_def split: prod.splits sum.splits)
  show "(d' \<noteq> Ack \<longrightarrow> w_db w' = w_db w) \<and> (d' = Ack \<longrightarrow> received m (w_db w')) \<and>
     (received m (w_db w) \<longrightarrow> w_db w' = w_db w) \<and> (\<forall>k. received k (w_db w) \<longrightarrow> received k (w_db w'))"
  proof (cases r)
    case (Inl e)
    with tr have "w_db w' = w_db w" by (auto dest: transact_with_InlD)
    with Inl d' assms(2) show ?thesis by simp
  next
    case (Inr x)
    with tr have "t (w_db w) = Inr (x, w_db w')" by (auto dest: transact_with_InrD)
    with assms(1) Inr d' show ?thesis unfolding claims_event_def by (metis sum.case(2))
  qed
qed

lemma terminal_fact_claims: "claims_event m (consume_terminal_fact_tx wc m subj i payload status ref code retry)"
  unfolding claims_event_def by (intro allI impI, erule consume_terminal_Inr) (auto simp: received_def)

lemma acknowledgment_claims: "claims_event m (record_acknowledgment_tx m ack payload)"
  by (auto simp: claims_event_def record_acknowledgment_tx_def received_def and_then_eq_Inr Let_def split: if_splits)

lemma settles_terminal_fact:
  "settles m (settle_with watch_disposition (consume_terminal_fact wc m subj f status ref code retry))"
proof -
  have d: "watch_disposition e \<noteq> Ack" for e by (cases e) simp_all
  show ?thesis
  proof (cases "wc_fact_json wc f")
    case None
    then show ?thesis by (simp add: settles_def settle_with_def consume_terminal_fact_def)
  next
    case (Some payload)
    then have "consume_terminal_fact wc m subj f status ref code retry =
        transact_with WatchPersistence (consume_terminal_fact_tx wc m subj (fact_identity f) payload status ref code retry)"
      by (intro ext) (simp add: consume_terminal_fact_def)
    then show ?thesis using settles_transaction [OF terminal_fact_claims d] by simp
  qed
qed

lemma settles_acknowledgment:
  "settles m (settle_with policy_disposition (record_backup_policy_acknowledgment pc m ack))"
proof -
  have d: "policy_disposition e \<noteq> Ack" for e by (cases e) simp_all
  show ?thesis
  proof (cases "pc_ack_json pc ack")
    case None
    then show ?thesis by (simp add: settles_def settle_with_def record_backup_policy_acknowledgment_def)
  next
    case (Some payload)
    then have "record_backup_policy_acknowledgment pc m ack = transact_with PolicyPersistence (record_acknowledgment_tx m ack payload)"
      by (intro ext) (simp add: record_backup_policy_acknowledgment_def)
    then show ?thesis using settles_transaction [OF acknowledgment_claims d] by simp
  qed
qed

text \<open>The identity under which a message is recorded; a message without an envelope never is.\<close>

definition event_of :: "bus_contracts \<Rightarrow> string \<Rightarrow> uuid" where
  "event_of bc bytes = (case bu_envelope bc bytes of None \<Rightarrow> 0 | Some e \<Rightarrow> ee_event_id e)"

lemma accepted_event: "accept_envelope bc bytes p t b = Some (e, i) \<Longrightarrow> i = event_of bc bytes"
  by (auto simp: accept_envelope_def event_of_def split: option.splits if_splits bind_splits)

lemma settles_completed: "settles (event_of bc b) (settle_completed bc b)"
  by (auto simp: settle_completed_def consume_repository_analysis_completed_def dest!: accepted_event
      intro: settles_term settles_terminal_fact split: option.split)

lemma settles_failed: "settles (event_of bc b) (settle_failed bc b)"
proof -
  have "settles m (settle_with watch_disposition (consume_repository_analysis_failed wc m i code retryable))" for m wc i code retryable
    by (cases code) (simp_all add: consume_repository_analysis_failed_def settles_terminal_fact,
        simp add: settles_def settle_with_def io_fail_def)
  then show ?thesis
    by (auto simp: settle_failed_def dest!: accepted_event intro: settles_term split: option.split)
qed

lemma settles_acknowledged: "settles (event_of bc b) (settle_acknowledged bc b)"
  by (auto simp: settle_acknowledged_def dest!: accepted_event intro: settles_term settles_acknowledgment split: option.split)

lemma inbox_consumerI:
  assumes "\<And>b. settles (event b) (handle b)"
  shows "inbox_consumer handle event"
  by unfold_locales (use assms [unfolded settles_def] in blast)+

interpretation completed: inbox_consumer "settle_completed bc" "event_of bc" for bc
  by (rule inbox_consumerI) (rule settles_completed)

interpretation failed: inbox_consumer "settle_failed bc" "event_of bc" for bc
  by (rule inbox_consumerI) (rule settles_failed)

interpretation acknowledged: inbox_consumer "settle_acknowledged bc" "event_of bc" for bc
  by (rule inbox_consumerI) (rule settles_acknowledged)

text \<open>
  C9. An event takes effect at most once: however often the broker delivers a completed analysis, a failed
  one or an acknowledgment, in whatever order with other messages and wherever the connection is lost,
  at most one delivery of the event changes the catalog.
\<close>

theorem event_takes_effect_once:
  "changes (settle_completed bc) (event_of bc) m bs w \<le> 1 \<and> changes (settle_failed bc) (event_of bc) m bs w \<le> 1 \<and>
   changes (settle_acknowledged bc) (event_of bc) m bs w \<le> 1"
  by (intro conjI completed.at_most_one_change failed.at_most_one_change acknowledged.at_most_one_change)

section \<open>Only a lost connection is retried\<close>

lemma link_requests_distinct:
  assumes "requests_ok db" and "r \<in> set (requests db)" and "rq_status r = ReqPending" and "ln_request l = rq_id r"
  shows "distinct (map ln_request (upsert link_key link_merge l (links db)))"
proof -
  let ?t = "upsert link_key link_merge l (links db)"
  have keys: "distinct (map link_key (links db))" and linked: "list_all (linked (requests db)) (links db)"
    and ids: "distinct (map rq_id (requests db))" using assms(1) by (simp_all add: requests_ok_def)
  have source: "\<exists>r\<in>set (requests db). rq_id r = ln_request x \<and> rq_status r = ReqCompleted \<and> link_key x = (rq_owner r, rq_repo r)"
    if "x \<in> set (links db)" for x
  proof -
    have "linked (requests db) x" using linked that by (simp add: list_all_iff)
    then show ?thesis by (auto simp: linked_def link_key_def)
  qed
  have same: "r1 = r2" if "r1 \<in> set (requests db)" "r2 \<in> set (requests db)" "rq_id r1 = rq_id r2" for r1 r2
    using ids that by (auto simp: distinct_map dest: inj_onD)
  have fresh: "ln_request x \<noteq> rq_id r" if "x \<in> set (links db)" for x
    using source [OF that] same [OF _ assms(2)] assms(3) by force
  have old: "x = y" if "x \<in> set (links db)" "y \<in> set (links db)" "ln_request x = ln_request y" for x y
  proof -
    have "link_key x = link_key y" using source [OF that(1)] source [OF that(2)] same that(3) by metis
    with keys that(1,2) show ?thesis by (auto simp: distinct_map dest: inj_onD)
  qed
  have rows: "x \<in> set (links db) \<or> ln_request x = rq_id r \<and> link_key x = link_key l" if "x \<in> set ?t" for x
    using that assms(4) by (auto simp: upsert_def set_update_where link_merge_def link_key_def split: if_splits)
  have tkeys: "distinct (map link_key ?t)" using keys by (rule link_table.distinct_upsert)
  have "inj_on ln_request (set ?t)"
  proof (rule inj_onI)
    fix x y assume xy: "x \<in> set ?t" "y \<in> set ?t" "ln_request x = ln_request y"
    with rows [OF xy(1)] rows [OF xy(2)] fresh old have "x = y \<or> link_key x = link_key y" by metis
    with tkeys xy show "x = y" by (auto simp: distinct_map dest: inj_onD)
  qed
  with tkeys show ?thesis by (simp add: distinct_map)
qed

lemma terminal_fact_never_refused:
  assumes "requests_ok db"
  shows "consume_terminal_fact_tx wc m subj i payload status ref code retry db \<noteq> Inl (WatchPersistence e)"
proof
  assume refused: "consume_terminal_fact_tx wc m subj i payload status ref code retry db = Inl (WatchPersistence e)"
  then obtain rev where rev: "wc_revision_json wc (ti_source_revision i) = Some rev"
    by (cases "wc_revision_json wc (ti_source_revision i)")
      (auto simp: consume_terminal_fact_tx_def Let_def ok_or_def split: if_splits)
  from refused rev obtain r0 where one: "length (filter (matches_pending i rev) (requests db)) = 1" and ref: "ref = Some r0"
    and not_distinct: "\<not> distinct (map ln_request (upsert link_key link_merge \<lparr>ln_owner = ti_owner i, ln_repo = ti_repository_id i,
      ln_request = ti_request_id i, ln_result = r0, ln_completed = db_clock db\<rparr> (links db)))"
    by (auto simp: consume_terminal_fact_tx_def Let_def ok_or_def link_result_def split: if_splits option.splits sum.splits)
  from one obtain r where "r \<in> set (filter (matches_pending i rev) (requests db))" by fastforce
  then have "r \<in> set (requests db)" "matches_pending i rev r" by simp_all
  with link_requests_distinct [OF assms] not_distinct show False by (simp add: matches_pending_def)
qed

text \<open>
  Only a lost connection makes the broker deliver a terminal fact again: in a catalog that keeps the
  invariant of the request table, a fact that reaches the database is acknowledged or terminated, so no
  fact is redelivered for ever.
\<close>

theorem terminal_facts_settle:
  assumes "requests_ok (w_db w)" and "w_faults w = []"
  shows "fst (settle_completed bc bytes w) \<noteq> Nak \<and> fst (settle_failed bc bytes w) \<noteq> Nak"
proof -
  have tx: "fst (settle_with watch_disposition (consume_terminal_fact wc m subj f status ref code retry) w) \<noteq> Nak"
    for wc m subj f status ref code retry
  proof (cases "wc_fact_json wc f")
    case (Some payload)
    have "watch_disposition e \<noteq> Nak"
      if "consume_terminal_fact_tx wc m subj (fact_identity f) payload status ref code retry (w_db w) = Inl e" for e
      using that terminal_fact_never_refused [OF assms(1)] by (cases e) auto
    with Some assms(2) show ?thesis
      by (auto simp: settle_with_def consume_terminal_fact_def transact_with_no_fault split: sum.split prod.split)
  qed (simp add: settle_with_def consume_terminal_fact_def)
  have "fst (settle_with watch_disposition (consume_repository_analysis_failed wc m i code retryable) w) \<noteq> Nak" for wc m i code retryable
    using tx by (cases code) (simp_all add: consume_repository_analysis_failed_def, simp add: settle_with_def io_fail_def)
  with tx show ?thesis
    by (auto simp: settle_completed_def settle_failed_def consume_repository_analysis_completed_def split: option.split)
qed

section \<open>A sent request and its fact\<close>

definition sample_bus :: bus_contracts where
  "sample_bus = \<lparr>bu_envelope = (\<lambda>b. Some \<lparr>ee_event_type = ''knowledge.repository_analysis.completed.v1'',
       ee_producer = knowledge_producer, ee_tenant_id = Some first_owner, ee_event_id = 4\<rparr>),
     bu_completed = (\<lambda>b. Some (sample_fact, ''result'')), bu_failed = (\<lambda>b. None), bu_acknowledged = (\<lambda>b. None),
     bu_watch = sample_contracts, bu_policy = plain_contracts\<rparr>"

theorem terminal_facts_settle_witness:
  "fst (settle_completed sample_bus [] (idle_world sent_db)) = Ack \<and>
   fst (settle_failed sample_bus [] (idle_world sent_db)) \<noteq> Nak"
proof -
  have "requests_ok (w_db (idle_world sent_db))" using dispatch_ok(1) [OF sent_eq evaluated_ok] by simp
  moreover have "w_faults (idle_world sent_db) = []" by simp
  moreover have "fst (settle_completed sample_bus [] (idle_world sent_db)) = Ack" by code_simp
  ultimately show ?thesis using terminal_facts_settle [of "idle_world sent_db" sample_bus "[]"] by blast
qed

end
