(* ===== verification/Actions.thy ===== *)
theory Actions
  imports Observe Modes Credentials
begin

text \<open>
  The repository actions of the domain routes (\<open>services/catalog/src/repository_api.rs\<close>) and their
  replay boundary (\<open>services/catalog/src/repository_action_attempts.rs\<close>): a preview, and an action that is
  claimed by its key, bound to the provider's answer, composed of the metadata, tracking and star
  operations of the catalog, and recorded for replay. The contract crates, \<open>serde_json\<close>, the rendering
  of identifiers and the HTTP framework are functions.
\<close>

section \<open>Requests and results\<close>

datatype action_capability = ActionMetadata | ActionTrack | ActionStar | ActionUnsupported

record action_request =
  aq_mode :: action_capability
  aq_numeric_id :: int
  aq_full_name :: string
  aq_url :: string
  aq_account_ref :: "string option"
  aq_idempotency_key :: string
  aq_evidence_ref :: string

datatype action_skip = NotApplicable | PrerequisiteFailed

datatype action_failure =
  ProviderUnavailable | CatalogPersistenceFailed | PolicyPublicationFailed | ActionDependencyUnavailable

datatype action_refusal = TargetChanged | ScopeMissing | AccountRequired | ActionNotAuthorized

datatype metadata_outcome =
    MetadataSucceeded | MetadataAlreadyApplied | MetadataSkipped action_skip
  | MetadataFailed action_failure | MetadataRefused action_refusal

datatype star_outcome =
    StarSucceeded | StarAlreadyApplied | StarSkipped action_skip
  | StarFailed action_failure | StarRefused action_refusal

datatype backup_outcome =
  BackupAccepted | BackupAlreadyApplied | BackupSkipped action_skip | BackupFailed action_failure

record action_result =
  rz_metadata :: metadata_outcome
  rz_star :: star_outcome
  rz_backup :: backup_outcome

text \<open>\<open>FaultPanicked\<close> is the handler's panic, which answers nothing.\<close>

datatype api_fault =
    FaultUnauthenticated
  | FaultInvalidRequest
  | FaultNotFound
  | FaultRateLimited
  | FaultProviderUnavailable
  | FaultPersistence
  | FaultIdempotencyConflict
  | FaultPanicked

fun fault_from_provider :: "provider_error \<Rightarrow> api_fault" where
  "fault_from_provider NotFound = FaultNotFound"
| "fault_from_provider Unauthorized = FaultNotFound"
| "fault_from_provider _ = FaultProviderUnavailable"

fun fault_status :: "api_fault \<Rightarrow> nat" where
  "fault_status FaultUnauthenticated = 401"
| "fault_status FaultInvalidRequest = 400"
| "fault_status FaultNotFound = 404"
| "fault_status FaultRateLimited = 429"
| "fault_status FaultProviderUnavailable = 503"
| "fault_status FaultPersistence = 503"
| "fault_status FaultIdempotencyConflict = 409"
| "fault_status FaultPanicked = 500"

text \<open>The third of the fields: whether the caller is told to retry.\<close>

fun fault_retryable :: "api_fault \<Rightarrow> bool" where
  "fault_retryable FaultRateLimited = True"
| "fault_retryable FaultProviderUnavailable = True"
| "fault_retryable FaultPersistence = True"
| "fault_retryable _ = False"

text \<open>The state of the routes, with the libraries and contracts they use.\<close>

record action_runtime =
  ax_gateway :: observe_api
  ax_mutation :: mutation_api
  ax_cipher :: cipher
  ax_key :: "credential_key option"
  ax_source :: source_contracts
  ax_watch :: watch_contracts
  ax_cast :: "string \<Rightarrow> timestamp option"
  ax_show_time :: "int \<Rightarrow> string"
  ax_uuid_text :: "uuid \<Rightarrow> string"
  ax_uuid_parse :: "string \<Rightarrow> uuid option"
  ax_tenant :: "string \<Rightarrow> bool"
  ax_request_json :: "action_request \<Rightarrow> json option"
  ax_result_json :: "action_result \<Rightarrow> json option"
  ax_result_of_json :: "json \<Rightarrow> action_result option"

definition user_ref :: "action_runtime \<Rightarrow> uuid \<Rightarrow> string" where
  "user_ref rt user = ''user:'' @ ax_uuid_text rt user"

section \<open>The replay boundary\<close>

datatype action_claim = ClaimExecute | ClaimReplay action_result | ClaimConflict

datatype attempt_error = AttemptJson | AttemptPersistence sql_error

fun action_mode :: "action_capability \<Rightarrow> string" where
  "action_mode ActionMetadata = ''metadata''"
| "action_mode ActionTrack = ''track''"
| "action_mode ActionStar = ''star''"
| "action_mode ActionUnsupported = ''unsupported''"

text \<open>The checks of the table come before its conflict clause.\<close>

definition attempt_check :: "attempt_row \<Rightarrow> bool" where
  "attempt_check a \<longleftrightarrow> matches user_owner_pattern (ac_owner a) \<and>
     ac_mode a \<in> {''metadata'', ''track'', ''star''} \<and> 0 < ac_provider_id a \<and>
     json_object (ac_fingerprint a) \<and> (case ac_result a of None \<Rightarrow> True | Some r \<Rightarrow> json_object r) \<and>
     (if ac_done a then ac_result a \<noteq> None \<and> ac_completed a \<noteq> None else ac_result a = None \<and> ac_completed a = None)"

definition insert_attempt_tx :: "string \<Rightarrow> action_request \<Rightarrow> json \<Rightarrow> bool tx" where
  "insert_attempt_tx owner req fingerprint db =
     (let row = \<lparr>ac_owner = owner, ac_key = aq_idempotency_key req, ac_fingerprint = fingerprint,
                 ac_mode = action_mode (aq_mode req), ac_provider_id = aq_numeric_id req,
                 ac_full_name = aq_full_name req, ac_url = aq_url req, ac_account = aq_account_ref req,
                 ac_evidence = aq_evidence_ref req, ac_done = False, ac_result = None, ac_completed = None\<rparr>
      in
      if \<not> attempt_check row then Inl CheckViolation
      else if ac_key row \<in> ac_key ` set (action_attempts db) then Inr (False, db)
      else Inr (True, db\<lparr>action_attempts := action_attempts db @ [row]\<rparr>))"

definition existing_claim ::
    "action_runtime \<Rightarrow> string \<Rightarrow> json \<Rightarrow> attempt_row option \<Rightarrow> (attempt_error, action_claim) result" where
  "existing_claim rt owner fingerprint existing =
     (case existing of
        None \<Rightarrow> Inr ClaimConflict
      | Some a \<Rightarrow>
          if ac_owner a \<noteq> owner \<or> ac_fingerprint a \<noteq> fingerprint then Inr ClaimConflict
          else
            case ac_result a of
              Some r \<Rightarrow>
                if ac_done a then and_then (ok_or AttemptJson (ax_result_of_json rt r)) (\<lambda>result. Inr (ClaimReplay result))
                else Inr ClaimConflict
            | None \<Rightarrow> Inr ClaimConflict)"

definition claim_action :: "action_runtime \<Rightarrow> string \<Rightarrow> action_request \<Rightarrow> (attempt_error, action_claim) io" where
  "claim_action rt owner req =
     (case ax_request_json rt req of
        None \<Rightarrow> io_fail AttemptJson
      | Some fingerprint \<Rightarrow>
          io_bind (io_map_err AttemptPersistence (transact (insert_attempt_tx owner req fingerprint))) (\<lambda>inserted.
            if inserted then io_return ClaimExecute
            else
              io_bind (io_map_err AttemptPersistence
                  (query (\<lambda>db. find_by ac_key (aq_idempotency_key req) (action_attempts db)))) (\<lambda>existing w.
                (existing_claim rt owner fingerprint existing, w))))"

definition open_attempt :: "string \<Rightarrow> string \<Rightarrow> json \<Rightarrow> attempt_row \<Rightarrow> bool" where
  "open_attempt owner key fingerprint a \<longleftrightarrow>
     ac_owner a = owner \<and> ac_key a = key \<and> ac_fingerprint a = fingerprint \<and> \<not> ac_done a"

definition complete_action_tx :: "string \<Rightarrow> string \<Rightarrow> json \<Rightarrow> json \<Rightarrow> unit tx" where
  "complete_action_tx owner key fingerprint result db =
     (let completed = (\<lambda>a. a\<lparr>ac_done := True, ac_result := Some result, ac_completed := Some (db_clock db)\<rparr>) in
      if list_all (\<lambda>a. open_attempt owner key fingerprint a \<longrightarrow> attempt_check (completed a)) (action_attempts db)
      then Inr ((), db\<lparr>action_attempts := update_where (open_attempt owner key fingerprint) completed (action_attempts db)\<rparr>)
      else Inl CheckViolation)"

definition complete_action ::
    "action_runtime \<Rightarrow> string \<Rightarrow> action_request \<Rightarrow> action_result \<Rightarrow> (attempt_error, unit) io" where
  "complete_action rt owner req result =
     (case (ax_request_json rt req, ax_result_json rt result) of
        (Some fingerprint, Some j) \<Rightarrow>
          io_map_err AttemptPersistence (\<lambda>w.
            let updated = length (filter (open_attempt owner (aq_idempotency_key req) fingerprint) (action_attempts (w_db w))) in
            io_bind (transact (complete_action_tx owner (aq_idempotency_key req) fingerprint j)) (\<lambda>_.
              if updated = 1 then io_return () else io_fail RowNotFound) w)
      | _ \<Rightarrow> io_fail AttemptJson)"

section \<open>Access\<close>

definition authenticated_user :: "action_runtime \<Rightarrow> string option \<Rightarrow> (api_fault, uuid) result" where
  "authenticated_user rt header = ok_or FaultUnauthenticated (Option.bind header (ax_uuid_parse rt))"

definition strip_prefix :: "string \<Rightarrow> string \<Rightarrow> string option" where
  "strip_prefix p s = (if take (length p) s = p then Some (drop (length p) s) else None)"

definition repository_parts :: "string \<Rightarrow> (api_fault, owner_name) result" where
  "repository_parts url =
     ok_or FaultInvalidRequest (Option.bind (strip_prefix ''https://github.com/'' url) (\<lambda>v.
       map_option (\<lambda>(owner, name). \<lparr>on_owner = owner, on_name = name\<rparr>) (split_once (CHR ''/'') v)))"

definition ascii_lower :: "char \<Rightarrow> char" where
  "ascii_lower c = (if CHR ''A'' \<le> c \<and> c \<le> CHR ''Z'' then char_of ((of_char c :: nat) + 32) else c)"

definition eq_ignore_ascii_case :: "string \<Rightarrow> string \<Rightarrow> bool" where
  "eq_ignore_ascii_case a b \<longleftrightarrow> map ascii_lower a = map ascii_lower b"

definition validate_action_target :: "action_request \<Rightarrow> (api_fault, unit) result" where
  "validate_action_target req =
     and_then (repository_parts (aq_url req)) (\<lambda>n.
       if eq_ignore_ascii_case (aq_full_name req) (owner_name_text n) then Inr () else Inl FaultInvalidRequest)"

definition star_scope :: "string list \<Rightarrow> bool" where
  "star_scope scopes \<longleftrightarrow> list_ex (\<lambda>s. s = ''repo'' \<or> s = ''public_repo'') scopes"

definition eligible :: "string \<Rightarrow> catalog \<Rightarrow> account_row option" where
  "eligible owner db =
     (case sort_key acct_id (filter (\<lambda>a. acct_owner a = owner \<and> acct_status a = Connected) (accounts db)) of
        [a] \<Rightarrow> Some a
      | _ \<Rightarrow> None)"

definition eligible_account :: "action_runtime \<Rightarrow> uuid \<Rightarrow> (api_fault, (uuid \<times> string list) option) io" where
  "eligible_account rt user =
     io_map_err (\<lambda>_. FaultPersistence) (query (\<lambda>db.
       map_option (\<lambda>a. (acct_id a, acct_scopes a)) (eligible (user_ref rt user) db)))"

text \<open>The credential of the account, if there is an account, a key and a readable token.\<close>

definition account_credential ::
    "action_runtime \<Rightarrow> (uuid \<times> string list) option \<Rightarrow> world \<Rightarrow> string option \<times> world" where
  "account_credential rt account w =
     (case (account, ax_key rt) of
        (Some (acct, _), Some key) \<Rightarrow>
          (case load_active_pat (ax_cipher rt) acct key w of
             (Inl _, w') \<Rightarrow> (None, w')
           | (Inr token, w') \<Rightarrow> (Some token, w'))
      | _ \<Rightarrow> (None, w))"

definition token_label :: "action_runtime \<Rightarrow> uuid \<Rightarrow> (uuid \<times> string list) option \<Rightarrow> string" where
  "token_label rt user account =
     (case account of
        None \<Rightarrow> ''anonymous:'' @ ax_uuid_text rt user
      | Some (acct, _) \<Rightarrow> ax_uuid_text rt acct)"

section \<open>Results\<close>

definition action_stopped_at_metadata :: "action_capability \<Rightarrow> metadata_outcome \<Rightarrow> action_result" where
  "action_stopped_at_metadata m meta =
     \<lparr>rz_metadata = meta,
      rz_star = StarSkipped (if m = ActionStar then PrerequisiteFailed else NotApplicable),
      rz_backup = BackupSkipped PrerequisiteFailed\<rparr>"

definition metadata_provider_failure :: "action_capability \<Rightarrow> action_result" where
  "metadata_provider_failure m = action_stopped_at_metadata m (MetadataFailed ProviderUnavailable)"

definition metadata_persistence_failure :: "action_capability \<Rightarrow> action_result" where
  "metadata_persistence_failure m = action_stopped_at_metadata m (MetadataFailed CatalogPersistenceFailed)"

definition target_changed_result :: "action_capability \<Rightarrow> action_result" where
  "target_changed_result m = action_stopped_at_metadata m (MetadataRefused TargetChanged)"

definition star_component_failed :: "metadata_outcome \<Rightarrow> action_failure \<Rightarrow> action_result" where
  "star_component_failed meta reason =
     \<lparr>rz_metadata = meta, rz_star = StarFailed reason, rz_backup = BackupSkipped PrerequisiteFailed\<rparr>"

definition refused_star_result :: "action_refusal \<Rightarrow> action_result" where
  "refused_star_result reason =
     \<lparr>rz_metadata = MetadataSkipped PrerequisiteFailed, rz_star = StarRefused reason,
      rz_backup = BackupSkipped PrerequisiteFailed\<rparr>"

fun map_mutation_refusal :: "refusal_reason \<Rightarrow> action_refusal" where
  "map_mutation_refusal MissingScope = ScopeMissing"
| "map_mutation_refusal AccountNotConnected = AccountRequired"
| "map_mutation_refusal _ = ActionNotAuthorized"

section \<open>Execution\<close>

record fetched_metadata =
  fe_fresh :: fresh_repository
  fe_token :: string
  fe_credential :: "string option"

text \<open>
  The fetch ends the action with a fault (\<open>Inl\<close>), with a result (\<open>Inr (Inl _)\<close>), or yields the repository
  the target names.
\<close>

definition target_matches :: "action_request \<Rightarrow> provider_repository_body \<Rightarrow> bool" where
  "target_matches req body \<longleftrightarrow>
     aq_numeric_id req \<le> i64_max \<and> aq_numeric_id req = pb_provider_repository_id body \<and>
     eq_ignore_ascii_case (pb_full_name body) (aq_full_name req)"

definition fetch_bound ::
    "action_runtime \<Rightarrow> action_request \<Rightarrow> string \<Rightarrow> string option \<Rightarrow> owner_name \<Rightarrow>
     (api_fault, (action_result, fetched_metadata) result) io" where
  "fetch_bound rt req token credential n =
     io_bind (call (\<lambda>k. oa_fetch_repository (ax_gateway rt) k credential n None)) (\<lambda>answer.
       case answer of
         Inl _ \<Rightarrow> io_return (Inl (metadata_provider_failure (aq_mode req)))
       | Inr reply \<Rightarrow>
           io_bind (budget_observe token (gr_rate_limit reply) FaultPanicked) (\<lambda>_.
             case gr_outcome reply of
               FetchFresh fresh \<Rightarrow>
                 io_return (if target_matches req (fr_body fresh)
                   then Inr \<lparr>fe_fresh = fresh, fe_token = token, fe_credential = credential\<rparr>
                   else Inl (target_changed_result (aq_mode req)))
             | _ \<Rightarrow> io_return (Inl (metadata_provider_failure (aq_mode req)))))"

definition fetch_action_metadata ::
    "action_runtime \<Rightarrow> uuid \<Rightarrow> action_request \<Rightarrow> (api_fault, (action_result, fetched_metadata) result) io" where
  "fetch_action_metadata rt user req =
     io_bind (eligible_account rt user) (\<lambda>account w.
       let (credential, w1) = account_credential rt account w;
           token = token_label rt user account
       in
       case acquire_now token w1 of
         (Inl _, w2) \<Rightarrow> (Inr (Inl (metadata_provider_failure (aq_mode req))), w2)
       | (Inr _, w2) \<Rightarrow>
           (case repository_parts (aq_url req) of
              Inl e \<Rightarrow> (Inl e, w2)
            | Inr n \<Rightarrow> fetch_bound rt req token credential n w2))"

definition star_account_id :: "action_runtime \<Rightarrow> action_request \<Rightarrow> (api_fault, uuid) result" where
  "star_account_id rt req =
     ok_or FaultInvalidRequest (Option.bind (aq_account_ref req) (\<lambda>v.
       Option.bind (strip_prefix ''github-account:'' v) (ax_uuid_parse rt)))"

definition refusal_of_account :: "action_runtime \<Rightarrow> account_row option \<Rightarrow> action_refusal option" where
  "refusal_of_account rt account =
     (case account of
        None \<Rightarrow> Some ActionNotAuthorized
      | Some a \<Rightarrow>
          if acct_status a \<noteq> Connected then Some AccountRequired
          else if \<not> star_scope (acct_scopes a) then Some ScopeMissing
          else if ax_key rt = None then Some AccountRequired
          else None)"

definition star_refusal ::
    "action_runtime \<Rightarrow> uuid \<Rightarrow> action_request \<Rightarrow> (api_fault, action_refusal option) io" where
  "star_refusal rt user req =
     (case star_account_id rt req of
        Inl e \<Rightarrow> io_fail e
      | Inr account_id \<Rightarrow>
          io_map_err (\<lambda>_. FaultPersistence) (query (\<lambda>db.
            refusal_of_account rt
              (find (\<lambda>a. acct_id a = account_id \<and> acct_owner a = user_ref rt user) (accounts db)))))"

fun star_components :: "(mutation_error, mutation_outcome) result \<Rightarrow> (star_outcome \<times> backup_outcome) option" where
  "star_components (Inr oc) =
     (case mu_status oc of
        StatusApplied \<Rightarrow> Some (StarSucceeded, BackupAccepted)
      | StatusAlreadyApplied \<Rightarrow> Some (StarAlreadyApplied, BackupAlreadyApplied)
      | StatusRejected reason \<Rightarrow> Some (StarRefused (map_mutation_refusal reason), BackupSkipped PrerequisiteFailed)
      | StatusFailed _ \<Rightarrow> Some (StarFailed ProviderUnavailable, BackupSkipped PrerequisiteFailed))"
| "star_components (Inl (MutConfirmedPersistence _)) = Some (StarSucceeded, BackupFailed PolicyPublicationFailed)"
| "star_components (Inl _) = None"

definition execute_star_action ::
    "action_runtime \<Rightarrow> uuid \<Rightarrow> action_request \<Rightarrow> int \<Rightarrow> metadata_outcome \<Rightarrow> (api_fault, action_result) io" where
  "execute_star_action rt user req provider_id meta w =
     (case star_account_id rt req of
        Inl e \<Rightarrow> (Inl e, w)
      | Inr account_id \<Rightarrow>
          (case ax_key rt of
             None \<Rightarrow> (Inr (star_component_failed meta ActionDependencyUnavailable), w)
           | Some key \<Rightarrow>
               (case load_active_pat (ax_cipher rt) account_id key w of
                  (Inl _, w1) \<Rightarrow> (Inr (star_component_failed meta ActionDependencyUnavailable), w1)
                | (Inr credential, w1) \<Rightarrow>
                    (case split_once (CHR ''/'') (aq_full_name req) of
                       None \<Rightarrow> (Inl FaultInvalidRequest, w1)
                     | Some (owner, name) \<Rightarrow>
                         (let mrt = \<lparr>mr_gateway = ax_mutation rt, mr_token = ax_uuid_text rt account_id,
                                mr_secret = Some credential,
                                mr_context = \<lparr>mc_account_id = account_id, mc_principal = user_ref rt user,
                                  mc_source = Telegram\<rparr>,
                                mr_show_time = ax_show_time rt\<rparr>;
                              (outcome, w2) = execute_mutation mrt
                                (ReqStar \<lparr>rr_provider_repository_id = provider_id, rr_owner = owner, rr_name = name\<rparr>
                                  (aq_idempotency_key req)) w1
                          in if outcome = Inl MutPanicked then (Inl FaultPanicked, w2)
                             else
                               case star_components outcome of
                                 None \<Rightarrow> (Inr (star_component_failed meta ActionDependencyUnavailable), w2)
                               | Some (star, backup) \<Rightarrow>
                                   (Inr \<lparr>rz_metadata = meta, rz_star = star, rz_backup = backup\<rparr>, w2))))))"

fun metadata_of_applied :: "applied_outcome \<Rightarrow> metadata_outcome" where
  "metadata_of_applied AppliedUnchanged = MetadataAlreadyApplied"
| "metadata_of_applied _ = MetadataSucceeded"

definition tracked_backup :: "int \<Rightarrow> world \<Rightarrow> backup_outcome \<times> world" where
  "tracked_backup provider_id w =
     (case track_repository provider_id w of
        (Inr TrackAccepted, w') \<Rightarrow> (BackupAccepted, w')
      | (Inr TrackAlreadyApplied, w') \<Rightarrow> (BackupAlreadyApplied, w')
      | (Inl _, w') \<Rightarrow> (BackupFailed PolicyPublicationFailed, w'))"

text \<open>The part after the metadata is recorded: the star, or the desired backup.\<close>

definition finish_action ::
    "action_runtime \<Rightarrow> uuid \<Rightarrow> action_request \<Rightarrow> int \<Rightarrow> metadata_outcome \<Rightarrow> (api_fault, action_result) io" where
  "finish_action rt user req provider_id meta w =
     (case aq_mode req of
        ActionStar \<Rightarrow> execute_star_action rt user req provider_id meta w
      | ActionTrack \<Rightarrow>
          (let (backup, w') = tracked_backup provider_id w in
           (Inr \<lparr>rz_metadata = meta, rz_star = StarSkipped NotApplicable, rz_backup = backup\<rparr>, w'))
      | ActionMetadata \<Rightarrow>
          (Inr \<lparr>rz_metadata = meta, rz_star = StarSkipped NotApplicable, rz_backup = BackupSkipped NotApplicable\<rparr>, w)
      | ActionUnsupported \<Rightarrow> (Inl FaultInvalidRequest, w))"

definition record_action_metadata ::
    "action_runtime \<Rightarrow> uuid \<Rightarrow> action_request \<Rightarrow> fetched_metadata \<Rightarrow> uuid \<Rightarrow> int \<Rightarrow> owner_name \<Rightarrow>
     (api_fault, action_result) io" where
  "record_action_metadata rt user req fetched repo provider_id alias w =
     (let track_for = (if aq_mode req = ActionTrack then Some (user_ref rt user) else None);
          ort = \<lparr>or_gateway = ax_gateway rt, or_token = fe_token fetched, or_credential = fe_credential fetched,
                 or_source = ax_source rt, or_watch = ax_watch rt, or_cast = ax_cast rt\<rparr>
      in
      if track_for \<noteq> None \<and> \<not> ax_tenant rt (user_ref rt user) then (Inl FaultInvalidRequest, w)
      else
        case record_fresh_repository ort repo alias (fe_fresh fetched) track_for (w_clock w div 1000) w of
          (Inr applied, w') \<Rightarrow> finish_action rt user req provider_id (metadata_of_applied applied) w'
        | (Inl ObservePanicked, w') \<Rightarrow> (Inl FaultPanicked, w')
        | (Inl (ObserveProvider _), w') \<Rightarrow> (Inr (metadata_provider_failure (aq_mode req)), w')
        | (Inl (ObserveRateLimited _), w') \<Rightarrow> (Inr (metadata_provider_failure (aq_mode req)), w')
        | (Inl _, w') \<Rightarrow> (Inr (metadata_persistence_failure (aq_mode req)), w'))"

definition record_bound ::
    "action_runtime \<Rightarrow> uuid \<Rightarrow> action_request \<Rightarrow> fetched_metadata \<Rightarrow> (api_fault, action_result) io" where
  "record_bound rt user req fetched w =
     (if i64_max < aq_numeric_id req then (Inr (target_changed_result (aq_mode req)), w)
      else
        case upsert_repository (aq_numeric_id req) w of
          (Inl _, w1) \<Rightarrow> (Inr (metadata_persistence_failure (aq_mode req)), w1)
        | (Inr identity, w1) \<Rightarrow>
            (case record_alias (ri_repository_id identity) OwnerName (pb_full_name (fr_body (fe_fresh fetched))) w1 of
               (Inl _, w2) \<Rightarrow> (Inr (metadata_persistence_failure (aq_mode req)), w2)
             | (Inr _, w2) \<Rightarrow>
                 (case record_alias (ri_repository_id identity) HtmlUrl (aq_url req) w2 of
                    (Inl _, w3) \<Rightarrow> (Inr (metadata_persistence_failure (aq_mode req)), w3)
                  | (Inr _, w3) \<Rightarrow>
                      (case repository_parts (aq_url req) of
                         Inl e \<Rightarrow> (Inl e, w3)
                       | Inr alias \<Rightarrow>
                           record_action_metadata rt user req fetched (ri_repository_id identity) (aq_numeric_id req) alias w3))))"

definition execute_catalog_action :: "action_runtime \<Rightarrow> uuid \<Rightarrow> action_request \<Rightarrow> (api_fault, action_result) io" where
  "execute_catalog_action rt user req =
     io_bind (fetch_action_metadata rt user req) (\<lambda>fetched.
       case fetched of
         Inl result \<Rightarrow> io_return result
       | Inr f \<Rightarrow> record_bound rt user req f)"

definition execute_claimed :: "action_runtime \<Rightarrow> uuid \<Rightarrow> action_request \<Rightarrow> (api_fault, action_result) io" where
  "execute_claimed rt user req =
     (if aq_mode req = ActionStar
      then io_bind (star_refusal rt user req) (\<lambda>refusal.
        case refusal of
          Some reason \<Rightarrow> io_return (refused_star_result reason)
        | None \<Rightarrow> execute_catalog_action rt user req)
      else execute_catalog_action rt user req)"

text \<open>The handler; the payload is \<open>None\<close> when the framework rejected the body.\<close>

definition action ::
    "action_runtime \<Rightarrow> string option \<Rightarrow> action_request option \<Rightarrow> (api_fault, action_result) io" where
  "action rt header payload w =
     (case and_then (authenticated_user rt header) (\<lambda>user.
        and_then (ok_or FaultInvalidRequest payload) (\<lambda>req.
        and_then (validate_action_target req) (\<lambda>_. Inr (user, req)))) of
        Inl e \<Rightarrow> (Inl e, w)
      | Inr (user, req) \<Rightarrow>
          (let owner = user_ref rt user in
           io_bind (io_map_err (\<lambda>_. FaultPersistence) (claim_action rt owner req)) (\<lambda>claim.
             case claim of
               ClaimReplay result \<Rightarrow> io_return result
             | ClaimConflict \<Rightarrow> io_fail FaultIdempotencyConflict
             | ClaimExecute \<Rightarrow>
                 io_bind (execute_claimed rt user req) (\<lambda>result w'.
                   (Inr result, snd (complete_action rt owner req result w')))) w))"

end
