(* ===== verification/Actions_Safety.thy ===== *)
theory Actions_Safety
  imports Actions
begin

text \<open>
  What the replay boundary and the binding of an action guarantee: a key executes once, its recorded
  result is what every repetition returns, a refused star contacts nobody, an action whose target is
  not what the provider shows changes nothing, and where the boundary strands a key.
\<close>

section \<open>Reading the account and the provider\<close>

text \<open>The steps before the binding change no table, so they keep every relation between catalogs.\<close>

context durable_relation
begin

lemma keeps_action_query: "keeps (eligible_account rt user)" "keeps (star_refusal rt user req)"
  "keeps (load_active_pat ci acct key)"
  unfolding eligible_account_def star_refusal_def load_active_pat_def load_active_credential_def
  by (auto split: sum.split option.split prod.split intro!: keeps_intros)

lemma keeps_action_fetch: "keeps (fetch_action_metadata rt user req)"
proof -
  have fetch: "keeps (fetch_bound rt req token credential n)" for token credential n
    unfolding fetch_bound_def by (auto split: sum.split fetch_outcome.split intro!: keeps_flow)
  have "keeps (\<lambda>w. let (credential, w1) = account_credential rt account w; token = token_label rt user account in
       case acquire_now token w1 of
         (Inl _, w2) \<Rightarrow> (Inr (Inl (metadata_provider_failure (aq_mode req))), w2)
       | (Inr _, w2) \<Rightarrow>
           (case repository_parts (aq_url req) of Inl e \<Rightarrow> (Inl e, w2) | Inr n \<Rightarrow> fetch_bound rt req token credential n w2))"
    (is "keeps ?m") for account
    unfolding keeps_def
  proof
    fix w
    obtain c w1 where 1: "account_credential rt account w = (c, w1)" by fastforce
    obtain q w2 where 2: "acquire_now (token_label rt user account) w1 = (q, w2)" by fastforce
    have "R (w_db w) (w_db w1)"
      using 1 by (auto simp: account_credential_def R_refl split: prod.splits option.splits sum.splits
          dest!: keepsD [OF keeps_action_query(3)])
    moreover have "w_db w2 = w_db w1" using acquire_now_other [OF 2] by simp
    moreover have "R (w_db w2) (w_db (snd (fetch_bound rt req (token_label rt user account) c n w2)))" for n
      using fetch by (simp add: keeps_def)
    ultimately show "R (w_db w) (w_db (snd (?m w)))"
      using 1 2 by (auto split: sum.split intro: R_trans)
  qed
  then show ?thesis
    unfolding fetch_action_metadata_def by (intro keeps_bind keeps_action_query)
qed

end

section \<open>The attempts under execution\<close>

definition same_attempts :: "catalog \<Rightarrow> catalog \<Rightarrow> bool" where
  "same_attempts db db' \<longleftrightarrow> action_attempts db' = action_attempts db"

interpretation attempts_frame: durable_relation same_attempts
  by unfold_locales (simp_all add: same_attempts_def)

lemma upsert_repository_attempts: "upsert_repository_in_tx p db = Inr (r, db') \<Longrightarrow> same_attempts db db'"
  by (auto simp: upsert_repository_in_tx_eq same_attempts_def split: option.splits)

lemma keeps_attempts_catalog:
  "attempts_frame.keeps (upsert_repository p)" "attempts_frame.keeps (record_alias repo k v)"
  "attempts_frame.keeps (stored_validators repo)" "attempts_frame.keeps (store_readme sc bytes)"
  "attempts_frame.keeps (apply_fresh_source sc cast repo body etag source)"
  "attempts_frame.keeps (register_repository_analysis_watch owner repo baseline)"
  "attempts_frame.keeps (evaluate_metadata_watches wc repo now)"
  "attempts_frame.keeps (track_repository p)"
proof -
  show "attempts_frame.keeps (upsert_repository p)"
    unfolding upsert_repository_def
    by (rule attempts_frame.keeps_transact) (auto simp: and_then_eq_Inr dest: upsert_repository_attempts)
  have "same_attempts db db'" if "reactivate_alias_in_tx repo k v db = Inr (x, db')" for x db db'
    using that by (auto simp: reactivate_alias_in_tx_def same_attempts_def fresh_uuid_def put_aliases_def
        split: if_splits option.splits)
  then show "attempts_frame.keeps (record_alias repo k v)"
    unfolding record_alias_def
    by (intro attempts_frame.keeps_transact_with)
      (auto simp: record_alias_tx_def same_attempts_def split: if_splits option.splits sum.splits prod.splits)
  show "attempts_frame.keeps (stored_validators repo)"
    unfolding stored_validators_def by (rule attempts_frame.keeps_query)
  show "attempts_frame.keeps (store_readme sc bytes)"
    unfolding store_readme_def Let_def
    by (auto split: option.split intro!: attempts_frame.keeps_intros attempts_frame.keeps_transact_with
        simp: store_readme_tx_def same_attempts_def)
  have "same_attempts db db'" if "apply_source_tx sc cast repo body etag source digest db = Inr (out, db')"
    for digest db out db'
    using that by (cases rule: apply_source_Inr) (simp_all add: same_attempts_def touch_fetched_def prune_history_in_tx_def)
  then have sourced: "attempts_frame.keeps (transact_with lost (apply_source_tx sc cast repo body etag source digest))"
    for lost digest
    by (rule attempts_frame.keeps_transact_with)
  show "attempts_frame.keeps (apply_fresh_source sc cast repo body etag source)"
    unfolding attempts_frame.keeps_def apply_fresh_source_def
    by (auto split: sum.split intro: attempts_frame.R_refl simp: sourced [unfolded attempts_frame.keeps_def, rule_format])
  show "attempts_frame.keeps (register_repository_analysis_watch owner repo baseline)"
    unfolding register_repository_analysis_watch_def
    by (rule attempts_frame.keeps_transact_with) (auto elim!: register_watch_Inr simp: same_attempts_def)
  have "same_attempts db db'" if "evaluate_watches_tx wc repo now db = Inr (e, db')" for db e db'
    using evaluate_watches_frame [OF that] by (simp add: same_attempts_def)
  then show "attempts_frame.keeps (evaluate_metadata_watches wc repo now)"
    unfolding evaluate_metadata_watches_def
    by (auto intro!: attempts_frame.keeps_intros attempts_frame.keeps_transact_with)
  show "attempts_frame.keeps (track_repository p)"
    unfolding track_repository_def
    by (rule attempts_frame.keeps_transact)
      (auto simp: track_tx_def same_attempts_def and_then_eq_Inr Let_def put_mode_def mark_backup_policy_dirty_in_tx_def
        mark_dirty_at_def upsert_repository_in_tx_eq split: if_splits option.splits prod.splits)
qed

lemma keeps_attempts_record: "attempts_frame.keeps (record_fresh_repository rt repo alias fresh track_for now)"
  unfolding record_fresh_repository_def readme_evidence_def record_source_def register_tracking_def
  by (auto split: sum.split option.split readme_fetch_outcome.split prod.split
      intro!: attempts_frame.keeps_flow keeps_attempts_catalog)

lemma insert_audit_row_attempts: "action_attempts (snd (insert_audit_row ctx r kind key oc d db)) = action_attempts db"
  by (simp add: insert_audit_row_def)

lemma keeps_attempts_audit:
  "attempts_frame.keeps (refused_outcome ctx req reason)" "attempts_frame.keeps (paused_outcome show_time ctx req until)"
  "attempts_frame.keeps (failed_outcome ctx kind p key why)"
proof -
  have "attempts_frame.keeps (transact (record_attempt_tx ctx p kind key oc d))" for p kind key oc d
    by (rule attempts_frame.keeps_transact)
      (auto simp: record_attempt_tx_def and_then_eq_Inr case_prod_unfold insert_audit_row_attempts same_attempts_def
        dest!: upsert_repository_attempts)
  then show "attempts_frame.keeps (refused_outcome ctx req reason)" "attempts_frame.keeps (paused_outcome show_time ctx req until)"
    "attempts_frame.keeps (failed_outcome ctx kind p key why)"
    unfolding refused_outcome_def paused_outcome_def failed_outcome_def record_attempt_def
    by (auto intro!: attempts_frame.keeps_intros)
qed

lemma keeps_attempts_confirmed: "attempts_frame.keeps (persist_confirmed_star ctx p key dir)"
  unfolding persist_confirmed_star_def
proof (rule attempts_frame.keeps_transact)
  fix db x db' assume "persist_confirmed_star_tx ctx p key dir db = Inr (x, db')"
  then obtain r db1 db2 n db3 where 1: "upsert_repository_in_tx p db = Inr (r, db1)"
    and 2: "db2 = apply_star_projection (mc_account_id ctx) r dir db1"
    and 3: "(if n then mark_backup_policy_dirty_in_tx db2 else Inr db2) = Inr db3"
    and 4: "(x, db') = finish_with_replay_guard (insert_audit_row ctx r (kind_text (direction_kind dir)) key
        (if n then AuditApplied else AuditAlreadyApplied) (JObj [(''via'', JStr ''mutation'')]) db3) db key n"
    by (auto simp: persist_confirmed_star_tx_def and_then_eq_Inr Let_def)
  have "same_attempts db db1" using 1 by (rule upsert_repository_attempts)
  moreover have "same_attempts db1 db2" by (simp add: 2 apply_star_projection_def same_attempts_def)
  moreover have "same_attempts db2 db3" using 3
    by (auto simp: mark_backup_policy_dirty_in_tx_def mark_dirty_at_def same_attempts_def split: if_splits option.splits)
  moreover have "db' = db \<or> same_attempts db3 db'"
    using 4 by (auto simp: finish_with_replay_guard_def same_attempts_def insert_audit_row_attempts split: if_splits)
  ultimately show "same_attempts db db'" by (auto simp: same_attempts_def)
qed

lemma keeps_attempts_settle: "attempts_frame.keeps m \<Longrightarrow> attempts_frame.keeps (io_settle m)"
  unfolding attempts_frame.keeps_def io_settle_def by (auto split: prod.split sum.split) (metis snd_conv)+

lemma keeps_attempts_star: "attempts_frame.keeps (execute_mutation rt (ReqStar repo key))"
proof -
  have star: "attempts_frame.keeps (execute_star_write rt repo key StarAdd)"
    unfolding execute_star_write_def resolve_node_def Let_def
    by (auto split: sum.split intro!: attempts_frame.keeps_flow keeps_attempts_settle keeps_attempts_audit keeps_attempts_confirmed)
  have "attempts_frame.keeps (acquire_or_pause rt (ReqStar repo key))"
    unfolding attempts_frame.keeps_def
  proof
    fix w
    obtain q w1 where q: "acquire_now (mr_token rt) w = (q, w1)" by fastforce
    have "w_db w1 = w_db w" using acquire_now_other [OF q] by simp
    moreover have "same_attempts (w_db w1) (w_db (snd (execute_star_write rt repo key StarAdd w1)))"
      "same_attempts (w_db w1) (w_db (snd (paused_outcome (mr_show_time rt) (mr_context rt) (ReqStar repo key) t w1)))" for t
      using star keeps_attempts_audit(2) by (auto simp: attempts_frame.keeps_def)
    ultimately show "same_attempts (w_db w) (w_db (snd (acquire_or_pause rt (ReqStar repo key) w)))"
      using q by (auto simp: acquire_or_pause_def dispatch_def split: sum.split acquire_error.split)
  qed
  then show ?thesis
    unfolding execute_mutation_def successful_outcome_exists_def
    by (auto split: option.split intro!: attempts_frame.keeps_flow keeps_attempts_audit)
qed

lemma keeps_attempts_finish: "attempts_frame.keeps (finish_action rt user req p meta)"
  unfolding attempts_frame.keeps_def
proof
  fix w
  have "same_attempts (w_db w) (w_db (snd (execute_star_action rt user req p meta w)))"
  proof (cases "star_account_id rt req")
    case (Inr acct)
    show ?thesis
    proof (cases "ax_key rt")
      case (Some key)
      obtain r w1 where 1: "load_active_pat (ax_cipher rt) acct key w = (r, w1)" by fastforce
      note kept = attempts_frame.keepsD [OF attempts_frame.keeps_action_query(3) 1]
      have "same_attempts (w_db w1) (w_db (snd (execute_mutation mrt (ReqStar repo k) w1)))" for mrt repo k
        using keeps_attempts_star by (simp add: attempts_frame.keeps_def)
      with kept have "same_attempts (w_db w) (w_db (snd (execute_mutation mrt (ReqStar repo k) w1)))" for mrt repo k
        by (simp add: same_attempts_def)
      with Inr Some 1 kept show ?thesis
        by (simp add: execute_star_action_def Let_def split: sum.split option.split prod.split) (metis snd_conv)
    qed (simp add: execute_star_action_def Inr attempts_frame.R_refl)
  qed (simp add: execute_star_action_def attempts_frame.R_refl)
  moreover have "same_attempts (w_db w) (w_db (snd (tracked_backup p w)))"
    using keeps_attempts_catalog(8) unfolding attempts_frame.keeps_def tracked_backup_def
    by (auto split: prod.split sum.split track_outcome.split) (metis snd_conv)+
  ultimately show "same_attempts (w_db w) (w_db (snd (finish_action rt user req p meta w)))"
    by (auto simp: finish_action_def attempts_frame.R_refl split: action_capability.split prod.split)
qed

lemma keeps_attempts_recorded: "attempts_frame.keeps (record_action_metadata rt user req fetched repo p alias)"
  unfolding attempts_frame.keeps_def
proof
  fix w
  let ?track = "if aq_mode req = ActionTrack then Some (user_ref rt user) else None"
  let ?ort = "\<lparr>or_gateway = ax_gateway rt, or_token = fe_token fetched, or_credential = fe_credential fetched,
    or_source = ax_source rt, or_watch = ax_watch rt, or_cast = ax_cast rt\<rparr>"
  obtain r w1 where 1: "record_fresh_repository ?ort repo alias (fe_fresh fetched) ?track (w_clock w div 1000) w = (r, w1)" by fastforce
  have "same_attempts (w_db w) (w_db w1)" using keeps_attempts_record 1 by (rule attempts_frame.keepsD)
  moreover have "same_attempts (w_db w1) (w_db (snd (finish_action rt user req p meta w1)))" for meta
    using keeps_attempts_finish by (simp add: attempts_frame.keeps_def)
  ultimately show "same_attempts (w_db w) (w_db (snd (record_action_metadata rt user req fetched repo p alias w)))"
    using 1 unfolding record_action_metadata_def Let_def
    by (auto simp: same_attempts_def split: sum.split observe_error.split)
qed

lemma keeps_attempts_bound: "attempts_frame.keeps (record_bound rt user req fetched)"
  unfolding attempts_frame.keeps_def
proof
  fix w
  obtain r1 w1 where 1: "upsert_repository (aq_numeric_id req) w = (r1, w1)" by fastforce
  note k1 = attempts_frame.keepsD [OF keeps_attempts_catalog(1) 1]
  show "same_attempts (w_db w) (w_db (snd (record_bound rt user req fetched w)))"
  proof (cases r1)
    case (Inl e)
    with 1 k1 show ?thesis by (simp add: record_bound_def attempts_frame.R_refl)
  next
    case (Inr i)
    let ?a = "record_alias (ri_repository_id i)"
    obtain r2 w2 where 2: "?a OwnerName (pb_full_name (fr_body (fe_fresh fetched))) w1 = (r2, w2)" by fastforce
    obtain r3 w3 where 3: "?a HtmlUrl (aq_url req) w2 = (r3, w3)" by fastforce
    note k2 = attempts_frame.keepsD [OF keeps_attempts_catalog(2) 2]
    note k3 = attempts_frame.keepsD [OF keeps_attempts_catalog(2) 3]
    have k4: "same_attempts (w_db w3) (w_db (snd (record_action_metadata rt user req fetched repo p n w3)))" for repo p n
      using keeps_attempts_recorded by (simp add: attempts_frame.keeps_def)
    show ?thesis
      using k1 k2 k3 k4 unfolding record_bound_def 1 Inr
      by (auto simp: 2 3 same_attempts_def split: sum.split)
  qed
qed

lemma keeps_attempts_claimed: "attempts_frame.keeps (execute_claimed rt user req)"
  unfolding execute_claimed_def execute_catalog_action_def
  by (auto split: option.split sum.split intro!: attempts_frame.keeps_intros attempts_frame.keeps_action_query attempts_frame.keeps_action_fetch keeps_attempts_bound)

section \<open>The claim\<close>

lemma action_accepted:
  assumes "authenticated_user rt header = Inr user" and "validate_action_target req = Inr ()"
  shows "action rt header (Some req) w =
    io_bind (io_map_err (\<lambda>_. FaultPersistence) (claim_action rt (user_ref rt user) req)) (\<lambda>claim.
      case claim of
        ClaimReplay result \<Rightarrow> io_return result
      | ClaimConflict \<Rightarrow> io_fail FaultIdempotencyConflict
      | ClaimExecute \<Rightarrow> io_bind (execute_claimed rt user req) (\<lambda>result w'.
          (Inr result, snd (complete_action rt (user_ref rt user) req result w')))) w"
  using assms by (simp add: action_def ok_or_def Let_def)

lemma action_cases:
  assumes "action rt header (Some req) w = (r, w')"
  obtains (refused) e where "r = Inl e" "w' = w"
  | (claimed) user where "authenticated_user rt header = Inr user" "validate_action_target req = Inr ()"
proof (cases "authenticated_user rt header")
  case (Inl e)
  with assms refused show ?thesis by (auto simp: action_def)
next
  case (Inr user)
  show ?thesis
  proof (cases "validate_action_target req")
    case (Inl e)
    with assms \<open>authenticated_user rt header = Inr user\<close> refused show ?thesis by (auto simp: action_def ok_or_def)
  next
    case (Inr u)
    with claimed \<open>authenticated_user rt header = Inr user\<close> show ?thesis by simp
  qed
qed

lemma query_other: "query f w = (r, w') \<Longrightarrow> w_db w' = w_db w \<and> w_calls w' = w_calls w \<and> w_ledger w' = w_ledger w"
  by (auto simp: query_def transact_def transact_with_def Let_def split: list.splits bool.splits)

lemma claim_taken:
  assumes "aq_idempotency_key req \<in> ac_key ` set (action_attempts (w_db w))" and "claim_action rt owner req w = (r, w')"
  shows "r \<noteq> Inr ClaimExecute \<and> w_db w' = w_db w \<and> w_calls w' = w_calls w \<and> w_ledger w' = w_ledger w"
proof (cases "ax_request_json rt req")
  case None
  with assms(2) show ?thesis by (auto simp: claim_action_def io_fail_def)
next
  case (Some fp)
  obtain r1 w1 where 1: "transact (insert_attempt_tx owner req fp) w = (r1, w1)" by fastforce
  have insert: "insert_attempt_tx owner req fp (w_db w) \<noteq> Inr (True, db)" for db
    using assms(1) by (auto simp: insert_attempt_tx_def Let_def)
  have same: "w_db w1 = w_db w \<and> w_calls w1 = w_calls w \<and> w_ledger w1 = w_ledger w \<and> r1 \<noteq> Inr True"
    using 1 assms(1) by (auto simp: transact_def transact_with_def insert_attempt_tx_def Let_def split: list.splits bool.splits if_splits)
  obtain r2 w2 where 2: "query (\<lambda>db. find_by ac_key (aq_idempotency_key req) (action_attempts db)) w1 = (r2, w2)" by fastforce
  have "existing_claim rt owner fp x \<noteq> Inr ClaimExecute" for x
    by (auto simp: existing_claim_def and_then_eq_Inr split: option.splits if_splits)
  with assms(2) Some 1 2 same query_other [OF 2] show ?thesis
    by (auto simp: claim_action_def io_bind_def io_map_err_def split: sum.splits if_splits)
qed

text \<open>
  C36. An idempotency key executes once: a request whose key is already in the table - completed, still in
  progress or abandoned, by the same user or another - never contacts the provider, spends no budget
  and changes no table, whatever else it asks.
\<close>

theorem key_executes_once:
  assumes "aq_idempotency_key req \<in> ac_key ` set (action_attempts (w_db w))" and "action rt header (Some req) w = (r, w')"
  shows "w_db w' = w_db w \<and> w_calls w' = w_calls w \<and> w_ledger w' = w_ledger w"
  using assms(2)
proof (cases rule: action_cases)
  case (claimed user)
  obtain r1 w1 where 1: "claim_action rt (user_ref rt user) req w = (r1, w1)" by fastforce
  from claim_taken [OF assms(1) 1] have "r1 \<noteq> Inr ClaimExecute" by simp
  with assms(2) claim_taken [OF assms(1) 1] 1 show ?thesis
    unfolding action_accepted [OF claimed]
    by (auto simp: io_bind_def io_map_err_def io_return_def io_fail_def split: sum.splits action_claim.splits)
qed simp

section \<open>Replay\<close>

definition attempt_of :: "string \<Rightarrow> action_request \<Rightarrow> json \<Rightarrow> attempt_row" where
  "attempt_of owner req fingerprint =
     \<lparr>ac_owner = owner, ac_key = aq_idempotency_key req, ac_fingerprint = fingerprint,
      ac_mode = action_mode (aq_mode req), ac_provider_id = aq_numeric_id req,
      ac_full_name = aq_full_name req, ac_url = aq_url req, ac_account = aq_account_ref req,
      ac_evidence = aq_evidence_ref req, ac_done = False, ac_result = None, ac_completed = None\<rparr>"

lemma ac_key_attempt_of [simp]: "ac_key (attempt_of owner req fp) = aq_idempotency_key req"
  by (simp add: attempt_of_def)

lemma insert_attempt_eq:
  "insert_attempt_tx owner req fp db =
    (if \<not> attempt_check (attempt_of owner req fp) then Inl CheckViolation
     else if aq_idempotency_key req \<in> ac_key ` set (action_attempts db) then Inr (False, db)
     else Inr (True, db\<lparr>action_attempts := action_attempts db @ [attempt_of owner req fp]\<rparr>))"
  by (simp only: insert_attempt_tx_def attempt_of_def [symmetric] Let_def ac_key_attempt_of)

lemma claim_executed:
  assumes "claim_action rt owner req w = (Inr ClaimExecute, w')"
  obtains fp row where "ax_request_json rt req = Some fp" "action_attempts (w_db w') = action_attempts (w_db w) @ [row]"
    "aq_idempotency_key req \<notin> ac_key ` set (action_attempts (w_db w))"
    "row = attempt_of owner req fp" "attempt_check row"
proof (cases "ax_request_json rt req")
  case None
  with assms show ?thesis by (simp add: claim_action_def io_fail_def)
next
  case (Some fp)
  have "existing_claim rt owner fp x \<noteq> Inr ClaimExecute" for x
    by (auto simp: existing_claim_def and_then_eq_Inr split: option.splits if_splits)
  with assms Some have "transact (insert_attempt_tx owner req fp) w = (Inr True, w')"
    by (auto simp: claim_action_def io_return_def elim!: io_bind_InrE dest!: io_map_err_InrD split: if_splits)
  then have "insert_attempt_tx owner req fp (w_db w) = Inr (True, w_db w')" by (rule transact_InrD)
  with that [of fp "attempt_of owner req fp"] Some show ?thesis
    by (auto simp: insert_attempt_eq split: if_splits dest: sym)
qed

lemma claim_fresh:
  assumes "aq_idempotency_key req \<notin> ac_key ` set (action_attempts (w_db w))" and "claim_action rt owner req w = (Inr c, w')"
  shows "c = ClaimExecute"
proof (cases "ax_request_json rt req")
  case None
  with assms show ?thesis by (simp add: claim_action_def io_fail_def)
next
  case (Some fp)
  have "x" if "transact (insert_attempt_tx owner req fp) w = (Inr x, w1)" for x w1
    using transact_InrD [OF that] assms(1) by (auto simp: insert_attempt_eq split: if_splits)
  with assms(2) Some show ?thesis
    by (auto simp: claim_action_def io_return_def elim!: io_bind_InrE dest!: io_map_err_InrD split: if_splits)
qed

lemma complete_action_db:
  "w_db (snd (complete_action rt owner req result w)) = w_db w \<or>
   (\<exists>fp j. ax_request_json rt req = Some fp \<and> ax_result_json rt result = Some j \<and>
      complete_action_tx owner (aq_idempotency_key req) fp j (w_db w) = Inr ((), w_db (snd (complete_action rt owner req result w))))"
proof (cases "(ax_request_json rt req, ax_result_json rt result)")
  case (Pair a b)
  show ?thesis
  proof (cases "\<exists>fp j. a = Some fp \<and> b = Some j")
    case True
    then obtain fp j where fpj: "a = Some fp" "b = Some j" by blast
    obtain r1 w1 where 1: "transact (complete_action_tx owner (aq_idempotency_key req) fp j) w = (r1, w1)" by fastforce
    have w1: "w_db (snd (complete_action rt owner req result w)) = w_db w1"
      using Pair fpj 1 by (simp add: complete_action_def io_map_err_def io_bind_def io_return_def io_fail_def Let_def split: sum.split)
    show ?thesis
    proof (cases r1)
      case (Inl e)
      with transact_InlD 1 have "w_db w1 = w_db w" by blast
      with w1 show ?thesis by simp
    next
      case (Inr u)
      with transact_InrD [of "complete_action_tx owner (aq_idempotency_key req) fp j" w u w1] 1 Pair fpj w1 show ?thesis by simp
    qed
  next
    case False
    with Pair show ?thesis by (auto simp: complete_action_def io_fail_def split: option.split)
  qed
qed

lemma find_by_append_fresh:
  "k \<notin> key ` set t \<Longrightarrow> find_by key k (t @ [r]) = (if key r = k then Some r else None)"
  unfolding find_by_def by (induction t) auto

lemma find_by_open_attempt:
  assumes "\<And>a. key (f a) = key a"
  shows "find_by key k (update_where p f t) = map_option (\<lambda>a. if p a then f a else a) (find_by key k t)"
  using assms unfolding find_by_def update_where_def by (induction t) auto

lemma complete_action_attempts:
  "complete_action_tx owner key fp j db = Inr ((), db') \<Longrightarrow> action_attempts db' =
     update_where (open_attempt owner key fp)
       (\<lambda>a. a\<lparr>ac_done := True, ac_result := Some j, ac_completed := Some (db_clock db)\<rparr>) (action_attempts db)"
  by (auto simp: complete_action_tx_def Let_def split: if_splits)

text \<open>The row a completed execution leaves.\<close>

lemma completed_attempt:
  assumes claim: "claim_action rt owner req w = (Inr ClaimExecute, w1)" and run: "execute_claimed rt user req w1 = (Inr result, w2)"
    and w': "w' = snd (complete_action rt owner req result w2)"
    and a: "find_by ac_key (aq_idempotency_key req) (action_attempts (w_db w')) = Some a" "ac_done a"
  obtains fp j where "ax_request_json rt req = Some fp" "ax_result_json rt result = Some j" "attempt_check (attempt_of owner req fp)"
    "ac_owner a = owner" "ac_fingerprint a = fp" "ac_result a = Some j"
proof -
  from claim obtain fp row where row: "ax_request_json rt req = Some fp"
      "action_attempts (w_db w1) = action_attempts (w_db w) @ [row]"
      "aq_idempotency_key req \<notin> ac_key ` set (action_attempts (w_db w))" "row = attempt_of owner req fp" "attempt_check row"
    by (rule claim_executed)
  have "action_attempts (w_db w2) = action_attempts (w_db w) @ [row]"
    using attempts_frame.keepsD [OF keeps_attempts_claimed run] row(2) by (simp add: same_attempts_def)
  with row(3,4) have 2: "find_by ac_key (aq_idempotency_key req) (action_attempts (w_db w2)) = Some (attempt_of owner req fp)"
    by (simp add: find_by_append_fresh attempt_of_def)
  from complete_action_db [of rt owner req result w2, folded w'] show ?thesis
  proof
    assume "w_db w' = w_db w2"
    with 2 a show ?thesis by (auto simp: attempt_of_def)
  next
    assume "\<exists>fp j. ax_request_json rt req = Some fp \<and> ax_result_json rt result = Some j \<and>
      complete_action_tx owner (aq_idempotency_key req) fp j (w_db w2) = Inr ((), w_db w')"
    then obtain j where j: "ax_result_json rt result = Some j"
        "complete_action_tx owner (aq_idempotency_key req) fp j (w_db w2) = Inr ((), w_db w')"
      using row(1) by auto
    from complete_action_attempts [OF j(2)] 2 a(1) have "a = (attempt_of owner req fp)\<lparr>ac_done := True, ac_result := Some j, ac_completed := Some (db_clock (w_db w2))\<rparr>"
      by (simp add: find_by_open_attempt open_attempt_def attempt_of_def)
    with that [OF row(1) j(1)] row(4,5) show ?thesis by (simp add: attempt_of_def)
  qed
qed

lemma executed_attempt:
  assumes claim: "claim_action rt owner req w = (Inr ClaimExecute, w1)" and run: "execute_claimed rt user req w1 = (Inr result, w2)"
    and w': "w' = snd (complete_action rt owner req result w2)"
  obtains a fp where "find_by ac_key (aq_idempotency_key req) (action_attempts (w_db w')) = Some a"
    "ax_request_json rt req = Some fp" "attempt_check (attempt_of owner req fp)"
proof -
  from claim obtain fp row where row: "ax_request_json rt req = Some fp"
      "action_attempts (w_db w1) = action_attempts (w_db w) @ [row]"
      "aq_idempotency_key req \<notin> ac_key ` set (action_attempts (w_db w))" "row = attempt_of owner req fp" "attempt_check row"
    by (rule claim_executed)
  have "action_attempts (w_db w2) = action_attempts (w_db w) @ [row]"
    using attempts_frame.keepsD [OF keeps_attempts_claimed run] row(2) by (simp add: same_attempts_def)
  with row(3,4) have 2: "find_by ac_key (aq_idempotency_key req) (action_attempts (w_db w2)) = Some row"
    by (simp add: find_by_append_fresh attempt_of_def)
  from complete_action_db [of rt owner req result w2, folded w']
  have "find_by ac_key (aq_idempotency_key req) (action_attempts (w_db w')) \<noteq> None"
  proof
    assume "\<exists>fp j. ax_request_json rt req = Some fp \<and> ax_result_json rt result = Some j \<and>
      complete_action_tx owner (aq_idempotency_key req) fp j (w_db w2) = Inr ((), w_db w')"
    then obtain j where "complete_action_tx owner (aq_idempotency_key req) fp j (w_db w2) = Inr ((), w_db w')"
      using row(1) by auto
    from complete_action_attempts [OF this] show ?thesis using 2 by (simp add: find_by_open_attempt)
  qed (simp add: 2)
  with row that show ?thesis by auto
qed

lemma claim_replays:
  assumes "ax_request_json rt req = Some fp" and "attempt_check (attempt_of owner req fp)"
    and "find_by ac_key (aq_idempotency_key req) (action_attempts (w_db v)) = Some a"
    and "ac_owner a = owner" "ac_fingerprint a = fp" "ac_done a" "ac_result a = Some j" "ax_result_of_json rt j = Some result"
    and "w_faults v = []"
  shows "claim_action rt owner req v = (Inr (ClaimReplay result), v)"
proof -
  have "aq_idempotency_key req \<in> ac_key ` set (action_attempts (w_db v))"
    using assms(3) by (auto dest!: find_by_SomeD intro!: image_eqI)
  then have "insert_attempt_tx owner req fp (w_db v) = Inr (False, w_db v)"
    using assms(2) by (simp add: insert_attempt_eq)
  then have "transact (insert_attempt_tx owner req fp) v = (Inr False, v)"
    using assms(9) by (simp add: transact_no_fault)
  with assms show ?thesis
    by (simp add: claim_action_def io_bind_def io_map_err_def query_no_fault existing_claim_def ok_or_def)
qed

lemma claim_conflicts:
  assumes "ax_request_json rt req = Some fp" and "attempt_check (attempt_of owner req fp)"
    and "find_by ac_key (aq_idempotency_key req) (action_attempts (w_db v)) = Some a" and "\<not> ac_done a" and "w_faults v = []"
  shows "claim_action rt owner req v = (Inr ClaimConflict, v)"
proof -
  have "aq_idempotency_key req \<in> ac_key ` set (action_attempts (w_db v))"
    using assms(3) by (auto dest!: find_by_SomeD intro!: image_eqI)
  then have "transact (insert_attempt_tx owner req fp) v = (Inr False, v)"
    using assms(2,5) by (simp add: insert_attempt_eq transact_no_fault)
  with assms show ?thesis
    by (simp add: claim_action_def io_bind_def io_map_err_def query_no_fault existing_claim_def split: option.split)
qed

text \<open>
  C7. What an action has answered is what it answers for ever: when a request with a fresh key was answered with
  a result, its key has an attempt, and the same request by the same user, in any later state of the
  catalog that still has that row and is reachable, touches nothing - no provider call, no budget, no table - and
  returns the very same result when the attempt is recorded as completed; when it is not, because the
  write that completes it was lost after the answer was computed, it is answered with the idempotency
  conflict. The hypothesis on the parameters is that the contract crate reads back what it wrote.
\<close>

theorem recorded_action_replays:
  assumes fresh: "aq_idempotency_key req \<notin> ac_key ` set (action_attempts (w_db w))"
    and run: "action rt header (Some req) w = (Inr result, w')"
    and readable: "\<And>j. ax_result_json rt result = Some j \<Longrightarrow> ax_result_of_json rt j = Some result"
  shows "\<exists>a. find_by ac_key (aq_idempotency_key req) (action_attempts (w_db w')) = Some a \<and>
    (\<forall>v. find_by ac_key (aq_idempotency_key req) (action_attempts (w_db v)) = Some a \<and> w_faults v = [] \<longrightarrow>
       action rt header (Some req) v = (if ac_done a then Inr result else Inl FaultIdempotencyConflict, v))"
  using run
proof (cases rule: action_cases)
  case (claimed user)
  let ?owner = "user_ref rt user"
  obtain w1 where 1: "claim_action rt ?owner req w = (Inr ClaimExecute, w1)"
    using run claim_fresh [OF fresh] unfolding action_accepted [OF claimed]
    by (auto elim!: io_bind_InrE dest!: io_map_err_InrD)
  obtain w2 where 2: "execute_claimed rt user req w1 = (Inr result, w2)" "w' = snd (complete_action rt ?owner req result w2)"
    using run 1 unfolding action_accepted [OF claimed]
    by (auto simp: io_bind_def io_map_err_def split: sum.splits prod.splits)
  obtain a fp where a: "find_by ac_key (aq_idempotency_key req) (action_attempts (w_db w')) = Some a"
      and fp: "ax_request_json rt req = Some fp" and chk: "attempt_check (attempt_of ?owner req fp)"
    using executed_attempt [OF 1 2] by blast
  have "action rt header (Some req) v = (if ac_done a then Inr result else Inl FaultIdempotencyConflict, v)"
    if later: "find_by ac_key (aq_idempotency_key req) (action_attempts (w_db v)) = Some a" "w_faults v = []" for v
  proof (cases "ac_done a")
    case True
    obtain j where j: "ax_result_json rt result = Some j" and row: "ac_owner a = ?owner" "ac_fingerprint a = fp" "ac_result a = Some j"
      using completed_attempt [OF 1 2 a True] fp by auto
    from claim_replays [OF fp chk later(1) row(1,2) True row(3) readable [OF j] later(2)] True show ?thesis
      unfolding action_accepted [OF claimed] by (simp add: io_bind_def io_map_err_def io_return_def)
  next
    case False
    from claim_conflicts [OF fp chk later(1) False later(2)] False show ?thesis
      unfolding action_accepted [OF claimed] by (simp add: io_bind_def io_map_err_def io_fail_def)
  qed
  with a show ?thesis by blast
qed simp

section \<open>Binding\<close>

definition only_attempts :: "catalog \<Rightarrow> catalog \<Rightarrow> bool" where
  "only_attempts db db' \<longleftrightarrow> (\<exists>rows t. db' = db\<lparr>action_attempts := rows, db_clock := t\<rparr>)"

lemma only_attempts_trans: "only_attempts a b \<Longrightarrow> only_attempts b c \<Longrightarrow> only_attempts a c"
  unfolding only_attempts_def by (elim exE) (simp, blast)

lemma only_attempts_rows: "only_attempts db (db\<lparr>action_attempts := rows\<rparr>)"
  unfolding only_attempts_def by (rule exI [of _ rows], rule exI [of _ "db_clock db"]) simp

lemma only_attempts_clock: "only_attempts db (db\<lparr>db_clock := t\<rparr>)"
  unfolding only_attempts_def by (rule exI [of _ "action_attempts db"], rule exI [of _ t]) simp

lemma only_attempts_refl: "only_attempts db db"
  using only_attempts_clock [of db "db_clock db"] by simp

interpretation unbound_frame: durable_relation only_attempts
  by unfold_locales (auto intro: only_attempts_trans only_attempts_clock only_attempts_refl)

lemma unbound_claim: "unbound_frame.keeps (claim_action rt owner req)"
proof -
  have "unbound_frame.keeps (transact (insert_attempt_tx owner req fp))" for fp
    by (rule unbound_frame.keeps_transact)
      (auto simp: insert_attempt_eq only_attempts_rows only_attempts_refl split: if_splits)
  moreover have "unbound_frame.keeps (\<lambda>w. (existing_claim rt owner fp e, w))" for fp e
    by (simp add: unbound_frame.keeps_def only_attempts_refl)
  ultimately show ?thesis
    unfolding claim_action_def by (auto split: option.split intro!: unbound_frame.keeps_intros)
qed

lemma unbound_complete: "only_attempts (w_db w) (w_db (snd (complete_action rt owner req result w)))"
  using complete_action_db [of rt owner req result w]
  by (auto simp: complete_action_tx_def Let_def only_attempts_refl only_attempts_rows split: if_splits dest: sym)

text \<open>What the provider must have shown for an action to go beyond its claim.\<close>

definition shown_by_provider :: "action_runtime \<Rightarrow> action_request \<Rightarrow> bool" where
  "shown_by_provider rt req \<longleftrightarrow> (\<exists>k credential n reply fresh.
     repository_parts (aq_url req) = Inr n \<and>
     ans_result (oa_fetch_repository (ax_gateway rt) k credential n None) = Inr reply \<and>
     gr_outcome reply = FetchFresh fresh \<and> target_matches req (fr_body fresh))"

lemma fetch_bound_shown:
  assumes "fetch_bound rt req token credential n w = (Inr (Inr f), w')" and "repository_parts (aq_url req) = Inr n"
  shows "shown_by_provider rt req"
proof -
  obtain answer w1 where 1: "call (\<lambda>k. oa_fetch_repository (ax_gateway rt) k credential n None) w = (Inr answer :: (api_fault, _) result, w1)"
    using assms(1) by (auto simp: fetch_bound_def elim!: io_bind_InrE)
  from call_answer [OF 1] obtain k where "ans_result (oa_fetch_repository (ax_gateway rt) k credential n None) = answer" by blast
  moreover obtain reply fresh where "answer = Inr reply" "gr_outcome reply = FetchFresh fresh" "target_matches req (fr_body fresh)"
    using assms(1) 1 by (auto simp: fetch_bound_def io_return_def elim!: io_bind_InrE split: sum.splits fetch_outcome.splits if_splits)
  ultimately show ?thesis using assms(2) unfolding shown_by_provider_def by blast
qed

lemma fetch_action_shown:
  assumes "fetch_action_metadata rt user req w = (Inr (Inr f), w')"
  shows "shown_by_provider rt req"
  using assms unfolding fetch_action_metadata_def
  by (auto simp: Let_def elim!: io_bind_InrE split: prod.splits sum.splits intro: fetch_bound_shown)

lemma unbound_claimed:
  assumes "execute_claimed rt user req w = (r, w')" and "\<not> shown_by_provider rt req"
  shows "only_attempts (w_db w) (w_db w')"
proof -
  have catalog: "only_attempts (w_db w) (w_db w')" if "execute_catalog_action rt user req w = (r, w')" for w
  proof -
    obtain q w1 where 1: "fetch_action_metadata rt user req w = (q, w1)" by fastforce
    have "only_attempts (w_db w) (w_db w1)" using unbound_frame.keeps_action_fetch 1 by (rule unbound_frame.keepsD)
    moreover have "q \<noteq> Inr (Inr f)" for f using fetch_action_shown 1 assms(2) by blast
    ultimately show ?thesis
      using that 1 by (auto simp: execute_catalog_action_def io_bind_def io_return_def split: sum.splits)
  qed
  obtain q w1 where 1: "star_refusal rt user req w = (q, w1)" by fastforce
  have "only_attempts (w_db w) (w_db w1)" using unbound_frame.keeps_action_query(2) 1 by (rule unbound_frame.keepsD)
  with assms(1) catalog 1 show ?thesis
    by (auto simp: execute_claimed_def io_bind_def io_return_def split: if_splits sum.splits option.splits
        intro: only_attempts_trans)
qed

text \<open>
  C8. An action is bound to what the provider shows: unless some answer to its fetch - of the very path its
  URL names - is a fresh repository with the requested numeric identity and, up to ASCII case, the
  requested full name, the action leaves every table but its attempts as it was, whatever its mode, its
  account, the failures on the way and its own answer.
\<close>

theorem action_bound_to_target:
  assumes "action rt header payload w = (r, w')" and "\<And>req. payload = Some req \<Longrightarrow> \<not> shown_by_provider rt req"
  shows "only_attempts (w_db w) (w_db w')"
proof (cases payload)
  case None
  with assms(1) show ?thesis
    by (auto simp: action_def ok_or_def and_then_def only_attempts_refl split: sum.splits)
next
  case (Some req)
  note run = assms(1) [unfolded Some]
  show ?thesis using run
  proof (cases rule: action_cases)
    case (claimed user)
    obtain c w1 where 1: "claim_action rt (user_ref rt user) req w = (c, w1)" by fastforce
    obtain x w2 where 2: "execute_claimed rt user req w1 = (x, w2)" by fastforce
    have "only_attempts (w_db w) (w_db w1)" using unbound_claim 1 by (rule unbound_frame.keepsD)
    moreover have "only_attempts (w_db w1) (w_db w2)" using unbound_claimed [OF 2] assms(2) Some by blast
    moreover have "only_attempts (w_db w2) (w_db (snd (complete_action rt (user_ref rt user) req result w2)))" for result
      by (rule unbound_complete)
    ultimately show ?thesis
      using run 1 2 unfolding action_accepted [OF claimed]
      by (auto simp: io_bind_def io_map_err_def io_return_def io_fail_def split: sum.splits action_claim.splits
          intro: only_attempts_trans)
  qed (simp add: only_attempts_refl)
qed

section \<open>Stranded keys\<close>

lemma claim_Inl_db: "claim_action rt owner req w = (Inl e, w') \<Longrightarrow> aq_idempotency_key req \<notin> ac_key ` set (action_attempts (w_db w)) \<Longrightarrow>
    w_db w' = w_db w"
  by (auto simp: claim_action_def io_bind_def io_map_err_def io_return_def io_fail_def insert_attempt_eq
      split: option.splits sum.splits prod.splits if_splits dest!: transact_InlD transact_InrD)

text \<open>
  C40. A fault after the claim strands the key: when an action with a fresh key answers a fault but has left
  its attempt in the table - a retryable persistence fault among them - the attempt stays in progress,
  and the same request by the same user is answered with the idempotency conflict ever after, with the
  catalog reachable and without another try.
\<close>

theorem faulted_action_strands_key:
  assumes fresh: "aq_idempotency_key req \<notin> ac_key ` set (action_attempts (w_db w))"
    and run: "action rt header (Some req) w = (Inl e, w')"
    and left: "find_by ac_key (aq_idempotency_key req) (action_attempts (w_db w')) = Some a"
    and later: "find_by ac_key (aq_idempotency_key req) (action_attempts (w_db v)) = Some a" "w_faults v = []"
  shows "action rt header (Some req) v = (Inl FaultIdempotencyConflict, v)"
  using run
proof (cases rule: action_cases)
  case (refused e)
  with fresh find_by_SomeD [OF left] show ?thesis by (metis image_eqI)
next
  case (claimed user)
  let ?owner = "user_ref rt user"
  obtain c w1 where 1: "claim_action rt ?owner req w = (c, w1)" by fastforce
  show ?thesis
  proof (cases c)
    case (Inl x)
    with run 1 have "w' = w1" unfolding action_accepted [OF claimed] by (simp add: io_bind_def io_map_err_def)
    with claim_Inl_db [OF 1 [unfolded Inl] fresh] fresh find_by_SomeD [OF left] show ?thesis by (metis image_eqI)
  next
    case (Inr x)
    with claim_fresh [OF fresh] 1 have c: "claim_action rt ?owner req w = (Inr ClaimExecute, w1)" by blast
    with run have x: "execute_claimed rt user req w1 = (Inl e, w')"
      unfolding action_accepted [OF claimed] by (auto simp: io_bind_def io_map_err_def split: sum.splits prod.splits)
    from c obtain fp row where row: "ax_request_json rt req = Some fp"
        "action_attempts (w_db w1) = action_attempts (w_db w) @ [row]"
        "row = attempt_of ?owner req fp" "attempt_check row"
      by (rule claim_executed)
    have "action_attempts (w_db w') = action_attempts (w_db w) @ [row]"
      using attempts_frame.keepsD [OF keeps_attempts_claimed x] row(2) by (simp add: same_attempts_def)
    with left row(3) fresh have "\<not> ac_done a" by (auto simp: find_by_append_fresh attempt_of_def)
    from claim_conflicts [OF row(1) row(4) [unfolded row(3)] later(1) this later(2)] show ?thesis
      unfolding action_accepted [OF claimed] by (simp add: io_bind_def io_map_err_def io_fail_def)
  qed
qed

section \<open>An action on one repository\<close>

definition sample_result :: action_result where
  "sample_result = \<lparr>rz_metadata = MetadataSucceeded, rz_star = StarSkipped NotApplicable, rz_backup = BackupSkipped NotApplicable\<rparr>"

definition action_api :: mutation_api where
  "action_api = \<lparr>ma_fetch_repository_node_id = (\<lambda>_ _ _ _. Answer 1 (Inl NotFound)),
     ma_star_repository = (\<lambda>_ _ _. Answer 1 (Inl NotFound)), ma_unstar_repository = (\<lambda>_ _ _. Answer 1 (Inl NotFound)),
     ma_set_repository_lists = (\<lambda>_ _ _ _. Answer 1 (Inl NotFound))\<rparr>"

definition action_routes :: action_runtime where
  "action_routes =
     \<lparr>ax_gateway = or_gateway sample_runtime, ax_mutation = action_api, ax_cipher = sample_cipher, ax_key = None,
      ax_source = sample_source, ax_watch = sample_contracts, ax_cast = (\<lambda>_. None), ax_show_time = (\<lambda>_. []),
      ax_uuid_text = (\<lambda>_. ''00000000-0000-0000-0000-00000000000a''), ax_uuid_parse = (\<lambda>_. Some 10),
      ax_tenant = (\<lambda>_. True), ax_request_json = (\<lambda>_. Some (JObj [(''mode'', JStr ''metadata'')])),
      ax_result_json = (\<lambda>_. Some (JObj [(''metadata'', JStr ''succeeded'')])), ax_result_of_json = (\<lambda>_. Some sample_result)\<rparr>"

definition metadata_request :: action_request where
  "metadata_request = \<lparr>aq_mode = ActionMetadata, aq_numeric_id = 42, aq_full_name = ''O/b'', aq_url = ''https://github.com/o/b'',
     aq_account_ref = None, aq_idempotency_key = ''k'', aq_evidence_ref = ''e''\<rparr>"

definition requested where "requested = action action_routes (Some ''u'') (Some metadata_request) named_world"

lemma requested_facts:
  "fst requested = Inr sample_result" "w_calls (snd requested) = 2" "w_faults (snd requested) = []"
  "map (\<lambda>a. (ac_key a, ac_done a)) (action_attempts (w_db (snd requested))) = [(''k'', True)]"
  by code_simp+

lemma metadata_request_fresh: "aq_idempotency_key metadata_request \<notin> ac_key ` set (action_attempts (w_db named_world))"
  by code_simp

theorem key_executes_once_witness:
  "w_calls (snd requested) = 2 \<and>
   w_calls (snd (action action_routes (Some ''u'') (Some (metadata_request\<lparr>aq_mode := ActionTrack\<rparr>)) (snd requested))) = 2"
proof -
  have "''k'' \<in> set (map fst (map (\<lambda>a. (ac_key a, ac_done a)) (action_attempts (w_db (snd requested)))))"
    by (simp add: requested_facts(4))
  then have "aq_idempotency_key (metadata_request\<lparr>aq_mode := ActionTrack\<rparr>) \<in> ac_key ` set (action_attempts (w_db (snd requested)))"
    by (simp add: metadata_request_def image_image)
  from key_executes_once [OF this prod.collapse [symmetric]] show ?thesis by (simp add: requested_facts(2))
qed

theorem recorded_action_replays_witness:
  "action action_routes (Some ''u'') (Some metadata_request) (snd requested) = (Inr sample_result, snd requested)"
proof -
  have recorded: "map (\<lambda>a. (ac_key a, ac_done a)) (action_attempts (w_db (snd requested))) = [(''k'', True)]"
    by (rule requested_facts)
  then obtain a where a: "action_attempts (w_db (snd requested)) = [a]" "ac_key a = ''k''" "ac_done a" by auto
  then have found: "find_by ac_key (aq_idempotency_key metadata_request) (action_attempts (w_db (snd requested))) = Some a"
    by (simp add: find_by_def metadata_request_def)
  have run: "action action_routes (Some ''u'') (Some metadata_request) named_world = (Inr sample_result, snd requested)"
    by (metis requested_def requested_facts(1) prod.collapse)
  have "ax_result_of_json action_routes j = Some sample_result" for j by (simp add: action_routes_def)
  from recorded_action_replays [OF metadata_request_fresh run this] found a(3) requested_facts(3) show ?thesis by auto
qed

definition other_target :: action_request where "other_target = metadata_request\<lparr>aq_numeric_id := 43\<rparr>"

definition redirected where "redirected = action action_routes (Some ''u'') (Some other_target) named_world"

theorem action_bound_to_target_witness:
  "fst redirected = Inr (target_changed_result ActionMetadata) \<and> w_calls (snd redirected) = 1 \<and>
   only_attempts (w_db named_world) (w_db (snd redirected))"
proof (intro conjI)
  show "fst redirected = Inr (target_changed_result ActionMetadata)" by code_simp
  show "w_calls (snd redirected) = 1" by code_simp
  have "\<not> shown_by_provider action_routes other_target"
    by (simp add: shown_by_provider_def action_routes_def sample_runtime_def target_matches_def renamed_def other_target_def metadata_request_def)
  then show "only_attempts (w_db named_world) (w_db (snd redirected))"
    by (intro action_bound_to_target [of action_routes "Some ''u''" "Some other_target" named_world "fst redirected"])
      (simp_all add: redirected_def)
qed

definition interrupted where
  "interrupted = action action_routes (Some ''u'') (Some metadata_request) (named_world\<lparr>w_faults := [False, True]\<rparr>)"

theorem faulted_action_strands_key_witness:
  "fst interrupted = Inl FaultPersistence \<and> fault_retryable FaultPersistence \<and> w_calls (snd interrupted) = 0 \<and>
   action action_routes (Some ''u'') (Some metadata_request) (snd interrupted) = (Inl FaultIdempotencyConflict, snd interrupted)"
proof (intro conjI)
  have facts: "fst interrupted = Inl FaultPersistence" "w_faults (snd interrupted) = []"
      "map ac_key (action_attempts (w_db (snd interrupted))) = [''k'']"
    by code_simp+
  show "fst interrupted = Inl FaultPersistence" by (rule facts)
  show "fault_retryable FaultPersistence" by simp
  show "w_calls (snd interrupted) = 0" by code_simp
  from facts(3) obtain a where a: "action_attempts (w_db (snd interrupted)) = [a]" "ac_key a = ''k''" by auto
  then have found: "find_by ac_key (aq_idempotency_key metadata_request) (action_attempts (w_db (snd interrupted))) = Some a"
    by (simp add: find_by_def metadata_request_def)
  have fresh: "aq_idempotency_key metadata_request \<notin> ac_key ` set (action_attempts (w_db (named_world\<lparr>w_faults := [False, True]\<rparr>)))"
    using metadata_request_fresh by simp
  have "action action_routes (Some ''u'') (Some metadata_request) (named_world\<lparr>w_faults := [False, True]\<rparr>) =
      (Inl FaultPersistence, snd interrupted)"
    by (metis interrupted_def facts(1) prod.collapse)
  from faulted_action_strands_key [OF fresh this found found facts(2)]
  show "action action_routes (Some ''u'') (Some metadata_request) (snd interrupted) = (Inl FaultIdempotencyConflict, snd interrupted)" .
qed

end
