(* ===== verification/Routes.thy ===== *)
theory Routes
  imports Actions_Safety
begin

text \<open>
  The other routes of the domain listener: the repository preview
  (\<open>services/catalog/src/repository_api.rs\<close>) and the README bytes for the holder of the reader secret
  (\<open>services/catalog/src/readme_blobs.rs\<close>). What a preview offers is what an action accepts, and what the
  catalog stored as a README is what the route serves.
\<close>

section \<open>Fault answers\<close>

text \<open>A panicked handler answers nothing: its fields are empty.\<close>

fun fault_fields :: "api_fault \<Rightarrow> string \<times> string \<times> bool" where
  "fault_fields FaultUnauthenticated = (''github.request.unauthenticated'', ''Authentication is required.'', False)"
| "fault_fields FaultInvalidRequest = (''github.request.invalid'', ''The repository request is invalid.'', False)"
| "fault_fields FaultNotFound = (''github.repository.not_found'', ''The repository is unavailable.'', False)"
| "fault_fields FaultRateLimited = (''github.provider.rate_limited'', ''GitHub is temporarily rate limited.'', True)"
| "fault_fields FaultProviderUnavailable = (''github.provider.unavailable'', ''GitHub is temporarily unavailable.'', True)"
| "fault_fields FaultPersistence = (''github.catalog.unavailable'', ''The GitHub catalog is temporarily unavailable.'', True)"
| "fault_fields FaultIdempotencyConflict =
     (''github.action.idempotency_conflict'', ''The repository action key conflicts with another request.'', False)"
| "fault_fields FaultPanicked = ('''', '''', False)"

text \<open>The contract crate's \<open>ErrorCode::parse\<close> and \<open>SafeMessage::parse\<close> are predicates; the envelope is the triple.\<close>

definition into_response ::
    "(string \<Rightarrow> bool) \<Rightarrow> (string \<Rightarrow> bool) \<Rightarrow> api_fault \<Rightarrow> nat \<times> (string \<times> string \<times> bool) option" where
  "into_response error_code safe_message fault =
     (let (code, message, retryable) = fault_fields fault in
      if error_code code \<and> safe_message message
      then (fault_status fault, Some (code, message, retryable))
      else (500, None))"

definition capabilities :: "bool \<times> action_capability list" where
  "capabilities = (True, [ActionMetadata, ActionTrack, ActionStar])"

section \<open>Preview\<close>

text \<open>The parsers of the contract crate keep the text they accept.\<close>

record preview_contracts =
  pc_numeric_id :: "int \<Rightarrow> bool"
  pc_full_name :: "string \<Rightarrow> bool"
  pc_url :: "string \<Rightarrow> bool"
  pc_description :: "string \<Rightarrow> bool"
  pc_language :: "string \<Rightarrow> bool"
  pc_account_ref :: "string \<Rightarrow> bool"

record preview_response =
  pv_numeric_id :: int
  pv_full_name :: string
  pv_url :: string
  pv_description :: "string option"
  pv_stargazers :: int
  pv_language :: "string option"
  pv_account_ref :: "string option"
  pv_actions :: "action_capability list"

definition parse_optional :: "(string \<Rightarrow> bool) \<Rightarrow> string option \<Rightarrow> (api_fault, string option) result" where
  "parse_optional ok v =
     (case v of None \<Rightarrow> Inr None | Some s \<Rightarrow> if ok s then Inr (Some s) else Inl FaultProviderUnavailable)"

definition filled :: "string option \<Rightarrow> string option" where
  "filled v = (case v of Some s \<Rightarrow> if s = [] then None else Some s | None \<Rightarrow> None)"

definition map_preview ::
    "action_runtime \<Rightarrow> preview_contracts \<Rightarrow> provider_repository_body \<Rightarrow> uuid option \<Rightarrow>
     (api_fault, preview_response) result" where
  "map_preview rt pc body account_id =
     (let numeric_id = pb_provider_repository_id body;
          url = ''https://github.com/'' @ pb_full_name body
      in
      if \<not> (0 \<le> numeric_id \<and> pc_numeric_id pc numeric_id) then Inl FaultProviderUnavailable
      else if \<not> pc_full_name pc (pb_full_name body) then Inl FaultProviderUnavailable
      else if \<not> pc_url pc url then Inl FaultProviderUnavailable
      else
        and_then (parse_optional (pc_description pc) (filled (pb_description body))) (\<lambda>description.
        and_then (parse_optional (pc_language pc) (filled (pb_language body))) (\<lambda>language.
          if pb_stargazers body < 0 then Inl FaultProviderUnavailable
          else
            and_then (parse_optional (pc_account_ref pc)
                (map_option (\<lambda>i. ''github-account:'' @ ax_uuid_text rt i) account_id)) (\<lambda>account_ref.
              Inr \<lparr>pv_numeric_id = numeric_id, pv_full_name = pb_full_name body, pv_url = url,
                   pv_description = description, pv_stargazers = pb_stargazers body,
                   pv_language = language, pv_account_ref = account_ref,
                   pv_actions = [ActionMetadata, ActionTrack] @ (if account_ref \<noteq> None then [ActionStar] else [])\<rparr>))))"

definition star_account :: "(uuid \<times> string list) option \<Rightarrow> string option \<Rightarrow> uuid option" where
  "star_account account credential =
     (case account of
        Some (i, scopes) \<Rightarrow> if star_scope scopes \<and> credential \<noteq> None then Some i else None
      | None \<Rightarrow> None)"

definition preview_fetched ::
    "action_runtime \<Rightarrow> preview_contracts \<Rightarrow> owner_name \<Rightarrow> (uuid \<times> string list) option \<Rightarrow> string option \<Rightarrow> string \<Rightarrow>
     (api_fault, preview_response) io" where
  "preview_fetched rt pc n account credential token =
     io_bind (call (\<lambda>k. oa_fetch_repository (ax_gateway rt) k credential n None)) (\<lambda>answer.
       case answer of
         Inl e \<Rightarrow> io_fail (fault_from_provider e)
       | Inr reply \<Rightarrow>
           io_bind (budget_observe token (gr_rate_limit reply) FaultPanicked) (\<lambda>_.
             case gr_outcome reply of
               FetchFresh fresh \<Rightarrow>
                 if \<not> eq_ignore_ascii_case (pb_full_name (fr_body fresh)) (owner_name_text n) then io_fail FaultNotFound
                 else (\<lambda>w. (map_preview rt pc (fr_body fresh) (star_account account credential), w))
             | _ \<Rightarrow> io_fail FaultProviderUnavailable))"

text \<open>The payload is the requested URL, or \<open>None\<close> when the framework rejected the body.\<close>

definition preview ::
    "action_runtime \<Rightarrow> preview_contracts \<Rightarrow> string option \<Rightarrow> string option \<Rightarrow> (api_fault, preview_response) io" where
  "preview rt pc header payload w =
     (case and_then (authenticated_user rt header) (\<lambda>user.
        and_then (ok_or FaultInvalidRequest payload) (\<lambda>url.
        and_then (repository_parts url) (\<lambda>n. Inr (user, n)))) of
        Inl e \<Rightarrow> (Inl e, w)
      | Inr (user, n) \<Rightarrow>
          io_bind (eligible_account rt user) (\<lambda>account w1.
            let (credential, w2) = account_credential rt account w1;
                token = token_label rt user account
            in
            case acquire_now token w2 of
              (Inl _, w3) \<Rightarrow> (Inl FaultRateLimited, w3)
            | (Inr _, w3) \<Rightarrow> preview_fetched rt pc n account credential token w3) w)"

section \<open>README bytes\<close>

definition bearer_matches :: "(8 word list \<Rightarrow> 8 word list) \<Rightarrow> string option \<Rightarrow> string \<Rightarrow> bool" where
  "bearer_matches sha header secret \<longleftrightarrow>
     (let presented = (case Option.bind header (strip_prefix ''Bearer '') of None \<Rightarrow> [] | Some v \<Rightarrow> v) in
      sha (map byte_of presented) = sha (map byte_of secret) \<and> secret \<noteq> [])"

definition is_sha256_hex :: "string \<Rightarrow> bool" where
  "is_sha256_hex v \<longleftrightarrow> length v = 64 \<and>
     list_all (\<lambda>c. (CHR ''0'' \<le> c \<and> c \<le> CHR ''9'') \<or> (CHR ''a'' \<le> c \<and> c \<le> CHR ''f'')) v"

text \<open>The answer: the status, and with the bytes their media type and digest header.\<close>

record readme_answer =
  ra_status :: nat
  ra_body :: "(string \<times> string \<times> string) option"

definition readme_blob ::
    "(8 word list \<Rightarrow> 8 word list) \<Rightarrow> string \<Rightarrow> string \<Rightarrow> string option \<Rightarrow> world \<Rightarrow> readme_answer \<times> world" where
  "readme_blob sha secret digest header w =
     (if \<not> bearer_matches sha header secret then (\<lparr>ra_status = 401, ra_body = None\<rparr>, w)
      else if \<not> is_sha256_hex digest then (\<lparr>ra_status = 404, ra_body = None\<rparr>, w)
      else
        case query (\<lambda>db. map_option rb_bytes (find_by rb_digest digest (readme_blobs db))) w of
          (Inr (Some bytes), w') \<Rightarrow> (\<lparr>ra_status = 200, ra_body = Some (bytes, ''text/markdown'', digest)\<rparr>, w')
        | (Inr None, w') \<Rightarrow> (\<lparr>ra_status = 404, ra_body = None\<rparr>, w')
        | (Inl _, w') \<Rightarrow> (\<lparr>ra_status = 503, ra_body = None\<rparr>, w'))"

section \<open>What a preview offers\<close>

lemma eq_ignore_ascii_case_trans: "eq_ignore_ascii_case a b \<Longrightarrow> eq_ignore_ascii_case b c \<Longrightarrow> eq_ignore_ascii_case a c"
  by (simp add: eq_ignore_ascii_case_def)

lemma slash_ignore_case: "eq_ignore_ascii_case a b \<Longrightarrow> CHR ''/'' \<in> set b \<Longrightarrow> CHR ''/'' \<in> set a"
proof -
  have slash: "ascii_lower c = CHR ''/'' \<longleftrightarrow> c = CHR ''/''" for c
  proof (cases "CHR ''A'' \<le> c \<and> c \<le> CHR ''Z''")
    case True
    then have "65 \<le> (of_char c :: nat)" "(of_char c :: nat) \<le> 90" by (simp_all add: less_eq_char_def)
    then have "(of_char (char_of ((of_char c :: nat) + 32)) :: nat) = of_char c + 32" by simp
    with \<open>65 \<le> of_char c\<close> have "char_of ((of_char c :: nat) + 32) \<noteq> CHR ''/''"
      by (auto dest: arg_cong [of _ _ "of_char :: char \<Rightarrow> nat"])
    moreover have "c \<noteq> CHR ''/''" using \<open>65 \<le> of_char c\<close> by auto
    ultimately show ?thesis using True by (simp add: ascii_lower_def)
  next
    case False
    then have "ascii_lower c = c" unfolding ascii_lower_def by (rule if_not_P)
    then show ?thesis by simp
  qed
  then have in_lower: "CHR ''/'' \<in> set (map ascii_lower s) \<longleftrightarrow> CHR ''/'' \<in> set s" for s
    unfolding set_map by (metis image_iff)
  show "eq_ignore_ascii_case a b \<Longrightarrow> CHR ''/'' \<in> set b \<Longrightarrow> CHR ''/'' \<in> set a"
    unfolding eq_ignore_ascii_case_def using in_lower by metis
qed

lemma split_once_total: "c \<in> set s \<Longrightarrow> \<exists>a b. split_once c s = Some (a, b)"
  by (induction s) auto

lemma repository_parts_of_full_name:
  assumes "CHR ''/'' \<in> set full_name"
  obtains n where "repository_parts (''https://github.com/'' @ full_name) = Inr n" "owner_name_text n = full_name"
proof -
  from split_once_total [OF assms] obtain a b where ab: "split_once (CHR ''/'') full_name = Some (a, b)" by blast
  have "strip_prefix ''https://github.com/'' (''https://github.com/'' @ full_name) = Some full_name"
    by (simp add: strip_prefix_def)
  with ab that [of "\<lparr>on_owner = a, on_name = b\<rparr>"] split_once_join [OF ab] show ?thesis
    by (simp add: repository_parts_def ok_or_def owner_name_text_def)
qed

lemma map_preview_InrD:
  assumes "map_preview rt pc body acct = Inr p"
  shows "pv_numeric_id p = pb_provider_repository_id body \<and> pv_full_name p = pb_full_name body \<and>
    pv_url p = ''https://github.com/'' @ pb_full_name body \<and>
    pv_account_ref p = map_option (\<lambda>i. ''github-account:'' @ ax_uuid_text rt i) acct \<and>
    (ActionStar \<in> set (pv_actions p) \<longleftrightarrow> acct \<noteq> None)"
  using assms by (auto simp: map_preview_def Let_def and_then_eq_Inr parse_optional_def split: if_splits option.splits)

lemma keeps_db_credential:
  assumes "account_credential rt account w = (c, w')"
  shows "w_db w' = w_db w" and "c \<noteq> None \<Longrightarrow> ax_key rt \<noteq> None"
proof -
  have "load_active_pat ci acct key w = (r, v) \<Longrightarrow> w_db v = w_db w" for ci acct key r v
    unfolding load_active_pat_def load_active_credential_def
    by (auto simp: io_bind_def io_map_err_def io_return_def io_fail_def split: prod.splits sum.splits option.splits if_splits
        dest!: query_other)
  with assms show "w_db w' = w_db w"
    by (auto simp: account_credential_def split: option.splits prod.splits sum.splits)
  show "c \<noteq> None \<Longrightarrow> ax_key rt \<noteq> None"
    using assms by (auto simp: account_credential_def split: option.splits prod.splits sum.splits)
qed

lemma preview_InrD:
  assumes "preview rt pc header (Some url) w = (Inr p, w')"
  obtains user n account credential k reply fresh where
    "authenticated_user rt header = Inr user" "repository_parts url = Inr n"
    "account = map_option (\<lambda>a. (acct_id a, acct_scopes a)) (eligible (user_ref rt user) (w_db w))"
    "credential \<noteq> None \<longrightarrow> ax_key rt \<noteq> None"
    "ans_result (oa_fetch_repository (ax_gateway rt) k credential n None) = Inr reply" "gr_outcome reply = FetchFresh fresh"
    "eq_ignore_ascii_case (pb_full_name (fr_body fresh)) (owner_name_text n)"
    "map_preview rt pc (fr_body fresh) (star_account account credential) = Inr p"
proof -
  obtain user n where a: "authenticated_user rt header = Inr user" "repository_parts url = Inr n"
    using assms by (auto simp: preview_def ok_or_def and_then_def split: sum.splits)
  obtain account w1 where 1: "eligible_account rt user w = (Inr account, w1)"
    using assms a by (auto simp: preview_def ok_or_def elim!: io_bind_InrE)
  have account: "account = map_option (\<lambda>x. (acct_id x, acct_scopes x)) (eligible (user_ref rt user) (w_db w))"
    using 1 by (auto simp: eligible_account_def dest!: io_map_err_InrD query_InrD)
  obtain credential w2 where 2: "account_credential rt account w1 = (credential, w2)" by fastforce
  let ?token = "token_label rt user account"
  obtain w3 where 3: "preview_fetched rt pc n account credential ?token w3 = (Inr p, w')"
    using assms a 1 2 by (auto simp: preview_def ok_or_def io_bind_def Let_def split: prod.splits sum.splits)
  obtain answer w4 where 4: "call (\<lambda>k. oa_fetch_repository (ax_gateway rt) k credential n None) w3 = (Inr answer :: (api_fault, _) result, w4)"
    using 3 by (auto simp: preview_fetched_def elim!: io_bind_InrE)
  from call_answer [OF 4] obtain k where "ans_result (oa_fetch_repository (ax_gateway rt) k credential n None) = answer" by blast
  moreover obtain reply fresh where "answer = Inr reply" "gr_outcome reply = FetchFresh fresh"
      "eq_ignore_ascii_case (pb_full_name (fr_body fresh)) (owner_name_text n)"
      "map_preview rt pc (fr_body fresh) (star_account account credential) = Inr p"
    using 3 4 by (auto simp: preview_fetched_def io_fail_def elim!: io_bind_InrE split: sum.splits fetch_outcome.splits if_splits)
  ultimately show ?thesis using that [OF a account _ _ _ _ _] keeps_db_credential(2) [OF 2] by blast
qed

lemma offered_star_is_not_refused:
  assumes "map_option (\<lambda>a. (acct_id a, acct_scopes a)) (eligible (user_ref rt user) db) = Some (i, scopes)"
    and "star_scope scopes" and "ax_key rt \<noteq> None" and "distinct (map acct_id (accounts db))"
  shows "refusal_of_account rt (find (\<lambda>a. acct_id a = i \<and> acct_owner a = user_ref rt user) (accounts db)) = None"
proof -
  from assms(1) obtain a where a: "eligible (user_ref rt user) db = Some a" "acct_id a = i" "acct_scopes a = scopes" by auto
  have "set (sort_key acct_id (filter (\<lambda>a. acct_owner a = user_ref rt user \<and> acct_status a = Connected) (accounts db))) = {a}"
    using a(1) by (auto simp: eligible_def split: list.splits simp del: set_sort)
  then have in_accounts: "a \<in> set (accounts db)" "acct_owner a = user_ref rt user" "acct_status a = Connected" by auto
  then have "find (\<lambda>a. acct_id a = i \<and> acct_owner a = user_ref rt user) (accounts db) \<noteq> None"
    using a(2) by (auto simp: find_None_iff)
  then obtain b where b: "find (\<lambda>a. acct_id a = i \<and> acct_owner a = user_ref rt user) (accounts db) = Some b" by blast
  then have "b \<in> set (accounts db)" "acct_id b = i" by (auto simp: find_Some_iff)
  with in_accounts a(2) assms(4) have "b = a" by (auto simp: distinct_map dest: inj_onD)
  with b in_accounts a(3) assms(2,3) show ?thesis by (simp add: refusal_of_account_def)
qed

text \<open>
  C37. A preview's answer makes a well-formed action: take a request that names the target and the account of a
  preview. It passes the validation of its URL and name; it binds to every answer of the provider that
  shows the repository the preview was shown, under that numeric identity and that name up to case; and if the
  preview offered the star, the account check of that user's star action does not refuse it in any later state with
  the same accounts. (The mutation after that check has refusals of its own, as for an ignored
  repository, of which the preview says nothing.) The hypotheses on the parameters are that the text of
  an identifier parses back to it and that provider identities fit 64 bits.
\<close>

theorem preview_is_actionable:
  assumes "preview rt pc header (Some url) w = (Inr p, w')"
    and uuid_text: "\<And>u. ax_uuid_parse rt (ax_uuid_text rt u) = Some u"
    and i64: "\<And>k c n e reply fresh. ans_result (oa_fetch_repository (ax_gateway rt) k c n e) = Inr reply \<Longrightarrow>
      gr_outcome reply = FetchFresh fresh \<Longrightarrow> pb_provider_repository_id (fr_body fresh) \<le> i64_max"
    and key: "distinct (map acct_id (accounts (w_db w)))"
    and req: "aq_numeric_id req = pv_numeric_id p" "aq_full_name req = pv_full_name p" "aq_url req = pv_url p"
      "aq_account_ref req = pv_account_ref p"
  shows "\<exists>user n k credential reply fresh. authenticated_user rt header = Inr user \<and> repository_parts url = Inr n \<and>
    validate_action_target req = Inr () \<and>
    ans_result (oa_fetch_repository (ax_gateway rt) k credential n None) = Inr reply \<and>
    gr_outcome reply = FetchFresh fresh \<and>
    (\<forall>body. pb_provider_repository_id body = pb_provider_repository_id (fr_body fresh) \<and>
       eq_ignore_ascii_case (pb_full_name body) (pb_full_name (fr_body fresh)) \<longrightarrow> target_matches req body) \<and>
    (\<forall>v. ActionStar \<in> set (pv_actions p) \<and> accounts (w_db v) = accounts (w_db w) \<and> w_faults v = [] \<longrightarrow>
       star_refusal rt user req v = (Inr None, v))"
proof -
  obtain user n account credential k reply fresh where
    p: "authenticated_user rt header = Inr user" "repository_parts url = Inr n"
    "account = map_option (\<lambda>a. (acct_id a, acct_scopes a)) (eligible (user_ref rt user) (w_db w))"
    "credential \<noteq> None \<longrightarrow> ax_key rt \<noteq> None"
    "ans_result (oa_fetch_repository (ax_gateway rt) k credential n None) = Inr reply" "gr_outcome reply = FetchFresh fresh"
    "eq_ignore_ascii_case (pb_full_name (fr_body fresh)) (owner_name_text n)"
    "map_preview rt pc (fr_body fresh) (star_account account credential) = Inr p"
    using assms(1) by (rule preview_InrD)
  note shown = map_preview_InrD [OF p(8)]
  have "CHR ''/'' \<in> set (pb_full_name (fr_body fresh))"
    by (rule slash_ignore_case [OF p(7)]) (simp add: owner_name_text_def)
  then obtain m where m: "repository_parts (aq_url req) = Inr m" "owner_name_text m = pb_full_name (fr_body fresh)"
    using repository_parts_of_full_name shown req(3) by metis
  then have valid: "validate_action_target req = Inr ()"
    using shown req(2) by (simp add: validate_action_target_def eq_ignore_ascii_case_def)
  have bound: "target_matches req body" if "pb_provider_repository_id body = pb_provider_repository_id (fr_body fresh)"
      "eq_ignore_ascii_case (pb_full_name body) (pb_full_name (fr_body fresh))" for body
    using that shown req i64 [OF p(5,6)] by (simp add: target_matches_def eq_ignore_ascii_case_def)
  have "star_refusal rt user req v = (Inr None, v)"
    if "ActionStar \<in> set (pv_actions p)" and v: "accounts (w_db v) = accounts (w_db w)" "w_faults v = []" for v
  proof -
    from that(1) shown obtain i scopes where i: "account = Some (i, scopes)" "star_scope scopes" "credential \<noteq> None"
        "star_account account credential = Some i"
      by (auto simp: star_account_def split: option.splits if_splits)
    have "star_account_id rt req = Inr i"
      using shown req(4) i(4) uuid_text by (simp add: star_account_id_def strip_prefix_def ok_or_def)
    moreover have "refusal_of_account rt (find (\<lambda>a. acct_id a = i \<and> acct_owner a = user_ref rt user) (accounts (w_db w))) = None"
      using p(3,4) i key by (intro offered_star_is_not_refused [of rt user "w_db w" i scopes]) simp_all
    ultimately show ?thesis using v by (simp add: star_refusal_def io_map_err_def query_no_fault)
  qed
  with valid bound p show ?thesis by blast
qed

section \<open>What the README route serves\<close>

lemma strip_prefix_join: "strip_prefix p s = Some t \<Longrightarrow> s = p @ t"
  unfolding strip_prefix_def by (metis append_take_drop_id option.distinct(1) option.inject)

lemma sha256_hex_is_hex: "length bs = 32 \<Longrightarrow> is_sha256_hex (sha256_hex bs)"
proof -
  have lower: "(CHR ''0'' \<le> c \<and> c \<le> CHR ''9'') \<or> (CHR ''a'' \<le> c \<and> c \<le> CHR ''f'')" if "c \<in> set hex_digits" for c
    using that by (auto simp: hex_digits_def digits_def char_range_def less_eq_char_def)
  have "length (sha256_hex bs) = 2 * length bs \<and> set (sha256_hex bs) \<subseteq> set hex_digits"
    using sha256_hex_roundtrip [of bs] by (auto simp: language_Rep_OneOf simp del: language.simps)
  with lower show "length bs = 32 \<Longrightarrow> is_sha256_hex (sha256_hex bs)"
    by (auto simp: is_sha256_hex_def list_all_iff)
qed

text \<open>
  The README route returns what was stored, to the holder of the secret alone: once storing a README has
  returned, the route answers a request for its digest that presents the secret with exactly those
  bytes; any other presented value is refused without a look at the catalog, whatever digest it names.
  The hypotheses on SHA-256 are its length, that no stored blob collides with this one, and that nothing
  but the secret has the secret's digest.
\<close>

theorem stored_readme_is_served:
  assumes "store_readme sc bytes w = (Inr blob, w')" and "w_faults w' = []"
    and sha_length: "length (so_sha256 sc bytes) = 32"
    and no_collision: "\<And>row. row \<in> set (readme_blobs (w_db w)) \<Longrightarrow> rb_digest row = sha256_hex (so_sha256 sc bytes) \<Longrightarrow>
      rb_bytes row = bytes_text bytes"
    and no_preimage: "\<And>t. so_sha256 sc (map byte_of t) = so_sha256 sc (map byte_of secret) \<Longrightarrow> t = secret"
    and "secret \<noteq> []"
  shows "readme_blob (so_sha256 sc) secret (sha256_hex (so_sha256 sc bytes)) (Some (''Bearer '' @ secret)) w' =
      (\<lparr>ra_status = 200, ra_body = Some (bytes_text bytes, ''text/markdown'', sha256_hex (so_sha256 sc bytes))\<rparr>, w') \<and>
    (\<forall>header digest. header \<noteq> Some (''Bearer '' @ secret) \<longrightarrow>
      readme_blob (so_sha256 sc) secret digest header w' = (\<lparr>ra_status = 401, ra_body = None\<rparr>, w'))"
proof
  let ?digest = "sha256_hex (so_sha256 sc bytes)"
  have "readme_blobs (w_db w') = insert_ignore rb_digest
       \<lparr>rb_digest = ?digest, rb_bytes = bytes_text bytes, rb_length = int (length bytes)\<rparr> (readme_blobs (w_db w))"
    using assms(1) by (auto simp: store_readme_def store_readme_tx_def Let_def io_return_def io_fail_def
        elim!: io_bind_InrE dest!: transact_with_InrD split: if_splits option.splits dest: sym)
  then have "map_option rb_bytes (find_by rb_digest ?digest (readme_blobs (w_db w'))) = Some (bytes_text bytes)"
    using no_collision by (auto simp: insert_ignore_find split: option.split dest: find_by_SomeD)
  moreover have "bearer_matches (so_sha256 sc) (Some (''Bearer '' @ secret)) secret"
    using assms(6) by (simp add: bearer_matches_def strip_prefix_def)
  ultimately show "readme_blob (so_sha256 sc) secret ?digest (Some (''Bearer '' @ secret)) w' =
      (\<lparr>ra_status = 200, ra_body = Some (bytes_text bytes, ''text/markdown'', ?digest)\<rparr>, w')"
    using sha256_hex_is_hex [OF sha_length] assms(2) unfolding readme_blob_def query_no_fault [OF assms(2)] by auto
  have "header = Some (''Bearer '' @ secret)" if "bearer_matches (so_sha256 sc) header secret" for header
  proof -
    have "so_sha256 sc [] \<noteq> so_sha256 sc (map byte_of secret)" using no_preimage [of "[]"] assms(6) by auto
    with that no_preimage have "Option.bind header (strip_prefix ''Bearer '') = Some secret"
      by (auto simp: bearer_matches_def Let_def split: option.splits)
    then obtain h where "header = Some h" "strip_prefix ''Bearer '' h = Some secret" by (auto simp: bind_eq_Some_conv)
    with strip_prefix_join show ?thesis by blast
  qed
  then show "\<forall>header digest. header \<noteq> Some (''Bearer '' @ secret) \<longrightarrow>
      readme_blob (so_sha256 sc) secret digest header w' = (\<lparr>ra_status = 401, ra_body = None\<rparr>, w')"
    by (auto simp: readme_blob_def)
qed

section \<open>A preview with a star, and a stored README\<close>

definition preview_routes :: action_runtime where
  "preview_routes = action_routes\<lparr>ax_key := Some sample_key, ax_uuid_text := (\<lambda>u. replicate u (CHR ''1'')),
     ax_uuid_parse := (\<lambda>s. Some (length s))\<rparr>"

definition open_contracts :: preview_contracts where
  "open_contracts = \<lparr>pc_numeric_id = (\<lambda>_. True), pc_full_name = (\<lambda>_. True), pc_url = (\<lambda>_. True),
     pc_description = (\<lambda>_. True), pc_language = (\<lambda>_. True), pc_account_ref = (\<lambda>_. True)\<rparr>"

definition account_world :: world where
  "account_world = named_world\<lparr>w_db := watched\<lparr>
     accounts := [\<lparr>acct_id = 7, acct_owner = ''user:111'', acct_status = Connected, acct_scopes = [''repo''],
       acct_provider = Some 9, acct_login = Some ''u''\<rparr>],
     credentials := [\<lparr>cr_account = 7, cr_key_version = ''k1'', cr_kind = KindPat, cr_client = None,
       cr_token = replicate 16 (CHR ''t'') @ ''ghp'', cr_nonce = ''123456789012'', cr_updated = 0\<rparr>]\<rparr>\<rparr>"

definition previewed where
  "previewed = preview preview_routes open_contracts (Some ''111'') (Some ''https://github.com/O/b'') account_world"

definition previewed_star :: action_request where
  "previewed_star = \<lparr>aq_mode = ActionStar, aq_numeric_id = 42, aq_full_name = ''o/b'', aq_url = ''https://github.com/o/b'',
     aq_account_ref = Some ''github-account:1111111'', aq_idempotency_key = ''k'', aq_evidence_ref = ''e''\<rparr>"

theorem preview_is_actionable_witness:
  "\<not> isl (fst previewed) \<and> validate_action_target previewed_star = Inr () \<and>
   star_refusal preview_routes 3 previewed_star account_world = (Inr None, account_world)"
proof -
  have facts: "\<not> isl (fst previewed)" "pv_numeric_id (projr (fst previewed)) = 42" "pv_full_name (projr (fst previewed)) = ''o/b''"
      "pv_url (projr (fst previewed)) = ''https://github.com/o/b''"
      "pv_account_ref (projr (fst previewed)) = Some ''github-account:1111111''"
      "pv_actions (projr (fst previewed)) = [ActionMetadata, ActionTrack, ActionStar]"
      "map acct_id (accounts (w_db account_world)) = [7]" "w_faults account_world = []"
    by code_simp+
  then have run: "preview preview_routes open_contracts (Some ''111'') (Some ''https://github.com/O/b'') account_world =
      (Inr (projr (fst previewed)), snd previewed)"
    unfolding previewed_def by (metis prod.collapse sum.collapse(2))
  have "ax_uuid_parse preview_routes (ax_uuid_text preview_routes u) = Some u" for u
    by (simp add: preview_routes_def)
  moreover have "pb_provider_repository_id (fr_body fresh) \<le> i64_max"
    if "ans_result (oa_fetch_repository (ax_gateway preview_routes) k c n e) = Inr reply" "gr_outcome reply = FetchFresh fresh"
    for k c n e reply fresh
    using that by (auto simp: preview_routes_def action_routes_def sample_runtime_def renamed_def i64_max_def)
  moreover have "authenticated_user preview_routes (Some ''111'') = Inr 3"
    by (simp add: authenticated_user_def preview_routes_def ok_or_def)
  ultimately show ?thesis
    using preview_is_actionable [OF run, of previewed_star] facts by (auto simp: previewed_star_def)
qed

lemma byte_of_inject: "byte_of c = byte_of d \<longleftrightarrow> c = d"
proof -
  have "unat (byte_of c) = of_char c" for c
    by (simp add: byte_of_def unat_of_nat)
  then show ?thesis by (metis of_char_eq_iff)
qed

definition readme_stored where "readme_stored = store_readme sample_source (replicate 32 7) named_world"

theorem stored_readme_is_served_witness:
  "ra_status (fst (readme_blob (so_sha256 sample_source) ''s'' (sha256_hex (replicate 32 7)) (Some ''Bearer s'') (snd readme_stored))) = 200 \<and>
   ra_status (fst (readme_blob (so_sha256 sample_source) ''s'' (sha256_hex (replicate 32 7)) None (snd readme_stored))) = 401"
proof -
  have facts: "\<not> isl (fst readme_stored)" "w_faults (snd readme_stored) = []" "readme_blobs (w_db named_world) = []"
    by code_simp+
  then have run: "store_readme sample_source (replicate 32 7) named_world = (Inr (projr (fst readme_stored)), snd readme_stored)"
    unfolding readme_stored_def by (metis prod.collapse sum.collapse(2))
  have sha: "so_sha256 sample_source bs = bs" for bs by (simp add: sample_source_def)
  have "t = ''s''" if "so_sha256 sample_source (map byte_of t) = so_sha256 sample_source (map byte_of ''s'')" for t
    using that by (auto simp: sha byte_of_inject)
  with stored_readme_is_served [OF run facts(2), of "''s''"] facts(3) show ?thesis by (simp add: sha)
qed

end
