(* ===== verification/Http_Client.thy ===== *)
theory Http_Client
  imports Observe Modes Erasure "HOL-Library.Monad_Syntax"
begin

text \<open>
  The HTTP adapter behind the provider seam (\<open>crates/catalog/src/provider.rs\<close>, its modules under
  \<open>provider/\<close>, and \<open>provider_mutations.rs\<close>): the requests it sends, the classification of statuses, the
  decoding of bodies, rate-limit accounting, and the gateways the other components are given. Sending a
  request, parsing JSON text and RFC 3339 are functions; the derived decoders of \<open>serde\<close> are written out.
\<close>

section \<open>Exchanges\<close>

datatype http_auth = BearerAuth string | BasicAuth string string

record http_request =
  hq_method :: string
  hq_url :: string
  hq_query :: "(string \<times> string) list"
  hq_headers :: "(string \<times> string) list"
  hq_auth :: "http_auth option"
  hq_body :: "json option"

text \<open>A response whose body cannot be read carries the text of the client's error.\<close>

record http_response =
  hs_status :: nat
  hs_headers :: "(string \<times> string) list"
  hs_announced :: "nat option"
  hs_body :: "(string, 8 word list) result"

record http_client =
  hc_base_url :: string
  hc_send :: "nat \<Rightarrow> http_request \<Rightarrow> (string, http_response) result answer"
  hc_json :: "8 word list \<Rightarrow> json option"
  hc_decode_error :: "8 word list \<Rightarrow> string"
  hc_rfc3339 :: "string \<Rightarrow> int option"

definition for_base_url :: "string \<Rightarrow> string" where
  "for_base_url url = rev (dropWhile (\<lambda>c. c = CHR ''/'') (rev url))"

text \<open>\<open>HeaderValue::to_str\<close> admits visible ASCII and tabs.\<close>

definition visible_ascii :: "char \<Rightarrow> bool" where
  "visible_ascii c \<longleftrightarrow> (let n = (of_char c :: nat) in 32 \<le> n \<and> n < 127 \<or> n = 9)"

definition header_text :: "http_response \<Rightarrow> string \<Rightarrow> string option" where
  "header_text r name =
     Option.bind (map_of (hs_headers r) name) (\<lambda>v. if list_all visible_ascii v then Some v else None)"

text \<open>\<open>str::parse\<close> of a bounded integer: an optional sign and decimal digits within the range.\<close>

definition digit_value :: "char \<Rightarrow> int option" where
  "digit_value c = (if CHR ''0'' \<le> c \<and> c \<le> CHR ''9'' then Some (of_char c - 48) else None)"

fun digits_value :: "int \<Rightarrow> string \<Rightarrow> int option" where
  "digits_value acc [] = Some acc"
| "digits_value acc (c # s) = Option.bind (digit_value c) (\<lambda>d. digits_value (10 * acc + d) s)"

definition parse_int :: "int \<Rightarrow> int \<Rightarrow> string \<Rightarrow> int option" where
  "parse_int low high s =
     (let bounded = (\<lambda>n. if low \<le> n \<and> n \<le> high then Some n else None) in
      case s of
        [] \<Rightarrow> None
      | c # t \<Rightarrow>
          if c = CHR ''+'' then (if t = [] then None else Option.bind (digits_value 0 t) bounded)
          else if c = CHR ''-'' \<and> low < 0
          then (if t = [] then None else Option.bind (digits_value 0 t) (\<lambda>n. bounded (- n)))
          else Option.bind (digits_value 0 s) bounded)"

definition rate_headers_from :: "http_response \<Rightarrow> rate_limit_headers" where
  "rate_headers_from r =
     (let parse_i64 = (\<lambda>name. Option.bind (header_text r name) (parse_int i64_min i64_max)) in
      \<lparr>rl_limit = parse_i64 ''x-ratelimit-limit'',
       rl_remaining = parse_i64 ''x-ratelimit-remaining'',
       rl_reset_epoch_seconds = parse_i64 ''x-ratelimit-reset'',
       rl_retry_after_seconds = Option.bind (header_text r ''retry-after'') (parse_int 0 u64_max)\<rparr>)"

section \<open>Decoders\<close>

text \<open>
  A derived decoder of a structure with \<open>n\<close> fields reads the field of a given name from an object, in
  which it may occur once, or the element at its position from an array. \<open>Absent\<close> is a missing member of
  an object, \<open>Malformed\<close> anything the decoder refuses.
\<close>

datatype member = Present json | Absent | Malformed

definition struct_field :: "nat \<Rightarrow> nat \<Rightarrow> string \<Rightarrow> json \<Rightarrow> member" where
  "struct_field n i name j =
     (case j of
        JObj ms \<Rightarrow>
          (case filter (\<lambda>m. fst m = name) ms of [] \<Rightarrow> Absent | [m] \<Rightarrow> Present (snd m) | _ \<Rightarrow> Malformed)
      | JArr xs \<Rightarrow> if length xs = n then Present (xs ! i) else Malformed
      | _ \<Rightarrow> Malformed)"

definition required :: "(json \<Rightarrow> 'a option) \<Rightarrow> member \<Rightarrow> 'a option" where
  "required decode m = (case m of Present v \<Rightarrow> decode v | _ \<Rightarrow> None)"

definition nullable :: "(json \<Rightarrow> 'a option) \<Rightarrow> json \<Rightarrow> 'a option option" where
  "nullable decode v = (if v = JNull then Some None else map_option Some (decode v))"

definition optional :: "(json \<Rightarrow> 'a option) \<Rightarrow> member \<Rightarrow> 'a option option" where
  "optional decode m = (case m of Present v \<Rightarrow> nullable decode v | Absent \<Rightarrow> Some None | Malformed \<Rightarrow> None)"

definition defaulted :: "'a \<Rightarrow> (json \<Rightarrow> 'a option) \<Rightarrow> member \<Rightarrow> 'a option" where
  "defaulted d decode m = (case m of Present v \<Rightarrow> decode v | Absent \<Rightarrow> Some d | Malformed \<Rightarrow> None)"

fun string_of_json :: "json \<Rightarrow> string option" where
  "string_of_json (JStr s) = Some s"
| "string_of_json _ = None"

fun bool_of_json :: "json \<Rightarrow> bool option" where
  "bool_of_json (JBool b) = Some b"
| "bool_of_json _ = None"

fun i64_of_json :: "json \<Rightarrow> int option" where
  "i64_of_json (JNum n) = (if i64_min \<le> n \<and> n \<le> i64_max then Some n else None)"
| "i64_of_json _ = None"

fun all_of :: "(json \<Rightarrow> 'a option) \<Rightarrow> json list \<Rightarrow> 'a list option" where
  "all_of decode [] = Some []"
| "all_of decode (j # js) =
     Option.bind (decode j) (\<lambda>x. map_option ((#) x) (all_of decode js))"

fun list_of_json :: "(json \<Rightarrow> 'a option) \<Rightarrow> json \<Rightarrow> 'a list option" where
  "list_of_json decode (JArr js) = all_of decode js"
| "list_of_json decode _ = None"

definition repository_of_json :: "json \<Rightarrow> provider_repository_body option" where
  "repository_of_json j = do {
     provider_id \<leftarrow> required i64_of_json (struct_field 8 0 ''id'' j);
     full_name \<leftarrow> required string_of_json (struct_field 8 1 ''full_name'' j);
     description \<leftarrow> optional string_of_json (struct_field 8 2 ''description'' j);
     language \<leftarrow> optional string_of_json (struct_field 8 3 ''language'' j);
     stargazers \<leftarrow> required i64_of_json (struct_field 8 4 ''stargazers_count'' j);
     topics \<leftarrow> defaulted [] (list_of_json string_of_json) (struct_field 8 5 ''topics'' j);
     default_branch \<leftarrow> optional string_of_json (struct_field 8 6 ''default_branch'' j);
     pushed_at \<leftarrow> optional string_of_json (struct_field 8 7 ''pushed_at'' j);
     Some \<lparr>pb_provider_repository_id = provider_id, pb_full_name = full_name, pb_description = description,
           pb_language = language, pb_stargazers = stargazers, pb_topics = topics,
           pb_default_branch = default_branch, pb_pushed_at = pushed_at\<rparr> }"

definition starred_of_json :: "json \<Rightarrow> starred_item option" where
  "starred_of_json j = do {
     starred_at \<leftarrow> optional string_of_json (struct_field 2 0 ''starred_at'' j);
     repo \<leftarrow> required repository_of_json (struct_field 2 1 ''repo'' j);
     Some \<lparr>st_starred_at = starred_at, st_repo = repo\<rparr> }"

text \<open>\<open>response.json()\<close>: reading, parsing and decoding fail alike.\<close>

definition response_json :: "http_client \<Rightarrow> (json \<Rightarrow> 'a option) \<Rightarrow> http_response \<Rightarrow> (provider_error, 'a) result" where
  "response_json c decode r =
     (case hs_body r of
        Inl e \<Rightarrow> Inl (Transport e)
      | Inr bytes \<Rightarrow> ok_or (Transport (hc_decode_error c bytes)) (Option.bind (hc_json c bytes) decode))"

text \<open>One exchange: the request is sent, and a response classified.\<close>

definition exchange ::
    "http_client \<Rightarrow> nat \<Rightarrow> http_request \<Rightarrow> (http_response \<Rightarrow> (provider_error, 'a) result) \<Rightarrow>
     (provider_error, 'a) result answer" where
  "exchange c k q classify =
     map_answer (\<lambda>r. case r of Inl e \<Rightarrow> Inl (Transport e) | Inr response \<Rightarrow> classify response) (hc_send c k q)"

section \<open>Repositories and READMEs\<close>

fun split_once_at :: "string \<Rightarrow> string \<Rightarrow> (string \<times> string) option" where
  "split_once_at marker [] = (if marker = [] then Some ([], []) else None)"
| "split_once_at marker (c # s) =
     (if take (length marker) (c # s) = marker then Some ([], drop (length marker) (c # s))
      else map_option (\<lambda>(a, b). (c # a, b)) (split_once_at marker s))"

definition path_part :: "string \<Rightarrow> string" where
  "path_part s = takeWhile (\<lambda>c. c \<noteq> CHR ''?'' \<and> c \<noteq> CHR ''#'') s"

definition parse_moved_location :: "string \<Rightarrow> owner_name option" where
  "parse_moved_location location =
     (case split_once_at ''/repos/'' location of
        None \<Rightarrow>
          (let trimmed = dropWhile (\<lambda>c. c = CHR ''/'') location in
           Option.bind (split_once (CHR ''/'') trimmed) (\<lambda>(owner, rest).
             let name = path_part rest in
             if owner = [] \<or> name = [] \<or> CHR ''/'' \<in> set name then None
             else Some \<lparr>on_owner = owner, on_name = name\<rparr>))
      | Some (_, after) \<Rightarrow>
          Option.bind (split_once (CHR ''/'') (path_part after)) (\<lambda>(owner, name_path).
            let name = takeWhile (\<lambda>c. c \<noteq> CHR ''/'') name_path in
            if owner = [] \<or> name = [] then None
            else Some \<lparr>on_owner = owner, on_name = name\<rparr>))"

definition conditional_get ::
    "http_client \<Rightarrow> string \<Rightarrow> (string \<times> string) list \<Rightarrow> string option \<Rightarrow> string option \<Rightarrow> http_request" where
  "conditional_get c path headers token etag =
     \<lparr>hq_method = ''GET'', hq_url = hc_base_url c @ path, hq_query = [],
      hq_headers = headers @ (case etag of None \<Rightarrow> [] | Some e \<Rightarrow> [(''if-none-match'', e)]),
      hq_auth = map_option BearerAuth token, hq_body = None\<rparr>"

definition rename_of :: "owner_name \<Rightarrow> provider_repository_body \<Rightarrow> rename_evidence option" where
  "rename_of asked body =
     (case body_owner_name body of
        Some n \<Rightarrow> if n \<noteq> asked then Some \<lparr>re_observed_as = n\<rparr> else None
      | None \<Rightarrow> None)"

definition repository_outcome :: "http_client \<Rightarrow> owner_name \<Rightarrow> http_response \<Rightarrow> (provider_error, fetch_outcome) result" where
  "repository_outcome c asked r =
     (if hs_status r = 200
      then and_then (response_json c repository_of_json r) (\<lambda>body.
        Inr (FetchFresh \<lparr>fr_body = body, fr_etag = header_text r ''etag'', fr_rename_evidence = rename_of asked body\<rparr>))
      else if hs_status r = 304 then Inr FetchNotModified
      else if hs_status r = 301
      then and_then (ok_or (UnexpectedStatus 301) (header_text r ''location'')) (\<lambda>location.
        and_then (ok_or (UnexpectedStatus 301) (parse_moved_location location)) (\<lambda>target. Inr (FetchMoved target)))
      else if hs_status r = 404 then Inl NotFound
      else if hs_status r \<in> {401, 403} then Inl Unauthorized
      else Inl (UnexpectedStatus (hs_status r)))"

definition fetch_repository ::
    "http_client \<Rightarrow> nat \<Rightarrow> string option \<Rightarrow> owner_name \<Rightarrow> string option \<Rightarrow> (provider_error, gateway_reply) result answer" where
  "fetch_repository c k token n etag =
     exchange c k (conditional_get c (''/repos/'' @ owner_name_text n) [] token etag) (\<lambda>r.
       and_then (repository_outcome c n r) (\<lambda>outcome.
         Inr \<lparr>gr_outcome = outcome, gr_rate_limit = rate_headers_from r\<rparr>))"

definition readme_max_bytes :: nat where "readme_max_bytes = 1048576"

definition readme_outcome :: "http_response \<Rightarrow> (provider_error, readme_fetch_outcome) result" where
  "readme_outcome r =
     (if hs_status r = 200
      then
        (if (case hs_announced r of Some n \<Rightarrow> readme_max_bytes < n | None \<Rightarrow> False) then Inl ContentTooLarge
         else
           case hs_body r of
             Inl e \<Rightarrow> Inl (Transport e)
           | Inr bytes \<Rightarrow>
               if readme_max_bytes < length bytes then Inl ContentTooLarge
               else Inr (ReadmeFresh \<lparr>fm_bytes = bytes, fm_etag = header_text r ''etag''\<rparr>))
      else if hs_status r = 304 then Inr ReadmeUnmodified
      else if hs_status r = 404 then Inr ReadmeMissing
      else if hs_status r \<in> {401, 403} then Inr ReadmeForbidden
      else Inl (UnexpectedStatus (hs_status r)))"

definition fetch_readme ::
    "http_client \<Rightarrow> nat \<Rightarrow> string option \<Rightarrow> owner_name \<Rightarrow> string option \<Rightarrow> (provider_error, readme_reply) result answer" where
  "fetch_readme c k token n etag =
     exchange c k (conditional_get c (''/repos/'' @ owner_name_text n @ ''/readme'')
         [(''accept'', ''application/vnd.github.raw+json'')] token etag) (\<lambda>r.
       and_then (readme_outcome r) (\<lambda>outcome.
         Inr \<lparr>rr_outcome = outcome, rr_rate_limit = rate_headers_from r\<rparr>))"

section \<open>Listings\<close>

definition starred_page_size :: nat where "starred_page_size = 100"

definition classified ::
    "http_client \<Rightarrow> (json \<Rightarrow> 'a option) \<Rightarrow> http_response \<Rightarrow> (provider_error, 'a) result" where
  "classified c decode r =
     (if hs_status r = 200 then response_json c decode r
      else if hs_status r \<in> {401, 403} then Inl Unauthorized
      else Inl (UnexpectedStatus (hs_status r)))"

definition list_starred_with ::
    "http_client \<Rightarrow> (string \<times> string) list \<Rightarrow> nat \<Rightarrow> string option \<Rightarrow> int \<Rightarrow> (provider_error, listing_reply) result answer" where
  "list_starred_with c sorting k token page =
     exchange c k
       \<lparr>hq_method = ''GET'', hq_url = hc_base_url c @ ''/user/starred'',
        hq_query = [(''page'', decimal_text (nat page)), (''per_page'', decimal_text starred_page_size)] @ sorting,
        hq_headers = [(''accept'', ''application/vnd.github.star+json'')],
        hq_auth = map_option BearerAuth token, hq_body = None\<rparr> (\<lambda>r.
       and_then (classified c (list_of_json starred_of_json) r) (\<lambda>items.
         Inr \<lparr>lr_items = items, lr_rate_limit = rate_headers_from r\<rparr>))"

definition list_starred :: "http_client \<Rightarrow> nat \<Rightarrow> string option \<Rightarrow> int \<Rightarrow> (provider_error, listing_reply) result answer" where
  "list_starred c = list_starred_with c []"

definition list_starred_newest_first ::
    "http_client \<Rightarrow> nat \<Rightarrow> string option \<Rightarrow> int \<Rightarrow> (provider_error, listing_reply) result answer" where
  "list_starred_newest_first c = list_starred_with c [(''sort'', ''created''), (''direction'', ''desc'')]"

record graphql_rate =
  gq_remaining :: "int option"
  gq_reset_at :: "string option"

definition rate_of_json :: "json \<Rightarrow> graphql_rate option" where
  "rate_of_json j = do {
     remaining \<leftarrow> optional i64_of_json (struct_field 2 0 ''remaining'' j);
     reset_at \<leftarrow> optional string_of_json (struct_field 2 1 ''resetAt'' j);
     Some \<lparr>gq_remaining = remaining, gq_reset_at = reset_at\<rparr> }"

definition graphql_rate_limit :: "http_client \<Rightarrow> rate_limit_headers \<Rightarrow> graphql_rate option \<Rightarrow> rate_limit_headers" where
  "graphql_rate_limit c header_rate body_rate =
     (if rl_limit header_rate \<noteq> None \<or> rl_remaining header_rate \<noteq> None \<or> rl_reset_epoch_seconds header_rate \<noteq> None
      then header_rate
      else
        case body_rate of
          None \<Rightarrow> header_rate
        | Some rate \<Rightarrow>
            \<lparr>rl_limit = None, rl_remaining = gq_remaining rate,
             rl_reset_epoch_seconds = Option.bind (gq_reset_at rate) (hc_rfc3339 c),
             rl_retry_after_seconds = None\<rparr>)"

text \<open>An item node that is not a repository lacks a field; it and null nodes are skipped.\<close>

definition item_node_of_json :: "json \<Rightarrow> listed_repository option option" where
  "item_node_of_json j = do {
     database_id \<leftarrow> optional i64_of_json (struct_field 2 0 ''databaseId'' j);
     full_name \<leftarrow> optional string_of_json (struct_field 2 1 ''nameWithOwner'' j);
     Some (case (database_id, full_name) of
        (Some i, Some n) \<Rightarrow> Some \<lparr>lp_provider_repository_id = i, lp_full_name = n\<rparr>
      | _ \<Rightarrow> None) }"

definition item_edge_of_json :: "json \<Rightarrow> listed_repository option option" where
  "item_edge_of_json j =
     map_option (\<lambda>node. Option.bind node (\<lambda>x. x)) (optional item_node_of_json (struct_field 1 0 ''node'' j))"

definition items_of_json :: "json \<Rightarrow> (bool \<times> listed_repository list) option" where
  "items_of_json j = do {
     truncated \<leftarrow> required (\<lambda>p. required bool_of_json (struct_field 1 0 ''hasNextPage'' p)) (struct_field 2 0 ''pageInfo'' j);
     edges \<leftarrow> required (list_of_json item_edge_of_json) (struct_field 2 1 ''edges'' j);
     Some (truncated, List.map_filter (\<lambda>x. x) edges) }"

definition list_node_of_json :: "json \<Rightarrow> user_list_node option" where
  "list_node_of_json j = do {
     provider_list_id \<leftarrow> required string_of_json (struct_field 3 0 ''id'' j);
     name \<leftarrow> required string_of_json (struct_field 3 1 ''name'' j);
     items \<leftarrow> optional items_of_json (struct_field 3 2 ''items'' j);
     Some \<lparr>ul_provider_list_id = provider_list_id, ul_name = name,
           ul_items_truncated = (case items of Some (truncated, _) \<Rightarrow> truncated | None \<Rightarrow> False),
           ul_items = (case items of Some (_, repos) \<Rightarrow> repos | None \<Rightarrow> [])\<rparr> }"

text \<open>The flag of the connection's page information is decoded and then not used.\<close>

definition lists_of_json :: "json \<Rightarrow> (user_list_node list \<times> string option) option" where
  "lists_of_json j = do {
     cursor \<leftarrow> required (\<lambda>p. do {
         _ \<leftarrow> required bool_of_json (struct_field 2 0 ''hasNextPage'' p);
         optional string_of_json (struct_field 2 1 ''endCursor'' p) }) (struct_field 2 0 ''pageInfo'' j);
     edges \<leftarrow> required (list_of_json (\<lambda>e. optional list_node_of_json (struct_field 1 0 ''node'' e))) (struct_field 2 1 ''edges'' j);
     Some (List.map_filter (\<lambda>x. x) edges, cursor) }"

definition user_lists_of_json :: "json \<Rightarrow> (user_list_node list \<times> string option \<times> graphql_rate option) option" where
  "user_lists_of_json j =
     required (\<lambda>data. do {
       (lists, cursor) \<leftarrow> required (\<lambda>v. required lists_of_json (struct_field 1 0 ''lists'' v)) (struct_field 2 0 ''viewer'' data);
       rate \<leftarrow> optional rate_of_json (struct_field 2 1 ''rateLimit'' data);
       Some (lists, cursor, rate) }) (struct_field 1 0 ''data'' j)"

definition graphql_post :: "http_client \<Rightarrow> string option \<Rightarrow> json \<Rightarrow> http_request" where
  "graphql_post c token body =
     \<lparr>hq_method = ''POST'', hq_url = hc_base_url c @ ''/graphql'', hq_query = [], hq_headers = [],
      hq_auth = map_option BearerAuth token, hq_body = Some body\<rparr>"

definition user_lists_query :: string where
  "user_lists_query = ''query($after: String) { viewer { '' @
''lists(first: 100, after: $after) { pageInfo { hasNextPage endCursor } '' @
''edges { node { id name items(first: 100) { pageInfo { hasNextPage } '' @
''edges { node { ... on Repository { databaseId nameWithOwner } } } } } } } } '' @
''rateLimit { cost remaining resetAt } }''"

definition json_option :: "string option \<Rightarrow> json" where
  "json_option v = (case v of None \<Rightarrow> JNull | Some s \<Rightarrow> JStr s)"

definition list_user_lists ::
    "http_client \<Rightarrow> nat \<Rightarrow> string option \<Rightarrow> string option \<Rightarrow> (provider_error, user_lists_reply) result answer" where
  "list_user_lists c k token cursor =
     exchange c k (graphql_post c token (JObj [(''query'', JStr user_lists_query),
         (''variables'', JObj [(''after'', json_option cursor)])])) (\<lambda>r.
       and_then (classified c user_lists_of_json r) (\<lambda>(lists, next_cursor, rate).
         Inr \<lparr>ur_lists = lists, ur_next_cursor = next_cursor,
              ur_rate_limit = graphql_rate_limit c (rate_headers_from r) rate\<rparr>))"

section \<open>Mutations\<close>

definition newline :: string where "newline = [CHR 0x0A]"

definition star_document :: "string \<Rightarrow> string" where
  "star_document operation =
     ''mutation($starrableId: ID!) {'' @ newline @
     ''  '' @ operation @ ''(input: {starrableId: $starrableId}) {'' @ newline @
     ''    starrable { ... on Repository { databaseId viewerHasStarred } }'' @ newline @ ''  }'' @ newline @ ''}''"

definition add_star_mutation :: string where "add_star_mutation = star_document ''addStar''"

definition remove_star_mutation :: string where "remove_star_mutation = star_document ''removeStar''"

definition repository_node_id_query :: string where
  "repository_node_id_query =
     ''query($owner: String!, $name: String!) {'' @ newline @
     ''  repository(owner: $owner, name: $name) { id }'' @ newline @ ''}''"

definition set_item_lists_mutation :: string where
  "set_item_lists_mutation =
     ''mutation($itemId: ID!, $listIds: [ID!]!) {'' @ newline @
     ''  updateUserListsForItem(input: {itemId: $itemId, listIds: $listIds}) {'' @ newline @
     ''    lists { id }'' @ newline @ ''  }'' @ newline @ ''}''"

datatype mutation_selector = SelectAddStar | SelectRemoveStar

definition selector_of :: "string \<Rightarrow> mutation_selector" where
  "selector_of document = (if document = remove_star_mutation then SelectRemoveStar else SelectAddStar)"

definition star_payload_of_json :: "json \<Rightarrow> bool option" where
  "star_payload_of_json j =
     required (\<lambda>s. required bool_of_json (struct_field 1 0 ''viewerHasStarred'' s)) (struct_field 1 0 ''starrable'' j)"

definition mutation_of_json :: "json \<Rightarrow> (bool option \<times> bool option \<times> graphql_rate option) option" where
  "mutation_of_json j = do {
     (add_star, remove_star) \<leftarrow> required (\<lambda>data. do {
         add_star \<leftarrow> optional star_payload_of_json (struct_field 2 0 ''addStar'' data);
         remove_star \<leftarrow> optional star_payload_of_json (struct_field 2 1 ''removeStar'' data);
         Some (add_star, remove_star) }) (struct_field 2 0 ''data'' j);
     rate \<leftarrow> optional rate_of_json (struct_field 2 1 ''rateLimit'' j);
     Some (add_star, remove_star, rate) }"

definition confirmation :: "mutation_selector \<Rightarrow> bool option \<Rightarrow> bool option \<Rightarrow> bool option" where
  "confirmation selector add_star remove_star =
     (case selector of SelectAddStar \<Rightarrow> add_star | SelectRemoveStar \<Rightarrow> remove_star)"

definition star_write ::
    "http_client \<Rightarrow> string \<Rightarrow> nat \<Rightarrow> string option \<Rightarrow> string \<Rightarrow> (provider_error, star_write_reply) result answer" where
  "star_write c document k token node =
     exchange c k (graphql_post c token (JObj [(''query'', JStr document),
         (''variables'', JObj [(''starrableId'', JStr node)])])) (\<lambda>r.
       and_then (classified c mutation_of_json r) (\<lambda>(add_star, remove_star, rate).
         case confirmation (selector_of document) add_star remove_star of
           None \<Rightarrow> Inl (UnexpectedStatus 200)
         | Some starred \<Rightarrow>
             Inr \<lparr>sw_viewer_has_starred = starred, sw_rate_limit = graphql_rate_limit c (rate_headers_from r) rate\<rparr>))"

definition node_id_of_json :: "json \<Rightarrow> (string \<times> graphql_rate option) option" where
  "node_id_of_json j = do {
     node \<leftarrow> required (\<lambda>data. required (\<lambda>repo. required string_of_json (struct_field 1 0 ''id'' repo))
         (struct_field 1 0 ''repository'' data)) (struct_field 2 0 ''data'' j);
     rate \<leftarrow> optional rate_of_json (struct_field 2 1 ''rateLimit'' j);
     Some (node, rate) }"

definition fetch_repository_node_id ::
    "http_client \<Rightarrow> nat \<Rightarrow> string option \<Rightarrow> string \<Rightarrow> string \<Rightarrow> (provider_error, node_id_reply) result answer" where
  "fetch_repository_node_id c k token owner name =
     exchange c k (graphql_post c token (JObj [(''query'', JStr repository_node_id_query),
         (''variables'', JObj [(''owner'', JStr owner), (''name'', JStr name)])])) (\<lambda>r.
       and_then (if hs_status r = 404 then Inl NotFound else classified c node_id_of_json r) (\<lambda>(node, rate).
         Inr \<lparr>ni_node_id = node, ni_rate_limit = graphql_rate_limit c (rate_headers_from r) rate\<rparr>))"

definition updated_lists_of_json :: "json \<Rightarrow> (string list option \<times> graphql_rate option) option" where
  "updated_lists_of_json j = do {
     lists \<leftarrow> required (\<lambda>data. optional (\<lambda>u.
           required (list_of_json (\<lambda>l. required string_of_json (struct_field 1 0 ''id'' l))) (struct_field 1 0 ''lists'' u))
         (struct_field 1 0 ''updateUserListsForItem'' data)) (struct_field 2 0 ''data'' j);
     rate \<leftarrow> optional rate_of_json (struct_field 2 1 ''rateLimit'' j);
     Some (lists, rate) }"

definition set_repository_lists ::
    "http_client \<Rightarrow> nat \<Rightarrow> string option \<Rightarrow> string \<Rightarrow> string list \<Rightarrow> (provider_error, list_write_reply) result answer" where
  "set_repository_lists c k token node wanted =
     exchange c k (graphql_post c token (JObj [(''query'', JStr set_item_lists_mutation),
         (''variables'', JObj [(''itemId'', JStr node), (''listIds'', JArr (map JStr wanted))])])) (\<lambda>r.
       and_then (classified c updated_lists_of_json r) (\<lambda>(lists, rate).
         case lists of
           None \<Rightarrow> Inl (UnexpectedStatus 200)
         | Some ids \<Rightarrow> Inr \<lparr>lw_lists = ids, lw_rate_limit = graphql_rate_limit c (rate_headers_from r) rate\<rparr>))"

section \<open>Identity and grants\<close>

record authenticated_user =
  au_provider_user_id :: int
  au_login :: string
  au_granted_scopes :: "string list"

fun split_at_char :: "char \<Rightarrow> string \<Rightarrow> string list" where
  "split_at_char c [] = [[]]"
| "split_at_char c (x # xs) =
     (if x = c then [] # split_at_char c xs
      else case split_at_char c xs of [] \<Rightarrow> [[x]] | p # ps \<Rightarrow> (x # p) # ps)"

text \<open>Of visible ASCII and tabs, the blanks \<open>trim\<close> removes are the space and the tab.\<close>

definition trim_blanks :: "string \<Rightarrow> string" where
  "trim_blanks s =
     (let blank = (\<lambda>c. c = CHR '' '' \<or> c = CHR 0x09) in rev (dropWhile blank (rev (dropWhile blank s))))"

definition scopes_of_header :: "string option \<Rightarrow> string list" where
  "scopes_of_header v =
     (case v of None \<Rightarrow> [] | Some s \<Rightarrow> filter (\<lambda>x. x \<noteq> []) (map trim_blanks (split_at_char (CHR '','') s)))"

definition user_of_json :: "json \<Rightarrow> (int \<times> string) option" where
  "user_of_json j = do {
     provider_user_id \<leftarrow> required i64_of_json (struct_field 2 0 ''id'' j);
     login \<leftarrow> required string_of_json (struct_field 2 1 ''login'' j);
     Some (provider_user_id, login) }"

definition user_request :: "http_client \<Rightarrow> string \<Rightarrow> http_request" where
  "user_request c token =
     \<lparr>hq_method = ''GET'', hq_url = hc_base_url c @ ''/user'', hq_query = [], hq_headers = [],
      hq_auth = Some (BearerAuth token), hq_body = None\<rparr>"

definition authenticate_pat :: "http_client \<Rightarrow> nat \<Rightarrow> string \<Rightarrow> (provider_error, authenticated_user) result answer" where
  "authenticate_pat c k token =
     exchange c k (user_request c token) (\<lambda>r.
       and_then (classified c user_of_json r) (\<lambda>(provider_user_id, login).
         if provider_user_id \<le> 0 \<or> login = [] then Inl (UnexpectedStatus 200)
         else Inr \<lparr>au_provider_user_id = provider_user_id, au_login = login,
                   au_granted_scopes = scopes_of_header (header_text r ''x-oauth-scopes'')\<rparr>))"

definition confirm_token_is_dead :: "http_client \<Rightarrow> nat \<Rightarrow> string \<Rightarrow> (provider_error, unit) result answer" where
  "confirm_token_is_dead c k token =
     exchange c k (user_request c token) (\<lambda>r.
       if hs_status r = 401 then Inr () else Inl (UnexpectedStatus (hs_status r)))"

definition grant_request :: "http_client \<Rightarrow> oauth_app_credentials \<Rightarrow> string \<Rightarrow> http_request" where
  "grant_request c app token =
     \<lparr>hq_method = ''DELETE'', hq_url = hc_base_url c @ ''/applications/'' @ app_client_id app @ ''/grant'', hq_query = [],
      hq_headers = [(''accept'', ''application/vnd.github+json''), (''x-github-api-version'', ''2026-03-10'')],
      hq_auth = Some (BasicAuth (app_client_id app) (app_client_secret app)),
      hq_body = Some (JObj [(''access_token'', JStr token)])\<rparr>"

definition revoke_oauth_grant ::
    "http_client \<Rightarrow> nat \<Rightarrow> oauth_app_credentials \<Rightarrow> string \<Rightarrow> (provider_error, unit) result answer" where
  "revoke_oauth_grant c k app token =
     (case hc_send c k (grant_request c app token) of
        Answer d (Inl e) \<Rightarrow> Answer d (Inl (Transport e))
      | Answer d (Inr r) \<Rightarrow>
          if hs_status r = 204 then Answer d (Inr ())
          else if hs_status r = 404
          then (case confirm_token_is_dead c k token of Answer d' result \<Rightarrow> Answer (d + d') result)
          else Answer d (Inl (UnexpectedStatus (hs_status r))))"

section \<open>The gateways\<close>

definition client_observe :: "http_client \<Rightarrow> observe_api" where
  "client_observe c = \<lparr>oa_fetch_repository = fetch_repository c, oa_fetch_readme = fetch_readme c\<rparr>"

definition client_mutation :: "http_client \<Rightarrow> mutation_api" where
  "client_mutation c =
     \<lparr>ma_fetch_repository_node_id = fetch_repository_node_id c,
      ma_star_repository = star_write c add_star_mutation,
      ma_unstar_repository = star_write c remove_star_mutation,
      ma_set_repository_lists = set_repository_lists c\<rparr>"

text \<open>The gateway of the scans is bound to one credential and ignores what it is given.\<close>

definition authenticated :: "http_client \<Rightarrow> string \<Rightarrow> github_api" where
  "authenticated c credential =
     \<lparr>api_list_starred = (\<lambda>k page. list_starred c k (Some credential) page),
      api_list_starred_newest_first = (\<lambda>k page. list_starred_newest_first c k (Some credential) page),
      api_list_user_lists = (\<lambda>k cursor. list_user_lists c k (Some credential) cursor)\<rparr>"

end
