(* ===== verification/Http_Safety.thy ===== *)
theory Http_Safety
  imports Http_Client
begin

text \<open>
  What the HTTP adapter guarantees to the components above it: what the provider sends is what they get,
  a reported star rests on a confirmation in the provider's
  reply, a grant counts as revoked only on proof - and a throttling reply never reaches the ledger.
\<close>

section \<open>Exchanges\<close>

lemma exchange_InrD:
  assumes "ans_result (exchange c k q classify) = Inr x"
  obtains r where "ans_result (hc_send c k q) = Inr r" "classify r = Inr x"
  using assms by (cases "hc_send c k q") (auto simp: exchange_def split: sum.splits)

lemma classified_InrD:
  "classified c decode r = Inr x \<Longrightarrow> hs_status r = 200 \<and> response_json c decode r = Inr x"
  by (auto simp: classified_def split: if_splits)

lemma response_json_InrD:
  assumes "response_json c decode r = Inr x"
  obtains bytes j where "hs_body r = Inr bytes" "hc_json c bytes = Some j" "decode j = Some x"
  using assms by (auto simp: response_json_def ok_or_eq_Inr bind_eq_Some_conv split: sum.splits)

section \<open>Listings arrive as sent\<close>

definition i64 :: "int \<Rightarrow> bool" where
  "i64 n \<longleftrightarrow> i64_min \<le> n \<and> n \<le> i64_max"

text \<open>The provider's documented spelling of a starred item, with members the adapter does not read.\<close>

definition read_members :: "string set" where
  "read_members = {''id'', ''full_name'', ''description'', ''language'', ''stargazers_count'', ''topics'', ''default_branch'', ''pushed_at''}"

definition repository_json :: "(string \<times> json) list \<Rightarrow> provider_repository_body \<Rightarrow> json" where
  "repository_json unread b = JObj ([(''id'', JNum (pb_provider_repository_id b)), (''full_name'', JStr (pb_full_name b)),
     (''description'', json_option (pb_description b)), (''language'', json_option (pb_language b)),
     (''stargazers_count'', JNum (pb_stargazers b)), (''topics'', JArr (map JStr (pb_topics b))),
     (''default_branch'', json_option (pb_default_branch b)), (''pushed_at'', json_option (pb_pushed_at b))] @ unread)"

definition starred_json :: "(string \<times> json) list \<Rightarrow> starred_item \<Rightarrow> json" where
  "starred_json unread s = JObj [(''starred_at'', json_option (st_starred_at s)), (''repo'', repository_json unread (st_repo s))]"

lemma unread_field: "name \<notin> fst ` set ns \<Longrightarrow> filter (\<lambda>m. fst m = name) ns = []"
  by (auto simp: filter_empty_conv)

lemma optional_json_option [simp]: "optional string_of_json (Present (json_option v)) = Some v"
  by (cases v) (simp_all add: optional_def nullable_def json_option_def)

lemma all_of_strings [simp]: "all_of string_of_json (map JStr xs) = Some xs"
  by (induction xs) simp_all

lemma repository_roundtrip:
  assumes "fst ` set unread \<inter> read_members = {}" and "i64 (pb_provider_repository_id b)" "i64 (pb_stargazers b)"
  shows "repository_of_json (repository_json unread b) = Some b"
proof -
  have unread: "filter (\<lambda>m. fst m = name) unread = []" if "name \<in> read_members" for name
    using that assms(1) by (intro unread_field) blast
  show ?thesis
    using assms(2,3) unfolding repository_of_json_def repository_json_def
    by (simp add: struct_field_def unread [unfolded read_members_def] required_def defaulted_def i64_def)
qed

text \<open>
  A listing arrives as the provider sent it: when the answer to a request for a page is the JSON of a
  list of starred items, in the documented spelling and with any further members, the adapter returns
  exactly those items in that order.
\<close>

theorem starred_listing_decodes:
  assumes "ans_result (hc_send c k q) = Inr r" and "hs_status r = 200" and "hs_body r = Inr bytes"
    and "hc_json c bytes = Some (JArr (map (starred_json unread) items))"
    and "fst ` set unread \<inter> read_members = {}"
    and "\<And>item. item \<in> set items \<Longrightarrow> i64 (pb_provider_repository_id (st_repo item)) \<and> i64 (pb_stargazers (st_repo item))"
    and "q = \<lparr>hq_method = ''GET'', hq_url = hc_base_url c @ ''/user/starred'',
        hq_query = [(''page'', decimal_text (nat page)), (''per_page'', ''100'')] @ sorting,
        hq_headers = [(''accept'', ''application/vnd.github.star+json'')],
        hq_auth = map_option BearerAuth token, hq_body = None\<rparr>"
  shows "ans_result (list_starred_with c sorting k token page) = Inr \<lparr>lr_items = items, lr_rate_limit = rate_headers_from r\<rparr>"
proof -
  have "starred_of_json (starred_json unread item) = Some item" if "item \<in> set items" for item
    using repository_roundtrip [OF assms(5)] assms(6) [OF that]
    by (simp add: starred_of_json_def starred_json_def struct_field_def required_def)
  then have decoded: "all_of starred_of_json (map (starred_json unread) items) = Some items"
    by (induction items) simp_all
  have "decimal_text starred_page_size = ''100''" by code_simp
  then show ?thesis
    using assms(1-4,7) decoded by (cases "hc_send c k q")
      (simp add: list_starred_with_def exchange_def classified_def response_json_def)
qed

section \<open>Moved repositories\<close>

lemma split_once_at_first:
  assumes "split_once_at m (p @ butlast m) = None" and "m \<noteq> []"
  shows "split_once_at m (p @ m @ x) = Some (p, x)"
  using assms(1)
proof (induction p)
  case Nil
  show ?case using assms(2) by (cases m) simp_all
next
  case (Cons a p)
  have "take (length m) ((a # p) @ m @ x) = take (length m) ((a # p) @ butlast m)"
  proof -
    have "m = butlast m @ [last m]" using assms(2) by simp
    then have "(a # p) @ m @ x = ((a # p) @ butlast m) @ last m # x" by simp
    then show ?thesis by (simp only: take_append) (simp add: length_butlast)
  qed
  with Cons show ?case by (auto split: if_splits)
qed

lemma split_once_first: "c \<notin> set a \<Longrightarrow> split_once c (a @ c # b) = Some (a, b)"
  by (induction a) auto

text \<open>
  A move is read correctly: from an absolute or root-relative location of the form
  \<open>.../repos/owner/name\<close>, whatever path, query or fragment follows the name, exactly the owner and the
  name are read, provided the part before has no earlier marker.
\<close>

theorem moved_location_roundtrip:
  assumes "split_once_at ''/repos/'' (before @ ''/repos'') = None"
    and "on_owner n \<noteq> []" "on_name n \<noteq> []"
    and "set (on_owner n @ on_name n) \<inter> {CHR ''/'', CHR ''?'', CHR ''#''} = {}"
    and "tail = [] \<or> hd tail \<in> {CHR ''/'', CHR ''?'', CHR ''#''}"
  shows "parse_moved_location (before @ ''/repos/'' @ owner_name_text n @ tail) = Some n"
proof -
  have located: "split_once_at ''/repos/'' (before @ ''/repos/'' @ (owner_name_text n @ tail)) = Some (before, owner_name_text n @ tail)"
    by (rule split_once_at_first) (use assms(1) in simp_all)
  let ?rest = "path_part tail"
  have plain: "\<forall>c\<in>set (owner_name_text n). c \<noteq> CHR ''?'' \<and> c \<noteq> CHR ''#''"
    using assms(4) by (auto simp: owner_name_text_def)
  then have path: "path_part (owner_name_text n @ tail) = owner_name_text n @ ?rest"
    unfolding path_part_def by (subst takeWhile_append2) auto
  have owner: "split_once (CHR ''/'') (owner_name_text n @ ?rest) = Some (on_owner n, on_name n @ ?rest)"
    using assms(4) split_once_first [of "CHR ''/''" "on_owner n" "on_name n @ ?rest"] by (auto simp: owner_name_text_def)
  have "?rest = [] \<or> hd ?rest = CHR ''/''"
    using assms(5) by (cases tail) (auto simp: path_part_def)
  then have "takeWhile (\<lambda>c. c \<noteq> CHR ''/'') ?rest = []" by (cases ?rest) auto
  then have "takeWhile (\<lambda>c. c \<noteq> CHR ''/'') (on_name n @ ?rest) = on_name n"
    using assms(4) by (subst takeWhile_append2) auto
  with located path owner assms(2,3) show ?thesis by (simp add: parse_moved_location_def)
qed

section \<open>Confirmed writes\<close>

lemma documents_differ: "selector_of add_star_mutation = SelectAddStar" "selector_of remove_star_mutation = SelectRemoveStar"
  by (simp_all add: selector_of_def add_star_mutation_def remove_star_mutation_def star_document_def)

definition star_documents :: "star_direction \<Rightarrow> string" where
  "star_documents dir = (case dir of StarAdd \<Rightarrow> add_star_mutation | StarRemove \<Rightarrow> remove_star_mutation)"

definition star_body :: "star_direction \<Rightarrow> string \<Rightarrow> json" where
  "star_body dir node = JObj [(''query'', JStr (star_documents dir)), (''variables'', JObj [(''starrableId'', JStr node)])]"

lemma star_write_confirmed:
  assumes "ans_result (star_write c (star_documents dir) k token node) = Inr reply"
  obtains r bytes j add_star remove_star rate where
    "ans_result (hc_send c k (graphql_post c token (star_body dir node))) = Inr r"
    "hs_status r = 200" "hs_body r = Inr bytes" "hc_json c bytes = Some j"
    "mutation_of_json j = Some (add_star, remove_star, rate)"
    "(case dir of StarAdd \<Rightarrow> add_star | StarRemove \<Rightarrow> remove_star) = Some (sw_viewer_has_starred reply)"
proof -
  from assms obtain r where r: "ans_result (hc_send c k (graphql_post c token (star_body dir node))) = Inr r"
      and answered: "and_then (classified c mutation_of_json r) (\<lambda>(add_star, remove_star, rate).
         case confirmation (selector_of (star_documents dir)) add_star remove_star of
           None \<Rightarrow> Inl (UnexpectedStatus 200)
         | Some starred \<Rightarrow>
             Inr \<lparr>sw_viewer_has_starred = starred, sw_rate_limit = graphql_rate_limit c (rate_headers_from r) rate\<rparr>) = Inr reply"
    unfolding star_write_def star_body_def by (rule exchange_InrD)
  from answered obtain add_star remove_star rate where m: "classified c mutation_of_json r = Inr (add_star, remove_star, rate)"
      and "confirmation (selector_of (star_documents dir)) add_star remove_star = Some (sw_viewer_has_starred reply)"
    by (auto simp: and_then_eq_Inr split: option.splits)
  then have "(case dir of StarAdd \<Rightarrow> add_star | StarRemove \<Rightarrow> remove_star) = Some (sw_viewer_has_starred reply)"
    by (cases dir) (simp_all add: confirmation_def star_documents_def documents_differ)
  moreover obtain bytes j where "hs_body r = Inr bytes" "hc_json c bytes = Some j"
      "mutation_of_json j = Some (add_star, remove_star, rate)"
    using classified_InrD [OF m] by (blast elim: response_json_InrD)
  ultimately show ?thesis using that [OF r] classified_InrD [OF m] by blast
qed

text \<open>
  C18. From the catalog down to the wire a star is truthful: when a mutation with a free key, executed through
  the adapter, reports that it applied or that the state already held, then to the documented mutation
  of its direction the provider has answered with status 200 and a body that carries that mutation's
  confirmation of the requested state; no other reply, and not the confirmation of the opposite
  mutation, can produce the report.
\<close>

theorem reported_star_was_confirmed:
  assumes "mr_gateway rt = client_mutation c" and "\<not> key_consumed key (w_db w)"
    and "execute_mutation rt (star_request dir repo key) w = (Inr oc, w')"
    and "mu_status oc \<in> {StatusApplied, StatusAlreadyApplied}"
  shows "\<exists>k node r bytes j add_star remove_star rate.
    ans_result (hc_send c k (graphql_post c (mr_secret rt) (star_body dir node))) = Inr r \<and>
    hs_status r = 200 \<and> hs_body r = Inr bytes \<and> hc_json c bytes = Some j \<and>
    mutation_of_json j = Some (add_star, remove_star, rate) \<and>
    (case dir of StarAdd \<Rightarrow> add_star = Some True | StarRemove \<Rightarrow> remove_star = Some False)"
  using assms(3,2)
proof (cases rule: star_mutation_cases)
  case (refused reason)
  with assms(4) show ?thesis by simp
next
  case unconfirmed
  with assms(4) show ?thesis by (auto simp: unconfirmed_def)
next
  case (saved n node reply t oc)
  then have "ans_result (star_write c (star_documents dir) n (mr_secret rt) node) = Inr reply"
    using assms(1) by (simp add: star_write_call_def client_mutation_def star_documents_def split: star_direction.splits)
  from star_write_confirmed [OF this] obtain r bytes j add_star remove_star rate where
    "ans_result (hc_send c n (graphql_post c (mr_secret rt) (star_body dir node))) = Inr r"
    "hs_status r = 200" "hs_body r = Inr bytes" "hc_json c bytes = Some j"
    "mutation_of_json j = Some (add_star, remove_star, rate)"
    "(case dir of StarAdd \<Rightarrow> add_star | StarRemove \<Rightarrow> remove_star) = Some (sw_viewer_has_starred reply)"
    by blast
  moreover from this(6) saved(2) have "case dir of StarAdd \<Rightarrow> add_star = Some True | StarRemove \<Rightarrow> remove_star = Some False"
    by (cases dir) (simp_all add: state_holds_def)
  ultimately show ?thesis by blast
qed simp

section \<open>Revoked grants\<close>

text \<open>
  A grant counts as revoked only on proof: the provider answered the deletion with 204, or it did not know
  the grant and refused the very token as unauthenticated.
\<close>

theorem revocation_is_proved:
  assumes "ans_result (revoke_oauth_grant c k app token) = Inr ()"
  shows "\<exists>r. ans_result (hc_send c k (grant_request c app token)) = Inr r \<and>
    (hs_status r = 204 \<or> (hs_status r = 404 \<and>
      (\<exists>probe. ans_result (hc_send c k (user_request c token)) = Inr probe \<and> hs_status probe = 401)))"
proof (cases "hc_send c k (grant_request c app token)")
  case (Answer d x)
  with assms show ?thesis
    by (cases "hc_send c k (user_request c token)")
      (auto simp: revoke_oauth_grant_def confirm_token_is_dead_def exchange_def split: sum.splits if_splits answer.splits)
qed

section \<open>Throttling\<close>

definition throttles :: "http_client \<Rightarrow> bool" where
  "throttles c \<longleftrightarrow> (\<forall>k q. case ans_result (hc_send c k q) of Inl _ \<Rightarrow> True | Inr r \<Rightarrow> hs_status r \<in> {403, 429})"

lemma query_ledger: "query f w = (r, w') \<Longrightarrow> w_ledger w' = w_ledger w"
  by (auto simp: query_def transact_def transact_with_def Let_def split: list.splits bool.splits)

lemma throttled_fetch:
  assumes "throttles c"
  shows "isl (ans_result (fetch_repository c k token n etag))"
proof (cases "ans_result (fetch_repository c k token n etag)")
  case (Inr reply)
  then obtain r where r: "ans_result (hc_send c k (conditional_get c (''/repos/'' @ owner_name_text n) [] token etag)) = Inr r"
      and "and_then (repository_outcome c n r) (\<lambda>outcome. Inr \<lparr>gr_outcome = outcome, gr_rate_limit = rate_headers_from r\<rparr>) = Inr reply"
    unfolding fetch_repository_def by (rule exchange_InrD)
  moreover have "hs_status r \<in> {403, 429}"
    using assms unfolding throttles_def by (metis r sum.case(2))
  ultimately show ?thesis by (auto simp: repository_outcome_def)
qed simp

text \<open>
  C39. A throttling reply leaves no trace in the ledger: when an observation of a repository runs over the HTTP
  adapter and every reply of the provider is a 403 or a 429, whatever \<open>Retry-After\<close> and rate-limit headers it sends,
  the ledger afterwards is the one the acquisition of the observation's grant left; and if the token had no
  bucket, the observation fails and the token's next acquisition is granted at once.
\<close>

theorem throttling_reply_is_forgotten:
  assumes "or_gateway rt = client_observe c" and "throttles c" and "observe_repository rt alias now w = (res, w')"
  shows "w_ledger w' = w_ledger (snd (acquire_now (or_token rt) w)) \<and>
    (w_ledger w (or_token rt) = None \<longrightarrow> isl res \<and> fst (acquire_now (or_token rt) w') = Inr ())"
proof -
  obtain q w1 where 1: "acquire_now (or_token rt) w = (q, w1)" by fastforce
  have granted: "isl r2 \<and> w_ledger w2 = w_ledger w1" if "observe_granted rt alias now w1 = (r2, w2)" for r2 w2
  proof -
    have "isl (ans_result (oa_fetch_repository (or_gateway rt) k None alias etag))" for k etag
      using throttled_fetch [OF assms(2)] assms(1) by (simp add: client_observe_def)
    then have fetch: "ans_result (oa_fetch_repository (or_gateway rt) k None alias etag) = Inr x \<Longrightarrow> False" for k etag x
      by (metis sum.disc(2))
    show ?thesis
      using that unfolding observe_granted_def stored_validators_def
      by (auto simp: io_bind_def io_map_err_def io_return_def io_fail_def call_def provider_call_def Let_def
          split: sum.splits prod.splits option.splits dest!: query_ledger dest: fetch)
  qed
  have "q = Inr () \<and> w_ledger w1 = w_ledger w" if "w_ledger w (or_token rt) = None"
    using 1 that by (auto simp: acquire_now_def acquire_def split: prod.splits)
  with assms(3) 1 granted show ?thesis
    by (auto simp: observe_repository_def acquire_now_def acquire_def split: sum.splits acquire_error.splits prod.splits)
qed

section \<open>Servers of one answer\<close>

definition server :: "nat \<Rightarrow> (string \<times> string) list \<Rightarrow> json \<Rightarrow> http_client" where
  "server status headers j =
     \<lparr>hc_base_url = ''https://api.github.com'',
      hc_send = (\<lambda>_ _. Answer 1 (Inr \<lparr>hs_status = status, hs_headers = headers, hs_announced = None, hs_body = Inr []\<rparr>)),
      hc_json = (\<lambda>_. Some j), hc_decode_error = (\<lambda>_. []), hc_rfc3339 = (\<lambda>_. None)\<rparr>"

definition starred_sample :: starred_item where
  "starred_sample = \<lparr>st_starred_at = Some ''2026-01-01T00:00:00Z'', st_repo = sample_body\<rparr>"

definition listing_server :: http_client where
  "listing_server = server 200 [(''x-ratelimit-remaining'', ''4999'')] (JArr [starred_json [(''private'', JBool False)] starred_sample])"

theorem starred_listing_decodes_witness:
  "ans_result (list_starred listing_server 0 (Some ''t'') 1) =
     Inr \<lparr>lr_items = [starred_sample], lr_rate_limit = no_headers\<lparr>rl_remaining := Some 4999\<rparr>\<rparr>"
proof -
  let ?r = "\<lparr>hs_status = 200, hs_headers = [(''x-ratelimit-remaining'', ''4999'')], hs_announced = None, hs_body = Inr []\<rparr> :: http_response"
  have "ans_result (list_starred_with listing_server [] 0 (Some ''t'') 1) =
      Inr \<lparr>lr_items = [starred_sample], lr_rate_limit = rate_headers_from ?r\<rparr>"
    by (rule starred_listing_decodes [where unread = "[(''private'', JBool False)]" and bytes = "[]", OF _ _ _ _ _ _ refl])
      (simp_all add: listing_server_def server_def read_members_def starred_sample_def sample_body_def i64_def i64_max_def i64_min_def)
  moreover have "rate_headers_from ?r = no_headers\<lparr>rl_remaining := Some 4999\<rparr>" by code_simp
  ultimately show ?thesis by (simp add: list_starred_def)
qed

theorem moved_location_roundtrip_witness:
  "parse_moved_location ''https://api.github.com/repos/o/a/issues?x=1'' = Some old_name"
proof -
  have "parse_moved_location (''https://api.github.com'' @ ''/repos/'' @ owner_name_text old_name @ ''/issues?x=1'') = Some old_name"
    by (rule moved_location_roundtrip) (simp_all add: old_name_def)
  then show ?thesis by (simp add: owner_name_text_def old_name_def)
qed

definition star_server :: http_client where
  "star_server = server 200 [] (JObj [(''data'', JObj [(''repository'', JObj [(''id'', JStr ''R_1'')]),
     (''addStar'', JObj [(''starrable'', JObj [(''databaseId'', JNum 11), (''viewerHasStarred'', JBool True)])])])])"

definition starred_through where
  "starred_through = execute_mutation (runtime_example\<lparr>mr_gateway := client_mutation star_server\<rparr>)
     (star_request StarAdd ref_example ''k'') (world_example Connected)"

theorem reported_star_was_confirmed_witness:
  "fst starred_through = Inr \<lparr>mu_idempotency_key = ''k'', mu_status = StatusApplied\<rparr> \<and>
   (\<exists>j remove_star rate. hc_json star_server [] = Some j \<and> mutation_of_json j = Some (Some True, remove_star, rate))"
proof
  show applied: "fst starred_through = Inr \<lparr>mu_idempotency_key = ''k'', mu_status = StatusApplied\<rparr>" by code_simp
  then have "execute_mutation (runtime_example\<lparr>mr_gateway := client_mutation star_server\<rparr>)
      (star_request StarAdd ref_example ''k'') (world_example Connected) =
      (Inr \<lparr>mu_idempotency_key = ''k'', mu_status = StatusApplied\<rparr>, snd starred_through)"
    unfolding starred_through_def by (metis prod.collapse)
  from reported_star_was_confirmed [OF _ example_free(1) this, of star_server]
  show "\<exists>j remove_star rate. hc_json star_server [] = Some j \<and> mutation_of_json j = Some (Some True, remove_star, rate)"
    by (auto simp: star_server_def server_def)
qed

definition throttling_server :: http_client where
  "throttling_server = server 429 [(''retry-after'', ''60''), (''x-ratelimit-remaining'', ''0'')] JNull"

definition throttled_runtime :: observe_runtime where
  "throttled_runtime = sample_runtime\<lparr>or_gateway := client_observe throttling_server\<rparr>"

definition throttled where "throttled = observe_repository throttled_runtime old_name 7 named_world"

theorem throttling_reply_is_forgotten_witness:
  "fst throttled = Inl (ObserveProvider (UnexpectedStatus 429)) \<and> w_calls (snd throttled) = 1 \<and>
   fst (acquire_now (or_token throttled_runtime) (snd throttled)) = Inr ()"
proof (intro conjI)
  show "fst throttled = Inl (ObserveProvider (UnexpectedStatus 429))" by code_simp
  show "w_calls (snd throttled) = 1" by code_simp
  have "throttles throttling_server" by (simp add: throttles_def throttling_server_def server_def)
  then show "fst (acquire_now (or_token throttled_runtime) (snd throttled)) = Inr ()"
    using throttling_reply_is_forgotten [of throttled_runtime throttling_server old_name 7 named_world "fst throttled" "snd throttled"]
    by (simp add: throttled_runtime_def throttled_def named_world_def)
qed

end
