(* ===== verification/Operator.thy ===== *)
theory Operator
  imports Configuration Http_Safety Legacy Bus Star_Lists Snapshot
begin

text \<open>
  The process boundary: the operator's command line (\<open>services/catalog/src/lib.rs\<close>) and what each command
  does with the configuration, the database and the provider (\<open>services/catalog/src/main.rs\<close>), up to the
  start of the server and the way it ends. Files, standard input, the legacy source and the binding of
  sockets are functions or values of the runtime.
\<close>

section \<open>The command line\<close>

datatype operator_command =
    Serve
  | CheckConfig
  | ReconnectPat string
  | ImportLegacy string string
  | ShadowLegacy string
  | CutoverReadiness string

datatype operator_command_error = UnknownCommand | InvalidArguments | SecretBearingArgument

definition secret_flags :: "string list" where
  "secret_flags = [''--pat'', ''--token'', ''--source-url'', ''--database-url'']"

definition parse_source_id :: "string list \<Rightarrow> (string \<Rightarrow> operator_command) \<Rightarrow> (operator_command_error, operator_command) result" where
  "parse_source_id arguments command =
     (case arguments of
        [flag, source_id] \<Rightarrow> if flag = ''--source-id'' then Inr (command source_id) else Inl InvalidArguments
      | _ \<Rightarrow> Inl InvalidArguments)"

fun import_pairs ::
    "string list \<Rightarrow> string option \<Rightarrow> string option \<Rightarrow> (operator_command_error, string option \<times> string option) result" where
  "import_pairs (flag # v # rest) source_id owner_map_path =
     (if flag = ''--source-id'' then import_pairs rest (Some v) owner_map_path
      else if flag = ''--owner-map'' then import_pairs rest source_id (Some v)
      else Inl InvalidArguments)"
| "import_pairs _ source_id owner_map_path = Inr (source_id, owner_map_path)"

definition parse_import_legacy :: "string list \<Rightarrow> (operator_command_error, operator_command) result" where
  "parse_import_legacy arguments =
     (if length arguments \<noteq> 4 then Inl InvalidArguments
      else
        and_then (import_pairs arguments None None) (\<lambda>(source_id, owner_map_path).
          case (source_id, owner_map_path) of
            (Some s, Some m) \<Rightarrow> Inr (ImportLegacy s m)
          | _ \<Rightarrow> Inl InvalidArguments))"

text \<open>The first argument is the program's name.\<close>

definition parse_operator_command :: "string list \<Rightarrow> (operator_command_error, operator_command) result" where
  "parse_operator_command arguments =
     (let remaining = drop 2 arguments in
      if list_ex (\<lambda>a. a \<in> set secret_flags) remaining then Inl SecretBearingArgument
      else
        case drop 1 arguments of
          [] \<Rightarrow> Inr Serve
        | command # _ \<Rightarrow>
            if command = ''check-config'' \<and> remaining = [] then Inr CheckConfig
            else if command = ''reconnect-pat'' \<and> length remaining = 1 then Inr (ReconnectPat (hd remaining))
            else if command = ''import-legacy'' then parse_import_legacy remaining
            else if command = ''shadow-legacy'' then parse_source_id remaining ShadowLegacy
            else if command = ''cutover-readiness'' then parse_source_id remaining CutoverReadiness
            else if command \<in> {''check-config'', ''reconnect-pat''} then Inl InvalidArguments
            else Inl UnknownCommand)"

section \<open>The process\<close>

datatype process_error =
    ProcConfig config_error
  | ProcTelemetry
  | ProcDatabase sql_error
  | ProcCommand operator_command_error
  | ProcAccountIdentifier
  | ProcPatInput
  | ProcEmptyPatInput
  | ProcProvider provider_error
  | ProcCredential credential_error
  | ProcOwnerMapRead
  | ProcOwnerMap legacy_owner_map_error
  | ProcLegacySource legacy_source_error
  | ProcLegacyImport legacy_import_error
  | ProcLegacyShadow legacy_shadow_error
  | ProcShadowStarSnapshot snapshot_error
  | ProcShadowListSnapshot star_lists_error
  | ProcOutput
  | ProcBind
  | ProcServe
  | ProcBus bus_error

text \<open>
  What the environment gives the process. A legacy source that cannot be connected is \<open>None\<close>; the client
  builder may fail; \<open>po_rounds\<close> bounds the rounds of a scan.
\<close>

record process_env =
  po_libraries :: config_libraries
  po_vars :: "(string option \<times> string option) list"
  po_arguments :: "string list"
  po_client :: "(string, http_client) result"
  po_cipher :: cipher
  po_nonce :: string
  po_cast :: "string \<Rightarrow> timestamp option"
  po_uuid_parse :: "string \<Rightarrow> uuid option"
  po_uuid_text :: "uuid \<Rightarrow> string"
  po_stdin :: "string option"
  po_file :: "string \<Rightarrow> string option"
  po_owner_entries :: "string \<Rightarrow> (int \<times> string) list option"
  po_tenant :: "string \<Rightarrow> bool"
  po_source :: "string \<Rightarrow> legacy_source option"
  po_report_text :: "legacy_shadow_report \<Rightarrow> string option"
  po_report_value :: "legacy_shadow_report \<Rightarrow> (string \<times> json) list option"
  po_sha256 :: "8 word list \<Rightarrow> 8 word list"
  po_rounds :: nat
  po_output :: "string \<Rightarrow> bool"
  po_binds :: "socket_addr \<Rightarrow> bool"
  po_telemetry :: bool
  po_broker :: broker

text \<open>The schema is applied to a database that already has it, as every statement of it is conditional.\<close>

definition connect_database :: "(process_error, unit) io" where
  "connect_database =
     io_bind (io_map_err ProcDatabase (query (\<lambda>_. ()))) (\<lambda>_. io_map_err ProcDatabase (query (\<lambda>_. ())))"

definition provider_gateway :: "process_env \<Rightarrow> config \<Rightarrow> (process_error, http_client) result" where
  "provider_gateway env c =
     (case po_client env of
        Inl e \<Rightarrow> Inl (ProcProvider (Transport e))
      | Inr client \<Rightarrow> Inr (client\<lparr>hc_base_url := for_base_url (cf_base_url c)\<rparr>))"

definition write_operator_output :: "process_env \<Rightarrow> string \<Rightarrow> (process_error, string) result" where
  "write_operator_output env body =
     (if po_output env (body @ newline) then Inr (body @ newline) else Inl ProcOutput)"

definition in_quotes :: "string \<Rightarrow> string" where
  "in_quotes s = [CHR 0x22] @ s @ [CHR 0x22]"

definition int_text :: "int \<Rightarrow> string" where
  "int_text n = (if n < 0 then ''-'' @ decimal_text (nat (- n)) else decimal_text (nat n))"

definition lift :: "('e, 'a) result \<Rightarrow> ('e, 'a) io" where
  "lift r w = (r, w)"

definition cutover_readiness :: "process_env \<Rightarrow> string \<Rightarrow> (process_error, string) io" where
  "cutover_readiness env source_id =
     io_bind connect_database (\<lambda>_.
     io_bind (io_map_err ProcLegacyShadow (legacy_cutover_readiness source_id)) (\<lambda>(report_id, report_digest).
       lift (write_operator_output env (''{'' @ in_quotes ''report_id'' @ '':'' @ in_quotes (po_uuid_text env report_id) @
         '','' @ in_quotes ''report_digest'' @ '':'' @ in_quotes report_digest @ '','' @
         in_quotes ''cutover_reviewable'' @ '':true}''))))"

definition source_database_url :: "config \<Rightarrow> (config_error, string) result" where
  "source_database_url c =
     ok_or (config_error_new ''RATATOSKR__LEGACY__SOURCE_DATABASE_URL'' ''must be configured for legacy import'')
       (cf_source_database_url c)"

definition map_error :: "('e \<Rightarrow> 'f) \<Rightarrow> ('e, 'a) result \<Rightarrow> ('f, 'a) result" where
  "map_error f r = (case r of Inl e \<Rightarrow> Inl (f e) | Inr x \<Rightarrow> Inr x)"

definition import_legacy :: "process_env \<Rightarrow> config \<Rightarrow> string \<Rightarrow> string \<Rightarrow> (process_error, string) io" where
  "import_legacy env c source_id owner_map_path =
     io_bind (lift (
       and_then (ok_or ProcOwnerMapRead (po_file env owner_map_path)) (\<lambda>document.
       and_then (map_error ProcOwnerMap (owner_map_from_json (po_owner_entries env) (po_tenant env) document)) (\<lambda>owner_map.
       and_then (map_error ProcConfig (source_database_url c)) (\<lambda>url.
       and_then (ok_or (ProcLegacySource SourceConnect) (po_source env url)) (\<lambda>source.
       and_then (map_error ProcLegacySource (read_snapshot source)) (\<lambda>snapshot. Inr (owner_map, snapshot)))))))) (\<lambda>(owner_map, snapshot).
     io_bind connect_database (\<lambda>_ w.
     io_bind (io_map_err ProcLegacyImport (import_legacy_snapshot (w_clock w div 1000)
         \<lparr>lq_source_id = source_id, lq_owner_map = owner_map, lq_snapshot = snapshot\<rparr>)) (\<lambda>result.
       lift (write_operator_output env (''{'' @
         in_quotes ''import_run_id'' @ '':'' @ in_quotes (po_uuid_text env (lo_import_run_id result)) @ '','' @
         in_quotes ''accounts_imported'' @ '':'' @ int_text (lo_accounts_imported result) @ '','' @
         in_quotes ''repositories_imported'' @ '':'' @ int_text (ic_repositories (lo_counts result)) @ '','' @
         in_quotes ''star_claims_imported'' @ '':'' @ int_text (ic_star_claims (lo_counts result)) @ '','' @
         in_quotes ''list_claims_imported'' @ '':'' @ int_text (ic_list_claims (lo_counts result)) @ ''}''))) w))"

text \<open>The scans of one account; \<open>None\<close> when the rounds are used up.\<close>

definition shadow_account :: "process_env \<Rightarrow> config \<Rightarrow> credential_key \<Rightarrow> uuid \<Rightarrow> world \<Rightarrow> (process_error, unit) result option \<times> world" where
  "shadow_account env c key account w =
     (case io_bind (io_map_err ProcCredential (load_active_pat (po_cipher env) account key)) (\<lambda>credential.
         lift (and_then (provider_gateway env c) (\<lambda>client. Inr (authenticated client credential)))) w of
        (Inl e, w1) \<Rightarrow> (Some (Inl e), w1)
      | (Inr gateway, w1) \<Rightarrow>
          (case run_full_snapshot (po_cast env) gateway (po_uuid_text env account) account (po_rounds env) w1 of
             (None, w2) \<Rightarrow> (None, w2)
           | (Some (Inl e), w2) \<Rightarrow> (Some (Inl (ProcShadowStarSnapshot e)), w2)
           | (Some (Inr _), w2) \<Rightarrow>
               (case run_star_list_snapshot gateway (po_uuid_text env account) account (po_rounds env) w2 of
                  (None, w3) \<Rightarrow> (None, w3)
                | (Some (Inl e), w3) \<Rightarrow> (Some (Inl (ProcShadowListSnapshot e)), w3)
                | (Some (Inr _), w3) \<Rightarrow> (Some (Inr ()), w3))))"

fun shadow_accounts ::
    "process_env \<Rightarrow> config \<Rightarrow> credential_key \<Rightarrow> uuid list \<Rightarrow> world \<Rightarrow> (process_error, unit) result option \<times> world" where
  "shadow_accounts env c key [] w = (Some (Inr ()), w)"
| "shadow_accounts env c key (a # ids) w =
     (case shadow_account env c key a w of
        (Some (Inr _), w') \<Rightarrow> shadow_accounts env c key ids w'
      | end_of_scan \<Rightarrow> end_of_scan)"

definition shadow_report :: "process_env \<Rightarrow> string \<Rightarrow> (process_error, string) io" where
  "shadow_report env source_id =
     io_bind (io_map_err ProcLegacyShadow
         (generate_legacy_shadow_report (po_report_text env) (po_report_value env) (po_sha256 env) source_id)) (\<lambda>report.
       lift (and_then (ok_or (ProcLegacyShadow ShadowEncoding) (po_report_text env report)) (write_operator_output env)))"

text \<open>The ledger of the command is its own.\<close>

definition shadow_legacy :: "process_env \<Rightarrow> config \<Rightarrow> string \<Rightarrow> world \<Rightarrow> (process_error, string) result option \<times> world" where
  "shadow_legacy env c source_id w =
     (case io_bind connect_database (\<lambda>_. io_map_err ProcLegacyShadow (legacy_shadow_account_ids source_id)) w of
        (Inl e, w1) \<Rightarrow> (Some (Inl e), w1)
      | (Inr ids, w1) \<Rightarrow>
          (let scanned =
             (if ids = [] then (Some (Inr ()), w1)
              else
                case encryption_key c of
                  Inl e \<Rightarrow> (Some (Inl (ProcConfig e)), w1)
                | Inr key \<Rightarrow> shadow_accounts env c key ids (w1\<lparr>w_ledger := (\<lambda>_. None)\<rparr>))
           in
           case scanned of
             (None, w2) \<Rightarrow> (None, w2)
           | (Some (Inl e), w2) \<Rightarrow> (Some (Inl e), w2)
           | (Some (Inr _), w2) \<Rightarrow> (let (r, w3) = shadow_report env source_id w2 in (Some r, w3))))"

definition read_replacement_pat :: "process_env \<Rightarrow> (process_error, string) result" where
  "read_replacement_pat env =
     and_then (ok_or ProcPatInput (po_stdin env)) (\<lambda>input.
       let v = rev (dropWhile (\<lambda>c. c = CHR 0x0D \<or> c = CHR 0x0A) (rev input)) in
       if v = [] then Inl ProcEmptyPatInput else Inr v)"

definition register_replacement_pat :: "process_env \<Rightarrow> config \<Rightarrow> string \<Rightarrow> (process_error, unit) io" where
  "register_replacement_pat env c account_id =
     io_bind (lift (
       and_then (ok_or ProcAccountIdentifier (po_uuid_parse env account_id)) (\<lambda>account.
       and_then (map_error ProcConfig (encryption_key c)) (\<lambda>key.
       and_then (read_replacement_pat env) (\<lambda>pat. Inr (account, key, pat)))))) (\<lambda>(account, key, pat).
     io_bind connect_database (\<lambda>_.
     io_bind (lift (provider_gateway env c)) (\<lambda>client.
     io_bind (call (\<lambda>k. authenticate_pat client k pat)) (\<lambda>answer.
     io_bind (lift (map_error ProcProvider answer)) (\<lambda>user.
       io_map_err ProcCredential (register_pat (po_cipher env) (po_nonce env) account pat key
         \<lparr>va_provider_user_id = au_provider_user_id user, va_login = au_login user,
          va_granted_scopes = au_granted_scopes user\<rparr>))))))"

text \<open>The start of the server: it is ready only when everything it needs is there.\<close>

definition connect_bus :: "process_env \<Rightarrow> config \<Rightarrow> (process_error, bus option) result" where
  "connect_bus env c =
     (case cf_bus_url c of
        None \<Rightarrow> Inr None
      | Some url \<Rightarrow>
          map_error ProcBus (and_then (bus_connect (po_file env) (po_broker env)
            \<lparr>bt_url = url, bt_nkey_seed_path = cf_nkey_seed_path c\<rparr>) (\<lambda>bus. Inr (Some bus))))"

record watch_observer =
  wo_gateway :: http_client
  wo_ledger :: ledger
  wo_interval :: int
  wo_batch :: int

definition watch_observer_new :: "config \<Rightarrow> http_client \<Rightarrow> watch_observer option" where
  "watch_observer_new c gateway =
     (if cf_observe_interval_seconds c = 0 then None
      else Some \<lparr>wo_gateway = gateway, wo_ledger = (\<lambda>_. None), wo_interval = cf_observe_interval_seconds c, wo_batch = cf_batch c\<rparr>)"

record repository_api_state =
  ra_provider :: http_client
  ra_ledger :: ledger
  ra_credential_key :: "credential_key option"
  ra_reader_service_secret :: "string option"

definition repository_api_state_new :: "http_client \<Rightarrow> credential_key option \<Rightarrow> repository_api_state" where
  "repository_api_state_new gateway key =
     \<lparr>ra_provider = gateway, ra_ledger = (\<lambda>_. None), ra_credential_key = key, ra_reader_service_secret = None\<rparr>"

definition with_reader_service_secret :: "repository_api_state \<Rightarrow> string \<Rightarrow> repository_api_state" where
  "with_reader_service_secret s secret = s\<lparr>ra_reader_service_secret := Some secret\<rparr>"

text \<open>A started server: its routes, the bus, if any, with the observer it carries, and the lifecycle.\<close>

record started =
  sv_api :: repository_api_state
  sv_bus :: "(bus \<times> watch_observer option) option"
  sv_lifecycle :: lifecycle

definition serve :: "process_env \<Rightarrow> config \<Rightarrow> (process_error, started) io" where
  "serve env c =
     io_bind (lift (if po_telemetry env then Inr () else Inl ProcTelemetry)) (\<lambda>_.
     io_bind connect_database (\<lambda>_.
       lift (
         and_then (if po_binds env (cf_admin c) then Inr () else Inl ProcBind) (\<lambda>_.
         and_then (if po_binds env (cf_api c) then Inr () else Inl ProcBind) (\<lambda>_.
         and_then (provider_gateway env c) (\<lambda>gateway.
           let observer = watch_observer_new c gateway;
               api = repository_api_state_new gateway (case encryption_key c of Inr key \<Rightarrow> Some key | Inl _ \<Rightarrow> None);
               api = (case cf_reader_service_secret c of Some s \<Rightarrow> with_reader_service_secret api s | None \<Rightarrow> api)
           in and_then (connect_bus env c) (\<lambda>bus.
                Inr \<lparr>sv_api = api, sv_bus = map_option (\<lambda>b. (b, observer)) bus,
                     sv_lifecycle = mark_ready lifecycle_starting\<rparr>)))))))"

text \<open>
  How serving ends: which of the four the process waited for ended first, with the results of the others
  where they are awaited; the shutdown bound makes the last case fail when it is exceeded.
\<close>

datatype serve_end =
    AdminEnded "(process_error, unit) result" "(process_error, unit) result" "(process_error, unit) result"
  | ApiEnded "(process_error, unit) result" "(process_error, unit) result" "(process_error, unit) result"
  | BusEnded "(process_error, unit) result"
  | SignalFailed
  | Signalled "((process_error, unit) result \<times> (process_error, unit) result \<times> (process_error, unit) result) option"

definition all_ok :: "(process_error, unit) result \<Rightarrow> (process_error, unit) result \<Rightarrow> (process_error, unit) result \<Rightarrow> (process_error, unit) result" where
  "all_ok a b c = and_then a (\<lambda>_. and_then b (\<lambda>_. c))"

fun serve_listeners :: "serve_end \<Rightarrow> lifecycle \<Rightarrow> (process_error, unit) result \<times> lifecycle" where
  "serve_listeners (AdminEnded admin api bus) l = (all_ok admin api bus, l)"
| "serve_listeners (ApiEnded api admin bus) l = (all_ok api admin bus, l)"
| "serve_listeners (BusEnded bus) l = (bus, l)"
| "serve_listeners SignalFailed l = (Inl ProcServe, l)"
| "serve_listeners (Signalled None) l = (Inl ProcServe, begin_drain l)"
| "serve_listeners (Signalled (Some (admin, api, bus))) l = (all_ok admin api bus, begin_drain l)"

text \<open>What a finished command leaves: the text of its output, or a running server.\<close>

datatype run_result = Printed string | Quiet | Running started

definition settled :: "('a \<Rightarrow> run_result) \<Rightarrow> (process_error, 'a) result \<times> world \<Rightarrow> (process_error, run_result) result option \<times> world" where
  "settled f rw = (Some (and_then (fst rw) (\<lambda>x. Inr (f x))), snd rw)"

definition run :: "process_env \<Rightarrow> world \<Rightarrow> (process_error, run_result) result option \<times> world" where
  "run env w =
     (case and_then (map_error ProcCommand (parse_operator_command (po_arguments env))) (\<lambda>command.
        and_then (map_error ProcConfig (config_load (po_libraries env) (po_vars env))) (\<lambda>c. Inr (command, c))) of
        Inl e \<Rightarrow> (Some (Inl e), w)
      | Inr (command, c) \<Rightarrow>
          (case command of
             CheckConfig \<Rightarrow> (Some (Inr Quiet), w)
           | ReconnectPat account_id \<Rightarrow> settled (\<lambda>_. Quiet) (register_replacement_pat env c account_id w)
           | ImportLegacy source_id path \<Rightarrow> settled Printed (import_legacy env c source_id path w)
           | ShadowLegacy source_id \<Rightarrow>
               (case shadow_legacy env c source_id w of
                  (None, w') \<Rightarrow> (None, w')
                | (Some r, w') \<Rightarrow> settled Printed (r, w'))
           | CutoverReadiness source_id \<Rightarrow> settled Printed (cutover_readiness env source_id w)
           | Serve \<Rightarrow> settled Running (serve env c w)))"

section \<open>The accepted command lines\<close>

fun spellings :: "operator_command \<Rightarrow> string list list" where
  "spellings Serve = [[]]"
| "spellings CheckConfig = [[''check-config'']]"
| "spellings (ReconnectPat a) = [[''reconnect-pat'', a]]"
| "spellings (ImportLegacy s m) =
     [[''import-legacy'', ''--source-id'', s, ''--owner-map'', m], [''import-legacy'', ''--owner-map'', m, ''--source-id'', s]]"
| "spellings (ShadowLegacy s) = [[''shadow-legacy'', ''--source-id'', s]]"
| "spellings (CutoverReadiness s) = [[''cutover-readiness'', ''--source-id'', s]]"

lemma length_four: "length xs = 4 \<longleftrightarrow> (\<exists>a b c d. xs = [a, b, c, d])"
  by (auto simp: numeral_eq_Suc length_Suc_conv)

lemma parse_import_legacy_iff:
  "parse_import_legacy args = Inr c \<longleftrightarrow>
    (\<exists>s m. c = ImportLegacy s m \<and> (args = [''--source-id'', s, ''--owner-map'', m] \<or> args = [''--owner-map'', m, ''--source-id'', s]))"
proof (cases "length args = 4")
  case True
  then obtain f v g u where args: "args = [f, v, g, u]" by (auto simp: length_four)
  show ?thesis
  proof (cases "f = ''--source-id''")
    case True
    show ?thesis by (cases "g = ''--source-id''"; cases "g = ''--owner-map''") (auto simp: args True parse_import_legacy_def)
  next
    case first: False
    show ?thesis
    proof (cases "f = ''--owner-map''")
      case True
      show ?thesis by (cases "g = ''--source-id''"; cases "g = ''--owner-map''") (auto simp: args True parse_import_legacy_def)
    next
      case False
      with first show ?thesis by (auto simp: args parse_import_legacy_def)
    qed
  qed
qed (auto simp: parse_import_legacy_def)

lemma parse_source_id_iff: "parse_source_id args f = Inr c \<longleftrightarrow> (\<exists>s. args = [''--source-id'', s] \<and> c = f s)"
  by (auto simp: parse_source_id_def split: list.splits)

lemma parse_not_secret:
  "parse_import_legacy args \<noteq> Inl SecretBearingArgument" "parse_source_id args f \<noteq> Inl SecretBearingArgument"
proof -
  have "import_pairs args s m \<noteq> Inl SecretBearingArgument" for s m
    by (induction args s m rule: import_pairs.induct) simp_all
  then show "parse_import_legacy args \<noteq> Inl SecretBearingArgument"
    by (auto simp: parse_import_legacy_def and_then_eq_Inl split: option.splits)
  show "parse_source_id args f \<noteq> Inl SecretBearingArgument"
    by (simp add: parse_source_id_def split: list.split)
qed

lemma secret_flags_ex: "list_ex (\<lambda>a. a \<in> set secret_flags) xs \<longleftrightarrow> set xs \<inter> set secret_flags \<noteq> {}"
  by (auto simp: list_ex_iff)

text \<open>
  C21. The command line is understood exactly: the arguments after the program's name are accepted as a
  command if and only if they are one of its documented spellings - the two options of an import in
  either order - and none of the arguments of the command is a flag that would carry a secret; such a
  flag is refused under every command, also an unknown one.
\<close>

theorem command_line_exact:
  "(parse_operator_command (program # args) = Inr c \<longleftrightarrow>
     args \<in> set (spellings c) \<and> set (drop 1 args) \<inter> set secret_flags = {}) \<and>
   (set (drop 1 args) \<inter> set secret_flags \<noteq> {} \<longleftrightarrow> parse_operator_command (program # args) = Inl SecretBearingArgument)"
proof (cases "set (drop 1 args) \<inter> set secret_flags = {}")
  case False
  then show ?thesis by (simp add: parse_operator_command_def secret_flags_ex Let_def)
next
  case clean: True
  show ?thesis
  proof (cases args)
    case Nil
    then show ?thesis by (cases c) (auto simp: parse_operator_command_def)
  next
    case (Cons command rest)
    have no_secret: "\<not> list_ex (\<lambda>a. a \<in> set secret_flags) rest" using clean Cons by (simp add: secret_flags_ex)
    let ?parsed = "if command = ''check-config'' \<and> rest = [] then Inr CheckConfig
      else if command = ''reconnect-pat'' \<and> length rest = 1 then Inr (ReconnectPat (hd rest))
      else if command = ''import-legacy'' then parse_import_legacy rest
      else if command = ''shadow-legacy'' then parse_source_id rest ShadowLegacy
      else if command = ''cutover-readiness'' then parse_source_id rest CutoverReadiness
      else if command \<in> {''check-config'', ''reconnect-pat''} then Inl InvalidArguments
      else Inl UnknownCommand"
    have parsed: "parse_operator_command (program # args) = ?parsed"
      using no_secret by (simp add: parse_operator_command_def Cons Let_def)
    have "?parsed = Inr c \<longleftrightarrow> command # rest \<in> set (spellings c)"
    proof (cases c)
      case (ReconnectPat a)
      then show ?thesis by (auto simp: parse_import_legacy_iff parse_source_id_iff length_Suc_conv)
    qed (auto simp: parse_import_legacy_iff parse_source_id_iff)
    moreover have "?parsed \<noteq> Inl SecretBearingArgument"
      by (simp add: parse_not_secret)
    ultimately show ?thesis using clean parsed Cons by auto
  qed
qed

section \<open>Reconnected accounts\<close>

lemma lift_InrD: "lift r w = (Inr x, w') \<Longrightarrow> r = Inr x \<and> w' = w"
  by (simp add: lift_def)

lemma map_error_Inr: "map_error f r = Inr x \<longleftrightarrow> r = Inr x"
  by (cases r) (simp_all add: map_error_def)

lemma query_calls: "query f w = (r, w') \<Longrightarrow> w_calls w' = w_calls w"
  by (auto simp: query_def transact_def transact_with_def Let_def split: list.splits bool.splits)

lemma authenticate_pat_InrD:
  assumes "ans_result (authenticate_pat client k pat) = Inr user"
  obtains r where "ans_result (hc_send client k (user_request client pat)) = Inr r" "hs_status r = 200"
    "0 < au_provider_user_id user" "au_login user \<noteq> []"
    "au_granted_scopes user = scopes_of_header (header_text r ''x-oauth-scopes'')"
proof -
  from assms obtain r where r: "ans_result (hc_send client k (user_request client pat)) = Inr r"
      "and_then (classified client user_of_json r) (\<lambda>(provider_user_id, login).
         if provider_user_id \<le> 0 \<or> login = [] then Inl (UnexpectedStatus 200)
         else Inr \<lparr>au_provider_user_id = provider_user_id, au_login = login,
                   au_granted_scopes = scopes_of_header (header_text r ''x-oauth-scopes'')\<rparr>) = Inr user"
    unfolding authenticate_pat_def by (rule exchange_InrD)
  then show ?thesis using that [OF r(1)]
    by (auto simp: and_then_eq_Inr split: if_splits dest: classified_InrD)
qed

text \<open>
  C20. An account is reconnected only with a verified token: when the operator's command to replace a token
  returns, the provider has answered a request authenticated by the very token read from standard input
  with status 200, and the account the operator named is connected with exactly the scopes of that
  answer; the encryption key was configured and complete.
\<close>

theorem reconnected_account_is_verified:
  assumes "register_replacement_pat env c account_id w = (Inr (), w')"
  shows "\<exists>account key pat client r.
    po_uuid_parse env account_id = Some account \<and> encryption_key c = Inr key \<and> read_replacement_pat env = Inr pat \<and>
    provider_gateway env c = Inr client \<and>
    ans_result (hc_send client (w_calls w) (user_request client pat)) = Inr r \<and> hs_status r = 200 \<and>
    (\<exists>a\<in>set (accounts (w_db w')). acct_id a = account \<and> acct_status a = Connected \<and>
       acct_scopes a = scopes_of_header (header_text r ''x-oauth-scopes''))"
proof -
  obtain account key pat client answer user w2 w3 w4 where
      input: "po_uuid_parse env account_id = Some account" "encryption_key c = Inr key" "read_replacement_pat env = Inr pat"
      and client: "provider_gateway env c = Inr client"
      and 1: "connect_database w = (Inr (), w2)"
      and 2: "call (\<lambda>k. authenticate_pat client k pat) w2 = (Inr answer :: (process_error, _) result, w3)" and "answer = Inr user"
      and 3: "register_pat (po_cipher env) (po_nonce env) account pat key
         \<lparr>va_provider_user_id = au_provider_user_id user, va_login = au_login user,
          va_granted_scopes = au_granted_scopes user\<rparr> w4 = (Inr (), w')"
    using assms unfolding register_replacement_pat_def
    by (auto elim!: io_bind_InrE dest!: lift_InrD io_map_err_InrD simp: and_then_eq_Inr ok_or_eq_Inr map_error_Inr)
  have "w_calls w2 = w_calls w" using 1 by (auto simp: connect_database_def dest!: query_calls io_map_err_InrD elim!: io_bind_InrE)
  with 2 \<open>answer = Inr user\<close> have "ans_result (authenticate_pat client (w_calls w) pat) = Inr user"
    by (auto simp: call_def provider_call_def Let_def)
  then obtain r where r: "ans_result (hc_send client (w_calls w) (user_request client pat)) = Inr r" "hs_status r = 200"
      "au_granted_scopes user = scopes_of_header (header_text r ''x-oauth-scopes'')"
    by (rule authenticate_pat_InrD)
  have "\<exists>a\<in>set (accounts (w_db w')). acct_id a = account \<and> acct_status a = Connected \<and> acct_scopes a = au_granted_scopes user"
    using 3 unfolding register_pat_def by (auto elim!: register_credential_InrE dest!: register_credential_tx_Inr(2))
  with input client r show ?thesis by (metis (no_types, lifting))
qed

section \<open>A ready server\<close>

text \<open>
  The server reports ready only with a database that answered, both listeners bound and, when one is
  configured, a bus whose three durables are exactly as provisioned, and which carries the observer unless its interval is zero; the README route has exactly
  the configured secret.
\<close>

theorem ready_server_has_everything:
  assumes "serve env c w = (Inr s, w')"
  shows "is_ready (sv_lifecycle s) \<and> po_binds env (cf_admin c) \<and> po_binds env (cf_api c) \<and>
    (sv_bus s = None \<longleftrightarrow> cf_bus_url c = None) \<and>
    (\<forall>b observer. sv_bus s = Some (b, observer) \<longrightarrow>
      provisioned analysis_completed_durable (bn_completed b) \<and> provisioned analysis_failed_durable (bn_failed b) \<and>
      provisioned policy_acknowledged_durable (bn_acknowledged b) \<and>
      (observer = None \<longleftrightarrow> cf_observe_interval_seconds c = 0)) \<and>
    ra_reader_service_secret (sv_api s) = cf_reader_service_secret c"
  using assms unfolding serve_def connect_bus_def
  by (auto elim!: io_bind_InrE dest!: lift_InrD simp: and_then_eq_Inr map_error_Inr mark_ready_def is_ready_def
      lifecycle_starting_def watch_observer_new_def repository_api_state_new_def with_reader_service_secret_def Let_def
      split: if_splits option.splits dest!: connected_bus_is_verified)

section \<open>One replacement\<close>

definition user_server :: http_client where
  "user_server = server 200 [(''x-oauth-scopes'', ''repo, user'')] (JObj [(''login'', JStr ''u''), (''id'', JNum 9)])"

definition replacement_env :: process_env where
  "replacement_env =
     \<lparr>po_libraries = sample_libraries, po_vars = [], po_arguments = [''catalog'', ''reconnect-pat'', ''seven''],
      po_client = Inr user_server, po_cipher = sample_cipher, po_nonce = ''123456789012'', po_cast = (\<lambda>_. None),
      po_uuid_parse = (\<lambda>s. if s = ''seven'' then Some 7 else None), po_uuid_text = (\<lambda>_. []), po_stdin = Some (''ghp'' @ newline),
      po_file = (\<lambda>_. None), po_owner_entries = (\<lambda>_. None), po_tenant = (\<lambda>_. True), po_source = (\<lambda>_. None),
      po_report_text = (\<lambda>_. None), po_report_value = (\<lambda>_. None), po_sha256 = (\<lambda>_. []), po_rounds = 0,
      po_output = (\<lambda>_. True), po_binds = (\<lambda>_. True), po_telemetry = True, po_broker = \<lparr>bk_accepts = (\<lambda>_ _. True), bk_consumer = (\<lambda>_ _. None)\<rparr>\<rparr>"

definition keyed_config :: config where
  "keyed_config = config_default\<lparr>cf_encryption_key_hex := Some (replicate 64 (CHR ''0'')), cf_key_version := Some ''k1''\<rparr>"

definition replaced where "replaced = register_replacement_pat replacement_env keyed_config ''seven'' awaiting_world"

theorem reconnected_account_is_verified_witness:
  "fst replaced = Inr () \<and> (\<exists>a\<in>set (accounts (w_db (snd replaced))). acct_id a = 7 \<and> acct_status a = Connected \<and>
     acct_scopes a = [''repo'', ''user''])"
proof
  show "fst replaced = Inr ()" by code_simp
  then have "register_replacement_pat replacement_env keyed_config ''seven'' awaiting_world = (Inr (), snd replaced)"
    unfolding replaced_def by (metis prod.collapse)
  from reconnected_account_is_verified [OF this] obtain r q where
    "\<exists>a\<in>set (accounts (w_db (snd replaced))). acct_id a = 7 \<and> acct_status a = Connected \<and>
       acct_scopes a = scopes_of_header (header_text r ''x-oauth-scopes'')" "ans_result (hc_send user_server (w_calls awaiting_world) q) = Inr r"
    by (auto simp: replacement_env_def provider_gateway_def)
  moreover have "scopes_of_header (Some ''repo, user'') = [''repo'', ''user'']"
      "header_text \<lparr>hs_status = 200, hs_headers = [(''x-oauth-scopes'', ''repo, user'')], hs_announced = None, hs_body = Inr []\<rparr>
        ''x-oauth-scopes'' = Some ''repo, user''"
    by code_simp+
  ultimately show "\<exists>a\<in>set (accounts (w_db (snd replaced))). acct_id a = 7 \<and> acct_status a = Connected \<and> acct_scopes a = [''repo'', ''user'']"
    by (auto simp: user_server_def server_def)
qed

theorem ready_server_has_everything_witness:
  "\<exists>s w'. serve replacement_env config_default awaiting_world = (Inr s, w') \<and> is_ready (sv_lifecycle s)"
proof -
  obtain s w' where "serve replacement_env config_default awaiting_world = (Inr s, w')"
    by (simp add: serve_def lift_def io_bind_def connect_database_def io_map_err_def query_no_fault awaiting_world_def
        replacement_env_def provider_gateway_def connect_bus_def config_default_def Let_def)
  then show ?thesis using ready_server_has_everything by blast
qed

end
