(* ===== verification/Spec2Isabelle.thy ===== *)
theory Spec2Isabelle
  imports Commands Modes Observe Erasure_Safety Legacy_Safety Relay_Safety Bus Routes Operator
begin

text \<open>
  \<^bold>\<open>The GitHub catalog of Ratatoskr.\<close>

  The program (\<open>crates/catalog\<close>, \<open>services/catalog\<close>) keeps a PostgreSQL schema of what a user has
  starred or tracked on GitHub, converges it with the provider by scans, writes back on explicit
  request, and talks to two other services through a transactional outbox and an inbox. This
  development models the catalog's operations as functions on the schema and states what makes them
  correct.

  \<^bold>\<open>Layers.\<close>
  \<^item> \<open>Prelude\<close>: error results (\<open>and_then\<close>, \<open>ok_or\<close>), machine integers as bounded \<open>int\<close>, JSON values,
    and the white space \<open>trim\<close> removes from the bytes of a text.
  \<^item> \<open>Tables\<close>: a table is a list of rows; \<open>upsert\<close>, \<open>insert_ignore\<close>, \<open>update_where\<close>,
    \<open>delete_where\<close> are the statements the code uses. The locale \<open>keyed_table\<close> is the contract of
    \<open>INSERT ... ON CONFLICT DO UPDATE\<close>; it is interpreted on the merge of every table.
  \<^item> \<open>Grammar\<close>: the regular expressions of the check constraints, their languages and a matcher.
  \<^item> \<open>Catalog\<close>: one record per table of \<open>schema.sql\<close>, and the record \<open>catalog\<close> of all tables with the
    database clock and a source of fresh identifiers.
  \<^item> \<open>Process\<close>: the record \<open>world\<close> around the database (rate-limit ledger, process clock, script of
    lost connections, provider call count), \<open>transact_with\<close>, sequencing of fallible operations, and
    the locale \<open>timed_relation\<close>: a relation every committed transaction keeps is kept by the whole
    operation, on every outcome. Its interpretations are the frames of the components.

  \<^bold>\<open>Components\<close> (theory, source file, what is shown):
  \<^item> \<open>Identity\<close> (\<open>identity.rs\<close>): aliases and stable identities; alias evidence fails exactly on a live
    conflict and otherwise the observed value resolves to the repository.
  \<^item> \<open>Rate_Limit\<close> (\<open>rate_limit.rs\<close>): the shared budget; grants until the reset are bounded by the
    allowance above the reserve floor.
  \<^item> \<open>Provider\<close> (\<open>provider.rs\<close>): data of the provider seam; the provider is any function of the call
    number.
  \<^item> \<open>Snapshot\<close>, \<open>Snapshot_Authority\<close>, \<open>Snapshot_Frame\<close>, \<open>Snapshot_Run\<close>, \<open>Snapshot_Resume\<close>
    (\<open>snapshot.rs\<close>): the full star scan; its authority swap, that nothing changes unless it completes,
    and that interrupted and resumed runs end with exactly the provider's listing.
  \<^item> \<open>Incremental\<close> (\<open>incremental.rs\<close>): the bounded scan; a fresh one covers what is newer than the
    watermark, and none removes a star except through the full snapshot an account without a watermark gets.
  \<^item> \<open>Star_Lists\<close>, \<open>Star_Lists_Authority\<close> (\<open>star_lists.rs\<close>): native lists and memberships.
  \<^item> \<open>Backup_Policy\<close> (\<open>backup_policy.rs\<close>, \<open>envelopes.rs\<close>): debounce, versioned publication,
    acknowledgments.
  \<^item> \<open>Modes\<close> (\<open>modes.rs\<close>): the enforcement matrix of explicit modes.
  \<^item> \<open>Mutation_Trail\<close>, \<open>Mutations\<close>, \<open>Mutation_Safety\<close> (\<open>mutation_trail.rs\<close>, \<open>mutations.rs\<close>,
    \<open>list_mutations.rs\<close>): authorized writes; success is reported only after confirmation, every
    attempt is audited once, blocked requests contact nobody.
  \<^item> \<open>Scan_Frame\<close>, \<open>Commands\<close> (\<open>commands.rs\<close>): the synchronization command over the three scans; it
    works at most once per command.
  \<^item> \<open>Watches\<close>, \<open>Watch_Safety\<close> (\<open>watches.rs\<close>, \<open>envelopes.rs\<close>): watches, paced analysis requests,
    dispatch and terminal facts; the step relation \<open>watch_step\<close> carries the invariant of the request
    table through every history.
  \<^item> \<open>Metadata\<close>, \<open>Metadata_History\<close> (\<open>metadata.rs\<close>): content-addressed projection with a bounded
    history; hexadecimal digests.
  \<^item> \<open>Observe\<close> (\<open>observe.rs\<close>, \<open>services/catalog/src/observer.rs\<close>): conditional observation, which
    composes identity, metadata and watches; the observer's pass over a batch.
  \<^item> \<open>Credentials\<close> (\<open>credentials.rs\<close>): the vault of encrypted tokens; what is registered is loaded back.
  \<^item> \<open>Erasure\<close>, \<open>Erasure_Safety\<close> (\<open>account_erasure.rs\<close>, \<open>account_erasure_state.rs\<close>): erasure of an
    owner: it succeeds exactly when no row of another owner references a row of the erased one, is then exact and
    leaves no dangling reference, and is answered once per operation.
  \<^item> \<open>Legacy\<close>, \<open>Legacy_Safety\<close> (\<open>legacy.rs\<close>, \<open>legacy/source.rs\<close>, \<open>legacy/shadow.rs\<close>): the import from
    the retired database, idempotent and atomic, and the shadow report that gates the cutover, compared with what its fields document.
  \<^item> \<open>Relay\<close>, \<open>Relay_Safety\<close> (\<open>services/catalog/src/relay.rs\<close>, \<open>lib.rs\<close>): the outbox relay and the lifecycle
    it reports to. The abstract specification is a queue whose messages are added, acknowledged while
    they wait, and settled only after that; the relay refines it on every run, and its loop publishes the
    whole backlog when broker and catalog serve it and nothing new is due.
  \<^item> \<open>Bus\<close> (\<open>services/catalog/src/bus.rs\<close>): connecting, the consumers and their settlement; the locale
    \<open>inbox_consumer\<close>, interpreted on all three, shows that an event takes effect once.
  \<^item> \<open>Actions\<close>, \<open>Actions_Safety\<close> (\<open>services/catalog/src/repository_api.rs\<close>,
    \<open>repository_action_attempts.rs\<close>): a confirmed action, claimed by its key, bound to the provider's
    answer, composed of the operations above and replayed from its completed record.
  \<^item> \<open>Routes\<close> (\<open>repository_api.rs\<close>, \<open>readme_blobs.rs\<close>): the preview, whose answer makes a valid and bindable action, and the README bytes.
  \<^item> \<open>Http_Client\<close>, \<open>Http_Safety\<close> (\<open>provider.rs\<close> with \<open>provider/\<close>, \<open>provider_mutations.rs\<close>): the client that
    implements the seams above - requests, status classes, the derived decoders, rate accounting,
    grants. A star reported through it was confirmed on the wire; a
    throttling reply loses its headers; move locations and listings are read back as they are spelled.
  \<^item> \<open>Configuration\<close> (\<open>config.rs\<close>): the rule of every key and the rules across keys, with the address
    parsers of the standard library; what an accepted configuration guarantees, and that a refusal
    names a key and a rule and no value.
  \<^item> \<open>Operator\<close> (\<open>services/catalog/src/main.rs\<close>, \<open>lib.rs\<close>): the command line, the commands over the
    operations above, and the start of the server.

  \<^bold>\<open>Conventions.\<close> Texts are lists of 8-bit characters; timestamps are microseconds as \<open>int\<close>; a 64-bit
  integer is an \<open>int\<close> with its bounds written where the code converts. An operation of several
  transactions is a function on \<open>world\<close>; the environment may lose the connection before any commit
  (\<open>w_faults\<close>) and answers calls as it likes. Loops of unknown length take a number of rounds
  (\<open>run_loop\<close>) and return \<open>None\<close> when it is used up; safety theorems hold for every number, and
  \<open>undisturbed_snapshot_completes\<close> gives a number that suffices: one round per page and one for the
  empty page. The relay's loop takes the list of pauses before its passes. The contract crates, \<open>serde_json\<close> and SHA-256 are records of functions.

  \<^bold>\<open>Not modelled.\<close> The libraries the program calls: sending a request, JSON text, URL and connection-string
  parsing, RFC 3339 and the broker are parameters; authenticated encryption is a function with its
  round-trip law. The routing tables of the HTTP framework, the metrics and version texts, sockets,
  signals, timers (the observer's periodic loop is represented by its pass), the log subscriber, the
  driver's connection pool and the application of the schema to an empty database are left out, as they
  decide nothing the theorems speak of. The redacting formatters print constants.
\<close>

end
